(* ===== verification/Prelude.thy ===== *)
theory Prelude
  imports Complex_Main "HOL-Library.Word" "HOL-Library.AList" "HOL-Library.List_Lexorder"
    "HOL-Library.Char_ord"
begin

unbundle bit_operations_syntax

text \<open>
  What every component of the model shares: the values of the Python language the code is written
  in (bytes, strings, clock readings), the exceptions it raises as values of a sum type, and
  insertion-ordered dictionaries as association lists.
  A Python function that may raise is a HOL function into \<open>exn + 'a\<close>, with \<open>Inl\<close> for the exception.
  A Python \<open>str\<close> is a HOL \<open>string\<close>: a list of code points below 256.
  A \<open>float\<close> (clock readings and lifetimes) is a rational: every finite double is one. Rounding in
  \<open>now + ttl\<close> is not modelled.
\<close>

section \<open>Values\<close>

type_synonym byte = "8 word"
type_synonym bytes = "8 word list"
type_synonym time = rat

datatype exn =
    ValueError
  | KeyError
  | TypeError
  | AttributeError
  | IndexError
  | EpochError string
  | LedgerError string

type_synonym 'a res = "exn + 'a"

named_theorems component_defs \<open>definitions that a component's proofs unfold\<close>
named_theorems dict_simps \<open>equations for lookups in insertion-ordered dictionaries\<close>

section \<open>Results\<close>

definition is_ok :: "'e + 'a \<Rightarrow> bool" where
  "is_ok r = (case r of Inl _ \<Rightarrow> False | Inr _ \<Rightarrow> True)"

lemma is_ok_simps [simp]: "\<not> is_ok (Inl e)" "is_ok (Inr a)"
  by (simp_all add: is_ok_def)

lemma is_ok_iff: "is_ok r \<longleftrightarrow> (\<exists>a. r = Inr a)"
  by (cases r) auto

section \<open>Dictionaries\<close>

text \<open>
  A \<open>dict\<close> keeps its insertion order; assigning to a present key keeps the position and replaces
  the value, which is what \<open>AList.update\<close> does.
\<close>

type_synonym ('k, 'v) dict = "('k \<times> 'v) list"

abbreviation dict_get :: "('k, 'v) dict \<Rightarrow> 'k \<Rightarrow> 'v option" where
  "dict_get d k \<equiv> map_of d k"

abbreviation dict_set :: "'k \<Rightarrow> 'v \<Rightarrow> ('k, 'v) dict \<Rightarrow> ('k, 'v) dict" where
  "dict_set k v d \<equiv> AList.update k v d"

abbreviation dict_keys :: "('k, 'v) dict \<Rightarrow> 'k list" where
  "dict_keys d \<equiv> map fst d"

abbreviation dict_ok :: "('k, 'v) dict \<Rightarrow> bool" where
  "dict_ok d \<equiv> distinct (map fst d)"

lemma dict_get_set [dict_simps]:
  "dict_get (dict_set k v d) k' = (if k' = k then Some v else dict_get d k')"
  by (simp add: update_conv')

lemma dict_get_set_other [dict_simps]: "k' \<noteq> k \<Longrightarrow> dict_get (dict_set k v d) k' = dict_get d k'"
  by (simp add: update_conv')

lemma dict_ok_set [simp, intro]: "dict_ok d \<Longrightarrow> dict_ok (dict_set k v d)"
  by (rule distinct_update)

lemma dict_keys_set: "set (dict_keys (dict_set k v d)) = insert k (set (dict_keys d))"
  by (induction d) auto

definition dict_dom :: "('k, 'v) dict \<Rightarrow> 'k set" where
  "dict_dom d = dom (map_of d)"

lemma dict_dom_iff: "k \<in> dict_dom d \<longleftrightarrow> dict_get d k \<noteq> None"
  by (simp add: dict_dom_def domIff)

lemma dict_dom_simps [simp]:
  "dict_dom [] = {}" "dict_dom ((k, v) # d) = insert k (dict_dom d)" "dict_dom (dict_set k v d) = insert k (dict_dom d)"
  by (auto simp: dict_dom_def update_conv' domIff)

lemma dict_dom_keys: "dict_dom d = set (dict_keys d)"
  by (simp add: dict_dom_def dom_map_of_conv_image_fst)

lemma dict_dom_empty_iff: "dict_dom d = {} \<longleftrightarrow> d = []"
  by (simp add: dict_dom_keys)

lemma dict_get_None_iff: "dict_get d k = None \<longleftrightarrow> k \<notin> set (dict_keys d)"
  by (simp add: map_of_eq_None_iff)

lemma dict_get_SomeD: "dict_get d k = Some v \<Longrightarrow> (k, v) \<in> set d"
  by (rule map_of_SomeD)

lemma dict_get_in: "dict_ok d \<Longrightarrow> (k, v) \<in> set d \<Longrightarrow> dict_get d k = Some v"
  by simp

lemma dict_get_filter:
  assumes "dict_ok d"
  shows "dict_get (filter (\<lambda>(k, v). P k v) d) k =
    (case dict_get d k of None \<Rightarrow> None | Some v \<Rightarrow> if P k v then Some v else None)"
  using assms
proof (induction d)
  case Nil
  then show ?case by simp
next
  case (Cons p d)
  then show ?case
    by (cases p) (auto split: option.splits simp: map_of_eq_None_iff dest: map_of_SomeD)
qed

lemma dict_ok_filter [simp, intro]: "dict_ok d \<Longrightarrow> dict_ok (filter P d)"
  by (rule distinct_map_filter)

end
