(* ===== verification/Logger.thy ===== *)
theory Logger
  imports Prelude
begin

text \<open>
  common/logger.py: the console lines of the demo. The module's switch and what was printed so far are
  the state; \<open>now\<close> is the text of the clock, which \<open>strftime\<close> formats. The call that turns colours on
  in a Windows terminal and the self test are left out. Lemmas: what a call writes, that the four levels
  never raise, and what \<open>short\<close> keeps of a text.
\<close>

definition escape :: char where "escape = CHR 0x1B"

definition colours :: "(string, string) dict" where
  "colours =
     [(''reset'', escape # ''[0m''), (''dim'', escape # ''[2m''), (''bold'', escape # ''[1m''), (''red'', escape # ''[91m''),
      (''green'', escape # ''[92m''), (''yellow'', escape # ''[93m''), (''blue'', escape # ''[94m''), (''cyan'', escape # ''[96m''),
      (''magenta'', escape # ''[95m'')]"

record console =
  cs_quiet :: bool
  cs_printed :: "string list"

definition set_quiet :: "bool \<Rightarrow> console \<Rightarrow> console" where
  "set_quiet quiet con = con\<lparr>cs_quiet := quiet\<rparr>"

definition print_text :: "string \<Rightarrow> console \<Rightarrow> console" where
  "print_text s con = con\<lparr>cs_printed := cs_printed con @ [s @ [CHR 0x0A]]\<rparr>"

text \<open>\<open>_c\<close>\<close>

definition coloured :: "string \<Rightarrow> string \<Rightarrow> string res" where
  "coloured name s =
     (case (dict_get colours name, dict_get colours ''reset'') of
        (Some on, Some off) \<Rightarrow> Inr (on @ s @ off)
      | _ \<Rightarrow> Inl KeyError)"

definition ljust :: "nat \<Rightarrow> string \<Rightarrow> string" where
  "ljust n s = s @ replicate (n - length s) (CHR '' '')"

definition emit :: "string \<Rightarrow> string \<Rightarrow> string \<Rightarrow> string \<Rightarrow> string \<Rightarrow> console \<Rightarrow> unit res \<times> console" where
  "emit now tag colour source msg con =
     (if cs_quiet con then (Inr (), con)
      else case coloured ''dim'' now of
        Inl e \<Rightarrow> (Inl e, con)
      | Inr a \<Rightarrow>
          (case coloured colour (ljust 6 tag) of
             Inl e \<Rightarrow> (Inl e, con)
           | Inr b \<Rightarrow>
               (case coloured ''bold'' (ljust 10 source) of
                  Inl e \<Rightarrow> (Inl e, con)
                | Inr c \<Rightarrow> (Inr (), print_text (a @ '' '' @ b @ '' '' @ c @ '' '' @ msg) con))))"

definition log_info :: "string \<Rightarrow> string \<Rightarrow> string \<Rightarrow> console \<Rightarrow> unit res \<times> console" where
  "log_info now source msg = emit now ''INFO'' ''blue'' source msg"

definition log_ok :: "string \<Rightarrow> string \<Rightarrow> string \<Rightarrow> console \<Rightarrow> unit res \<times> console" where
  "log_ok now source msg = emit now ''OK'' ''green'' source msg"

definition log_fail :: "string \<Rightarrow> string \<Rightarrow> string \<Rightarrow> console \<Rightarrow> unit res \<times> console" where
  "log_fail now source msg = emit now ''FAIL'' ''red'' source msg"

definition log_warn :: "string \<Rightarrow> string \<Rightarrow> string \<Rightarrow> console \<Rightarrow> unit res \<times> console" where
  "log_warn now source msg = emit now ''WARN'' ''yellow'' source msg"

definition log_step :: "string \<Rightarrow> console \<Rightarrow> unit res \<times> console" where
  "log_step title con =
     (let line = replicate 70 (CHR ''='')
      in case coloured ''cyan'' line of
           Inl e \<Rightarrow> (Inl e, con)
         | Inr a \<Rightarrow>
             (case coloured ''cyan'' (''  '' @ title) of
                Inl e \<Rightarrow> (Inl e, con)
              | Inr b \<Rightarrow> (Inr (), print_text ([CHR 0x0A] @ a @ [CHR 0x0A] @ b @ [CHR 0x0A] @ a) con)))"

definition short :: "nat \<Rightarrow> string \<Rightarrow> string" where
  "short n h = (if length h \<le> 2 * n then h else take n h @ ''...'' @ drop (length h - 4) h)"

section \<open>What is written\<close>

lemma coloured_ok: "dict_get colours name = Some on \<Longrightarrow> coloured name s = Inr (on @ s @ escape # ''[0m'')"
  by (simp add: coloured_def colours_def)

text \<open>Each level writes one line, or nothing when the module is quiet; none raises.\<close>

lemma emit_writes:
  assumes "dict_get colours colour = Some on"
  shows "emit now tag colour source msg con =
    (Inr (), if cs_quiet con then con
       else print_text ((escape # ''[2m'') @ now @ (escape # ''[0m'') @ '' '' @ on @ ljust 6 tag @ (escape # ''[0m'') @ '' '' @
         (escape # ''[1m'') @ ljust 10 source @ (escape # ''[0m'') @ '' '' @ msg) con)"
proof -
  have "dict_get colours ''dim'' = Some (escape # ''[2m'')" "dict_get colours ''bold'' = Some (escape # ''[1m'')"
    by (simp_all add: colours_def)
  with assms show ?thesis by (simp add: emit_def coloured_ok)
qed

lemma levels_write:
  "\<exists>con'. log_info now source msg con = (Inr (), con')" "\<exists>con'. log_ok now source msg con = (Inr (), con')"
  "\<exists>con'. log_fail now source msg con = (Inr (), con')" "\<exists>con'. log_warn now source msg con = (Inr (), con')"
  "\<exists>con'. log_step title con = (Inr (), con')"
proof -
  have c: "dict_get colours ''blue'' = Some (escape # ''[94m'')" "dict_get colours ''green'' = Some (escape # ''[92m'')"
    "dict_get colours ''red'' = Some (escape # ''[91m'')" "dict_get colours ''yellow'' = Some (escape # ''[93m'')"
    "dict_get colours ''cyan'' = Some (escape # ''[96m'')"
    by (simp_all add: colours_def)
  show "\<exists>con'. log_info now source msg con = (Inr (), con')" "\<exists>con'. log_ok now source msg con = (Inr (), con')"
    "\<exists>con'. log_fail now source msg con = (Inr (), con')" "\<exists>con'. log_warn now source msg con = (Inr (), con')"
    by (simp_all add: log_info_def log_ok_def log_fail_def log_warn_def emit_writes [OF c(1)] emit_writes [OF c(2)]
        emit_writes [OF c(3)] emit_writes [OF c(4)])
  show "\<exists>con'. log_step title con = (Inr (), con')" by (simp add: log_step_def coloured_ok [OF c(5)] Let_def)
qed

lemma quiet_silences:
  assumes "cs_quiet con"
  shows "log_info now source msg con = (Inr (), con)" "log_ok now source msg con = (Inr (), con)"
    "log_fail now source msg con = (Inr (), con)" "log_warn now source msg con = (Inr (), con)"
  using assms by (simp_all add: log_info_def log_ok_def log_fail_def log_warn_def emit_def)

text \<open>A text is cut exactly when it is longer than \<open>2 n\<close>; what is left is shorter only past \<open>n + 7\<close> characters.\<close>

lemma length_short: "length (short n h) = (if length h \<le> 2 * n then length h else n + 3 + min 4 (length h))"
  by (simp add: short_def min_def)

lemma short_shorter: "2 * n < length h \<Longrightarrow> length (short n h) < length h \<longleftrightarrow> n + 7 < length h"
  by (auto simp: length_short min_def)

end
