(* ===== verification/Sha256.thy ===== *)
theory Sha256
  imports Prelude
begin

text \<open>
  SHA-256 as FIPS 180-4 defines it, on 32-bit words: what \<open>hashlib.sha256(data).digest()\<close> of the
  Python standard library computes, which is \<open>sha256\<close> of common/canonical.py. Executable; the test
  vector of the standard at the end is evaluated by the kernel.
  Collision resistance is no theorem (SHA-256 has collisions by counting), so theorems that rely on
  it conclude with a concrete pair of distinct inputs with the same digest: \<open>collides\<close>.
\<close>

type_synonym u32 = "32 word"
type_synonym hash_state = "u32 \<times> u32 \<times> u32 \<times> u32 \<times> u32 \<times> u32 \<times> u32 \<times> u32"

text \<open>
  The constants in decimal: the first 32 bits of the fractional parts of the cube roots of the first
  64 primes, and of the square roots of the first eight.
\<close>

definition round_constants :: "u32 list" where
  "round_constants =
    [1116352408, 1899447441, 3049323471, 3921009573, 961987163, 1508970993, 2453635748, 2870763221,
     3624381080, 310598401, 607225278, 1426881987, 1925078388, 2162078206, 2614888103, 3248222580,
     3835390401, 4022224774, 264347078, 604807628, 770255983, 1249150122, 1555081692, 1996064986,
     2554220882, 2821834349, 2952996808, 3210313671, 3336571891, 3584528711, 113926993, 338241895,
     666307205, 773529912, 1294757372, 1396182291, 1695183700, 1986661051, 2177026350, 2456956037,
     2730485921, 2820302411, 3259730800, 3345764771, 3516065817, 3600352804, 4094571909, 275423344,
     430227734, 506948616, 659060556, 883997877, 958139571, 1322822218, 1537002063, 1747873779,
     1955562222, 2024104815, 2227730452, 2361852424, 2428436474, 2756734187, 3204031479, 3329325298]"

definition initial_state :: hash_state where
  "initial_state =
    (1779033703, 3144134277, 1013904242, 2773480762, 1359893119, 2600822924, 528734635, 1541459225)"

definition big_sigma0 :: "u32 \<Rightarrow> u32" where
  "big_sigma0 x = word_rotr 2 x XOR word_rotr 13 x XOR word_rotr 22 x"

definition big_sigma1 :: "u32 \<Rightarrow> u32" where
  "big_sigma1 x = word_rotr 6 x XOR word_rotr 11 x XOR word_rotr 25 x"

definition small_sigma0 :: "u32 \<Rightarrow> u32" where
  "small_sigma0 x = word_rotr 7 x XOR word_rotr 18 x XOR drop_bit 3 x"

definition small_sigma1 :: "u32 \<Rightarrow> u32" where
  "small_sigma1 x = word_rotr 17 x XOR word_rotr 19 x XOR drop_bit 10 x"

definition choose_bits :: "u32 \<Rightarrow> u32 \<Rightarrow> u32 \<Rightarrow> u32" where
  "choose_bits e f g = (e AND f) XOR (NOT e AND g)"

definition majority_bits :: "u32 \<Rightarrow> u32 \<Rightarrow> u32 \<Rightarrow> u32" where
  "majority_bits a b c = (a AND b) XOR (a AND c) XOR (b AND c)"

text \<open>The message schedule, latest word first: \<open>ws ! k\<close> is \<open>W[t - 1 - k]\<close>.\<close>

fun extend_schedule :: "nat \<Rightarrow> u32 list \<Rightarrow> u32 list" where
  "extend_schedule 0 ws = ws"
| "extend_schedule (Suc n) ws =
     extend_schedule n ((small_sigma1 (ws ! 1) + ws ! 6 + small_sigma0 (ws ! 14) + ws ! 15) # ws)"

fun hash_round :: "u32 \<times> u32 \<Rightarrow> hash_state \<Rightarrow> hash_state" where
  "hash_round (k, w) (a, b, c, d, e, f, g, h) =
     (let t1 = h + big_sigma1 e + choose_bits e f g + k + w;
          t2 = big_sigma0 a + majority_bits a b c
      in (t1 + t2, a, b, c, d + t1, e, f, g))"

fun add_state :: "hash_state \<Rightarrow> hash_state \<Rightarrow> hash_state" where
  "add_state (a, b, c, d, e, f, g, h) (a', b', c', d', e', f', g', h') =
     (a + a', b + b', c + c', d + d', e + e', f + f', g + g', h + h')"

fun chunks :: "nat \<Rightarrow> nat \<Rightarrow> 'a list \<Rightarrow> 'a list list" where
  "chunks 0 k xs = []"
| "chunks (Suc n) k xs = take k xs # chunks n k (drop k xs)"

definition be_word :: "bytes \<Rightarrow> u32" where
  "be_word bs = foldl (\<lambda>a b. push_bit 8 a OR ucast b) 0 bs"

definition word_bytes :: "u32 \<Rightarrow> bytes" where
  "word_bytes w = [ucast (drop_bit 24 w), ucast (drop_bit 16 w), ucast (drop_bit 8 w), ucast w]"

definition message_schedule :: "bytes \<Rightarrow> u32 list" where
  "message_schedule block = rev (extend_schedule 48 (rev (map be_word (chunks 16 4 block))))"

definition compress :: "hash_state \<Rightarrow> bytes \<Rightarrow> hash_state" where
  "compress s block = add_state s (fold hash_round (zip round_constants (message_schedule block)) s)"

text \<open>One bit, zeros, and the length in bits as 64 bits (modulo \<open>2 ^ 64\<close>).\<close>

definition pad_message :: "bytes \<Rightarrow> bytes" where
  "pad_message m =
     m @ 0x80 # replicate ((119 - length m mod 64) mod 64) 0 @
     map (\<lambda>i. of_nat (8 * length m div 256 ^ i)) [7, 6, 5, 4, 3, 2, 1, 0]"

fun digest_bytes :: "hash_state \<Rightarrow> bytes" where
  "digest_bytes (a, b, c, d, e, f, g, h) = concat (map word_bytes [a, b, c, d, e, f, g, h])"

definition message_blocks :: "bytes \<Rightarrow> bytes list" where
  "message_blocks p = chunks (length p div 64) 64 p"

definition sha256 :: "bytes \<Rightarrow> bytes" where
  "sha256 m = digest_bytes (foldl compress initial_state (message_blocks (pad_message m)))"

lemma length_digest_bytes: "length (digest_bytes s) = 32"
  by (cases s rule: digest_bytes.cases) (simp add: word_bytes_def)

lemma length_sha256 [simp]: "length (sha256 m) = 32"
  by (simp add: sha256_def length_digest_bytes)

lemma pad_message_blocks: "64 dvd length (pad_message m)"
proof -
  have "length (pad_message m) = length m + (119 - length m mod 64) mod 64 + 9"
    by (simp add: pad_message_def)
  moreover have "64 dvd l + (119 - l mod 64) mod 64 + 9" for l :: nat
  proof -
    define q r where "q = l div 64" and "r = l mod 64"
    have l: "l = 64 * q + r" and r: "r < 64" by (simp_all add: q_def r_def)
    show ?thesis
    proof (cases "r \<le> 55")
      case True
      then have "(119 - r) mod 64 = 55 - r" by (simp add: mod_if)
      with l r True show ?thesis by simp
    next
      case False
      then have "(119 - r) mod 64 = 119 - r" using r by simp
      with l r False show ?thesis by simp
    qed
  qed
  ultimately show ?thesis by simp
qed

definition collides :: "bytes \<Rightarrow> bytes \<Rightarrow> bool" where
  "collides x y \<longleftrightarrow> x \<noteq> y \<and> sha256 x = sha256 y"

lemma collides_sym: "collides x y \<Longrightarrow> collides y x"
  by (auto simp: collides_def)

lemma sha256_eq_cases: "sha256 x = sha256 y \<Longrightarrow> x = y \<or> collides x y"
  by (auto simp: collides_def)

text \<open>
  FIPS 180-4, SHA-256 of the three bytes \<open>abc\<close>, evaluated in the kernel: the padded block first,
  then the compression of the single block.
\<close>

definition abc_block :: bytes where
  "abc_block = [0x61, 0x62, 0x63, 0x80] @ replicate 59 0 @ [24]"

lemma pad_message_abc: "message_blocks (pad_message [0x61, 0x62, 0x63]) = [abc_block]"
proof -
  have "pad_message [0x61, 0x62, 0x63] = [0x61, 0x62, 0x63, 0x80] @ replicate 52 0 @ [0, 0, 0, 0, 0, 0, 0, 24]"
    by (simp add: pad_message_def)
  also have "\<dots> = abc_block"
    unfolding abc_block_def by code_simp
  finally have "pad_message [0x61, 0x62, 0x63] = abc_block" .
  moreover have "message_blocks abc_block = [abc_block]"
    unfolding abc_block_def by code_simp
  ultimately show ?thesis by simp
qed

lemma compress_abc:
  "compress initial_state abc_block =
    (0xba7816bf, 0x8f01cfea, 0x414140de, 0x5dae2223, 0xb00361a3, 0x96177a9c, 0xb410ff61, 0xf20015ad)"
  by code_simp

lemma sha256_test_vector:
  "sha256 [0x61, 0x62, 0x63] =
    [0xba, 0x78, 0x16, 0xbf, 0x8f, 0x01, 0xcf, 0xea, 0x41, 0x41, 0x40, 0xde, 0x5d, 0xae, 0x22, 0x23,
     0xb0, 0x03, 0x61, 0xa3, 0x96, 0x17, 0x7a, 0x9c, 0xb4, 0x10, 0xff, 0x61, 0xf2, 0x00, 0x15, 0xad]"
  unfolding sha256_def pad_message_abc foldl.simps compress_abc by code_simp

end
