(* ===== verification/Py_Text.thy ===== *)
theory Py_Text
  imports Prelude
begin

text \<open>
  Text and bytes as Python handles them: \<open>bytes.hex\<close> and \<open>bytes.fromhex\<close> (used directly and as
  \<open>to_hex\<close>, \<open>from_hex\<close> of common/canonical.py), \<open>str.encode("utf-8")\<close>, \<open>str(int)\<close>.
  \<open>bytes.fromhex\<close> accepts both cases and skips ASCII whitespace between (not inside) byte pairs.
  The locale \<open>prefix_code\<close> is the contract of an encoder that works item by item; every encoder of
  this theory and of the JSON printer is an interpretation of it, which is where their injectivity
  comes from.
\<close>

section \<open>Encoders that read back item by item\<close>

locale prefix_code =
  fixes enc :: "'a \<Rightarrow> 'b list"
  assumes nonempty: "enc x \<noteq> []"
    and prefix_free: "enc x @ r = enc y @ s \<Longrightarrow> x = y"
begin

lemma inj_enc: "enc x = enc y \<Longrightarrow> x = y"
  using prefix_free [of x "[]" y "[]"] by simp

lemma split_eq: "enc x @ r = enc y @ s \<longleftrightarrow> x = y \<and> r = s"
  by (auto dest: prefix_free)

lemma concat_inj: "concat (map enc xs) = concat (map enc ys) \<longleftrightarrow> xs = ys"
proof (induction xs arbitrary: ys)
  case Nil
  then show ?case using nonempty by (cases ys) auto
next
  case (Cons x xs)
  then show ?case using nonempty by (cases ys) (auto simp: split_eq)
qed

end

text \<open>A stop symbol that no code word starts with ends a run of code words unambiguously.\<close>

locale terminated_code = prefix_code enc for enc :: "'a \<Rightarrow> 'b list" +
  fixes stop :: 'b
  assumes stop_fresh: "hd (enc x) \<noteq> stop"
begin

lemma run_split:
  "concat (map enc xs) @ stop # r = concat (map enc ys) @ stop # s \<longleftrightarrow> xs = ys \<and> r = s"
proof (induction xs arbitrary: ys)
  case Nil
  show ?case
  proof (cases ys)
    case Nil
    then show ?thesis by simp
  next
    case (Cons y ys')
    with nonempty [of y] stop_fresh [of y] show ?thesis by (cases "enc y") auto
  qed
next
  case (Cons x xs)
  show ?case
  proof (cases ys)
    case Nil
    with nonempty [of x] stop_fresh [of x] show ?thesis by (cases "enc x") auto
  next
    case (Cons y ys')
    with Cons.IH [of ys'] show ?thesis by (simp add: split_eq)
  qed
qed

end

section \<open>Hexadecimal\<close>

definition hex_digits :: string where
  "hex_digits = ''0123456789abcdef''"

definition hex_digit :: "nat \<Rightarrow> char" where
  "hex_digit n = hex_digits ! n"

definition hex_byte :: "byte \<Rightarrow> string" where
  "hex_byte b = [hex_digit (unat b div 16), hex_digit (unat b mod 16)]"

definition to_hex :: "bytes \<Rightarrow> string" where
  "to_hex b = concat (map hex_byte b)"

definition hex_value :: "char \<Rightarrow> nat option" where
  "hex_value c =
     (let n = of_char c :: nat
      in if 48 \<le> n \<and> n \<le> 57 then Some (n - 48)
         else if 97 \<le> n \<and> n \<le> 102 then Some (n - 87)
         else if 65 \<le> n \<and> n \<le> 70 then Some (n - 55)
         else None)"

definition ascii_space :: "char \<Rightarrow> bool" where
  "ascii_space c = (let n = of_char c :: nat in n = 32 \<or> (9 \<le> n \<and> n \<le> 13))"

fun from_hex :: "string \<Rightarrow> bytes res" where
  "from_hex [] = Inr []"
| "from_hex (c # cs) =
     (if ascii_space c then from_hex cs
      else case cs of
        [] \<Rightarrow> Inl ValueError
      | d # ds \<Rightarrow>
          (case (hex_value c, hex_value d) of
             (Some h, Some l) \<Rightarrow>
               (case from_hex ds of
                  Inl e \<Rightarrow> Inl e
                | Inr bs \<Rightarrow> Inr (of_nat (16 * h + l) # bs))
           | _ \<Rightarrow> Inl ValueError))"

lemma nibble_table:
  "\<forall>n\<in>set [0..<16]. hex_value (hex_digit n) = Some n \<and> \<not> ascii_space (hex_digit n)"
  by (simp add: upt_rec hex_digit_def hex_digits_def hex_value_def ascii_space_def)

lemma hex_value_digit: "n < 16 \<Longrightarrow> hex_value (hex_digit n) = Some n"
  and hex_digit_not_space: "n < 16 \<Longrightarrow> \<not> ascii_space (hex_digit n)"
  using nibble_table by simp_all

lemma hex_digit_inj: "m < 16 \<Longrightarrow> n < 16 \<Longrightarrow> hex_digit m = hex_digit n \<Longrightarrow> m = n"
  by (metis hex_value_digit option.inject)

lemma unat_byte_less [simp]: "unat (b :: byte) < 256"
  using unsigned_less [of b, where ?'a = nat] by simp

lemma byte_bound: "unat (b :: byte) div 16 < 16" "unat (b :: byte) mod 16 < 16"
  using unat_byte_less [of b] by (simp_all add: less_mult_imp_div_less)

lemma byte_of_halves: "(of_nat (16 * (unat (b :: byte) div 16) + unat b mod 16) :: byte) = b"
  by (simp flip: of_nat_add of_nat_mult)

interpretation hexb: prefix_code hex_byte
proof
  show "hex_byte x \<noteq> []" for x
    by (simp add: hex_byte_def)
  show "x = y" if eq: "hex_byte x @ r = hex_byte y @ s" for x y r s
  proof -
    from eq have "unat x div 16 = unat y div 16" and "unat x mod 16 = unat y mod 16"
      using byte_bound by (auto simp: hex_byte_def intro!: hex_digit_inj)
    then show ?thesis by (metis byte_of_halves)
  qed
qed

lemma to_hex_simps [simp]: "to_hex [] = []" "to_hex (b # bs) = hex_byte b @ to_hex bs"
  by (simp_all add: to_hex_def)

lemma to_hex_inject [simp]: "to_hex a = to_hex b \<longleftrightarrow> a = b"
  by (simp add: to_hex_def hexb.concat_inj)

lemma length_to_hex [simp]: "length (to_hex b) = 2 * length b"
  by (induction b) (simp_all add: hex_byte_def)

lemma from_hex_to_hex [simp]: "from_hex (to_hex b) = Inr b"
proof (induction b)
  case Nil
  then show ?case by simp
next
  case (Cons x b)
  then show ?case
    using byte_of_halves [of x]
    by (simp add: hex_byte_def hex_digit_not_space hex_value_digit byte_bound)
qed

lemma from_hex_bytewise: "from_hex s = Inr b \<Longrightarrow> 2 * length b \<le> length s"
  by (induction s arbitrary: b rule: from_hex.induct)
    (fastforce split: if_splits list.splits option.splits sum.splits)+

definition is_hex :: "string \<Rightarrow> bool" where
  "is_hex s = is_ok (from_hex s)"

lemma hex_chars: "set (to_hex b) \<subseteq> set hex_digits"
proof (induction b)
  case Nil
  then show ?case by simp
next
  case (Cons x b)
  have "hex_digit n \<in> set hex_digits" if "n < 16" for n
    using that nth_mem [of n hex_digits] by (simp add: hex_digit_def hex_digits_def)
  with Cons show ?case using byte_bound by (simp add: hex_byte_def)
qed

section \<open>UTF-8\<close>

definition utf8_char :: "char \<Rightarrow> bytes" where
  "utf8_char c =
     (let n = of_char c :: nat
      in if n < 128 then [of_nat n]
         else [of_nat (192 + n div 64), of_nat (128 + n mod 64)])"

definition encode_utf8 :: "string \<Rightarrow> bytes" where
  "encode_utf8 s = concat (map utf8_char s)"

lemma unat_byte_of_nat: "n < 256 \<Longrightarrow> unat (of_nat n :: byte) = n"
  by (simp add: unat_of_nat)

lemma utf8_char_code:
  "map unat (utf8_char c) =
    (let n = of_char c :: nat in if n < 128 then [n] else [192 + n div 64, 128 + n mod 64])"
proof -
  have "192 + of_char c div 64 < (256::nat)"
    using nat_of_char_less_256 [of c] by linarith
  moreover have "128 + of_char c mod 64 < (256::nat)" by linarith
  ultimately show ?thesis
    by (simp add: utf8_char_def Let_def unat_byte_of_nat del: of_nat_add of_nat_numeral)
qed

interpretation utf8c: prefix_code utf8_char
proof
  show "utf8_char c \<noteq> []" for c
    by (simp add: utf8_char_def Let_def)
  show "c = d" if eq: "utf8_char c @ r = utf8_char d @ s" for c d r s
  proof -
    define m n where "m = (of_char c :: nat)" and "n = (of_char d :: nat)"
    have "map unat (utf8_char c) @ map unat r = map unat (utf8_char d) @ map unat s"
      using arg_cong [OF eq, of "map unat"] by simp
    then have "m = n"
      unfolding utf8_char_code Let_def m_def [symmetric] n_def [symmetric]
      by (auto split: if_splits) (metis mult_div_mod_eq)
    then show ?thesis by (simp add: m_def n_def)
  qed
qed

lemma encode_utf8_simps [simp]:
  "encode_utf8 [] = []" "encode_utf8 (c # s) = utf8_char c @ encode_utf8 s"
  "encode_utf8 (s @ t) = encode_utf8 s @ encode_utf8 t"
  by (simp_all add: encode_utf8_def)

lemma encode_utf8_inject [simp]: "encode_utf8 s = encode_utf8 t \<longleftrightarrow> s = t"
  by (simp add: encode_utf8_def utf8c.concat_inj)

section \<open>Decimal numerals\<close>

fun dec_nat :: "nat \<Rightarrow> string" where
  "dec_nat n = (if n < 10 then [hex_digit n] else dec_nat (n div 10) @ [hex_digit (n mod 10)])"

declare dec_nat.simps [simp del]

definition str_int :: "int \<Rightarrow> string" where
  "str_int i = (if i < 0 then CHR ''-'' # dec_nat (nat (- i)) else dec_nat (nat i))"

definition dec_digits :: "char set" where
  "dec_digits = set ''0123456789''"

lemma hex_digit_dec: "n < 10 \<Longrightarrow> hex_digit n \<in> dec_digits"
proof -
  assume "n < 10"
  then have "hex_digit n = take 10 hex_digits ! n" by (simp add: hex_digit_def)
  also have "\<dots> \<in> set (take 10 hex_digits)"
    using \<open>n < 10\<close> by (intro nth_mem) (simp add: hex_digits_def)
  finally show ?thesis by (simp add: hex_digits_def dec_digits_def)
qed

lemma dec_nat_digits: "set (dec_nat n) \<subseteq> dec_digits"
  by (induction n rule: dec_nat.induct) (subst dec_nat.simps, auto intro: hex_digit_dec)

lemma dec_nat_nonempty [simp]: "dec_nat n \<noteq> []"
  by (subst dec_nat.simps) simp

lemma dec_nat_small: "n < 10 \<Longrightarrow> dec_nat n = [hex_digit n]"
  by (subst dec_nat.simps) simp

lemma dec_nat_large: "\<not> n < 10 \<Longrightarrow> dec_nat n = dec_nat (n div 10) @ [hex_digit (n mod 10)]"
  by (subst dec_nat.simps) simp

lemma length_dec_nat: "length (dec_nat n) = 1 \<longleftrightarrow> n < 10"
proof (cases "n < 10")
  case False
  then show ?thesis by (simp add: dec_nat_large)
qed (simp add: dec_nat_small)

lemma dec_nat_inject [simp]: "dec_nat m = dec_nat n \<longleftrightarrow> m = n"
proof (induction m arbitrary: n rule: dec_nat.induct)
  case (1 m)
  show ?case
  proof (cases "m < 10 \<or> n < 10")
    case True
    show ?thesis
    proof (cases "m < 10 \<and> n < 10")
      case True
      then show ?thesis
        using hex_digit_inj [of m n] by (auto simp: dec_nat_small)
    next
      case False
      with True have "length (dec_nat m) \<noteq> length (dec_nat n)"
        using length_dec_nat [of m] length_dec_nat [of n] by auto
      with True False show ?thesis by auto
    qed
  next
    case False
    then have "dec_nat m = dec_nat n \<longleftrightarrow> m div 10 = n div 10 \<and> hex_digit (m mod 10) = hex_digit (n mod 10)"
      using 1 [of "n div 10"] by (simp add: dec_nat_large)
    moreover have "hex_digit (m mod 10) = hex_digit (n mod 10) \<longleftrightarrow> m mod 10 = n mod 10"
      using hex_digit_inj [of "m mod 10" "n mod 10"] by auto
    ultimately show ?thesis by (metis mult_div_mod_eq)
  qed
qed

lemma str_int_chars: "set (str_int i) \<subseteq> insert (CHR ''-'') dec_digits"
  using dec_nat_digits by (auto simp: str_int_def)

lemma str_int_nonempty [simp]: "str_int i \<noteq> []"
  by (simp add: str_int_def)

lemma str_int_inject [simp]: "str_int i = str_int j \<longleftrightarrow> i = j"
proof -
  have "CHR ''-'' \<notin> dec_digits" by (simp add: dec_digits_def)
  then have "CHR ''-'' # s \<noteq> dec_nat n" for s n
    using dec_nat_digits [of n] by (metis list.set_intros(1) subsetD)
  then show ?thesis
    by (auto simp: str_int_def) (metis list.inject)+
qed

section \<open>Splitting at a separator\<close>

text \<open>\<open>s.split(c, 1)\<close>: \<open>None\<close> stands for a single part.\<close>

fun split_once :: "char \<Rightarrow> string \<Rightarrow> (string \<times> string) option" where
  "split_once c [] = None"
| "split_once c (x # xs) =
     (if x = c then Some ([], xs)
      else case split_once c xs of None \<Rightarrow> None | Some (a, b) \<Rightarrow> Some (x # a, b))"

lemma split_once_Some_iff: "split_once c s = Some (a, b) \<longleftrightarrow> s = a @ c # b \<and> c \<notin> set a"
proof (induction s arbitrary: a)
  case (Cons x xs)
  show ?case
  proof (cases "x = c")
    case True
    then show ?thesis by (cases a) auto
  next
    case False
    show ?thesis
    proof (cases a)
      case Nil
      with False show ?thesis by (auto split: option.split)
    next
      case (Cons y ys)
      with False Cons.IH [of ys] show ?thesis by (auto split: option.split)
    qed
  qed
qed simp

lemma split_once_None_iff: "split_once c s = None \<longleftrightarrow> c \<notin> set s"
  by (induction s) (auto split: option.splits)

text \<open>Texts joined by a separator come apart uniquely at a part that does not contain it.\<close>

lemma split_left:
  fixes c :: char
  assumes "a @ c # r = b @ c # s" "c \<notin> set a" "c \<notin> set b"
  shows "a = b \<and> r = s"
proof -
  have "split_once c (a @ c # r) = Some (a, r)" using assms(2) by (simp add: split_once_Some_iff)
  moreover have "split_once c (a @ c # r) = Some (b, s)" using assms(1,3) by (simp add: split_once_Some_iff)
  ultimately show ?thesis by simp
qed

lemma split_right:
  fixes c :: char
  assumes "r @ c # a = s @ c # b" "c \<notin> set a" "c \<notin> set b"
  shows "r = s \<and> a = b"
proof -
  have "rev a @ c # rev r = rev b @ c # rev s" using arg_cong [OF assms(1), of rev] by simp
  from split_left [OF this] assms(2,3) show ?thesis by simp
qed

end
