(* ===== verification/Json.thy ===== *)
theory Json
  imports Py_Text
begin

text \<open>
  JSON values and the deterministic text of common/canonical.py, \<open>canonical_json\<close>:
  \<open>json.dumps(obj, sort_keys=True, separators=(",", ":"), ensure_ascii=False).encode("utf-8")\<close>.
  The text of a \<open>float\<close> is \<open>repr(float)\<close>; it is the parameter \<open>fr\<close>, and \<open>float_repr_ok\<close> states
  what Python documents of it: it tells finite floats apart, uses the characters of a numeral and,
  unlike the text of an \<open>int\<close>, has a point or an exponent.
  The main lemma is \<open>canonical_json_inject\<close>: equal texts come from values that are equal once the
  keys of every object are sorted.
\<close>

section \<open>Values\<close>

datatype json =
    JNull
  | JBool bool
  | JInt int
  | JFloat rat
  | JStr string
  | JArr "json list"
  | JObj "(string \<times> json) list"

text \<open>Python's \<open>==\<close> between a JSON value and an \<open>int\<close>: \<open>True == 1\<close> and \<open>1.0 == 1\<close> hold.\<close>

fun json_eq_int :: "json \<Rightarrow> int \<Rightarrow> bool" where
  "json_eq_int (JInt i) j = (i = j)"
| "json_eq_int (JBool b) j = ((if b then 1 else 0) = j)"
| "json_eq_int (JFloat r) j = (r = of_int j)"
| "json_eq_int _ j = False"

section \<open>Text of a value\<close>

definition escape_table :: "(nat, char) dict" where
  "escape_table =
    [(92, CHR 0x5C), (34, CHR 0x22), (8, CHR ''b''), (12, CHR ''f''), (10, CHR ''n''),
     (13, CHR ''r''), (9, CHR ''t'')]"

definition escape_char :: "char \<Rightarrow> string" where
  "escape_char c =
     (let n = of_char c :: nat
      in case dict_get escape_table n of
           Some x \<Rightarrow> [CHR 0x5C, x]
         | None \<Rightarrow>
             if n < 32 then [CHR 0x5C, CHR ''u'', CHR ''0'', CHR ''0'', hex_digit (n div 16), hex_digit (n mod 16)]
             else [c])"

definition json_string :: "string \<Rightarrow> string" where
  "json_string s = CHR 0x22 # concat (map escape_char s) @ [CHR 0x22]"

fun dumps :: "(rat \<Rightarrow> string) \<Rightarrow> json \<Rightarrow> string"
  and dumps_items :: "(rat \<Rightarrow> string) \<Rightarrow> json list \<Rightarrow> string"
  and dumps_fields :: "(rat \<Rightarrow> string) \<Rightarrow> (string \<times> json) list \<Rightarrow> string" where
  "dumps fr JNull = ''null''"
| "dumps fr (JBool b) = (if b then ''true'' else ''false'')"
| "dumps fr (JInt i) = str_int i"
| "dumps fr (JFloat r) = fr r"
| "dumps fr (JStr s) = json_string s"
| "dumps fr (JArr vs) = CHR ''['' # dumps_items fr vs"
| "dumps fr (JObj kvs) = CHR ''{'' # dumps_fields fr kvs"
| "dumps_items fr [] = '']''"
| "dumps_items fr (v # vs) =
     dumps fr v @ (case vs of [] \<Rightarrow> '']'' | _ # _ \<Rightarrow> CHR '','' # dumps_items fr vs)"
| "dumps_fields fr [] = ''}''"
| "dumps_fields fr (kv # kvs) =
     json_string (fst kv) @ CHR '':'' # dumps fr (snd kv) @
     (case kvs of [] \<Rightarrow> ''}'' | _ # _ \<Rightarrow> CHR '','' # dumps_fields fr kvs)"

text \<open>\<open>sort_keys=True\<close>, at every level.\<close>

fun sort_keys :: "json \<Rightarrow> json" where
  "sort_keys (JArr vs) = JArr (map sort_keys vs)"
| "sort_keys (JObj kvs) = JObj (sort_key fst (map (\<lambda>(k, v). (k, sort_keys v)) kvs))"
| "sort_keys v = v"

definition canonical_json :: "(rat \<Rightarrow> string) \<Rightarrow> json \<Rightarrow> bytes" where
  "canonical_json fr v = encode_utf8 (dumps fr (sort_keys v))"


section \<open>The text determines the value\<close>

lemma escape_table_inj:
  "dict_get escape_table m = Some x \<Longrightarrow> dict_get escape_table n = Some x \<Longrightarrow> m = n"
  by (auto simp: escape_table_def split: if_splits)

lemma escape_table_range: "dict_get escape_table n = Some x \<Longrightarrow> x \<noteq> CHR ''u''"
  by (auto simp: escape_table_def split: if_splits)

lemma escape_table_special: "dict_get escape_table 34 = Some (CHR 0x22)" "dict_get escape_table 92 = Some (CHR 0x5C)"
  by (simp_all add: escape_table_def)

lemma escape_char_cases:
  obtains (special) x where "dict_get escape_table (of_char c :: nat) = Some x" "escape_char c = [CHR 0x5C, x]"
  | (control) "(of_char c :: nat) < 32"
      "escape_char c = [CHR 0x5C, CHR ''u'', CHR ''0'', CHR ''0'',
        hex_digit (of_char c div 16), hex_digit (of_char c mod 16)]"
  | (plain) "c \<noteq> CHR 0x22" "c \<noteq> CHR 0x5C" "escape_char c = [c]"
proof (cases "dict_get escape_table (of_char c :: nat)")
  case None
  have "c \<noteq> CHR 0x22" "c \<noteq> CHR 0x5C"
    using None escape_table_special by auto
  with None control plain show thesis by (cases "(of_char c :: nat) < 32") (simp_all add: escape_char_def Let_def)
next
  case (Some x)
  with special show thesis by (simp add: escape_char_def)
qed

lemma hex_halves_inj:
  assumes "m < 256" "n < 256" "hex_digit (m div 16) = hex_digit (n div 16)"
    "hex_digit (m mod 16) = hex_digit (n mod 16)"
  shows "m = n"
proof -
  have "m div 16 = n div 16" using assms by (intro hex_digit_inj) auto
  moreover have "m mod 16 = n mod 16" using assms by (intro hex_digit_inj) auto
  ultimately show ?thesis by (metis mult_div_mod_eq)
qed

lemma of_char_nat_inj: "(of_char c :: nat) = of_char d \<Longrightarrow> c = d"
  by simp

interpretation escc: terminated_code escape_char "CHR 0x22"
proof
  show "escape_char c \<noteq> []" for c
    by (cases c rule: escape_char_cases) simp_all
  show "hd (escape_char c) \<noteq> CHR 0x22" for c
    by (cases c rule: escape_char_cases) simp_all
  show "c = d" if eq: "escape_char c @ r = escape_char d @ s" for c d r s
  proof (cases c rule: escape_char_cases)
    case (special x)
    with eq escape_table_range show ?thesis
      by (cases d rule: escape_char_cases) (auto dest: escape_table_inj [THEN of_char_nat_inj])
  next
    case control
    with eq escape_table_range [of "of_char d"] hex_halves_inj [of "of_char c" "of_char d"] show ?thesis
      by (cases d rule: escape_char_cases) auto
  next
    case plain
    with eq show ?thesis by (cases d rule: escape_char_cases) auto
  qed
qed

lemma json_string_split [simp]:
  "json_string a @ r = json_string b @ s \<longleftrightarrow> a = b \<and> r = s"
  by (simp add: json_string_def escc.run_split)

definition number_chars :: "char set" where
  "number_chars = dec_digits \<union> set ''-+.e''"

definition float_repr_ok :: "(rat \<Rightarrow> string) \<Rightarrow> bool" where
  "float_repr_ok fr \<longleftrightarrow> inj fr \<and>
     (\<forall>r. fr r \<noteq> [] \<and> set (fr r) \<subseteq> number_chars \<and> set (fr r) \<inter> set ''.e'' \<noteq> {})"

definition ends_value :: "string \<Rightarrow> bool" where
  "ends_value r \<longleftrightarrow> r = [] \<or> hd r \<in> set '',]}''"

lemma number_chars_simps [simp]:
  "CHR ''n'' \<notin> number_chars" "CHR ''t'' \<notin> number_chars" "CHR ''f'' \<notin> number_chars"
  "CHR 0x22 \<notin> number_chars" "CHR ''['' \<notin> number_chars" "CHR ''{'' \<notin> number_chars"
  "CHR '','' \<notin> number_chars" "CHR '']'' \<notin> number_chars" "CHR ''}'' \<notin> number_chars"
  by (simp_all add: number_chars_def dec_digits_def)

lemma number_text_split:
  assumes "set a \<subseteq> number_chars" "set b \<subseteq> number_chars" "ends_value r" "ends_value s"
    and "a @ r = b @ s"
  shows "a = b \<and> r = s"
proof -
  have run: "takeWhile (\<lambda>c. c \<in> number_chars) (x @ y) = x"
    if "set x \<subseteq> number_chars" "ends_value y" for x y
    using that by (cases y) (auto simp: ends_value_def takeWhile_append)
  have "a = b" using run [of a r] run [of b s] assms by simp
  with assms(5) show ?thesis by simp
qed

lemma str_int_number: "set (str_int i) \<subseteq> number_chars"
  using str_int_chars [of i] by (auto simp: number_chars_def)

lemma float_text_not_int:
  assumes "float_repr_ok fr"
  shows "fr r \<noteq> str_int i"
proof
  assume "fr r = str_int i"
  with str_int_chars [of i] have "set (fr r) \<inter> set ''.e'' = {}"
    by (auto simp: dec_digits_def)
  with assms show False by (auto simp: float_repr_ok_def)
qed

text \<open>The first character tells the kind of value; numbers share theirs.\<close>

fun kind_mark :: "json \<Rightarrow> char option" where
  "kind_mark JNull = Some (CHR ''n'')"
| "kind_mark (JBool b) = Some (if b then CHR ''t'' else CHR ''f'')"
| "kind_mark (JInt i) = None"
| "kind_mark (JFloat r) = None"
| "kind_mark (JStr s) = Some (CHR 0x22)"
| "kind_mark (JArr vs) = Some (CHR ''['')"
| "kind_mark (JObj kvs) = Some (CHR ''{'')"

lemma hd_number: "a \<noteq> [] \<Longrightarrow> set a \<subseteq> number_chars \<Longrightarrow> hd a \<in> number_chars"
  using hd_in_set by blast

lemma dumps_nonempty: "float_repr_ok fr \<Longrightarrow> dumps fr v \<noteq> []"
  by (cases v) (auto simp: float_repr_ok_def json_string_def)

lemma dumps_hd:
  assumes "float_repr_ok fr"
  shows "case kind_mark v of Some c \<Rightarrow> hd (dumps fr v) = c | None \<Rightarrow> hd (dumps fr v) \<in> number_chars"
  using assms by (cases v) (auto simp: float_repr_ok_def json_string_def hd_number str_int_number)


lemma ends_value_simps [simp]:
  "ends_value []" "ends_value (CHR '','' # r)" "ends_value (CHR '']'' # r)" "ends_value (CHR ''}'' # r)"
  by (simp_all add: ends_value_def)

lemma dumps_kind:
  assumes fr: "float_repr_ok fr" and eq: "dumps fr v @ r = dumps fr w @ s"
  shows "kind_mark v = kind_mark w"
proof -
  have "hd (dumps fr v) = hd (dumps fr w)"
    using eq dumps_nonempty [OF fr] by (metis hd_append)
  moreover have "c \<notin> number_chars" if "kind_mark u = Some c" for u c
    using that by (cases u) (auto split: if_splits)
  ultimately show ?thesis
    using dumps_hd [OF fr, of v] dumps_hd [OF fr, of w] by (auto split: option.splits)
qed

lemma dumps_not_closing:
  assumes "float_repr_ok fr"
  shows "dumps fr v @ r \<noteq> CHR '']'' # s" "dumps fr v @ r \<noteq> CHR ''}'' # s"
proof -
  have "hd (dumps fr v) \<noteq> CHR '']'' \<and> hd (dumps fr v) \<noteq> CHR ''}''"
    using dumps_hd [OF assms, of v] by (cases v) (auto split: if_splits)
  then show "dumps fr v @ r \<noteq> CHR '']'' # s" "dumps fr v @ r \<noteq> CHR ''}'' # s"
    using dumps_nonempty [OF assms, of v] by (cases "dumps fr v"; simp)+
qed

definition reads_back :: "(rat \<Rightarrow> string) \<Rightarrow> json \<Rightarrow> bool" where
  "reads_back fr v \<longleftrightarrow> (\<forall>w r s. ends_value r \<longrightarrow> ends_value s \<longrightarrow>
     dumps fr v @ r = dumps fr w @ s \<longrightarrow> v = w \<and> r = s)"

lemma reads_backD:
  "reads_back fr v \<Longrightarrow> ends_value r \<Longrightarrow> ends_value s \<Longrightarrow> dumps fr v @ r = dumps fr w @ s \<Longrightarrow>
   v = w \<and> r = s"
  by (auto simp: reads_back_def)

lemma dumps_items_split:
  assumes fr: "float_repr_ok fr"
  shows "\<forall>v\<in>set vs. reads_back fr v \<Longrightarrow> dumps_items fr vs @ r = dumps_items fr ws @ s \<Longrightarrow>
    vs = ws \<and> r = s"
proof (induction vs arbitrary: ws)
  case Nil
  then show ?case using dumps_not_closing [OF fr] by (cases ws) (auto dest: sym)
next
  case (Cons v vs)
  show ?case
  proof (cases ws)
    case Nil
    with Cons.prems show ?thesis using dumps_not_closing [OF fr] by auto
  next
    case w: (Cons w ws')
    have *: "v = w \<and> (case vs of [] \<Rightarrow> '']'' | _ # _ \<Rightarrow> CHR '','' # dumps_items fr vs) @ r =
        (case ws' of [] \<Rightarrow> '']'' | _ # _ \<Rightarrow> CHR '','' # dumps_items fr ws') @ s"
    proof (rule reads_backD)
      show "reads_back fr v" using Cons.prems(1) by simp
      show "dumps fr v @ (case vs of [] \<Rightarrow> '']'' | _ # _ \<Rightarrow> CHR '','' # dumps_items fr vs) @ r =
          dumps fr w @ (case ws' of [] \<Rightarrow> '']'' | _ # _ \<Rightarrow> CHR '','' # dumps_items fr ws') @ s"
        using Cons.prems(2) unfolding w dumps_items.simps append_assoc .
    qed (simp_all split: list.split)
    have "vs = ws' \<and> r = s"
    proof (cases "vs = [] \<or> ws' = []")
      case True
      then show ?thesis using conjunct2 [OF *] by (cases vs; cases ws'; simp del: dumps_items.simps)
    next
      case False
      then have "dumps_items fr vs @ r = dumps_items fr ws' @ s"
        using conjunct2 [OF *] by (cases vs; cases ws'; simp del: dumps_items.simps)
      then show ?thesis by (rule Cons.IH [rotated]) (use Cons.prems(1) in simp)
    qed
    with * w show ?thesis by simp
  qed
qed

lemma dumps_fields_split:
  assumes fr: "float_repr_ok fr"
  shows "\<forall>kv\<in>set vs. reads_back fr (snd kv) \<Longrightarrow> dumps_fields fr vs @ r = dumps_fields fr ws @ s \<Longrightarrow>
    vs = ws \<and> r = s"
proof (induction vs arbitrary: ws)
  case Nil
  then show ?case by (cases ws) (auto simp: json_string_def)
next
  case (Cons v vs)
  show ?case
  proof (cases ws)
    case Nil
    with Cons.prems show ?thesis by (auto simp: json_string_def)
  next
    case w: (Cons w ws')
    have *: "snd v = snd w \<and> (case vs of [] \<Rightarrow> ''}'' | _ # _ \<Rightarrow> CHR '','' # dumps_fields fr vs) @ r =
        (case ws' of [] \<Rightarrow> ''}'' | _ # _ \<Rightarrow> CHR '','' # dumps_fields fr ws') @ s"
    proof (rule reads_backD)
      show "reads_back fr (snd v)" using Cons.prems(1) by simp
      show "dumps fr (snd v) @ (case vs of [] \<Rightarrow> ''}'' | _ # _ \<Rightarrow> CHR '','' # dumps_fields fr vs) @ r =
          dumps fr (snd w) @ (case ws' of [] \<Rightarrow> ''}'' | _ # _ \<Rightarrow> CHR '','' # dumps_fields fr ws') @ s"
        using Cons.prems(2) unfolding w dumps_fields.simps append_assoc
        by (simp only: json_string_split list.inject append_Cons append_assoc simp_thms)
    qed (simp_all split: list.split)
    have "vs = ws' \<and> r = s"
    proof (cases "vs = [] \<or> ws' = []")
      case True
      then show ?thesis using conjunct2 [OF *] by (cases vs; cases ws'; simp del: dumps_fields.simps)
    next
      case False
      then have "dumps_fields fr vs @ r = dumps_fields fr ws' @ s"
        using conjunct2 [OF *] by (cases vs; cases ws'; simp del: dumps_fields.simps)
      then show ?thesis by (rule Cons.IH [rotated]) (use Cons.prems(1) in simp)
    qed
    moreover have "fst v = fst w"
      using Cons.prems(2) unfolding w dumps_fields.simps append_assoc by (simp only: json_string_split)
    ultimately show ?thesis using conjunct1 [OF *] w by (simp add: prod_eq_iff)
  qed
qed

lemma reads_back_all:
  assumes fr: "float_repr_ok fr"
  shows "reads_back fr v"
proof (induction v)
  case (JArr vs)
  show ?case unfolding reads_back_def
  proof (intro allI impI)
    fix w r s assume eq: "dumps fr (JArr vs) @ r = dumps fr w @ s"
    then obtain ws where "w = JArr ws"
      using dumps_kind [OF fr eq] by (cases w) (auto split: if_splits)
    with eq JArr dumps_items_split [OF fr, of vs r ws s] show "JArr vs = w \<and> r = s" by auto
  qed
next
  case (JObj kvs)
  have IH: "\<forall>kv\<in>set kvs. reads_back fr (snd kv)"
    using JObj by (metis prod.collapse snds.intros)
  show ?case unfolding reads_back_def
  proof (intro allI impI)
    fix w r s assume eq: "dumps fr (JObj kvs) @ r = dumps fr w @ s"
    then obtain ws where "w = JObj ws"
      using dumps_kind [OF fr eq] by (cases w) (auto split: if_splits)
    with eq IH dumps_fields_split [OF fr, of kvs r ws s] show "JObj kvs = w \<and> r = s" by auto
  qed
next
  case (JInt i)
  show ?case unfolding reads_back_def
  proof (intro allI impI)
    fix w r s assume ends: "ends_value r" "ends_value s" and eq: "dumps fr (JInt i) @ r = dumps fr w @ s"
    have num: "set (fr q) \<subseteq> number_chars" for q using fr by (simp add: float_repr_ok_def)
    from dumps_kind [OF fr eq] consider j where "w = JInt j" | q where "w = JFloat q"
      by (cases w) (auto split: if_splits)
    then show "JInt i = w \<and> r = s"
    proof cases
      case 1
      with eq ends number_text_split [OF str_int_number str_int_number, of r s i j] show ?thesis by auto
    next
      case (2 q)
      with eq ends number_text_split [OF str_int_number num, of r s i q] float_text_not_int [OF fr, of q i]
      show ?thesis by auto
    qed
  qed
next
  case (JFloat p)
  show ?case unfolding reads_back_def
  proof (intro allI impI)
    fix w r s assume ends: "ends_value r" "ends_value s" and eq: "dumps fr (JFloat p) @ r = dumps fr w @ s"
    have num: "set (fr q) \<subseteq> number_chars" for q using fr by (simp add: float_repr_ok_def)
    from dumps_kind [OF fr eq] consider j where "w = JInt j" | q where "w = JFloat q"
      by (cases w) (auto split: if_splits)
    then show "JFloat p = w \<and> r = s"
    proof cases
      case (1 j)
      with eq ends number_text_split [OF num str_int_number, of r s p j] float_text_not_int [OF fr, of p j]
      show ?thesis by auto
    next
      case (2 q)
      with eq ends number_text_split [OF num num, of r s p q] fr show ?thesis
        by (auto simp: float_repr_ok_def dest: injD)
    qed
  qed
next
  case (JStr x)
  show ?case unfolding reads_back_def
  proof (intro allI impI)
    fix w r s assume eq: "dumps fr (JStr x) @ r = dumps fr w @ s"
    then show "JStr x = w \<and> r = s"
      using dumps_kind [OF fr eq] by (cases w) (auto split: if_splits)
  qed
next
  case JNull
  show ?case unfolding reads_back_def
  proof (intro allI impI)
    fix w r s assume eq: "dumps fr JNull @ r = dumps fr w @ s"
    then show "JNull = w \<and> r = s"
      using dumps_kind [OF fr eq] by (cases w) (auto split: if_splits)
  qed
next
  case (JBool b)
  show ?case unfolding reads_back_def
  proof (intro allI impI)
    fix w r s assume eq: "dumps fr (JBool b) @ r = dumps fr w @ s"
    then show "JBool b = w \<and> r = s"
      using dumps_kind [OF fr eq] by (cases w) (auto split: if_splits)
  qed
qed

lemma dumps_inject:
  assumes "float_repr_ok fr"
  shows "dumps fr v = dumps fr w \<longleftrightarrow> v = w"
  using reads_backD [OF reads_back_all [OF assms], of "[]" "[]" v w] by auto

text \<open>Equal canonical texts: equal values, up to the order of the keys.\<close>

lemma canonical_json_inject:
  assumes "float_repr_ok fr"
  shows "canonical_json fr v = canonical_json fr w \<longleftrightarrow> sort_keys v = sort_keys w"
  by (simp add: canonical_json_def dumps_inject [OF assms])


text \<open>Objects with the same sorted form have the same entries.\<close>

lemma map_of_sort_key:
  assumes "dict_ok d"
  shows "map_of (sort_key fst d) k = map_of d k"
proof -
  have "dict_ok (sort_key fst d)" using assms by (simp add: distinct_map)
  with assms have "map_of (sort_key fst d) k = Some v \<longleftrightarrow> map_of d k = Some v" for v by simp
  then show ?thesis by (metis not_Some_eq)
qed

lemma sort_keys_lookup:
  assumes "sort_keys (JObj d) = sort_keys (JObj d')" "dict_ok d" "dict_ok d'"
  shows "map_option sort_keys (dict_get d k) = map_option sort_keys (dict_get d' k)"
proof -
  let ?s = "map (\<lambda>(k, v). (k, sort_keys v))"
  have "map_of (sort_key fst (?s d)) k = map_of (sort_key fst (?s d')) k"
    using assms(1) by simp
  moreover have "dict_ok (?s x)" if "dict_ok x" for x
    using that by (simp add: comp_def case_prod_beta)
  ultimately have "map_of (?s d) k = map_of (?s d') k"
    using map_of_sort_key [of "?s d" k] map_of_sort_key [of "?s d'" k] assms(2,3) by metis
  then show ?thesis by (simp add: map_of_map)
qed

end
