(* ===== verification/Canonical.thy ===== *)
theory Canonical
  imports Sha256 Json
begin

text \<open>
  common/canonical.py: the byte formats every component hashes and signs.
  \<open>leaf_hash\<close> and \<open>node_hash\<close> with their checks, and the message of a proof of possession. The
  lemmas show that the formats are unambiguous: a leaf preimage determines the DID and the key, a
  node preimage its two children, and no leaf preimage is a node preimage.
\<close>

definition leaf_prefix :: bytes where "leaf_prefix = [0x00]"
definition node_prefix :: bytes where "node_prefix = [0x01]"
definition separator :: bytes where "separator = [0x7C]"
definition hash_len :: nat where "hash_len = 32"
definition compressed_pk_len :: nat where "compressed_pk_len = 33"
definition pop_context :: bytes where "pop_context = encode_utf8 ''IIOT_POP_V1''"

lemmas canonical_constants [component_defs] =
  leaf_prefix_def node_prefix_def separator_def hash_len_def compressed_pk_len_def

definition starts_with :: "string \<Rightarrow> string \<Rightarrow> bool" where
  "starts_with p s = (take (length p) s = p)"

definition leaf_preimage :: "string \<Rightarrow> bytes \<Rightarrow> bytes" where
  "leaf_preimage did pk = leaf_prefix @ encode_utf8 did @ separator @ pk"

definition leaf_hash :: "string \<Rightarrow> bytes \<Rightarrow> bytes res" where
  "leaf_hash did pk_bytes =
     (if \<not> starts_with ''did:iiot:'' did then Inl ValueError
      else if length pk_bytes \<noteq> compressed_pk_len then Inl ValueError
      else Inr (sha256 (leaf_preimage did pk_bytes)))"

definition node_preimage :: "bytes \<Rightarrow> bytes \<Rightarrow> bytes" where
  "node_preimage left right = node_prefix @ left @ right"

definition node_hash :: "bytes \<Rightarrow> bytes \<Rightarrow> bytes res" where
  "node_hash left right =
     (if length left \<noteq> hash_len \<or> length right \<noteq> hash_len then Inl ValueError
      else Inr (sha256 (node_preimage left right)))"

definition pop_message :: "bytes \<Rightarrow> string \<Rightarrow> bytes" where
  "pop_message challenge did = pop_context @ separator @ challenge @ separator @ encode_utf8 did"

section \<open>The formats are unambiguous\<close>

lemma leaf_preimage_inject:
  assumes "length pk = compressed_pk_len" "length pk' = compressed_pk_len"
  shows "leaf_preimage did pk = leaf_preimage did' pk' \<longleftrightarrow> did = did' \<and> pk = pk'"
proof
  assume "leaf_preimage did pk = leaf_preimage did' pk'"
  then have "(encode_utf8 did @ separator) @ pk = (encode_utf8 did' @ separator) @ pk'"
    by (simp add: leaf_preimage_def)
  with assms show "did = did' \<and> pk = pk'"
    using append_eq_append_conv [of "encode_utf8 did @ separator" "encode_utf8 did' @ separator"]
    by (metis append_eq_append_conv encode_utf8_inject)
qed simp

lemma node_preimage_inject:
  assumes "length a = hash_len" "length a' = hash_len"
  shows "node_preimage a b = node_preimage a' b' \<longleftrightarrow> a = a' \<and> b = b'"
  using assms by (simp add: node_preimage_def)

lemma leaf_node_preimage_disjoint [simp]: "leaf_preimage did pk \<noteq> node_preimage a b"
  by (simp add: leaf_preimage_def node_preimage_def component_defs)

lemma leaf_hash_ok_iff:
  "leaf_hash did pk = Inr h \<longleftrightarrow>
     starts_with ''did:iiot:'' did \<and> length pk = compressed_pk_len \<and> h = sha256 (leaf_preimage did pk)"
  by (auto simp: leaf_hash_def)

lemma leaf_hash_errors: "leaf_hash did pk = Inl e \<Longrightarrow> e = ValueError"
  by (auto simp: leaf_hash_def split: if_splits)

lemma length_leaf_hash: "leaf_hash did pk = Inr h \<Longrightarrow> length h = hash_len"
  by (auto simp: leaf_hash_ok_iff hash_len_def)

lemma node_hash_ok:
  "length a = hash_len \<Longrightarrow> length b = hash_len \<Longrightarrow> node_hash a b = Inr (sha256 (node_preimage a b))"
  by (simp add: node_hash_def)

lemma node_hash_ok_iff:
  "node_hash a b = Inr h \<longleftrightarrow> length a = hash_len \<and> length b = hash_len \<and> h = sha256 (node_preimage a b)"
  by (auto simp: node_hash_def)

lemma length_node_hash: "node_hash a b = Inr h \<Longrightarrow> length h = hash_len"
  by (auto simp: node_hash_ok_iff hash_len_def)

text \<open>Equal leaf hashes: the same identity, or a collision of SHA-256 at two leaf preimages.\<close>

lemma leaf_hash_binding:
  assumes "leaf_hash did pk = Inr h" "leaf_hash did' pk' = Inr h"
  shows "(did = did' \<and> pk = pk') \<or> collides (leaf_preimage did pk) (leaf_preimage did' pk')"
  using assms leaf_preimage_inject [of pk pk' did did']
  by (auto simp: leaf_hash_ok_iff collides_def)

lemma pop_message_inject:
  assumes "length c = length c'"
  shows "pop_message c did = pop_message c' did' \<longleftrightarrow> c = c' \<and> did = did'"
  using assms by (simp add: pop_message_def)

end
