(* ===== verification/Psk.thy ===== *)
theory Psk
  imports Canonical
begin

text \<open>
  fog/auth/psk.py: the store of hashed pre-shared keys and the parser of the Authorization header.
  Lemmas: the parser accepts exactly the headers of the documented form, and the store accepts a key
  exactly when its SHA-256 is the stored one.
\<close>

section \<open>String methods\<close>

text \<open>\<open>str.isspace\<close> on the code points below 256, which is what \<open>strip\<close> removes.\<close>

definition py_space :: "char \<Rightarrow> bool" where
  "py_space c = (let n = of_char c :: nat in (9 \<le> n \<and> n \<le> 13) \<or> (28 \<le> n \<and> n \<le> 32) \<or> n = 133 \<or> n = 160)"

definition py_strip :: "string \<Rightarrow> string" where
  "py_strip s = rev (dropWhile py_space (rev (dropWhile py_space s)))"

section \<open>The store\<close>

type_synonym psk_store = "(string, string) dict"

definition psk_store_init :: "(string, string) dict option \<Rightarrow> (string, string) dict option \<Rightarrow> psk_store" where
  "psk_store_init file_entries entries =
     (case entries of
        Some es \<Rightarrow> es
      | None \<Rightarrow> (case file_entries of Some es \<Rightarrow> es | None \<Rightarrow> []))"

definition hash_psk :: "string \<Rightarrow> string res" where
  "hash_psk psk_hex = (case from_hex psk_hex of Inl e \<Rightarrow> Inl e | Inr b \<Rightarrow> Inr (to_hex (sha256 b)))"

definition psk_store_len :: "psk_store \<Rightarrow> nat" where
  "psk_store_len st = length st"

text \<open>\<open>hmac.compare_digest\<close> on two \<open>str\<close>: a character outside ASCII is a \<open>TypeError\<close>.\<close>

definition is_ascii :: "string \<Rightarrow> bool" where
  "is_ascii s = list_all (\<lambda>c. (of_char c :: nat) < 128) s"

definition compare_digest :: "string \<Rightarrow> string \<Rightarrow> bool res" where
  "compare_digest a b = (if is_ascii a \<and> is_ascii b then Inr (a = b) else Inl TypeError)"

definition psk_check :: "psk_store \<Rightarrow> string \<Rightarrow> string \<Rightarrow> bool res" where
  "psk_check st provisioning_id psk_hex =
     (let stored = dict_get st provisioning_id
      in case hash_psk psk_hex of
           Inl e \<Rightarrow> if e = ValueError then Inr False else Inl e
         | Inr presented \<Rightarrow>
             (case stored of
                None \<Rightarrow> (case compare_digest presented (replicate 64 (CHR ''0'')) of Inl e \<Rightarrow> Inl e | Inr _ \<Rightarrow> Inr False)
              | Some s \<Rightarrow> compare_digest presented s))"

definition parse_authorization :: "string option \<Rightarrow> (string \<times> string) option" where
  "parse_authorization header =
     (case header of
        None \<Rightarrow> None
      | Some h \<Rightarrow>
          if h = [] then None
          else case split_once (CHR '' '') (py_strip h) of
            None \<Rightarrow> None
          | Some (scheme, rest) \<Rightarrow>
              if scheme \<noteq> ''PSK'' then None
              else case split_once (CHR '':'') rest of
                None \<Rightarrow> None
              | Some (prov_id, psk) \<Rightarrow> if prov_id = [] \<or> psk = [] then None else Some (prov_id, psk))"

section \<open>Lemmas\<close>

lemma hex_is_ascii [simp]: "is_ascii (to_hex b)"
proof -
  have "\<forall>c\<in>set hex_digits. (of_char c :: nat) < 128" by (simp add: hex_digits_def)
  with hex_chars [of b] show ?thesis by (auto simp: is_ascii_def list_all_iff)
qed

lemma hash_psk_ok_iff: "hash_psk k = Inr h \<longleftrightarrow> (\<exists>b. from_hex k = Inr b \<and> h = to_hex (sha256 b))"
  by (auto simp: hash_psk_def split: sum.splits)

lemma psk_check_True_iff:
  "psk_check st i k = Inr True \<longleftrightarrow> (\<exists>b. from_hex k = Inr b \<and> dict_get st i = Some (to_hex (sha256 b)))"
proof (cases "from_hex k")
  case (Inl e)
  then show ?thesis by (simp add: psk_check_def hash_psk_def)
next
  case (Inr b)
  then show ?thesis
    by (auto simp: psk_check_def hash_psk_def compare_digest_def split: option.splits)
qed

lemma parse_authorization_iff:
  "parse_authorization header = Some (i, k) \<longleftrightarrow>
     (\<exists>h. header = Some h \<and> py_strip h = ''PSK '' @ i @ '':'' @ k \<and> i \<noteq> [] \<and> k \<noteq> [] \<and> CHR '':'' \<notin> set i)"
proof
  assume "parse_authorization header = Some (i, k)"
  then obtain h rest where "header = Some h" "split_once (CHR '' '') (py_strip h) = Some (''PSK'', rest)"
    "split_once (CHR '':'') rest = Some (i, k)" "i \<noteq> []" "k \<noteq> []"
    by (auto simp: parse_authorization_def split: option.splits if_splits prod.splits)
  then show "\<exists>h. header = Some h \<and> py_strip h = ''PSK '' @ i @ '':'' @ k \<and> i \<noteq> [] \<and> k \<noteq> [] \<and> CHR '':'' \<notin> set i"
    by (auto simp: split_once_Some_iff)
next
  assume "\<exists>h. header = Some h \<and> py_strip h = ''PSK '' @ i @ '':'' @ k \<and> i \<noteq> [] \<and> k \<noteq> [] \<and> CHR '':'' \<notin> set i"
  then obtain h where h: "header = Some h" "py_strip h = ''PSK '' @ i @ '':'' @ k" "i \<noteq> []" "k \<noteq> []"
    "CHR '':'' \<notin> set i" by blast
  then have "split_once (CHR '' '') (py_strip h) = Some (''PSK'', i @ '':'' @ k)"
    by (simp add: split_once_Some_iff)
  moreover have "split_once (CHR '':'') (i @ '':'' @ k) = Some (i, k)"
    using h by (simp add: split_once_Some_iff)
  moreover have "h \<noteq> []" using h(2) by (auto simp: py_strip_def)
  ultimately show "parse_authorization header = Some (i, k)" using h by (simp add: parse_authorization_def)
qed

section \<open>Properties\<close>

text \<open>
  The header parser accepts exactly what its documentation describes: after stripping white space,
  \<open>PSK \<close>, a non-empty provisioning id without a colon, a colon and a non-empty key.
\<close>

theorem parse_authorization_exact:
  "parse_authorization header = Some (i, k) \<longleftrightarrow>
     (\<exists>h. header = Some h \<and> py_strip h = ''PSK '' @ i @ '':'' @ k \<and> i \<noteq> [] \<and> k \<noteq> [] \<and> CHR '':'' \<notin> set i)"
  by (rule parse_authorization_iff)

end
