(* ===== verification/Validation.thy ===== *)
theory Validation
  imports Prelude
begin

text \<open>
  fog/registration/validation.py: whether a device's metadata are accepted, with the text of every
  problem. \<open>NAME_PATTERN.match\<close> is written out: \<open>$\<close> matches at the end and before a final line feed.
  The lemma says exactly which metadata are accepted.
\<close>

record metadata_request =
  md_session_id :: string
  md_device_name :: string
  md_device_type :: string
  md_zone :: string
  md_vendor :: string
  md_role :: string

definition name_char :: "char \<Rightarrow> bool" where
  "name_char c = (let n = of_char c :: nat in (97 \<le> n \<and> n \<le> 122) \<or> (48 \<le> n \<and> n \<le> 57) \<or> n = 95)"

definition line_feed :: char where "line_feed = CHR 0x0A"
definition quote :: string where "quote = [CHR 0x27]"

definition name_matches :: "string \<Rightarrow> bool" where
  "name_matches s =
     (let body = (if s \<noteq> [] \<and> last s = line_feed then butlast s else s)
      in list_all name_char body \<and> 2 \<le> length body \<and> length body \<le> 32)"

definition allowed_roles :: "string set" where
  "allowed_roles = {''sensor'', ''actuator'', ''controller'', ''monitor''}"

definition allowed_vendors :: "string set" where
  "allowed_vendors = {''Acme'', ''Siemens'', ''Bosch'', ''ABB'', ''Honeywell''}"

text \<open>The text of \<open>sorted(ALLOWED_ROLES)\<close>.\<close>

definition allowed_roles_text :: string where
  "allowed_roles_text = ''['' @ quote @ ''actuator'' @ quote @ '', '' @ quote @ ''controller'' @ quote @ '', '' @
     quote @ ''monitor'' @ quote @ '', '' @ quote @ ''sensor'' @ quote @ '']''"

definition validate_metadata :: "metadata_request \<Rightarrow> string \<Rightarrow> string set \<Rightarrow> string list" where
  "validate_metadata meta zone allowed_types =
     (if \<not> name_matches (md_device_name meta)
      then [''device_name must be 2 to 32 chars of a to z, 0 to 9 or underscore''] else []) @
     (if md_device_type meta \<notin> allowed_types
      then [''device_type '' @ quote @ md_device_type meta @ quote @ '' is not permitted in this zone''] else []) @
     (if md_zone meta \<noteq> zone
      then [''zone '' @ quote @ md_zone meta @ quote @ '' does not match this fog'' @ quote @ ''s zone '' @
            quote @ zone @ quote] else []) @
     (if md_role meta \<notin> allowed_roles
      then [''role '' @ quote @ md_role meta @ quote @ '' is not one of '' @ allowed_roles_text] else []) @
     (if md_vendor meta \<notin> allowed_vendors
      then [''vendor '' @ quote @ md_vendor meta @ quote @ '' is not an approved vendor''] else [])"

lemma validate_metadata_ok_iff:
  "validate_metadata meta zone types = [] \<longleftrightarrow>
     name_matches (md_device_name meta) \<and> md_device_type meta \<in> types \<and> md_zone meta = zone \<and>
     md_role meta \<in> allowed_roles \<and> md_vendor meta \<in> allowed_vendors"
  by (simp add: validate_metadata_def)

text \<open>
  C37: the metadata are accepted exactly when type, zone, role and vendor are the permitted ones and the
  name is 2 to 32 characters of the permitted alphabet, or such a name followed by a line feed: the
  pattern lets one line feed through at the end.
\<close>

theorem metadata_accepted_exactly:
  "validate_metadata meta zone types = [] \<longleftrightarrow>
     (\<exists>name. (md_device_name meta = name \<or> md_device_name meta = name @ [line_feed]) \<and>
        list_all name_char name \<and> 2 \<le> length name \<and> length name \<le> 32) \<and>
     md_device_type meta \<in> types \<and> md_zone meta = zone \<and>
     md_role meta \<in> allowed_roles \<and> md_vendor meta \<in> allowed_vendors"
proof -
  have lf: "\<not> name_char line_feed" by (simp add: name_char_def line_feed_def)
  have "name_matches s \<longleftrightarrow> (\<exists>name. (s = name \<or> s = name @ [line_feed]) \<and>
        list_all name_char name \<and> 2 \<le> length name \<and> length name \<le> 32)" for s
  proof (cases "s \<noteq> [] \<and> last s = line_feed")
    case True
    then obtain t where "s = t @ [line_feed]" by (metis append_butlast_last_id)
    with lf show ?thesis by (auto simp: name_matches_def)
  next
    case False
    then show ?thesis by (auto simp: name_matches_def)
  qed
  then show ?thesis unfolding validate_metadata_ok_iff by simp
qed

end
