(* ===== verification/Crypto.thy ===== *)
theory Crypto
  imports Canonical
begin

text \<open>
  common/crypto_utils.py over the third-party package \<open>cryptography\<close>. The package is a parameter of
  the model: a record \<open>'sk platform\<close> with the compressed public point of a private key, whether bytes
  decode to a point of the curve, the signature under a private key (ECDSA is randomised: the number
  is the randomness of the call), and the check of a signature under a point. The record also holds
  conversions of the runtime: the text of a \<open>float\<close> that canonical JSON uses, \<open>str\<close> of a JSON value,
  \<open>float\<close> of a text, and the coercion pydantic applies to an \<open>int\<close> field.
  \<open>ecdsa_ok\<close> is what the package documents and the code relies on: a public point decodes, is 33 bytes
  long, and verifies what its private key signs. Nothing states that signatures cannot be forged;
  theorems about accepted requests conclude that the check succeeded under a named key for a message
  that determines the request.
\<close>

record 'sk platform =
  ec_public :: "'sk \<Rightarrow> bytes"
  ec_point :: "bytes \<Rightarrow> bool"
  ec_sign :: "'sk \<Rightarrow> nat \<Rightarrow> bytes \<Rightarrow> bytes"
  ec_check :: "bytes \<Rightarrow> bytes \<Rightarrow> bytes \<Rightarrow> bool"
  float_repr :: "rat \<Rightarrow> string"
  py_str :: "json \<Rightarrow> string"
  float_of_text :: "string \<Rightarrow> rat option"
  lax_int :: "json \<Rightarrow> int option"

definition ecdsa_ok :: "'sk platform \<Rightarrow> bool" where
  "ecdsa_ok P \<longleftrightarrow>
     (\<forall>sk. ec_point P (ec_public P sk) \<and> length (ec_public P sk) = compressed_pk_len \<and>
       (\<forall>n m. ec_check P (ec_public P sk) m (ec_sign P sk n m)))"

definition platform_ok :: "'sk platform \<Rightarrow> bool" where
  "platform_ok P \<longleftrightarrow> ecdsa_ok P \<and> float_repr_ok (float_repr P)"

text \<open>\<open>str\<close> is the identity on strings and the decimal numeral on integers; pydantic keeps an integer.\<close>

definition runtime_ok :: "'sk platform \<Rightarrow> bool" where
  "runtime_ok P \<longleftrightarrow> (\<forall>s. py_str P (JStr s) = s) \<and> (\<forall>i. py_str P (JInt i) = str_int i) \<and>
     (\<forall>i. lax_int P (JInt i) = Some i)"

abbreviation cjson :: "'sk platform \<Rightarrow> json \<Rightarrow> bytes" where
  "cjson P v \<equiv> canonical_json (float_repr P) v"

definition did_prefix :: string where
  "did_prefix = ''did:iiot:''"

definition public_key_bytes :: "'sk platform \<Rightarrow> 'sk \<Rightarrow> bytes" where
  "public_key_bytes P key = ec_public P key"

definition load_public_key :: "'sk platform \<Rightarrow> bytes \<Rightarrow> bytes res" where
  "load_public_key P pk_bytes = (if ec_point P pk_bytes then Inr pk_bytes else Inl ValueError)"

definition sign :: "'sk platform \<Rightarrow> 'sk \<Rightarrow> nat \<Rightarrow> bytes \<Rightarrow> bytes" where
  "sign P private_key n message = ec_sign P private_key n message"

text \<open>\<open>except (InvalidSignature, ValueError, TypeError): return False\<close>\<close>

definition verify :: "'sk platform \<Rightarrow> bytes \<Rightarrow> bytes \<Rightarrow> bytes \<Rightarrow> bool" where
  "verify P pk_bytes message signature =
     (case load_public_key P pk_bytes of
        Inl _ \<Rightarrow> False
      | Inr key \<Rightarrow> ec_check P key message signature)"

definition derive_did :: "bytes \<Rightarrow> string" where
  "derive_did pk_bytes = did_prefix @ take 16 (to_hex (sha256 pk_bytes))"

lemma verify_iff: "verify P pk m s \<longleftrightarrow> ec_point P pk \<and> ec_check P pk m s"
  by (simp add: verify_def load_public_key_def)

lemma verify_sign: "ecdsa_ok P \<Longrightarrow> verify P (public_key_bytes P sk) m (sign P sk n m)"
  by (simp add: verify_iff sign_def public_key_bytes_def ecdsa_ok_def)

lemma length_public_key: "ecdsa_ok P \<Longrightarrow> length (public_key_bytes P sk) = compressed_pk_len"
  by (simp add: ecdsa_ok_def public_key_bytes_def)

lemma derive_did_prefix [simp]: "starts_with ''did:iiot:'' (derive_did pk)"
  by (simp add: starts_with_def derive_did_def did_prefix_def)

lemma length_derive_did: "length (derive_did pk) = 25"
  by (simp add: derive_did_def did_prefix_def)

lemma leaf_hash_derived:
  "length pk = compressed_pk_len \<Longrightarrow> leaf_hash (derive_did pk) pk = Inr (sha256 (leaf_preimage (derive_did pk) pk))"
  by (simp add: leaf_hash_ok_iff)

section \<open>A concrete instance for the witnesses\<close>

text \<open>
  Not a model of ECDSA: a signature is the key, then the message. It satisfies \<open>platform_ok\<close>, so the
  hypothesis can hold, and it evaluates.
\<close>

definition toy_float_repr :: "rat \<Rightarrow> string" where
  "toy_float_repr r = (case quotient_of r of (p, q) \<Rightarrow> str_int p @ CHR ''.'' # str_int q)"

lemma toy_float_repr_ok: "float_repr_ok toy_float_repr"
proof -
  have no_point: "CHR ''.'' \<notin> set (str_int i)" for i
    using str_int_chars [of i] by (auto simp: dec_digits_def)
  have "r = s" if eq: "toy_float_repr r = toy_float_repr s" for r s
  proof -
    obtain p q p' q' where qs: "quotient_of r = (p, q)" "quotient_of s = (p', q')" by fastforce
    have *: "takeWhile (\<lambda>c. c \<noteq> CHR ''.'') (str_int i @ CHR ''.'' # t) = str_int i" for i t
      using no_point [of i] by (subst takeWhile_append2) auto
    from eq qs have e: "str_int p @ CHR ''.'' # str_int q = str_int p' @ CHR ''.'' # str_int q'"
      by (simp add: toy_float_repr_def)
    then have "p = p'" using * [of p] * [of p'] by (metis str_int_inject)
    with e have "q = q'" by simp
    with \<open>p = p'\<close> qs show ?thesis by (metis quotient_of_inject)
  qed
  moreover have "set (toy_float_repr r) \<subseteq> number_chars" for r
    using str_int_number by (auto simp: toy_float_repr_def number_chars_def split: prod.split)
  ultimately show ?thesis
    by (auto simp: float_repr_ok_def inj_def toy_float_repr_def split: prod.split)
qed

fun toy_str :: "json \<Rightarrow> string" where
  "toy_str (JStr s) = s"
| "toy_str (JInt i) = str_int i"
| "toy_str _ = ''None''"

definition toy_platform :: "byte platform" where
  "toy_platform = \<lparr>ec_public = (\<lambda>sk. replicate 33 sk), ec_point = (\<lambda>pk. length pk = 33),
     ec_sign = (\<lambda>sk n m. sk # m), ec_check = (\<lambda>pk m s. s = hd pk # m),
     float_repr = toy_float_repr, py_str = toy_str, float_of_text = (\<lambda>_. None),
     lax_int = (\<lambda>v. case v of JInt i \<Rightarrow> Some i | _ \<Rightarrow> None)\<rparr>"

lemma toy_runtime_ok: "runtime_ok toy_platform"
  by (simp add: runtime_ok_def toy_platform_def)

lemma toy_platform_ok: "platform_ok toy_platform"
  by (simp add: platform_ok_def ecdsa_ok_def toy_platform_def compressed_pk_len_def numeral_eq_Suc toy_float_repr_ok)

end
