(* ===== verification/Stores.thy ===== *)
theory Stores
  imports Canonical
begin

text \<open>
  fog/storage/device_store.py with the shapes of common/schemas.py it stores: the session store and
  the device store. Both are dictionaries; a session or a device record that the code updates in
  place is stored back under its key. \<open>time.time()\<close> and \<open>secrets.token_hex\<close> are arguments.
  Lemmas: the store invariants (keys agree with the records) and lookups after every operation. The
  session states are a linear order, the one the comment of the source gives.
\<close>

section \<open>Sessions\<close>

datatype session_state = AUTHENTICATED | KEY_SUBMITTED | POP_VERIFIED | METADATA_ACCEPTED

fun state_rank :: "session_state \<Rightarrow> nat" where
  "state_rank AUTHENTICATED = 0"
| "state_rank KEY_SUBMITTED = 1"
| "state_rank POP_VERIFIED = 2"
| "state_rank METADATA_ACCEPTED = 3"

lemma state_rank_inject [simp]: "state_rank s = state_rank t \<longleftrightarrow> s = t"
  by (cases s; cases t) simp_all

instantiation session_state :: linorder
begin

definition less_eq_session_state :: "session_state \<Rightarrow> session_state \<Rightarrow> bool" where
  "less_eq_session_state s t \<longleftrightarrow> state_rank s \<le> state_rank t"

definition less_session_state :: "session_state \<Rightarrow> session_state \<Rightarrow> bool" where
  "less_session_state s t \<longleftrightarrow> state_rank s < state_rank t"

instance
proof
  show "x = y" if "x \<le> y" "y \<le> x" for x y :: session_state
    using that state_rank_inject [of x y] unfolding less_eq_session_state_def by linarith
qed (auto simp: less_eq_session_state_def less_session_state_def)

end

fun state_text :: "session_state \<Rightarrow> string" where
  "state_text AUTHENTICATED = ''AUTHENTICATED''"
| "state_text KEY_SUBMITTED = ''KEY_SUBMITTED''"
| "state_text POP_VERIFIED = ''POP_VERIFIED''"
| "state_text METADATA_ACCEPTED = ''METADATA_ACCEPTED''"

record session =
  ss_session_id :: string
  ss_provisioning_id :: string
  ss_created_at :: time
  ss_state :: session_state
  ss_did :: "string option"
  ss_public_key :: "string option"
  ss_challenge :: "string option"
  ss_challenge_expires :: time
  ss_challenge_used :: bool
  ss_timings :: "(string, time) dict"

record session_store =
  st_ttl :: int
  st_sessions :: "(string, session) dict"

definition new_session :: "string \<Rightarrow> string \<Rightarrow> time \<Rightarrow> session" where
  "new_session session_id provisioning_id created_at =
     \<lparr>ss_session_id = session_id, ss_provisioning_id = provisioning_id, ss_created_at = created_at,
      ss_state = AUTHENTICATED, ss_did = None, ss_public_key = None, ss_challenge = None,
      ss_challenge_expires = 0, ss_challenge_used = True, ss_timings = []\<rparr>"

definition session_store_init :: "int \<Rightarrow> session_store" where
  "session_store_init ttl_seconds = \<lparr>st_ttl = ttl_seconds, st_sessions = []\<rparr>"

text \<open>\<open>rnd\<close> are the 16 random bytes of \<open>secrets.token_hex(16)\<close>.\<close>

definition session_create :: "bytes \<Rightarrow> time \<Rightarrow> string \<Rightarrow> session_store \<Rightarrow> session \<times> session_store" where
  "session_create rnd now provisioning_id st =
     (let s = new_session (to_hex rnd) provisioning_id now
      in (s, st\<lparr>st_sessions := dict_set (ss_session_id s) s (st_sessions st)\<rparr>))"

definition session_get :: "time \<Rightarrow> string \<Rightarrow> session_store \<Rightarrow> session option \<times> session_store" where
  "session_get now session_id st =
     (case dict_get (st_sessions st) session_id of
        None \<Rightarrow> (None, st)
      | Some s \<Rightarrow>
          if now > ss_created_at s + of_int (st_ttl st)
          then (None, st\<lparr>st_sessions := AList.delete session_id (st_sessions st)\<rparr>)
          else (Some s, st))"

definition did_in_use :: "session_store \<Rightarrow> string \<Rightarrow> string \<Rightarrow> bool" where
  "did_in_use st did exclude_session =
     list_ex (\<lambda>(_, s). ss_did s = Some did \<and> ss_session_id s \<noteq> exclude_session \<and> ss_state s \<noteq> AUTHENTICATED)
       (st_sessions st)"

text \<open>In-place updates of a session found by \<open>get\<close>.\<close>

definition session_put :: "session \<Rightarrow> session_store \<Rightarrow> session_store" where
  "session_put s st = st\<lparr>st_sessions := dict_set (ss_session_id s) s (st_sessions st)\<rparr>"

section \<open>Devices\<close>

datatype device_status = PENDING | TOKENIZED | REGISTERED | REVOKED

fun status_text :: "device_status \<Rightarrow> string" where
  "status_text PENDING = ''PENDING''"
| "status_text TOKENIZED = ''TOKENIZED''"
| "status_text REGISTERED = ''REGISTERED''"
| "status_text REVOKED = ''REVOKED''"

record device_record =
  dr_did :: string
  dr_public_key :: string
  dr_status :: device_status
  dr_device_name :: "string option"
  dr_device_type :: "string option"
  dr_zone :: "string option"
  dr_vendor :: "string option"
  dr_role :: "string option"
  dr_leaf :: "string option"
  dr_epoch_id :: "int option"

type_synonym device_store = "(string, device_record) dict"

definition new_device :: "string \<Rightarrow> string \<Rightarrow> device_status \<Rightarrow> device_record" where
  "new_device did public_key status =
     \<lparr>dr_did = did, dr_public_key = public_key, dr_status = status, dr_device_name = None, dr_device_type = None,
      dr_zone = None, dr_vendor = None, dr_role = None, dr_leaf = None, dr_epoch_id = None\<rparr>"

definition device_upsert :: "device_record \<Rightarrow> device_store \<Rightarrow> device_store" where
  "device_upsert record st = dict_set (dr_did record) record st"

definition device_get :: "device_store \<Rightarrow> string \<Rightarrow> device_record option" where
  "device_get st did = dict_get st did"

definition device_exists :: "device_store \<Rightarrow> string \<Rightarrow> bool" where
  "device_exists st did = (dict_get st did \<noteq> None)"

definition set_status :: "string \<Rightarrow> device_status \<Rightarrow> device_store \<Rightarrow> device_store" where
  "set_status did status st =
     (case dict_get st did of None \<Rightarrow> st | Some d \<Rightarrow> dict_set did (d\<lparr>dr_status := status\<rparr>) st)"

definition by_status :: "device_store \<Rightarrow> device_status \<Rightarrow> device_record list" where
  "by_status st status = filter (\<lambda>d. dr_status d = status) (map snd st)"

definition all_devices :: "device_store \<Rightarrow> device_record list" where
  "all_devices st = map snd st"

section \<open>Invariants\<close>

definition sessions_ok :: "session_store \<Rightarrow> bool" where
  "sessions_ok st \<longleftrightarrow> dict_ok (st_sessions st) \<and> (\<forall>(k, s)\<in>set (st_sessions st). ss_session_id s = k)"

definition devices_ok :: "device_store \<Rightarrow> bool" where
  "devices_ok st \<longleftrightarrow> dict_ok st \<and> (\<forall>(k, d)\<in>set st. dr_did d = k)"

lemma sessions_ok_get: "sessions_ok st \<Longrightarrow> dict_get (st_sessions st) k = Some s \<Longrightarrow> ss_session_id s = k"
  by (auto simp: sessions_ok_def dest!: map_of_SomeD)

lemma devices_ok_get: "devices_ok st \<Longrightarrow> dict_get st k = Some d \<Longrightarrow> dr_did d = k"
  by (auto simp: devices_ok_def dest!: map_of_SomeD)

lemma set_update: "dict_ok d \<Longrightarrow> set (dict_set k v d) = insert (k, v) {p \<in> set d. fst p \<noteq> k}"
  by (induction d) (auto simp: image_iff)

lemma sessions_ok_put: "sessions_ok st \<Longrightarrow> sessions_ok (session_put s st)"
  by (auto simp: sessions_ok_def session_put_def set_update)

lemma sessions_ok_create: "sessions_ok st \<Longrightarrow> session_create rnd now p st = (s, st') \<Longrightarrow> sessions_ok st'"
  by (auto simp: sessions_ok_def session_create_def set_update Let_def)

lemma distinct_delete: "dict_ok d \<Longrightarrow> dict_ok (AList.delete k d)"
  by (rule AList.distinct_delete)

lemma sessions_ok_lookup: "sessions_ok st \<Longrightarrow> session_get now k st = (r, st') \<Longrightarrow> sessions_ok st'"
  by (auto simp: sessions_ok_def session_get_def distinct_delete AList.delete_eq split: option.splits if_splits)

lemma devices_ok_upsert: "devices_ok st \<Longrightarrow> devices_ok (device_upsert d st)"
  by (auto simp: devices_ok_def device_upsert_def set_update)

lemma devices_ok_set: "devices_ok st \<Longrightarrow> dr_did d = k \<Longrightarrow> devices_ok (dict_set k d st)"
  by (auto simp: devices_ok_def set_update)

lemma devices_ok_status: "devices_ok st \<Longrightarrow> devices_ok (set_status did s st)"
  using devices_ok_get [of st did] by (auto simp: set_status_def intro!: devices_ok_set split: option.split)

lemma session_get_Some_iff:
  "session_get now k st = (Some s, st') \<longleftrightarrow>
     dict_get (st_sessions st) k = Some s \<and> now \<le> ss_created_at s + of_int (st_ttl st) \<and> st' = st"
  by (auto simp: session_get_def split: option.splits)

lemma device_get_status:
  "dict_get (set_status did s st) k =
     (if k = did then map_option (\<lambda>d. d\<lparr>dr_status := s\<rparr>) (dict_get st k) else dict_get st k)"
  by (auto simp: set_status_def dict_simps split: option.split)

lemma by_status_iff: "devices_ok st \<Longrightarrow> d \<in> set (by_status st s) \<longleftrightarrow> dict_get st (dr_did d) = Some d \<and> dr_status d = s"
  by (auto simp: by_status_def devices_ok_def image_iff dest!: map_of_SomeD) force

end
