(* ===== verification/Pop.thy ===== *)
theory Pop
  imports Crypto Stores
begin

text \<open>
  fog/registration/pop.py: the challenge of a proof of possession. \<open>verify_pop\<close> updates the session in
  place, also when it raises or fails, so its model returns the session beside the result.
  Lemmas: the challenge is consumed on the first attempt whatever the outcome, and exactly when a proof
  passes.
\<close>

definition issue_challenge :: "bytes \<Rightarrow> time \<Rightarrow> int \<Rightarrow> session \<Rightarrow> string \<times> session" where
  "issue_challenge rnd now ttl_seconds s =
     (let challenge = to_hex rnd
      in (challenge, s\<lparr>ss_challenge := Some challenge, ss_challenge_expires := now + of_int ttl_seconds,
                       ss_challenge_used := False\<rparr>))"

text \<open>\<open>pop_message(bytes.fromhex(session.challenge), session.did)\<close> and the check, on optional fields.\<close>

definition pop_fields :: "session \<Rightarrow> (bytes \<times> bytes) res" where
  "pop_fields s =
     (case ss_challenge s of
        None \<Rightarrow> Inl TypeError
      | Some ch \<Rightarrow>
          (case from_hex ch of
             Inl e \<Rightarrow> Inl e
           | Inr cb \<Rightarrow>
               (case ss_did s of
                  None \<Rightarrow> Inl AttributeError
                | Some did \<Rightarrow>
                    (case ss_public_key s of
                       None \<Rightarrow> Inl TypeError
                     | Some pk_hex \<Rightarrow>
                         (case from_hex pk_hex of Inl e \<Rightarrow> Inl e | Inr pk \<Rightarrow> Inr (pk, pop_message cb did))))))"

definition verify_pop :: "'sk platform \<Rightarrow> time \<Rightarrow> string \<Rightarrow> session \<Rightarrow> (bool \<times> string) res \<times> session" where
  "verify_pop P now signature_hex s =
     (if ss_challenge s = None \<or> ss_challenge_used s
      then (Inr (False, ''no active challenge (already used or never issued)''), s)
      else
        let s' = s\<lparr>ss_challenge_used := True\<rparr>
        in if now > ss_challenge_expires s' then (Inr (False, ''challenge expired''), s')
           else case from_hex signature_hex of
             Inl _ \<Rightarrow> (Inr (False, ''signature is not valid hex''), s')
           | Inr signature \<Rightarrow>
               (case pop_fields s' of
                  Inl e \<Rightarrow> (Inl e, s')
                | Inr (pk, message) \<Rightarrow>
                    if \<not> verify P pk message signature
                    then (Inr (False, ''signature does not verify with the submitted public key''), s')
                    else (Inr (True, ''signature valid''), s')))"

lemma pop_fields_used [simp]: "pop_fields (s\<lparr>ss_challenge_used := b\<rparr>) = pop_fields s"
  by (simp add: pop_fields_def split: option.split sum.split)

lemma verify_pop_session:
  "verify_pop P now sg s = (r, s') \<Longrightarrow>
     s' = (if ss_challenge s = None then s else s\<lparr>ss_challenge_used := True\<rparr>)"
  by (cases s) (auto simp: verify_pop_def Let_def split: if_splits sum.splits prod.splits option.splits)

lemma verify_pop_passes_iff:
  "fst (verify_pop P now sg s) = Inr (True, r) \<longleftrightarrow>
     r = ''signature valid'' \<and> ss_challenge s \<noteq> None \<and> \<not> ss_challenge_used s \<and> now \<le> ss_challenge_expires s \<and>
     (\<exists>signature pk message. from_hex sg = Inr signature \<and> pop_fields s = Inr (pk, message) \<and>
        verify P pk message signature)"
  by (auto simp: verify_pop_def Let_def split: sum.split prod.split)

lemma pop_fields_ok_iff:
  "pop_fields s = Inr (pk, m) \<longleftrightarrow>
     (\<exists>ch cb did pk_hex. ss_challenge s = Some ch \<and> from_hex ch = Inr cb \<and> ss_did s = Some did \<and>
        ss_public_key s = Some pk_hex \<and> from_hex pk_hex = Inr pk \<and> m = pop_message cb did)"
  by (auto simp: pop_fields_def split: option.splits sum.splits)

text \<open>The fields that \<open>/register/pubkey\<close> sets: with them, \<open>verify_pop\<close> does not raise.\<close>

definition key_submitted_ok :: "session \<Rightarrow> bool" where
  "key_submitted_ok s \<longleftrightarrow>
     (\<exists>rnd did pk_hex pk. ss_challenge s = Some (to_hex rnd) \<and> ss_did s = Some did \<and>
        ss_public_key s = Some pk_hex \<and> from_hex pk_hex = Inr pk \<and> length pk = compressed_pk_len \<and>
        did = derive_did pk)"

lemma key_submitted_fields:
  "key_submitted_ok s \<Longrightarrow> \<exists>rnd did pk. ss_challenge s = Some (to_hex rnd) \<and> ss_did s = Some did \<and>
     pop_fields s = Inr (pk, pop_message rnd did)"
  by (auto simp: key_submitted_ok_def pop_fields_def)

lemma verify_pop_no_raise: "key_submitted_ok s \<Longrightarrow> is_ok (fst (verify_pop P now sg s))"
  using key_submitted_fields [of s]
  by (auto simp: verify_pop_def Let_def split: sum.split)

section \<open>Properties\<close>

text \<open>
  A challenge is single use. Whatever happens at an attempt (a wrong signature, an expired
  challenge, a signature that is no hex, even an exception), the next attempt on the session, at any
  time and with any signature, is refused with the text for a challenge already used.
\<close>

lemma challenge_single_use:
  "fst (verify_pop P now' sg' (snd (verify_pop P now sg s))) =
     Inr (False, ''no active challenge (already used or never issued)'')"
proof -
  obtain r s' where "verify_pop P now sg s = (r, s')" by fastforce
  from this verify_pop_session [OF this] show ?thesis
    by (auto simp: verify_pop_def split: if_splits)
qed

text \<open>
  A proof of possession passes exactly when the session has an unused challenge that has not
  expired and the signature, decoded from hex, verifies under the session's public key over the
  message made of that challenge and the session's DID; a second session with a challenge of the same
  length has that message only with the same challenge and DID.
\<close>

theorem pop_passes_exactly:
  "(\<exists>reason. fst (verify_pop P now sg s) = Inr (True, reason)) \<longleftrightarrow>
     (\<exists>ch cb did pk_hex pk signature. ss_challenge s = Some ch \<and> \<not> ss_challenge_used s \<and>
        now \<le> ss_challenge_expires s \<and> from_hex ch = Inr cb \<and> ss_did s = Some did \<and> ss_public_key s = Some pk_hex \<and>
        from_hex pk_hex = Inr pk \<and> from_hex sg = Inr signature \<and>
        verify P pk (pop_context @ separator @ cb @ separator @ encode_utf8 did) signature)"
  unfolding verify_pop_passes_iff pop_fields_ok_iff pop_message_def by auto

end
