(* ===== verification/Merkle.thy ===== *)
theory Merkle
  imports Canonical "HOL-Library.Multiset"
begin

text \<open>
  fog/merkle/merkle_tree.py: the Merkle tree over device leaves. The constructor with its checks,
  the level-by-level build that promotes an unpaired last node, the inclusion proof of a leaf, and
  the verifier, which receives untrusted JSON and never raises.
  Lemmas: the build never fails on 32-byte leaves, every leaf has a proof that the verifier accepts,
  an accepted proof comes from a node of the tree unless SHA-256 collides, the root depends on the
  set of leaves only, the height is the binary logarithm rounded up, and the root is the one of the
  recursive split at the largest power of two (RFC 6962).
\<close>

section \<open>The tree\<close>

datatype hex_or_bytes = Hex string | Raw bytes

fun as_bytes :: "hex_or_bytes \<Rightarrow> bytes res" where
  "as_bytes (Raw b) = Inr b"
| "as_bytes (Hex s) = from_hex s"

record merkle_tree =
  mt_leaves :: "bytes list"
  mt_index :: "(bytes, nat) dict"
  mt_levels :: "bytes list list"

text \<open>One pass of the \<open>for\<close> loop of \<open>_build\<close>.\<close>

fun next_level :: "bytes list \<Rightarrow> bytes list res" where
  "next_level [] = Inr []"
| "next_level [x] = Inr [x]"
| "next_level (x # y # xs) =
     (case node_hash x y of
        Inl e \<Rightarrow> Inl e
      | Inr h \<Rightarrow> (case next_level xs of Inl e \<Rightarrow> Inl e | Inr hs \<Rightarrow> Inr (h # hs)))"

lemma next_level_length: "next_level xs = Inr ys \<Longrightarrow> length ys = (length xs + 1) div 2"
  by (induction xs arbitrary: ys rule: next_level.induct) (auto split: sum.splits)

function build :: "bytes list \<Rightarrow> bytes list list res" where
  "build current =
     (if length current > 1 then
        (case next_level current of
           Inl e \<Rightarrow> Inl e
         | Inr nxt \<Rightarrow> (case build nxt of Inl e \<Rightarrow> Inl e | Inr levels \<Rightarrow> Inr (current # levels)))
      else Inr [current])"
  by pat_completeness auto
termination
  by (relation "measure length") (auto dest!: next_level_length sym [of _ "next_level _"])

declare build.simps [simp del]

definition index_leaves :: "bytes list \<Rightarrow> (bytes, nat) dict" where
  "index_leaves ls = foldl (\<lambda>d (i, leaf). dict_set leaf i d) [] (enumerate 0 ls)"

definition merkle_init :: "bytes list \<Rightarrow> bool \<Rightarrow> merkle_tree res" where
  "merkle_init leaves do_sort =
     (if length leaves = 0 then Inl ValueError
      else if \<exists>leaf\<in>set leaves. length leaf \<noteq> hash_len then Inl ValueError
      else if length (remdups leaves) \<noteq> length leaves then Inl ValueError
      else let ls = (if do_sort then sort leaves else leaves)
           in case build ls of
                Inl e \<Rightarrow> Inl e
              | Inr levels \<Rightarrow> Inr \<lparr>mt_leaves = ls, mt_index = index_leaves ls, mt_levels = levels\<rparr>)"

definition mt_root :: "merkle_tree \<Rightarrow> bytes" where
  "mt_root t = last (mt_levels t) ! 0"

definition mt_root_hex :: "merkle_tree \<Rightarrow> string" where
  "mt_root_hex t = to_hex (mt_root t)"

definition mt_size :: "merkle_tree \<Rightarrow> nat" where
  "mt_size t = length (mt_leaves t)"

definition mt_height :: "merkle_tree \<Rightarrow> nat" where
  "mt_height t = length (mt_levels t) - 1"

definition mt_contains :: "merkle_tree \<Rightarrow> hex_or_bytes \<Rightarrow> bool res" where
  "mt_contains t leaf =
     (case as_bytes leaf of Inl e \<Rightarrow> Inl e | Inr b \<Rightarrow> Inr (dict_get (mt_index t) b \<noteq> None))"

definition index_of :: "merkle_tree \<Rightarrow> hex_or_bytes \<Rightarrow> nat res" where
  "index_of t leaf =
     (case as_bytes leaf of
        Inl e \<Rightarrow> Inl e
      | Inr b \<Rightarrow> (case dict_get (mt_index t) b of None \<Rightarrow> Inl KeyError | Some i \<Rightarrow> Inr i))"

section \<open>Proofs\<close>

definition proof_step :: "bytes \<Rightarrow> string \<Rightarrow> json" where
  "proof_step sibling side = JObj [(''sibling'', JStr (to_hex sibling)), (''side'', JStr side)]"

text \<open>The loop of \<open>get_proof\<close> over \<open>levels[:-1]\<close>.\<close>

fun proof_steps :: "nat \<Rightarrow> bytes list list \<Rightarrow> json list" where
  "proof_steps index [] = []"
| "proof_steps index (level # levels) =
     (let sibling = index XOR 1
      in (if sibling < length level
          then [proof_step (level ! sibling) (if sibling < index then ''L'' else ''R'')] else []) @
         proof_steps (index div 2) levels)"

definition get_proof :: "merkle_tree \<Rightarrow> hex_or_bytes \<Rightarrow> json list res" where
  "get_proof t leaf =
     (case index_of t leaf of
        Inl e \<Rightarrow> Inl e
      | Inr index \<Rightarrow> Inr (proof_steps index (butlast (mt_levels t))))"

text \<open>\<open>step[key]\<close> on a JSON value, and \<open>_as_bytes\<close> of the value found.\<close>

fun json_item :: "json \<Rightarrow> string \<Rightarrow> json res" where
  "json_item (JObj d) k = (case dict_get d k of None \<Rightarrow> Inl KeyError | Some v \<Rightarrow> Inr v)"
| "json_item _ k = Inl TypeError"

fun json_as_bytes :: "json \<Rightarrow> bytes res" where
  "json_as_bytes (JStr s) = from_hex s"
| "json_as_bytes _ = Inl TypeError"

text \<open>
  The loop of \<open>reconstruct_root\<close>: \<open>Inl\<close> is an exception, \<open>Inr None\<close> an early \<open>return None\<close>.
\<close>

fun climb :: "bytes \<Rightarrow> json list \<Rightarrow> bytes option res" where
  "climb current [] = Inr (Some current)"
| "climb current (step # steps) =
     (case json_item step ''sibling'' of
        Inl e \<Rightarrow> Inl e
      | Inr v \<Rightarrow>
          (case json_as_bytes v of
             Inl e \<Rightarrow> Inl e
           | Inr sibling \<Rightarrow>
               if length sibling \<noteq> hash_len then Inr None
               else (case json_item step ''side'' of
                       Inl e \<Rightarrow> Inl e
                     | Inr side \<Rightarrow>
                         if side = JStr ''L'' then
                           (case node_hash sibling current of Inl e \<Rightarrow> Inl e | Inr h \<Rightarrow> climb h steps)
                         else if side = JStr ''R'' then
                           (case node_hash current sibling of Inl e \<Rightarrow> Inl e | Inr h \<Rightarrow> climb h steps)
                         else Inr None)))"

definition caught_by_verifier :: "exn \<Rightarrow> bool" where
  "caught_by_verifier e \<longleftrightarrow> e = ValueError \<or> e = KeyError \<or> e = TypeError"

definition reconstruct_root :: "hex_or_bytes \<Rightarrow> json list \<Rightarrow> bytes option res" where
  "reconstruct_root leaf proof_path =
     (case (case as_bytes leaf of
              Inl e \<Rightarrow> Inl e
            | Inr current \<Rightarrow> if length current \<noteq> hash_len then Inr None else climb current proof_path) of
        Inl e \<Rightarrow> if caught_by_verifier e then Inr None else Inl e
      | Inr r \<Rightarrow> Inr r)"

definition verify_proof :: "hex_or_bytes \<Rightarrow> json list \<Rightarrow> hex_or_bytes \<Rightarrow> bool res" where
  "verify_proof leaf proof_path trusted =
     (case as_bytes trusted of
        Inl e \<Rightarrow> if e = ValueError \<or> e = TypeError then Inr False else Inl e
      | Inr expected \<Rightarrow>
          if length expected \<noteq> hash_len then Inr False
          else (case reconstruct_root leaf proof_path of
                  Inl e \<Rightarrow> Inl e
                | Inr reconstructed \<Rightarrow> Inr (reconstructed = Some expected)))"

definition compute_root :: "bytes list \<Rightarrow> bytes res" where
  "compute_root leaves =
     (case merkle_init leaves True of Inl e \<Rightarrow> Inl e | Inr t \<Rightarrow> Inr (mt_root t))"


section \<open>The build succeeds on 32-byte leaves\<close>

text \<open>The same levels without the length checks.\<close>

definition node :: "bytes \<Rightarrow> bytes \<Rightarrow> bytes" where
  "node a b = sha256 (node_preimage a b)"

fun pairs :: "bytes list \<Rightarrow> bytes list" where
  "pairs [] = []"
| "pairs [x] = [x]"
| "pairs (x # y # xs) = node x y # pairs xs"

abbreviation hashes :: "bytes list \<Rightarrow> bool" where
  "hashes xs \<equiv> \<forall>x\<in>set xs. length x = hash_len"

lemma length_node [simp]: "length (node a b) = hash_len"
  by (simp add: node_def hash_len_def)

lemma node_hash_node: "length a = hash_len \<Longrightarrow> length b = hash_len \<Longrightarrow> node_hash a b = Inr (node a b)"
  by (simp add: node_hash_ok node_def)

lemma length_pairs: "length (pairs xs) = (length xs + 1) div 2"
  by (induction xs rule: pairs.induct) auto

lemma hashes_pairs: "hashes xs \<Longrightarrow> hashes (pairs xs)"
  by (induction xs rule: pairs.induct) auto

lemma pairs_empty_iff [simp]: "pairs xs = [] \<longleftrightarrow> xs = []"
  by (cases xs rule: pairs.cases) auto

lemma next_level_pairs: "hashes xs \<Longrightarrow> next_level xs = Inr (pairs xs)"
  by (induction xs rule: pairs.induct) (auto simp: node_hash_node)

function levels_of :: "bytes list \<Rightarrow> bytes list list" where
  "levels_of xs = (if length xs > 1 then xs # levels_of (pairs xs) else [xs])"
  by pat_completeness auto
termination
  by (relation "measure length") (auto simp: length_pairs)

declare levels_of.simps [simp del]

lemma levels_of_small: "length xs \<le> 1 \<Longrightarrow> levels_of xs = [xs]"
  by (subst levels_of.simps) simp

lemma levels_of_large: "length xs > 1 \<Longrightarrow> levels_of xs = xs # levels_of (pairs xs)"
  by (subst levels_of.simps) simp

lemma levels_of_nonempty [simp]: "levels_of xs \<noteq> []"
  by (subst levels_of.simps) simp

lemma hd_levels_of: "hd (levels_of xs) = xs"
  by (subst levels_of.simps) simp

lemma build_levels: "hashes xs \<Longrightarrow> build xs = Inr (levels_of xs)"
proof (induction xs rule: levels_of.induct)
  case (1 xs)
  show ?case
  proof (cases "length xs > 1")
    case True
    with 1 show ?thesis
      using hashes_pairs [OF 1(2)]
      by (simp add: build.simps [of xs] levels_of_large next_level_pairs)
  next
    case False
    then show ?thesis by (simp add: build.simps [of xs] levels_of_small)
  qed
qed

definition merkle_root :: "bytes list \<Rightarrow> bytes" where
  "merkle_root xs = last (levels_of xs) ! 0"

lemma merkle_root_single: "merkle_root [x] = x"
  by (simp add: merkle_root_def levels_of_small)

lemma merkle_root_pairs: "length xs > 1 \<Longrightarrow> merkle_root xs = merkle_root (pairs xs)"
  by (simp add: merkle_root_def levels_of_large)

lemma length_merkle_root: "hashes xs \<Longrightarrow> xs \<noteq> [] \<Longrightarrow> length (merkle_root xs) = hash_len"
proof (induction xs rule: levels_of.induct)
  case (1 xs)
  show ?case
  proof (cases "length xs > 1")
    case True
    with 1 show ?thesis using hashes_pairs [OF 1(2)] by (simp add: merkle_root_pairs)
  next
    case False
    with 1 obtain x where "xs = [x]" by (cases xs) auto
    with 1 show ?thesis by (simp add: merkle_root_single)
  qed
qed

definition well_formed_leaves :: "bytes list \<Rightarrow> bool" where
  "well_formed_leaves leaves \<longleftrightarrow> leaves \<noteq> [] \<and> hashes leaves \<and> distinct leaves"

lemma merkle_init_ok_iff:
  "merkle_init leaves do_sort = Inr t \<longleftrightarrow> well_formed_leaves leaves \<and>
     t = (let ls = if do_sort then sort leaves else leaves
          in \<lparr>mt_leaves = ls, mt_index = index_leaves ls, mt_levels = levels_of ls\<rparr>)"
proof -
  have "length (remdups leaves) = length leaves \<longleftrightarrow> distinct leaves"
    by (metis distinct_card distinct_remdups length_remdups_card_conv set_remdups card_distinct)
  moreover have "hashes (if do_sort then sort leaves else leaves) \<longleftrightarrow> hashes leaves" by simp
  ultimately show ?thesis
    by (auto simp: merkle_init_def well_formed_leaves_def Let_def build_levels)
qed

lemma merkle_init_error: "\<not> well_formed_leaves leaves \<Longrightarrow> merkle_init leaves do_sort = Inl ValueError"
  by (auto simp: merkle_init_def well_formed_leaves_def)

lemma dict_set_fold:
  "distinct (map snd ps) \<Longrightarrow> dict_get (foldl (\<lambda>d (i, leaf). dict_set leaf i d) d ps) k =
     (case map_of (map (\<lambda>(i, l). (l, i)) ps) k of None \<Rightarrow> dict_get d k | Some i \<Rightarrow> Some i)"
proof (induction ps arbitrary: d)
  case (Cons p ps)
  obtain i l where p: "p = (i, l)" by fastforce
  have "map_of (map (\<lambda>(i, l). (l, i)) ps) l = None"
    using Cons.prems p by (force simp: map_of_eq_None_iff)
  then show ?case
    using Cons.IH [of "dict_set l i d"] Cons.prems p
    by (cases "k = l") (simp_all add: dict_get_set split: option.split)
qed simp

lemma index_leaves_get:
  assumes "distinct ls"
  shows "dict_get (index_leaves ls) k = Some i \<longleftrightarrow> i < length ls \<and> ls ! i = k"
proof -
  have swap: "map (\<lambda>(i, l). (l, i)) (enumerate 0 ls) = zip ls [0..<length ls]"
    by (simp add: enumerate_eq_zip zip_commute [of ls])
  have "dict_get (index_leaves ls) k = map_of (zip ls [0..<length ls]) k"
    using dict_set_fold [of "enumerate 0 ls" "[]" k] assms unfolding index_leaves_def swap
    by (cases "map_of (zip ls [0..<length ls]) k") (simp_all del: map_of_zip_is_None)
  also have "\<dots> = Some i \<longleftrightarrow> (k, i) \<in> set (zip ls [0..<length ls])"
    using assms by (simp add: map_of_eq_Some_iff)
  also have "\<dots> \<longleftrightarrow> i < length ls \<and> ls ! i = k"
    by (auto simp: in_set_zip)
  finally show ?thesis .
qed

lemma index_leaves_None: "distinct ls \<Longrightarrow> dict_get (index_leaves ls) k = None \<longleftrightarrow> k \<notin> set ls"
  using index_leaves_get [of ls k] by (metis in_set_conv_nth not_Some_eq)


section \<open>Completeness: every leaf has a proof the verifier accepts\<close>

lemma xor_one: "(i :: nat) XOR 1 = (if even i then Suc i else i - 1)"
  by (simp add: xor_Suc_0_eq)

lemmas xor_Suc_0 = xor_one [unfolded One_nat_def]

lemma pairs_nth:
  "i < length xs \<Longrightarrow> pairs xs ! (i div 2) =
     (if i XOR 1 < length xs
      then (if even i then node (xs ! i) (xs ! (i XOR 1)) else node (xs ! (i XOR 1)) (xs ! i))
      else xs ! i)"
proof (induction xs arbitrary: i rule: pairs.induct)
  case (3 x y xs)
  consider "i = 0" | "i = 1" | j where "i = Suc (Suc j)"
    by (metis One_nat_def not0_implies_Suc)
  then show ?case
  proof cases
    case (3 j)
    with "3.prems" have j: "j < length xs" by simp
    have "i XOR 1 = Suc (Suc (j XOR 1))" unfolding 3 xor_one by (auto elim: oddE)
    with "3.IH" [OF j] 3 show ?thesis by simp
  qed (simp_all add: xor_one)
qed (simp_all add: xor_one)

lemma climb_step:
  assumes "length sib = hash_len" "length cur = hash_len"
  shows "climb cur (proof_step sib ''L'' # steps) = climb (node sib cur) steps"
    and "climb cur (proof_step sib ''R'' # steps) = climb (node cur sib) steps"
  using assms by (simp_all add: proof_step_def node_hash_node)

lemma climb_proof_steps:
  "hashes xs \<Longrightarrow> i < length xs \<Longrightarrow>
     climb (xs ! i) (proof_steps i (butlast (levels_of xs))) = Inr (Some (merkle_root xs))"
proof (induction xs arbitrary: i rule: levels_of.induct)
  case (1 xs)
  show ?case
  proof (cases "length xs > 1")
    case False
    with 1(3) obtain x where "xs = [x]" by (cases xs) auto
    with 1(3) show ?thesis by (simp add: levels_of_small merkle_root_single)
  next
    case True
    have half: "i div 2 < length (pairs xs)" using 1(3) by (simp add: length_pairs)
    have IH: "climb (pairs xs ! (i div 2)) (proof_steps (i div 2) (butlast (levels_of (pairs xs)))) =
        Inr (Some (merkle_root xs))"
      using 1(1) [OF True hashes_pairs [OF 1(2)] half] by (simp add: merkle_root_pairs [OF True])
    have len: "length (xs ! j) = hash_len" if "j < length xs" for j
      using 1(2) that by simp
    define j where "j = i XOR 1"
    have side: "(if j < i then ''L'' else ''R'') = (if even i then ''R'' else ''L'')"
      unfolding j_def by (cases "even i") (auto simp: xor_Suc_0 dest: odd_pos)
    have steps: "proof_steps i (butlast (levels_of xs)) =
        (if j < length xs then [proof_step (xs ! j) (if even i then ''R'' else ''L'')] else []) @
        proof_steps (i div 2) (butlast (levels_of (pairs xs)))"
      unfolding levels_of_large [OF True] side [symmetric] j_def by (simp add: Let_def)
    note parent = pairs_nth [OF 1(3), folded j_def]
    show ?thesis
    proof (cases "j < length xs")
      case False
      with IH steps parent show ?thesis by simp
    next
      case j: True
      show ?thesis
        using IH parent j 1(3) unfolding steps
        by (cases "even i") (simp_all del: climb.simps add: climb_step len)
    qed
  qed
qed

lemma reconstruct_root_hash:
  "length leaf = hash_len \<Longrightarrow> climb leaf path = Inr r \<Longrightarrow> reconstruct_root (Raw leaf) path = Inr r"
  by (simp add: reconstruct_root_def)

lemma reconstruct_root_hex: "reconstruct_root (Hex (to_hex b)) path = reconstruct_root (Raw b) path"
  by (simp add: reconstruct_root_def)

lemma verify_proof_hex:
  "verify_proof (Hex (to_hex b)) path r = verify_proof (Raw b) path r"
  "verify_proof l path (Hex (to_hex b)) = verify_proof l path (Raw b)"
  by (simp_all add: verify_proof_def reconstruct_root_hex split: sum.split)

lemma merkle_init_fields:
  assumes "merkle_init leaves do_sort = Inr t"
  shows "set (mt_leaves t) = set leaves" "distinct (mt_leaves t)" "hashes (mt_leaves t)"
    "mt_leaves t \<noteq> []" "mset (mt_leaves t) = mset leaves"
    "mt_levels t = levels_of (mt_leaves t)" "mt_index t = index_leaves (mt_leaves t)"
    "mt_root t = merkle_root (mt_leaves t)"
proof -
  define ls where "ls = (if do_sort then sort leaves else leaves)"
  have wf: "well_formed_leaves leaves"
    and t: "t = \<lparr>mt_leaves = ls, mt_index = index_leaves ls, mt_levels = levels_of ls\<rparr>"
    using assms by (simp_all add: merkle_init_ok_iff ls_def Let_def)
  have "mset ls = mset leaves" "set ls = set leaves" "distinct ls = distinct leaves"
    by (simp_all add: ls_def)
  with wf have ls: "mset ls = mset leaves" "set ls = set leaves" "distinct ls" "hashes ls" "ls \<noteq> []"
    by (auto simp: well_formed_leaves_def)
  show "set (mt_leaves t) = set leaves" "distinct (mt_leaves t)" "hashes (mt_leaves t)"
    "mt_leaves t \<noteq> []" "mset (mt_leaves t) = mset leaves" "mt_levels t = levels_of (mt_leaves t)"
    "mt_index t = index_leaves (mt_leaves t)" "mt_root t = merkle_root (mt_leaves t)"
    by (simp_all add: t ls mt_root_def merkle_root_def)
qed

lemma get_proof_member:
  assumes t: "merkle_init leaves do_sort = Inr t" and leaf: "leaf \<in> set leaves"
  obtains i where "i < length (mt_leaves t)" "mt_leaves t ! i = leaf"
    "get_proof t (Raw leaf) = Inr (proof_steps i (butlast (levels_of (mt_leaves t))))"
proof -
  note f = merkle_init_fields [OF t]
  from leaf f(1) obtain i where i: "i < length (mt_leaves t)" "mt_leaves t ! i = leaf"
    by (metis in_set_conv_nth)
  then have "dict_get (mt_index t) leaf = Some i"
    using f index_leaves_get by simp
  with i show thesis by (intro that) (simp_all add: get_proof_def index_of_def f)
qed

lemma get_proof_complete:
  assumes t: "merkle_init leaves do_sort = Inr t" and leaf: "leaf \<in> set leaves"
  shows "\<exists>p. get_proof t (Raw leaf) = Inr p \<and> reconstruct_root (Raw leaf) p = Inr (Some (mt_root t)) \<and>
    verify_proof (Raw leaf) p (Raw (mt_root t)) = Inr True"
proof -
  note f = merkle_init_fields [OF t]
  from get_proof_member [OF t leaf] obtain i where
    i: "i < length (mt_leaves t)" "mt_leaves t ! i = leaf"
    and p: "get_proof t (Raw leaf) = Inr (proof_steps i (butlast (levels_of (mt_leaves t))))" .
  have len: "length leaf = hash_len" using leaf f(1,3) by auto
  have r: "reconstruct_root (Raw leaf) (proof_steps i (butlast (levels_of (mt_leaves t)))) =
      Inr (Some (mt_root t))"
    using climb_proof_steps [OF f(3) i(1)] i(2) len f(8) by (intro reconstruct_root_hash) simp_all
  moreover have "length (mt_root t) = hash_len"
    using length_merkle_root [OF f(3,4)] f(8) by simp
  ultimately show ?thesis using p by (auto simp: verify_proof_def)
qed

lemma get_proof_non_member:
  assumes t: "merkle_init leaves do_sort = Inr t" and leaf: "leaf \<notin> set leaves"
  shows "get_proof t (Raw leaf) = Inl KeyError"
  using merkle_init_fields [OF t] leaf index_leaves_None [of "mt_leaves t" leaf]
  by (simp add: get_proof_def index_of_def)


section \<open>Soundness: an accepted proof comes from a node of the tree\<close>

definition tree_nodes :: "bytes list \<Rightarrow> bytes set" where
  "tree_nodes xs = \<Union> (set ` set (levels_of xs))"

text \<open>The inputs of SHA-256 while the tree is built, and while a path is climbed.\<close>

fun pair_inputs :: "bytes list \<Rightarrow> bytes list" where
  "pair_inputs (x # y # xs) = node_preimage x y # pair_inputs xs"
| "pair_inputs _ = []"

definition tree_inputs :: "bytes list \<Rightarrow> bytes list" where
  "tree_inputs xs = concat (map pair_inputs (levels_of xs))"

fun climb_inputs :: "bytes \<Rightarrow> json list \<Rightarrow> bytes list" where
  "climb_inputs current [] = []"
| "climb_inputs current (step # steps) =
     (case json_item step ''sibling'' of
        Inr (JStr s) \<Rightarrow>
          (case from_hex s of
             Inr sibling \<Rightarrow>
               (if json_item step ''side'' = Inr (JStr ''L'')
                then node_preimage sibling current # climb_inputs (node sibling current) steps
                else node_preimage current sibling # climb_inputs (node current sibling) steps)
           | Inl _ \<Rightarrow> [])
      | _ \<Rightarrow> [])"

lemma climb_Cons_Some:
  assumes "climb cur (step # steps) = Inr (Some r)"
  obtains (left) sib where "length sib = hash_len" "length cur = hash_len"
      "climb (node sib cur) steps = Inr (Some r)"
      "climb_inputs cur (step # steps) = node_preimage sib cur # climb_inputs (node sib cur) steps"
  | (right) sib where "length sib = hash_len" "length cur = hash_len"
      "climb (node cur sib) steps = Inr (Some r)"
      "climb_inputs cur (step # steps) = node_preimage cur sib # climb_inputs (node cur sib) steps"
proof -
  from assms obtain v sib side where
    v: "json_item step ''sibling'' = Inr v" "json_as_bytes v = Inr sib" "length sib = hash_len"
      "json_item step ''side'' = Inr side"
    and sides: "side = JStr ''L'' \<or> side = JStr ''R''"
    by (auto split: sum.splits if_splits)
  from v(2) obtain s where "v = JStr s" "from_hex s = Inr sib" by (cases v) auto
  with v have s: "json_item step ''sibling'' = Inr (JStr s)" "from_hex s = Inr sib"
      "length sib = hash_len" "json_item step ''side'' = Inr side" by simp_all
  show thesis
  proof (cases "side = JStr ''L''")
    case True
    with assms s show thesis
      by (intro left [of sib]) (auto split: sum.splits simp: node_hash_ok_iff node_def)
  next
    case False
    with assms s sides show thesis
      by (intro right [of sib]) (auto split: sum.splits simp: node_hash_ok_iff node_def)
  qed
qed

lemma pairs_member:
  "n \<in> set (pairs xs) \<Longrightarrow> n \<in> set xs \<or>
     (\<exists>a\<in>set xs. \<exists>b\<in>set xs. n = node a b \<and> node_preimage a b \<in> set (pair_inputs xs))"
  by (induction xs rule: pairs.induct) auto

lemma tree_nodes_small: "length xs \<le> 1 \<Longrightarrow> tree_nodes xs = set xs"
  by (simp add: tree_nodes_def levels_of_small)

lemma tree_nodes_large: "length xs > 1 \<Longrightarrow> tree_nodes xs = set xs \<union> tree_nodes (pairs xs)"
  by (simp add: tree_nodes_def levels_of_large)

lemma tree_inputs_large: "length xs > 1 \<Longrightarrow> tree_inputs xs = pair_inputs xs @ tree_inputs (pairs xs)"
  by (simp add: tree_inputs_def levels_of_large)

lemma leaves_are_nodes: "set xs \<subseteq> tree_nodes xs"
  using hd_levels_of [of xs] by (auto simp: tree_nodes_def intro!: bexI [of _ xs] dest: hd_in_set)
    (metis hd_in_set levels_of_nonempty)

lemma tree_node_cases:
  "n \<in> tree_nodes xs \<Longrightarrow> n \<in> set xs \<or>
     (\<exists>a\<in>tree_nodes xs. \<exists>b\<in>tree_nodes xs. n = node a b \<and> node_preimage a b \<in> set (tree_inputs xs))"
proof (induction xs rule: levels_of.induct)
  case (1 xs)
  show ?case
  proof (cases "length xs > 1")
    case True
    note large = tree_nodes_large [OF True] tree_inputs_large [OF True]
    from 1(2) consider "n \<in> set xs" | "n \<in> tree_nodes (pairs xs)" by (auto simp: large)
    then show ?thesis
    proof cases
      case 2
      from 1(1) [OF True 2] consider "n \<in> set (pairs xs)"
        | "\<exists>a\<in>tree_nodes (pairs xs). \<exists>b\<in>tree_nodes (pairs xs).
             n = node a b \<and> node_preimage a b \<in> set (tree_inputs (pairs xs))" by blast
      then show ?thesis
      proof cases
        case 1
        from pairs_member [OF this] show ?thesis by (auto simp: large)
      qed (auto simp: large)
    qed simp
  next
    case False
    with 1(2) show ?thesis by (simp add: tree_nodes_small)
  qed
qed

lemma tree_nodes_hashes: "hashes xs \<Longrightarrow> n \<in> tree_nodes xs \<Longrightarrow> length n = hash_len"
  using tree_node_cases [of n xs] by auto

lemma merkle_root_node: "xs \<noteq> [] \<Longrightarrow> merkle_root xs \<in> tree_nodes xs"
proof (induction xs rule: levels_of.induct)
  case (1 xs)
  show ?case
  proof (cases "length xs > 1")
    case True
    with 1 show ?thesis by (simp add: tree_nodes_large merkle_root_pairs)
  next
    case False
    with 1 obtain x where "xs = [x]" by (cases xs) auto
    then show ?thesis by (simp add: merkle_root_single tree_nodes_small)
  qed
qed

text \<open>
  Climbing ends in a node of the tree: it started in one, or two inputs collide, or it climbed
  through a leaf, whose value then is the digest of a node preimage.
\<close>

lemma climb_sound:
  assumes "hashes xs"
  shows "climb cur path = Inr (Some r) \<Longrightarrow> r \<in> tree_nodes xs \<Longrightarrow>
    cur \<in> tree_nodes xs \<or>
    (\<exists>x\<in>set (climb_inputs cur path).
       (\<exists>y\<in>set (tree_inputs xs). collides x y) \<or> (sha256 x \<in> set xs \<and> (\<exists>a b. x = node_preimage a b)))"
proof (induction path arbitrary: cur)
  case (Cons step steps)
  have step: "cur \<in> tree_nodes xs \<or>
      (\<exists>y\<in>set (tree_inputs xs). collides (node_preimage a b) y) \<or> sha256 (node_preimage a b) \<in> set xs"
    if mem: "node a b \<in> tree_nodes xs" and len: "length a = hash_len" "length b = hash_len"
      and cur: "cur = a \<or> cur = b" for a b
  proof (cases "node a b \<in> set xs")
    case False
    then obtain c d where c: "c \<in> tree_nodes xs" "d \<in> tree_nodes xs" "node a b = node c d"
        "node_preimage c d \<in> set (tree_inputs xs)"
      using tree_node_cases [OF mem] by blast
    have "length c = hash_len" using tree_nodes_hashes [OF assms c(1)] .
    with c len cur show ?thesis
      using node_preimage_inject [of a c b d] by (auto simp: collides_def node_def)
  qed (simp add: node_def)
  from Cons.prems(1) show ?case
  proof (cases rule: climb_Cons_Some)
    case (left sib)
    from Cons.IH [OF left(3) Cons.prems(2)] step [of sib cur] left show ?thesis by auto
  next
    case (right sib)
    from Cons.IH [OF right(3) Cons.prems(2)] step [of cur sib] right show ?thesis by auto
  qed
qed simp

lemma climb_inputs_nodes:
  "climb cur path = Inr (Some r) \<Longrightarrow> x \<in> set (climb_inputs cur path) \<Longrightarrow> \<exists>a b. x = node_preimage a b"
proof (induction path arbitrary: cur)
  case (Cons step steps)
  from Cons.prems(1) show ?case
    by (cases rule: climb_Cons_Some) (use Cons in auto)
qed simp

lemma reconstruct_root_SomeD:
  assumes "reconstruct_root (Raw leaf) path = Inr (Some r)"
  shows "climb leaf path = Inr (Some r)" "length leaf = hash_len"
  using assms by (auto simp: reconstruct_root_def split: sum.splits if_splits)

lemma verify_proof_TrueD:
  assumes "verify_proof (Raw leaf) path (Raw r) = Inr True"
  shows "climb leaf path = Inr (Some r)" "length leaf = hash_len"
  using assms reconstruct_root_SomeD by (auto simp: verify_proof_def split: sum.splits if_splits)

lemma climb_length: "climb cur path = Inr (Some r) \<Longrightarrow> length cur = hash_len \<Longrightarrow> length r = hash_len"
proof (induction path arbitrary: cur)
  case (Cons step steps)
  from Cons.prems(1) show ?case by (cases rule: climb_Cons_Some) (use Cons.IH in auto)
qed simp

text \<open>
  The same for leaves that are leaf hashes, as in every epoch: domain separation excludes the inner
  nodes and the paths that run below a leaf.
\<close>

definition path_collision :: "string \<Rightarrow> bytes \<Rightarrow> json list \<Rightarrow> bytes list \<Rightarrow> bytes list \<Rightarrow> bool" where
  "path_collision did pk path preimages leaves \<longleftrightarrow>
     (\<exists>x\<in>insert (leaf_preimage did pk) (set (climb_inputs (sha256 (leaf_preimage did pk)) path)).
      \<exists>y\<in>set preimages \<union> set (tree_inputs leaves). collides x y)"

lemma climb_leaf_sound:
  assumes leaves: "leaves = map sha256 preimages"
    and pre: "\<forall>p\<in>set preimages. \<exists>d k. p = leaf_preimage d k"
    and climb: "climb (sha256 (leaf_preimage did pk)) path = Inr (Some (merkle_root leaves'))"
    and same: "set leaves' = set leaves" "leaves' \<noteq> []"
  shows "leaf_preimage did pk \<in> set preimages \<or> path_collision did pk path preimages leaves'"
proof -
  have h: "hashes leaves'" using leaves same(1) by (auto simp: hash_len_def)
  let ?p = "leaf_preimage did pk"
  from climb_sound [OF h climb merkle_root_node [OF same(2)]]
  consider (node) "sha256 ?p \<in> tree_nodes leaves'"
    | (coll) x y where "x \<in> set (climb_inputs (sha256 ?p) path)" "y \<in> set (tree_inputs leaves')" "collides x y"
    | (below) x a b where "x \<in> set (climb_inputs (sha256 ?p) path)" "sha256 x \<in> set leaves'"
        "x = node_preimage a b"
    by blast
  then show ?thesis
  proof cases
    case node
    from tree_node_cases [OF this] consider "sha256 ?p \<in> set leaves'"
      | a b where "sha256 ?p = node a b" "node_preimage a b \<in> set (tree_inputs leaves')" by blast
    then show ?thesis
    proof cases
      case 1
      then obtain q where "q \<in> set preimages" "sha256 ?p = sha256 q" using leaves same(1) by auto
      then show ?thesis by (auto simp: path_collision_def dest: sha256_eq_cases)
    next
      case (2 a b)
      then have "collides ?p (node_preimage a b)" by (simp add: collides_def node_def)
      with 2 show ?thesis by (auto simp: path_collision_def)
    qed
  next
    case coll
    then show ?thesis by (auto simp: path_collision_def)
  next
    case below
    then obtain q where q: "q \<in> set preimages" "sha256 x = sha256 q" using leaves same(1) by auto
    with pre below have "collides x q" by (metis collides_def leaf_node_preimage_disjoint)
    with q below show ?thesis by (auto simp: path_collision_def)
  qed
qed


section \<open>The root does not depend on the order of the leaves\<close>

lemma merkle_init_sorted_perm:
  assumes "mset xs = mset ys"
  shows "merkle_init xs True = merkle_init ys True"
proof -
  have same: "sort xs = sort ys" using assms by (metis properties_for_sort sorted_sort mset_sort)
  have wf: "well_formed_leaves xs \<longleftrightarrow> well_formed_leaves ys"
    using assms by (metis well_formed_leaves_def mset_eq_setD mset_eq_imp_distinct_iff mset_zero_iff)
  show ?thesis
  proof (cases "well_formed_leaves xs")
    case True
    with same wf merkle_init_ok_iff [of xs True] merkle_init_ok_iff [of ys True] show ?thesis by (metis (full_types))
  next
    case False
    with wf show ?thesis by (simp add: merkle_init_error)
  qed
qed

lemma merkle_init_presorted: "merkle_init (sort xs) False = merkle_init xs True"
  by (simp add: merkle_init_def length_remdups_card_conv)

section \<open>Height and proof length\<close>

lemma proof_steps_length: "length (proof_steps i levels) \<le> length levels"
  by (induction levels arbitrary: i) (auto simp: Let_def le_SucI)

lemma levels_height:
  "xs \<noteq> [] \<Longrightarrow> length xs \<le> 2 ^ (length (levels_of xs) - 1) \<and>
     (length xs > 1 \<longrightarrow> 2 ^ (length (levels_of xs) - 2) < length xs)"
proof (induction xs rule: levels_of.induct)
  case (1 xs)
  show ?case
  proof (cases "length xs > 1")
    case False
    with 1(2) show ?thesis by (simp add: levels_of_small)
  next
    case True
    define h where "h = length (levels_of (pairs xs))"
    have h: "h > 0" by (simp add: h_def)
    have IH: "length (pairs xs) \<le> 2 ^ (h - 1)"
        "length (pairs xs) > 1 \<longrightarrow> 2 ^ (h - 2) < length (pairs xs)"
      using 1 True by (auto simp: h_def)
    have len: "length (levels_of xs) = Suc h" by (simp add: levels_of_large [OF True] h_def)
    from h obtain k where k: "h = Suc k" by (cases h) auto
    have up: "length xs \<le> 2 ^ h" using IH(1) unfolding k by (simp add: length_pairs)
    have low: "2 ^ (h - 1) < length xs"
    proof (cases "length (pairs xs) > 1")
      case False
      then have "h = 1" unfolding h_def by (simp add: levels_of_small)
      with True show ?thesis by simp
    next
      case big: True
      then have "k > 0" using IH(1) k by (cases k) auto
      then obtain l where "k = Suc l" by (cases k) auto
      with big IH(2) k show ?thesis by (simp add: length_pairs)
    qed
    from up low show ?thesis unfolding len by simp
  qed
qed

lemma levels_height_log:
  assumes "xs \<noteq> []"
  shows "int (length (levels_of xs) - 1) = \<lceil>log 2 (real (length xs))\<rceil>"
proof (cases "length xs > 1")
  case True
  define h where "h = length (levels_of xs) - 1"
  have h: "length xs \<le> 2 ^ h" "2 ^ (h - 1) < length xs" using levels_height [OF assms] True by (simp_all add: h_def numeral_2_eq_2)
  with True obtain k where k: "h = Suc k" by (cases h) auto
  have "\<lceil>log (real 2) (real (length xs))\<rceil> = int k + 1" using h k by (intro ceiling_log_nat_eq_if) simp_all
  then show ?thesis using k by (simp add: h_def)
next
  case False
  with assms have "length xs = 1" by (cases xs) auto
  then show ?thesis by (simp add: levels_of_small)
qed


section \<open>The level-by-level build is the recursive tree of RFC 6962\<close>

text \<open>The largest power of two below \<open>n\<close>, for \<open>n \<ge> 2\<close>.\<close>

fun split_point :: "nat \<Rightarrow> nat" where
  "split_point n = (if n \<le> 2 then 1 else 2 * split_point ((n + 1) div 2))"

declare split_point.simps [simp del]

lemma split_point_small: "n \<le> 2 \<Longrightarrow> split_point n = 1"
  by (subst split_point.simps) simp

lemma split_point_large: "\<not> n \<le> 2 \<Longrightarrow> split_point n = 2 * split_point ((n + 1) div 2)"
  by (subst split_point.simps) simp

lemma split_point_spec: "n \<ge> 2 \<Longrightarrow> \<exists>k. split_point n = 2 ^ k \<and> 2 ^ k < n \<and> n \<le> 2 * 2 ^ k"
proof (induction n rule: split_point.induct)
  case (1 n)
  show ?case
  proof (cases "n \<le> 2")
    case True
    with 1(2) show ?thesis by (intro exI [of _ 0]) (simp add: split_point_small)
  next
    case False
    with 1(1) obtain k where k: "split_point ((n + 1) div 2) = 2 ^ k" "2 ^ k < (n + 1) div 2"
        "(n + 1) div 2 \<le> 2 * 2 ^ k" by fastforce
    have "2 * 2 ^ k < n" "n \<le> 2 * (2 * 2 ^ k)" using k(2,3) by linarith+
    with False k(1) show ?thesis by (intro exI [of _ "Suc k"]) (simp add: split_point_large)
  qed
qed

lemma split_point_bounds: "n \<ge> 2 \<Longrightarrow> 0 < split_point n \<and> split_point n < n"
  using split_point_spec by fastforce

lemma split_point_pos: "0 < split_point n"
  using split_point_bounds [of n] split_point_small [of n] by (cases "n \<le> 2") auto

function rfc6962_root :: "bytes list \<Rightarrow> bytes" where
  "rfc6962_root xs =
     (if length xs \<le> 1 then xs ! 0
      else let k = split_point (length xs)
           in node (rfc6962_root (take k xs)) (rfc6962_root (drop k xs)))"
  by pat_completeness auto
termination
  by (relation "measure length") (auto simp: split_point_bounds split_point_pos intro!: diff_less)

declare rfc6962_root.simps [simp del]

lemma rfc6962_root_split:
  "length xs > 1 \<Longrightarrow> rfc6962_root xs =
     node (rfc6962_root (take (split_point (length xs)) xs)) (rfc6962_root (drop (split_point (length xs)) xs))"
  by (subst rfc6962_root.simps) (simp add: Let_def)

lemma rfc6962_root_single: "length xs \<le> 1 \<Longrightarrow> rfc6962_root xs = xs ! 0"
  by (subst rfc6962_root.simps) simp

lemma pairs_append: "even (length xs) \<Longrightarrow> pairs (xs @ ys) = pairs xs @ pairs ys"
  by (induction xs rule: pairs.induct) auto

lemma rfc6962_root_pairs: "rfc6962_root (pairs xs) = rfc6962_root xs"
proof (induction xs rule: length_induct)
  case (1 xs)
  show ?case
  proof (cases "length xs \<le> 2")
    case True
    then show ?thesis
      by (cases xs rule: pairs.cases)
        (auto simp: rfc6962_root_split rfc6962_root_single split_point_small)
  next
    case False
    define n k where "n = length xs" and "k = split_point ((n + 1) div 2)"
    have n: "\<not> n \<le> 2" using False by (simp add: n_def)
    have split: "split_point n = 2 * k" using split_point_large [OF n] by (simp add: k_def)
    have k: "0 < k" "2 * k < n" using split_point_bounds [of n] n split by auto
    have len: "length (pairs xs) = (n + 1) div 2" by (simp add: length_pairs n_def)
    have "pairs xs = pairs (take (2 * k) xs) @ pairs (drop (2 * k) xs)"
      using pairs_append [of "take (2 * k) xs" "drop (2 * k) xs"] k by (simp add: n_def min_def)
    moreover have "length (pairs (take (2 * k) xs)) = k"
      using k by (simp add: length_pairs n_def)
    ultimately have halves: "take k (pairs xs) = pairs (take (2 * k) xs)"
        "drop k (pairs xs) = pairs (drop (2 * k) xs)" by simp_all
    have "rfc6962_root (pairs xs) = node (rfc6962_root (take k (pairs xs))) (rfc6962_root (drop k (pairs xs)))"
      using n len by (subst rfc6962_root_split) (simp_all add: k_def)
    also have "\<dots> = node (rfc6962_root (take (2 * k) xs)) (rfc6962_root (drop (2 * k) xs))"
      using 1 k unfolding halves by (simp add: n_def)
    also have "\<dots> = rfc6962_root xs"
      using n split by (subst rfc6962_root_split [of xs]) (simp_all add: n_def)
    finally show ?thesis .
  qed
qed

lemma merkle_root_rfc6962: "merkle_root xs = rfc6962_root xs"
proof (induction xs rule: levels_of.induct)
  case (1 xs)
  show ?case
  proof (cases "length xs > 1")
    case True
    with 1 show ?thesis by (simp add: merkle_root_pairs rfc6962_root_pairs)
  next
    case False
    then show ?thesis by (simp add: merkle_root_def levels_of_small rfc6962_root_single)
  qed
qed

section \<open>The interface of a membership commitment\<close>

text \<open>
  What the proof packages and the epoch manager rely on: committing to a list of members gives an
  object with a root, and exactly the members have a proof, which checks against that root.
\<close>

locale membership_commitment =
  fixes commit :: "'e list \<Rightarrow> 't res"
    and root_of :: "'t \<Rightarrow> 'e"
    and prove :: "'t \<Rightarrow> 'e \<Rightarrow> 'p res"
    and climbs_to :: "'e \<Rightarrow> 'p \<Rightarrow> 'e \<Rightarrow> bool"
  assumes complete: "commit xs = Inr t \<Longrightarrow> x \<in> set xs \<Longrightarrow> \<exists>p. prove t x = Inr p \<and> climbs_to x p (root_of t)"
    and members_only: "commit xs = Inr t \<Longrightarrow> x \<notin> set xs \<Longrightarrow> prove t x = Inl KeyError"
    and deterministic: "climbs_to x p r \<Longrightarrow> climbs_to x p r' \<Longrightarrow> r = r'"
begin

lemma prove_iff: "commit xs = Inr t \<Longrightarrow> is_ok (prove t x) \<longleftrightarrow> x \<in> set xs"
  using complete members_only by (cases "x \<in> set xs") fastforce+

lemma prove_checks: "commit xs = Inr t \<Longrightarrow> prove t x = Inr p \<Longrightarrow> climbs_to x p (root_of t)"
  using complete members_only by (metis Inl_Inr_False sum.inject(2))

lemma other_root: "commit xs = Inr t \<Longrightarrow> prove t x = Inr p \<Longrightarrow> r \<noteq> root_of t \<Longrightarrow> \<not> climbs_to x p r"
  using prove_checks deterministic by blast

end

definition climbs :: "bytes \<Rightarrow> json list \<Rightarrow> bytes \<Rightarrow> bool" where
  "climbs leaf path r \<longleftrightarrow> reconstruct_root (Raw leaf) path = Inr (Some r)"

interpretation mt: membership_commitment "\<lambda>ls. merkle_init ls do_sort" mt_root
  "\<lambda>t leaf. get_proof t (Raw leaf)" climbs for do_sort
proof unfold_locales
  show "\<exists>p. get_proof t (Raw x) = Inr p \<and> climbs x p (mt_root t)"
    if "merkle_init xs do_sort = Inr t" "x \<in> set xs" for xs t x
    using get_proof_complete [OF that] by (auto simp: climbs_def)
  show "get_proof t (Raw x) = Inl KeyError" if "merkle_init xs do_sort = Inr t" "x \<notin> set xs" for xs t x
    using that by (rule get_proof_non_member)
  show "r = r'" if "climbs x p r" "climbs x p r'" for x p r r'
    using that by (simp add: climbs_def)
qed

section \<open>The verifier never raises\<close>

lemma json_item_error: "json_item v k = Inl e \<Longrightarrow> caught_by_verifier e"
  by (cases v) (auto simp: caught_by_verifier_def split: option.splits)

lemma from_hex_error: "from_hex s = Inl e \<Longrightarrow> e = ValueError"
  by (induction s rule: from_hex.induct)
    (auto split: if_splits list.splits option.splits sum.splits)

lemma as_bytes_error: "as_bytes v = Inl e \<Longrightarrow> e = ValueError"
  by (cases v) (auto dest: from_hex_error)

lemma climb_error: "climb cur path = Inl e \<Longrightarrow> caught_by_verifier e"
proof (induction path arbitrary: cur)
  case (Cons step steps)
  have "json_as_bytes v = Inl e' \<Longrightarrow> caught_by_verifier e'" for v e'
    by (cases v) (auto simp: caught_by_verifier_def dest: from_hex_error)
  moreover have "node_hash a b = Inl e' \<Longrightarrow> caught_by_verifier e'" for a b e'
    by (auto simp: node_hash_def caught_by_verifier_def split: if_splits)
  ultimately show ?case
    using Cons json_item_error by (auto split: sum.splits if_splits)
qed simp

lemma reconstruct_root_never_raises: "is_ok (reconstruct_root leaf path)"
  by (auto simp: reconstruct_root_def is_ok_def split: sum.splits if_splits
      dest!: as_bytes_error climb_error simp: caught_by_verifier_def)

lemma verify_proof_never_raises: "is_ok (verify_proof leaf path trusted)"
  using as_bytes_error reconstruct_root_never_raises [of leaf path]
  by (auto simp: verify_proof_def is_ok_def split: sum.splits)


section \<open>Properties\<close>

text \<open>
  C22: every leaf of a tree has an inclusion proof, no longer than the tree is high, which the verifier
  accepts against the tree's root, given as bytes or as hex; no other value has a proof.
\<close>

theorem leaf_proof_verifies:
  assumes "merkle_init leaves do_sort = Inr t"
  shows "(leaf \<in> set leaves \<longrightarrow> (\<exists>p. get_proof t (Raw leaf) = Inr p \<and> length p \<le> mt_height t \<and>
      verify_proof (Raw leaf) p (Raw (mt_root t)) = Inr True \<and>
      verify_proof (Hex (to_hex leaf)) p (Hex (mt_root_hex t)) = Inr True)) \<and>
    (leaf \<notin> set leaves \<longrightarrow> get_proof t (Raw leaf) = Inl KeyError)"
proof (intro conjI impI)
  assume "leaf \<in> set leaves"
  from get_proof_complete [OF assms this] obtain p where p: "get_proof t (Raw leaf) = Inr p"
    "verify_proof (Raw leaf) p (Raw (mt_root t)) = Inr True" by blast
  moreover have "length p \<le> mt_height t"
    using p(1) proof_steps_length [of _ "butlast (mt_levels t)"]
    by (auto simp: get_proof_def mt_height_def split: sum.splits)
  ultimately show "\<exists>p. get_proof t (Raw leaf) = Inr p \<and> length p \<le> mt_height t \<and>
      verify_proof (Raw leaf) p (Raw (mt_root t)) = Inr True \<and>
      verify_proof (Hex (to_hex leaf)) p (Hex (mt_root_hex t)) = Inr True"
    by (auto simp: mt_root_hex_def verify_proof_hex)
qed (rule get_proof_non_member [OF assms])

text \<open>
  C32: the root is a function of the set of leaves: \<open>compute_root\<close> sorts them and gives the Merkle tree
  hash of RFC 6962 (recursive split at the largest power of two), and it raises \<open>ValueError\<close> exactly
  when the list is empty, has a leaf that is not 32 bytes long or a duplicate.
\<close>

theorem compute_root_is_rfc6962:
  "compute_root leaves =
     (if leaves \<noteq> [] \<and> distinct leaves \<and> list_all (\<lambda>x. length x = 32) leaves
      then Inr (rfc6962_root (sort leaves)) else Inl ValueError)"
proof (cases "well_formed_leaves leaves")
  case True
  obtain t where t: "merkle_init leaves True = Inr t"
    using True unfolding merkle_init_ok_iff by blast
  then have "mt_leaves t = sort leaves" unfolding merkle_init_ok_iff by (simp add: Let_def)
  with t merkle_init_fields(8) [OF t] True show ?thesis
    unfolding well_formed_leaves_def hash_len_def list_all_iff
    by (simp add: compute_root_def merkle_root_rfc6962 del: rfc6962_root.simps)
next
  case False
  have "compute_root leaves = Inl ValueError" using merkle_init_error [OF False] by (simp add: compute_root_def)
  with False show ?thesis unfolding well_formed_leaves_def hash_len_def list_all_iff
    by (simp only: if_False) auto
qed

text \<open>
  C35: the height of a tree is the binary logarithm of its number of leaves, rounded up, for every size:
  a single leaf is its own root, at height 0.
\<close>

theorem tree_height_logarithmic:
  assumes "merkle_init leaves do_sort = Inr t"
  shows "mt_size t = length leaves \<and> int (mt_height t) = \<lceil>log 2 (real (mt_size t))\<rceil>"
proof -
  note f = merkle_init_fields [OF assms]
  have "mt_size t = length leaves" using f(5) unfolding mt_size_def by (metis size_mset)
  with levels_height_log [OF f(4)] f(6) show ?thesis by (simp add: mt_size_def mt_height_def)
qed

text \<open>
  C34: the verifier receives untrusted input and never raises: whatever the leaf, the path (any list of
  JSON values) and the root, it answers, and it answers \<open>True\<close> only when the path, climbed from a
  32-byte leaf, ends in exactly the trusted root.
\<close>

theorem verifier_total_and_exact:
  "\<exists>b. verify_proof leaf path trusted = Inr b \<and>
     (b \<longleftrightarrow> (\<exists>l r. as_bytes leaf = Inr l \<and> as_bytes trusted = Inr r \<and> length l = hash_len \<and> length r = hash_len \<and>
        climb l path = Inr (Some r)))"
proof -
  obtain b where b: "verify_proof leaf path trusted = Inr b"
    using verify_proof_never_raises [of leaf path trusted] by (auto simp: is_ok_iff)
  have "b \<longleftrightarrow> (\<exists>l r. as_bytes leaf = Inr l \<and> as_bytes trusted = Inr r \<and> length l = hash_len \<and> length r = hash_len \<and>
        climb l path = Inr (Some r))"
    using b by (auto simp: verify_proof_def reconstruct_root_def split: sum.splits if_splits)
  with b show ?thesis by (intro exI [of _ b] conjI)
qed

definition sample_leaf_list :: "bytes list" where
  "sample_leaf_list = [replicate 32 2, replicate 32 0, replicate 32 1]"

lemma sample_leaf_list_tree: "\<exists>t. merkle_init sample_leaf_list True = Inr t"
proof -
  have "well_formed_leaves sample_leaf_list"
    by (simp add: well_formed_leaves_def sample_leaf_list_def hash_len_def numeral_eq_Suc)
  then show ?thesis unfolding merkle_init_ok_iff by blast
qed

theorem leaf_proof_verifies_witness:
  "\<exists>t p. merkle_init sample_leaf_list True = Inr t \<and> get_proof t (Raw (replicate 32 1)) = Inr p \<and>
     verify_proof (Raw (replicate 32 1)) p (Raw (mt_root t)) = Inr True \<and>
     get_proof t (Raw []) = Inl KeyError"
proof -
  obtain t where t: "merkle_init sample_leaf_list True = Inr t" using sample_leaf_list_tree by blast
  have "replicate 32 1 \<in> set sample_leaf_list" "[] \<notin> set sample_leaf_list"
    by (simp_all add: sample_leaf_list_def numeral_eq_Suc)
  with t leaf_proof_verifies [OF t, of "replicate 32 1"] leaf_proof_verifies [OF t, of "[]"]
  show ?thesis by blast
qed

theorem tree_height_logarithmic_witness:
  "(\<exists>t. merkle_init sample_leaf_list True = Inr t \<and> mt_height t = 2) \<and>
   (\<exists>t. merkle_init [replicate 32 1] True = Inr t \<and> mt_height t = 0)"
proof
  obtain t where t: "merkle_init sample_leaf_list True = Inr t" using sample_leaf_list_tree by blast
  have "\<lceil>log 2 (3::real)\<rceil> = 2" using ceiling_log_nat_eq_if [of 2 1 3] by simp
  moreover have "mt_size t = 3" "int (mt_height t) = \<lceil>log 2 (real (mt_size t))\<rceil>"
    using tree_height_logarithmic [OF t] by (simp_all add: sample_leaf_list_def)
  ultimately have "mt_height t = 2" by (metis of_nat_eq_iff of_nat_numeral)
  with t show "\<exists>t. merkle_init sample_leaf_list True = Inr t \<and> mt_height t = 2" by blast
next
  obtain t where t: "merkle_init [replicate 32 1] True = Inr t"
    using merkle_init_ok_iff [of "[replicate 32 1]" True] by (auto simp: well_formed_leaves_def hash_len_def)
  have "mt_size t = 1" "int (mt_height t) = \<lceil>log 2 (real (mt_size t))\<rceil>" using tree_height_logarithmic [OF t] by simp_all
  then have "mt_height t = 0" by simp
  with t show "\<exists>t. merkle_init [replicate 32 1] True = Inr t \<and> mt_height t = 0" by blast
qed

end
