(* ===== verification/Nonces.thy ===== *)
theory Nonces
  imports Json
begin

text \<open>
  The \<open>NonceBook\<close> of fog/tokens/store.py: single-use nonces that the fog issues for a purpose and a
  subject. \<open>secrets.token_hex(16)\<close> and \<open>time.time()\<close> are arguments. The subject given to \<open>consume\<close> may
  be any JSON value, because the handlers pass a field of an untrusted token.
  The locale \<open>single_use_service\<close> states what makes a nonce single use, over any sequence of requests;
  it is interpreted on the book. Lemmas: the exact outcome of \<open>consume\<close>, and purging.
\<close>

section \<open>The book\<close>

definition nonce_ttl_seconds :: int where "nonce_ttl_seconds = 30"

datatype nonce_status = Nonce_ok | Nonce_unknown | Nonce_wrong_subject | Nonce_expired | Nonce_reused

fun nonce_status_text :: "nonce_status \<Rightarrow> string" where
  "nonce_status_text Nonce_ok = ''ok''"
| "nonce_status_text Nonce_unknown = ''nonce_unknown''"
| "nonce_status_text Nonce_wrong_subject = ''nonce_not_for_this_request''"
| "nonce_status_text Nonce_expired = ''nonce_expired''"
| "nonce_status_text Nonce_reused = ''nonce_reused''"

record nonce_entry =
  ne_purpose :: string
  ne_subject :: string
  ne_expires_at :: time
  ne_used :: bool

record nonce_book =
  nb_ttl :: int
  nb_entries :: "(string, nonce_entry) dict"

definition nonce_book_init :: "int \<Rightarrow> nonce_book" where
  "nonce_book_init ttl_seconds = \<lparr>nb_ttl = ttl_seconds, nb_entries = []\<rparr>"

definition purge :: "time \<Rightarrow> nonce_book \<Rightarrow> nonce_book" where
  "purge now b = b\<lparr>nb_entries := filter (\<lambda>(n, e). \<not> now > ne_expires_at e) (nb_entries b)\<rparr>"

definition nonce_issue :: "bytes \<Rightarrow> time \<Rightarrow> string \<Rightarrow> string \<Rightarrow> nonce_book \<Rightarrow> string \<times> nonce_book" where
  "nonce_issue rnd now purpose subject b =
     (let nonce = to_hex rnd;
          b' = purge now b;
          e = \<lparr>ne_purpose = purpose, ne_subject = subject, ne_expires_at = now + of_int (nb_ttl b'), ne_used = False\<rparr>
      in (nonce, b'\<lparr>nb_entries := dict_set nonce e (nb_entries b')\<rparr>))"

definition nonce_consume :: "time \<Rightarrow> string \<Rightarrow> json \<Rightarrow> string \<Rightarrow> nonce_book \<Rightarrow> nonce_status \<times> nonce_book" where
  "nonce_consume now purpose subject nonce b =
     (case dict_get (nb_entries b) nonce of
        None \<Rightarrow> (Nonce_unknown, b)
      | Some e \<Rightarrow>
          if ne_purpose e \<noteq> purpose \<or> JStr (ne_subject e) \<noteq> subject then (Nonce_wrong_subject, b)
          else if ne_used e then (Nonce_reused, b)
          else if now > ne_expires_at e
          then (Nonce_expired, b\<lparr>nb_entries := AList.delete nonce (nb_entries b)\<rparr>)
          else (Nonce_ok, b\<lparr>nb_entries := dict_set nonce (e\<lparr>ne_used := True\<rparr>) (nb_entries b)\<rparr>))"

definition nonce_book_len :: "nonce_book \<Rightarrow> nat" where
  "nonce_book_len b = length (nb_entries b)"

definition nonces_ok :: "nonce_book \<Rightarrow> bool" where
  "nonces_ok b \<longleftrightarrow> dict_ok (nb_entries b)"

lemma nonces_ok_init: "nonces_ok (nonce_book_init ttl)"
  by (simp add: nonces_ok_def nonce_book_init_def)

lemma nonces_ok_issue: "nonces_ok b \<Longrightarrow> nonces_ok (snd (nonce_issue rnd now p s b))"
  by (auto simp: nonces_ok_def nonce_issue_def purge_def Let_def)

lemma nonces_ok_consume: "nonces_ok b \<Longrightarrow> nonces_ok (snd (nonce_consume now p s n b))"
  by (auto simp: nonces_ok_def nonce_consume_def AList.distinct_delete split: option.split)

text \<open>A nonce that a request could still spend.\<close>

definition spendable :: "nonce_book \<Rightarrow> string \<Rightarrow> bool" where
  "spendable b n \<longleftrightarrow> (\<exists>e. dict_get (nb_entries b) n = Some e \<and> \<not> ne_used e)"

lemma consume_ok_iff:
  "nonce_consume now p sj n b = (Nonce_ok, b') \<longleftrightarrow>
     (\<exists>e. dict_get (nb_entries b) n = Some e \<and> ne_purpose e = p \<and> JStr (ne_subject e) = sj \<and> \<not> ne_used e \<and>
        now \<le> ne_expires_at e \<and>
        b' = b\<lparr>nb_entries := dict_set n (e\<lparr>ne_used := True\<rparr>) (nb_entries b)\<rparr>)"
  by (auto simp: nonce_consume_def split: option.split if_split_asm)

lemma consume_ok_spends:
  "nonce_consume now p sj n b = (Nonce_ok, b') \<Longrightarrow> spendable b n \<and> \<not> spendable b' n"
  by (auto simp: consume_ok_iff spendable_def dict_simps)

lemma consume_spendable: "spendable (snd (nonce_consume now p sj m b)) n \<Longrightarrow> spendable b n"
  by (auto simp: nonce_consume_def spendable_def dict_simps AList.delete_conv' split: option.splits if_splits)

lemma purge_get:
  "nonces_ok b \<Longrightarrow> dict_get (nb_entries (purge now b)) n =
     (case dict_get (nb_entries b) n of None \<Rightarrow> None | Some e \<Rightarrow> if now > ne_expires_at e then None else Some e)"
  by (simp add: purge_def nonces_ok_def dict_get_filter split: option.split)

lemma issue_spendable:
  assumes "nonces_ok b" "nonce_issue rnd now p s b = (m, b')" "spendable b' n" "n \<noteq> m"
  shows "spendable b n"
  using assms purge_get [OF assms(1), of now n]
  by (auto simp: nonce_issue_def spendable_def Let_def dict_simps split: option.splits if_splits)

section \<open>Single use, over any sequence of requests\<close>

datatype ('i, 'q) request = Issue 'i | Use 'q string
datatype outcome = Issued string | Spent string | Refused

fun run_service ::
    "('i \<Rightarrow> 's \<Rightarrow> string \<times> 's) \<Rightarrow> ('q \<Rightarrow> string \<Rightarrow> 's \<Rightarrow> bool \<times> 's) \<Rightarrow> ('i, 'q) request list \<Rightarrow> 's \<Rightarrow> outcome list" where
  "run_service issue spend [] s = []"
| "run_service issue spend (Issue i # rs) s =
     (case issue i s of (n, s') \<Rightarrow> Issued n # run_service issue spend rs s')"
| "run_service issue spend (Use q n # rs) s =
     (case spend q n s of (ok, s') \<Rightarrow> (if ok then Spent n else Refused) # run_service issue spend rs s')"

locale single_use_service =
  fixes issue :: "'i \<Rightarrow> 's \<Rightarrow> string \<times> 's"
    and spend :: "'q \<Rightarrow> string \<Rightarrow> 's \<Rightarrow> bool \<times> 's"
    and good :: "'s \<Rightarrow> bool"
    and spendable :: "'s \<Rightarrow> string \<Rightarrow> bool"
  assumes good_issue: "good s \<Longrightarrow> good (snd (issue i s))"
    and good_spend: "good s \<Longrightarrow> good (snd (spend q n s))"
    and spends: "spend q n s = (True, s') \<Longrightarrow> spendable s n \<and> \<not> spendable s' n"
    and issue_only: "good s \<Longrightarrow> issue i s = (m, s') \<Longrightarrow> spendable s' n \<Longrightarrow> n \<noteq> m \<Longrightarrow> spendable s n"
    and spend_never: "spendable (snd (spend q m s)) n \<Longrightarrow> spendable s n"
begin

lemma spent_needs_issue:
  "good s \<Longrightarrow> \<not> spendable s n \<Longrightarrow> run_service issue spend rs s = ys @ Spent n # zs \<Longrightarrow> Issued n \<in> set ys"
proof (induction rs arbitrary: s ys)
  case (Cons r rs)
  show ?case
  proof (cases r)
    case (Issue i)
    obtain m s' where step: "issue i s = (m, s')" by fastforce
    with Cons.prems(3) Issue obtain ys' where ys: "ys = Issued m # ys'" "run_service issue spend rs s' = ys' @ Spent n # zs"
      by (cases ys) auto
    show ?thesis
    proof (cases "n = m")
      case False
      with issue_only [OF Cons.prems(1) step] Cons.prems(2) have "\<not> spendable s' n" by blast
      with Cons.IH [OF _ this ys(2)] good_issue [OF Cons.prems(1), of i] step ys(1) show ?thesis by simp
    qed (simp add: ys(1))
  next
    case (Use q m)
    obtain b s' where step: "spend q m s = (b, s')" by fastforce
    have good': "good s'" and no: "\<not> spendable s' n"
      using good_spend [OF Cons.prems(1), of q m] spend_never [of q m s n] Cons.prems(2) step by auto
    show ?thesis
    proof (cases ys)
      case Nil
      with Cons.prems(3) Use step have "spend q n s = (True, s')" by (auto split: if_splits)
      from spends [OF this] Cons.prems(2) show ?thesis by blast
    next
      case (Cons y ys')
      with Cons.prems(3) Use step have "run_service issue spend rs s' = ys' @ Spent n # zs" by auto
      from Cons.IH [OF good' no this] Cons show ?thesis by simp
    qed
  qed
qed simp

lemma single_use:
  "good s \<Longrightarrow> run_service issue spend rs s = xs @ Spent n # ys @ Spent n # zs \<Longrightarrow> Issued n \<in> set ys"
proof (induction rs arbitrary: s xs)
  case (Cons r rs)
  show ?case
  proof (cases r)
    case (Issue i)
    obtain m s' where step: "issue i s = (m, s')" by fastforce
    with Cons.prems(2) Issue obtain xs' where "run_service issue spend rs s' = xs' @ Spent n # ys @ Spent n # zs"
      by (cases xs) auto
    with Cons.IH good_issue [OF Cons.prems(1), of i] step show ?thesis by simp
  next
    case (Use q m)
    obtain b s' where step: "spend q m s = (b, s')" by fastforce
    have good': "good s'" using good_spend [OF Cons.prems(1), of q m] step by simp
    show ?thesis
    proof (cases xs)
      case Nil
      with Cons.prems(2) Use step have used: "spend q n s = (True, s')"
        and rest: "run_service issue spend rs s' = ys @ Spent n # zs"
        by (auto split: if_splits)
      from spends [OF used] have "\<not> spendable s' n" by blast
      from spent_needs_issue [OF good' this rest] show ?thesis .
    next
      case (Cons x xs')
      with Cons.prems(2) Use step have "run_service issue spend rs s' = xs' @ Spent n # ys @ Spent n # zs" by auto
      from Cons.IH [OF good' this] show ?thesis .
    qed
  qed
qed simp

end

text \<open>Requests to the book: the randomness and the time, and what the nonce is for.\<close>

definition book_issue :: "bytes \<times> time \<times> string \<times> string \<Rightarrow> nonce_book \<Rightarrow> string \<times> nonce_book" where
  "book_issue i b = (case i of (rnd, now, purpose, subject) \<Rightarrow> nonce_issue rnd now purpose subject b)"

definition book_use :: "time \<times> string \<times> json \<Rightarrow> string \<Rightarrow> nonce_book \<Rightarrow> bool \<times> nonce_book" where
  "book_use q n b = (case q of (now, purpose, subject) \<Rightarrow>
     (case nonce_consume now purpose subject n b of (status, b') \<Rightarrow> (status = Nonce_ok, b')))"

interpretation nb: single_use_service book_issue book_use nonces_ok spendable
proof
  show "nonces_ok (snd (book_issue i s))" if "nonces_ok s" for i s
    using that by (cases i) (auto simp: book_issue_def nonces_ok_issue)
  show "nonces_ok (snd (book_use q n s))" if "nonces_ok s" for q n s
  proof -
    obtain now p sj where q: "q = (now, p, sj)" by (metis prod_cases3)
    show ?thesis using nonces_ok_consume [OF that, of now p sj n]
      by (simp add: book_use_def q split_beta)
  qed
  show "spendable s n \<and> \<not> spendable s' n" if "book_use q n s = (True, s')" for q n s s'
    using that consume_ok_spends by (cases q) (auto simp: book_use_def split: prod.splits)
  show "spendable s n" if "nonces_ok s" "book_issue i s = (m, s')" "spendable s' n" "n \<noteq> m" for s i m s' n
    using that issue_spendable by (cases i) (auto simp: book_issue_def)
  show "spendable s n" if "spendable (snd (book_use q m s)) n" for q m s n
  proof -
    obtain now p sj where q: "q = (now, p, sj)" by (metis prod_cases3)
    show ?thesis using that consume_spendable [of now p sj m s n] by (simp add: book_use_def q split_beta)
  qed
qed

section \<open>Properties\<close>

text \<open>
  A nonce is single use. In any sequence of requests to issue and to consume nonces, at any clock
  readings (even a clock that runs backwards) and for any purposes and subjects, between two requests
  that consumed the same nonce the fog issued that nonce again.
\<close>

theorem nonce_single_use:
  assumes "run_service book_issue book_use requests (nonce_book_init ttl) = xs @ Spent n # ys @ Spent n # zs"
  shows "Issued n \<in> set ys"
  using nb.single_use [OF nonces_ok_init assms] .

text \<open>
  What \<open>consume\<close> does, exactly. It answers ok for a nonce in the book of that purpose and subject,
  unused and not expired, and marks it used; it deletes an expired one; in every other case it leaves
  the book as it was, so an attempt with a wrong purpose or subject does not burn the nonce.
\<close>

theorem consume_outcome:
  "(case nonce_consume now purpose subject n b of (status, b') \<Rightarrow>
      (status = Nonce_ok \<longleftrightarrow> (\<exists>e. dict_get (nb_entries b) n = Some e \<and> ne_purpose e = purpose \<and>
         JStr (ne_subject e) = subject \<and> \<not> ne_used e \<and> now \<le> ne_expires_at e)) \<and>
      (spendable b' n \<longleftrightarrow> spendable b n \<and> status \<notin> {Nonce_ok, Nonce_expired}) \<and>
      (b' = b \<longleftrightarrow> status \<notin> {Nonce_ok, Nonce_expired}))"
proof -
  obtain st b' where r: "nonce_consume now purpose subject n b = (st, b')" by fastforce
  have ok: "st = Nonce_ok \<longleftrightarrow> (\<exists>e. dict_get (nb_entries b) n = Some e \<and> ne_purpose e = purpose \<and>
         JStr (ne_subject e) = subject \<and> \<not> ne_used e \<and> now \<le> ne_expires_at e)"
    using r by (auto simp: nonce_consume_def split: option.splits if_splits)
  have same: "b' = b" if "st \<notin> {Nonce_ok, Nonce_expired}"
    using that r by (auto simp: nonce_consume_def split: option.splits if_splits)
  have gone: "spendable b n \<and> \<not> spendable b' n" if "st \<in> {Nonce_ok, Nonce_expired}"
    using that r
    by (auto simp: nonce_consume_def spendable_def dict_simps AList.delete_conv' split: option.splits if_splits)
  from ok same gone r show ?thesis by auto
qed

text \<open>
  The book stays bounded by what is alive. Right after a nonce is issued the book holds no expired
  entry, and it lost none of the others.
\<close>

lemma issue_purges:
  assumes "nonces_ok b" and "0 \<le> nb_ttl b"
  shows "(\<forall>(n, e)\<in>set (nb_entries (snd (nonce_issue rnd now p s b))). now \<le> ne_expires_at e) \<and>
    (\<forall>n. n \<noteq> to_hex rnd \<longrightarrow> dict_get (nb_entries (snd (nonce_issue rnd now p s b))) n =
       (case dict_get (nb_entries b) n of None \<Rightarrow> None | Some e \<Rightarrow> if now > ne_expires_at e then None else Some e))"
proof -
  have ok: "dict_ok (nb_entries (purge now b))" using assms(1) by (simp add: nonces_ok_def purge_def)
  have upd: "set (dict_set k v d) \<subseteq> insert (k, v) (set d)" for k v and d :: "(string, nonce_entry) dict"
    by (induction d) auto
  let ?e = "\<lparr>ne_purpose = p, ne_subject = s, ne_expires_at = now + of_int (nb_ttl b), ne_used = False\<rparr>"
  have ttl: "nb_ttl (purge now b) = nb_ttl b" by (simp add: purge_def)
  have es: "nb_entries (snd (nonce_issue rnd now p s b)) = dict_set (to_hex rnd) ?e (nb_entries (purge now b))"
    by (simp add: nonce_issue_def Let_def ttl)
  have alive: "\<forall>(n, e)\<in>set (nb_entries (purge now b)). now \<le> ne_expires_at e"
    by (auto simp: purge_def)
  have all: "\<forall>(n, e)\<in>insert (to_hex rnd, ?e) (set (nb_entries (purge now b))). now \<le> ne_expires_at e"
    using alive assms(2) by auto
  have "\<forall>(n, e)\<in>set (nb_entries (snd (nonce_issue rnd now p s b))). now \<le> ne_expires_at e"
    unfolding es
  proof
    fix x assume "x \<in> set (dict_set (to_hex rnd) ?e (nb_entries (purge now b)))"
    then have "x \<in> insert (to_hex rnd, ?e) (set (nb_entries (purge now b)))" by (rule subsetD [OF upd])
    with all show "case x of (n, e) \<Rightarrow> now \<le> ne_expires_at e" by (rule bspec)
  qed
  moreover have "dict_get (dict_set (to_hex rnd) ?e (nb_entries (purge now b))) n =
       (case dict_get (nb_entries b) n of None \<Rightarrow> None | Some e \<Rightarrow> if now > ne_expires_at e then None else Some e)"
    if "n \<noteq> to_hex rnd" for n
    by (rule trans [OF dict_get_set_other [OF that] purge_get [OF assms(1)]])
  ultimately show ?thesis unfolding es by (intro conjI allI impI) assumption+
qed

section \<open>Concrete instances\<close>

theorem nonce_single_use_witness:
  "Issued (to_hex [7]) \<in> set [Issued (to_hex [7])]"
proof -
  let ?i = "([7], 0, ''p'', ''s'')" and ?q = "(1, ''p'', JStr ''s'')"
  have "run_service book_issue book_use [Issue ?i, Use ?q (to_hex [7]), Issue ?i, Use ?q (to_hex [7])] (nonce_book_init 30)
      = [Issued (to_hex [7])] @ Spent (to_hex [7]) # [Issued (to_hex [7])] @ Spent (to_hex [7]) # []"
    by (simp add: book_issue_def book_use_def nonce_issue_def nonce_consume_def nonce_book_init_def purge_def
        Let_def del: to_hex_simps)
  from nonce_single_use [OF this] show ?thesis .
qed

end
