(* ===== verification/Policy.thy ===== *)
theory Policy
  imports Prelude
begin

text \<open>
  config.py (the constants the fog node uses) and fog/policy/access_policy.py: who may do what.
  Lemmas: what the two tables let each device type stop, what a provisional token can reach, and that
  no resource or operation of the table contains the separator of the signed messages.
\<close>

section \<open>Configuration\<close>

definition fog_zone :: string where "fog_zone = ''factory_A''"
definition config_fog_id :: string where "config_fog_id = ''fog_A''"
definition session_ttl_seconds :: int where "session_ttl_seconds = 300"
definition challenge_ttl_seconds :: int where "challenge_ttl_seconds = 30"

definition allowed_device_types :: "string set" where
  "allowed_device_types = {''temperature_sensor'', ''pressure_sensor'', ''smart_meter'', ''camera'',
     ''valve_controller'', ''motor_controller'', ''plc''}"

definition demo_devices :: "(string, string \<times> string) dict" where
  "demo_devices =
    [(''temp01'', (''temperature_sensor'', ''sensor'')), (''pressure01'', (''pressure_sensor'', ''sensor'')),
     (''meter01'', (''smart_meter'', ''sensor'')), (''camera01'', (''camera'', ''monitor'')),
     (''valve01'', (''valve_controller'', ''actuator'')), (''motor01'', (''motor_controller'', ''actuator'')),
     (''plc01'', (''plc'', ''controller'')), (''temp02'', (''temperature_sensor'', ''sensor''))]"

definition admin_key_default :: string where "admin_key_default = ''fog_admin_demo_key''"
definition carry_forward_active :: bool where "carry_forward_active = True"

section \<open>The access policy\<close>

definition policy_table :: "(string, (string, string set) dict) dict" where
  "policy_table =
    [(''temperature_sensor'', [(''read'', {''sensor'', ''monitor'', ''controller''}), (''write'', {''sensor''}),
        (''stop'', {''controller''})]),
     (''pressure_sensor'', [(''read'', {''sensor'', ''monitor'', ''controller''}), (''write'', {''sensor''}),
        (''stop'', {''controller''})]),
     (''smart_meter'', [(''read'', {''sensor'', ''monitor'', ''controller''}), (''write'', {''sensor''}),
        (''stop'', {''controller''})]),
     (''camera'', [(''read'', {''sensor'', ''monitor'', ''controller''}), (''stream'', {''monitor''}),
        (''stop'', {''controller''})]),
     (''valve_controller'', [(''read'', {''sensor'', ''monitor'', ''controller''}),
        (''write'', {''actuator'', ''controller''}), (''stop'', {''actuator'', ''controller''})]),
     (''motor_controller'', [(''read'', {''sensor'', ''monitor'', ''controller''}),
        (''write'', {''actuator'', ''controller''}), (''stop'', {''actuator'', ''controller''})]),
     (''plc'', [(''read'', {''sensor'', ''monitor'', ''controller''}), (''write'', {''controller''}),
        (''stop'', {''controller''})])]"

definition roles_for_type :: "(string, string set) dict" where
  "roles_for_type =
    [(''temperature_sensor'', {''sensor''}), (''pressure_sensor'', {''sensor''}), (''smart_meter'', {''sensor''}),
     (''camera'', {''monitor'', ''sensor''}), (''valve_controller'', {''actuator''}),
     (''motor_controller'', {''actuator''}), (''plc'', {''controller''})]"

definition provisional_operations :: "string set" where
  "provisional_operations = {''read'', ''write''}"

definition check_policy :: "string \<Rightarrow> string \<Rightarrow> string \<Rightarrow> bool" where
  "check_policy resource operation role =
     (case dict_get policy_table resource of
        None \<Rightarrow> False
      | Some ops \<Rightarrow>
          (case dict_get ops operation of
             None \<Rightarrow> False
           | Some allowed_roles \<Rightarrow> role \<in> allowed_roles))"

definition role_valid_for_type :: "string option \<Rightarrow> string option \<Rightarrow> bool" where
  "role_valid_for_type device_type role =
     (case (device_type, role) of
        (Some t, Some r) \<Rightarrow> t \<noteq> [] \<and> r \<noteq> [] \<and>
          r \<in> (case dict_get roles_for_type t of None \<Rightarrow> {} | Some roles \<Rightarrow> roles)
      | _ \<Rightarrow> False)"

definition provisional_allowed :: "string \<Rightarrow> string \<Rightarrow> string \<Rightarrow> bool" where
  "provisional_allowed own_type resource operation =
     (resource = own_type \<and> operation \<in> provisional_operations)"

section \<open>What the tables allow\<close>

lemma policy_table_cases:
  assumes "check_policy resource operation role"
  obtains ops roles where "(resource, ops) \<in> set policy_table" "(operation, roles) \<in> set ops" "role \<in> roles"
  using assms by (auto simp: check_policy_def split: option.splits dest: map_of_SomeD)

lemma policy_types: "check_policy resource operation role \<Longrightarrow> resource \<in> allowed_device_types"
  by (erule policy_table_cases) (auto simp: policy_table_def allowed_device_types_def)

lemma policy_operations: "check_policy resource operation role \<Longrightarrow> operation \<in> {''read'', ''write'', ''stop'', ''stream''}"
  by (erule policy_table_cases) (auto simp: policy_table_def)

lemma policy_no_separator:
  assumes "check_policy resource operation role"
  shows "CHR ''|'' \<notin> set resource" "CHR ''|'' \<notin> set operation"
proof -
  have "\<forall>r\<in>allowed_device_types. CHR ''|'' \<notin> set r" by (simp add: allowed_device_types_def)
  from this policy_types [OF assms] show "CHR ''|'' \<notin> set resource" by (rule bspec)
  have "\<forall>r\<in>{''read'', ''write'', ''stop'', ''stream''}. CHR ''|'' \<notin> set r" by simp
  from this policy_operations [OF assms] show "CHR ''|'' \<notin> set operation" by (rule bspec)
qed

definition role_pairs :: "(string \<times> string) set" where
  "role_pairs = {(''temperature_sensor'', ''sensor''), (''pressure_sensor'', ''sensor''), (''smart_meter'', ''sensor''),
     (''camera'', ''monitor''), (''camera'', ''sensor''), (''valve_controller'', ''actuator''),
     (''motor_controller'', ''actuator''), (''plc'', ''controller'')}"

lemma roles_cases: "role_valid_for_type (Some t) (Some r) \<longleftrightarrow> (t, r) \<in> role_pairs"
proof
  assume "role_valid_for_type (Some t) (Some r)"
  then obtain roles where m: "dict_get roles_for_type t = Some roles" "r \<in> roles"
    by (auto simp: role_valid_for_type_def split: option.splits)
  have "\<forall>(t, roles)\<in>set roles_for_type. \<forall>r\<in>roles. (t, r) \<in> role_pairs"
    by (simp add: roles_for_type_def role_pairs_def)
  from bspec [OF this map_of_SomeD [OF m(1)]] m(2) show "(t, r) \<in> role_pairs" by simp
next
  have "\<forall>(t, r)\<in>role_pairs. role_valid_for_type (Some t) (Some r)"
    by (simp add: role_pairs_def role_valid_for_type_def roles_for_type_def)
  then show "role_valid_for_type (Some t) (Some r)" if "(t, r) \<in> role_pairs"
    using bspec [of role_pairs _ "(t, r)"] that by fast
qed

lemma check_policy_stop:
  "check_policy resource ''stop'' role \<longleftrightarrow>
     role = ''controller'' \<and> resource \<in> allowed_device_types \<or>
     role = ''actuator'' \<and> resource \<in> {''valve_controller'', ''motor_controller''}"
  by (auto simp: check_policy_def policy_table_def allowed_device_types_def)

lemma own_type_rights:
  assumes "role_valid_for_type (Some t) (Some r)"
  shows "check_policy t ''read'' r \<longleftrightarrow> t \<notin> {''valve_controller'', ''motor_controller''}"
    and "check_policy t ''write'' r \<longleftrightarrow> t \<noteq> ''camera''"
proof -
  have "\<forall>(t, r)\<in>role_pairs. (check_policy t ''read'' r \<longleftrightarrow> t \<notin> {''valve_controller'', ''motor_controller''}) \<and>
      (check_policy t ''write'' r \<longleftrightarrow> t \<noteq> ''camera'')"
    by (simp add: role_pairs_def check_policy_def policy_table_def)
  with assms show "check_policy t ''read'' r \<longleftrightarrow> t \<notin> {''valve_controller'', ''motor_controller''}"
    "check_policy t ''write'' r \<longleftrightarrow> t \<noteq> ''camera''"
    unfolding roles_cases by fast+
qed

section \<open>Properties\<close>

text \<open>
  Who can stop what. A device whose role passes the sanity check for its type may stop a resource
  exactly when it is a PLC and the resource is of a known type, or it is a valve or motor controller
  and the resource is a valve or a motor controller. No sensor, meter or camera stops anything.
\<close>

theorem stop_rights:
  assumes "role_valid_for_type (Some t) (Some r)"
  shows "check_policy resource ''stop'' r \<longleftrightarrow>
    t = ''plc'' \<and> resource \<in> allowed_device_types \<or>
    t \<in> {''valve_controller'', ''motor_controller''} \<and> resource \<in> {''valve_controller'', ''motor_controller''}"
  using assms unfolding roles_cases check_policy_stop role_pairs_def by simp (elim disjE; simp)

theorem stop_rights_witness:
  "check_policy ''camera'' ''stop'' ''controller'' \<and> \<not> check_policy ''plc'' ''stop'' ''sensor''"
  using stop_rights [of "''plc''" "''controller''" "''camera''"]
    stop_rights [of "''temperature_sensor''" "''sensor''" "''plc''"]
  by (simp add: roles_cases role_pairs_def allowed_device_types_def)

text \<open>
  What a provisional token is worth. With a role that fits its type, a device on a token can only
  read or write its own type: sensors and meters both, PLCs both, cameras read, and the two actuator
  types write.
\<close>

lemma provisional_rights:
  assumes "role_valid_for_type (Some t) (Some r)"
  shows "provisional_allowed t resource operation \<and> check_policy resource operation r \<longleftrightarrow>
    resource = t \<and>
    (operation = ''read'' \<and> t \<notin> {''valve_controller'', ''motor_controller''} \<or>
     operation = ''write'' \<and> t \<noteq> ''camera'')"
proof (cases "resource = t \<and> operation \<in> provisional_operations")
  case True
  then consider "resource = t" "operation = ''read''" | "resource = t" "operation = ''write''"
    by (auto simp: provisional_operations_def)
  then show ?thesis
    using own_type_rights [OF assms] by cases (simp_all add: provisional_allowed_def provisional_operations_def)
qed (auto simp: provisional_allowed_def provisional_operations_def)

end
