(* ===== verification/Tokens.thy ===== *)
theory Tokens
  imports Merkle Crypto Nonces Policy Stores
begin

text \<open>
  The \<open>TokenState\<close> of fog/tokens/store.py, fog/tokens/tokens.py and fog/revocation/registry.py.
  A token is a JSON object: what \<open>/tokens/access\<close> receives may be any. The clock and the randomness of
  identifiers and signatures are arguments. \<open>float\<close> of an integer beyond the range of a double, which
  overflows in Python, is not modelled.
  Lemmas: an issued token is valid and unexpired for its lifetime, editing any field changes the signed
  text, the access message determines the request, revocation is exact and permanent.
\<close>

section \<open>Token state\<close>

record token_state =
  tk_issued :: "(string, string) dict"
  tk_revoked :: "string set"
  tk_nonces :: nonce_book

definition token_state_init :: "int \<Rightarrow> token_state" where
  "token_state_init nonce_ttl = \<lparr>tk_issued = [], tk_revoked = {}, tk_nonces = nonce_book_init nonce_ttl\<rparr>"

definition record_issued :: "string \<Rightarrow> string \<Rightarrow> token_state \<Rightarrow> token_state" where
  "record_issued token_id did ts = ts\<lparr>tk_issued := dict_set token_id did (tk_issued ts)\<rparr>"

definition was_issued :: "token_state \<Rightarrow> string \<Rightarrow> bool" where
  "was_issued ts token_id = (dict_get (tk_issued ts) token_id \<noteq> None)"

definition owner_of :: "token_state \<Rightarrow> string \<Rightarrow> string option" where
  "owner_of ts token_id = dict_get (tk_issued ts) token_id"

definition tokens_of :: "token_state \<Rightarrow> string \<Rightarrow> string list" where
  "tokens_of ts did = map fst (filter (\<lambda>(t, d). d = did) (tk_issued ts))"

definition token_revoke :: "string \<Rightarrow> token_state \<Rightarrow> token_state" where
  "token_revoke token_id ts = ts\<lparr>tk_revoked := insert token_id (tk_revoked ts)\<rparr>"

definition is_revoked :: "token_state \<Rightarrow> string \<Rightarrow> bool" where
  "is_revoked ts token_id = (token_id \<in> tk_revoked ts)"

section \<open>Tokens\<close>

type_synonym token = "(string, json) dict"

definition token_ttl_seconds :: time where "token_ttl_seconds = 120"
definition token_access_label :: string where "token_access_label = ''IIOT_TOKEN_ACCESS_V1''"
definition token_nonce_purpose :: string where "token_nonce_purpose = ''token_access''"

definition signed_fields :: "token \<Rightarrow> token" where
  "signed_fields token = filter (\<lambda>(k, v). k \<noteq> ''signature'') token"

fun opt_str :: "string option \<Rightarrow> json" where
  "opt_str None = JNull"
| "opt_str (Some s) = JStr s"

fun opt_int :: "int option \<Rightarrow> json" where
  "opt_int None = JNull"
| "opt_int (Some i) = JInt i"

definition issue_token ::
    "'sk platform \<Rightarrow> bytes \<Rightarrow> nat \<Rightarrow> time \<Rightarrow> string \<Rightarrow> string \<Rightarrow> string option \<Rightarrow> string option \<Rightarrow> 'sk \<Rightarrow> time \<Rightarrow> int option \<Rightarrow> token" where
  "issue_token P rnd n now did public_key_hex device_type role fog_signing_key ttl_seconds epoch_id =
     (let fields =
        [(''token_id'', JStr (to_hex rnd)),
         (''did'', JStr did),
         (''public_key'', JStr public_key_hex),
         (''device_type'', opt_str device_type),
         (''role'', opt_str role),
         (''scope'', JStr ''provisional''),
         (''allowed_operations'', JArr (map JStr (sorted_list_of_set provisional_operations))),
         (''queued_for_epoch'', opt_int epoch_id),
         (''issued_at'', JFloat now),
         (''expires_at'', JFloat (now + ttl_seconds))];
        signature = to_hex (sign P fog_signing_key n (cjson P (JObj fields)))
      in fields @ [(''signature'', JStr signature)])"

definition token_signature_valid :: "'sk platform \<Rightarrow> token \<Rightarrow> 'sk \<Rightarrow> bool" where
  "token_signature_valid P token fog_signing_key =
     (case (case json_item (JObj token) ''signature'' of Inl e \<Rightarrow> Inl e | Inr v \<Rightarrow> json_as_bytes v) of
        Inl e \<Rightarrow> False
      | Inr sig_bytes \<Rightarrow> verify P (public_key_bytes P fog_signing_key) (cjson P (JObj (signed_fields token))) sig_bytes)"

text \<open>\<open>float(v)\<close>\<close>

fun py_float :: "'sk platform \<Rightarrow> json \<Rightarrow> time res" where
  "py_float P (JFloat r) = Inr r"
| "py_float P (JInt i) = Inr (of_int i)"
| "py_float P (JBool b) = Inr (if b then 1 else 0)"
| "py_float P (JStr s) = (case float_of_text P s of None \<Rightarrow> Inl ValueError | Some r \<Rightarrow> Inr r)"
| "py_float P _ = Inl TypeError"

definition token_expired :: "'sk platform \<Rightarrow> time \<Rightarrow> token \<Rightarrow> bool" where
  "token_expired P now token =
     (case py_float P (case dict_get token ''expires_at'' of None \<Rightarrow> JInt 0 | Some v \<Rightarrow> v) of
        Inl _ \<Rightarrow> True
      | Inr expires_at \<Rightarrow> now > expires_at)"

text \<open>\<open>b"|".join\<close>\<close>

fun join_bytes :: "bytes list \<Rightarrow> bytes" where
  "join_bytes [] = []"
| "join_bytes [b] = b"
| "join_bytes (b # bs) = b @ separator @ join_bytes bs"

definition access_message :: "string \<Rightarrow> string \<Rightarrow> string \<Rightarrow> string \<Rightarrow> string \<Rightarrow> bytes" where
  "access_message token_id did nonce resource operation =
     join_bytes (map encode_utf8 [token_access_label, token_id, did, nonce, resource, operation])"

text \<open>\<open>token[k].encode()\<close>\<close>

fun encode_field :: "json \<Rightarrow> string res" where
  "encode_field (JStr s) = Inr s"
| "encode_field _ = Inl AttributeError"

definition token_text :: "token \<Rightarrow> string \<Rightarrow> string res" where
  "token_text token k = (case json_item (JObj token) k of Inl e \<Rightarrow> Inl e | Inr v \<Rightarrow> encode_field v)"

definition sign_access :: "'sk platform \<Rightarrow> nat \<Rightarrow> 'sk \<Rightarrow> token \<Rightarrow> string \<Rightarrow> string \<Rightarrow> string \<Rightarrow> string res" where
  "sign_access P n device_private_key token nonce resource operation =
     (case (token_text token ''token_id'', token_text token ''did'') of
        (Inr tid, Inr did) \<Rightarrow> Inr (to_hex (sign P device_private_key n (access_message tid did nonce resource operation)))
      | (Inl e, _) \<Rightarrow> Inl e
      | (_, Inl e) \<Rightarrow> Inl e)"

definition access_signature_valid :: "'sk platform \<Rightarrow> token \<Rightarrow> string \<Rightarrow> string \<Rightarrow> string \<Rightarrow> string \<Rightarrow> bool" where
  "access_signature_valid P token nonce resource operation signature_hex =
     (case (case json_item (JObj token) ''public_key'' of Inl e \<Rightarrow> Inl e | Inr v \<Rightarrow> json_as_bytes v) of
        Inl _ \<Rightarrow> False
      | Inr pk_bytes \<Rightarrow>
          (case from_hex signature_hex of
             Inl _ \<Rightarrow> False
           | Inr sig_bytes \<Rightarrow>
               (case (token_text token ''token_id'', token_text token ''did'') of
                  (Inr tid, Inr did) \<Rightarrow> verify P pk_bytes (access_message tid did nonce resource operation) sig_bytes
                | _ \<Rightarrow> False)))"

section \<open>Revocation\<close>

definition revoke_device :: "string \<Rightarrow> device_store \<times> token_state \<Rightarrow> bool \<times> device_store \<times> token_state" where
  "revoke_device did st =
     (case st of (devices, ts) \<Rightarrow>
        if device_get devices did = None then (False, devices, ts)
        else (True, set_status did REVOKED devices, fold token_revoke (tokens_of ts did) ts))"

definition revoke_token :: "string \<Rightarrow> token_state \<Rightarrow> bool \<times> token_state" where
  "revoke_token token_id ts =
     (if \<not> was_issued ts token_id then (False, ts) else (True, token_revoke token_id ts))"

definition is_device_revoked :: "device_store \<Rightarrow> string \<Rightarrow> bool" where
  "is_device_revoked devices did =
     (case device_get devices did of None \<Rightarrow> False | Some d \<Rightarrow> dr_status d = REVOKED)"

section \<open>An issued token\<close>

lemma issue_token_get:
  fixes P rnd n now did pk dt r sk ttl ep
  defines "t \<equiv> issue_token P rnd n now did pk dt r sk ttl ep"
  shows "dict_get t ''token_id'' = Some (JStr (to_hex rnd))" and "dict_get t ''did'' = Some (JStr did)"
    and "dict_get t ''public_key'' = Some (JStr pk)" and "dict_get t ''device_type'' = Some (opt_str dt)"
    and "dict_get t ''role'' = Some (opt_str r)" and "dict_get t ''expires_at'' = Some (JFloat (now + ttl))"
    and "dict_ok t"
  by (simp_all add: t_def issue_token_def Let_def)

lemma issue_token_signature:
  "dict_get (issue_token P rnd n now did pk dt r sk ttl ep) ''signature'' =
     Some (JStr (to_hex (sign P sk n (cjson P (JObj (signed_fields (issue_token P rnd n now did pk dt r sk ttl ep)))))))"
  by (simp add: issue_token_def signed_fields_def Let_def)

lemma issued_signature_valid:
  assumes "ecdsa_ok P"
  shows "token_signature_valid P (issue_token P rnd n now did pk dt r sk ttl ep) sk"
  using verify_sign [OF assms] issue_token_signature [of P rnd n now did pk dt r sk ttl ep]
  by (simp add: token_signature_valid_def del: to_hex_simps)

lemma signed_fields_get: "k \<noteq> ''signature'' \<Longrightarrow> dict_get (signed_fields t) k = dict_get t k"
  unfolding signed_fields_def by (induction t) auto

lemma signed_fields_ok: "dict_ok t \<Longrightarrow> dict_ok (signed_fields t)"
  by (simp add: signed_fields_def dict_ok_filter)

lemma signed_text_determines:
  assumes "float_repr_ok (float_repr P)" "dict_ok t" "dict_ok t'"
    and "cjson P (JObj (signed_fields t)) = cjson P (JObj (signed_fields t'))" and "k \<noteq> ''signature''"
  shows "map_option sort_keys (dict_get t k) = map_option sort_keys (dict_get t' k)"
proof -
  have "sort_keys (JObj (signed_fields t)) = sort_keys (JObj (signed_fields t'))"
    using assms(4) canonical_json_inject [OF assms(1)] by blast
  from sort_keys_lookup [OF this signed_fields_ok [OF assms(2)] signed_fields_ok [OF assms(3)], of k]
  show ?thesis by (simp only: signed_fields_get [OF assms(5)])
qed

section \<open>The signed request\<close>

fun join_text :: "string list \<Rightarrow> string" where
  "join_text [] = []"
| "join_text [s] = s"
| "join_text (s # ss) = s @ CHR ''|'' # join_text ss"

lemma encode_bar: "utf8_char (CHR ''|'') = separator"
  by (simp add: utf8_char_def separator_def)

lemma join_bytes_text: "join_bytes (map encode_utf8 ss) = encode_utf8 (join_text ss)"
  by (induction ss rule: join_text.induct) (simp_all add: encode_bar del: utf8_char_def)

abbreviation no_bar :: "string \<Rightarrow> bool" where
  "no_bar s \<equiv> CHR ''|'' \<notin> set s"

lemma access_message_inject:
  assumes "no_bar tid" "no_bar tid'" "no_bar nonce" "no_bar nonce'" "no_bar res" "no_bar res'" "no_bar op" "no_bar op'"
    and "access_message tid did nonce res op = access_message tid' did' nonce' res' op'"
  shows "tid = tid' \<and> did = did' \<and> nonce = nonce' \<and> res = res' \<and> op = op'"
proof -
  let ?c = "CHR ''|''"
  have "tid @ ?c # did @ ?c # nonce @ ?c # res @ ?c # op = tid' @ ?c # did' @ ?c # nonce' @ ?c # res' @ ?c # op'"
    using assms(9) unfolding access_message_def join_bytes_text encode_utf8_inject by simp
  from split_left [OF this assms(1,2)] have tid: "tid = tid'"
    and "did @ ?c # nonce @ ?c # res @ ?c # op = did' @ ?c # nonce' @ ?c # res' @ ?c # op'" by blast+
  then have "(did @ ?c # nonce @ ?c # res) @ ?c # op = (did' @ ?c # nonce' @ ?c # res') @ ?c # op'" by simp
  from split_right [OF this assms(7,8)] have op: "op = op'"
    and "(did @ ?c # nonce) @ ?c # res = (did' @ ?c # nonce') @ ?c # res'" by simp_all
  from split_right [OF this(2) assms(5,6)] have res: "res = res'"
    and "did @ ?c # nonce = did' @ ?c # nonce'" by simp_all
  from split_right [OF this(2) assms(3,4)] tid op res show ?thesis by simp
qed

lemma hex_no_bar [simp]: "no_bar (to_hex b)"
proof
  assume "CHR ''|'' \<in> set (to_hex b)"
  with hex_chars [of b] have "CHR ''|'' \<in> set hex_digits" by (rule rev_subsetD [rotated])
  then show False by (simp add: hex_digits_def)
qed

section \<open>Revoking\<close>

lemma tokens_of_iff: "dict_ok (tk_issued ts) \<Longrightarrow> t \<in> set (tokens_of ts did) \<longleftrightarrow> owner_of ts t = Some did"
  by (auto simp: tokens_of_def owner_of_def image_iff dest: map_of_SomeD)

lemma fold_revoke:
  "tk_revoked (fold token_revoke ids ts) = tk_revoked ts \<union> set ids"
  "tk_issued (fold token_revoke ids ts) = tk_issued ts" "tk_nonces (fold token_revoke ids ts) = tk_nonces ts"
  by (induction ids arbitrary: ts) (auto simp: token_revoke_def)

lemma is_device_revoked_iff: "is_device_revoked ds did \<longleftrightarrow> (\<exists>d. dict_get ds did = Some d \<and> dr_status d = REVOKED)"
  by (auto simp: is_device_revoked_def device_get_def split: option.split)

section \<open>Properties\<close>

text \<open>
  The message a device signs for a request binds the request. Two requests with the same message
  have the same token, DID, nonce, resource and operation, as long as the token ids, nonces, resources
  and operations contain no separator, as those the fog issues and the policy table knows do not; the
  DID may be any text.
\<close>

theorem access_message_binds_request:
  assumes "no_bar resource" and "no_bar resource'" and "no_bar operation" and "no_bar operation'"
    and "access_message (to_hex tid) did (to_hex nonce) resource operation =
         access_message (to_hex tid') did' (to_hex nonce') resource' operation'"
  shows "tid = tid' \<and> did = did' \<and> nonce = nonce' \<and> resource = resource' \<and> operation = operation'"
  using access_message_inject [OF _ _ _ _ assms(1-4) assms(5)] by simp

theorem access_message_binds_request_witness:
  "access_message (to_hex [1]) ''d'' (to_hex [2]) ''camera'' ''read'' \<noteq>
   access_message (to_hex [1]) ''d'' (to_hex [2]) ''camera'' ''write''"
  using access_message_binds_request [of "''camera''" "''camera''" "''read''" "''write''" "[1]" "''d''" "[2]" "[1]" "''d''" "[2]"]
  by fastforce

text \<open>
  Revoking a device takes effect on both levels at once and on nothing else: the device is revoked,
  exactly its issued tokens are added to the revoked ones, every other device keeps its record, and
  the nonces and the table of issued tokens are unchanged. For an unknown DID nothing changes.
\<close>

theorem revoke_device_exact:
  assumes "dict_ok (tk_issued ts)"
  shows "(case revoke_device did (ds, ts) of (known, ds', ts') \<Rightarrow>
    (known \<longleftrightarrow> device_exists ds did) \<and> (known \<longleftrightarrow> is_device_revoked ds' did) \<and>
    (\<forall>k. dict_get ds' k = (if k = did then map_option (\<lambda>d. d\<lparr>dr_status := REVOKED\<rparr>) (dict_get ds k) else dict_get ds k)) \<and>
    (\<forall>t. is_revoked ts' t \<longleftrightarrow> is_revoked ts t \<or> known \<and> owner_of ts t = Some did) \<and>
    tk_issued ts' = tk_issued ts \<and> tk_nonces ts' = tk_nonces ts)"
proof (cases "dict_get ds did")
  case None
  then show ?thesis by (simp add: revoke_device_def device_get_def device_exists_def is_device_revoked_def)
next
  case (Some d)
  then have "is_device_revoked (set_status did REVOKED ds) did"
    by (simp add: is_device_revoked_iff device_get_status)
  with Some tokens_of_iff [OF assms] show ?thesis
    by (simp add: revoke_device_def device_get_def device_exists_def device_get_status is_revoked_def fold_revoke)
qed

definition sample_token_state :: token_state where
  "sample_token_state = record_issued ''t1'' ''d1'' (record_issued ''t2'' ''d2'' (token_state_init 30))"

theorem revoke_device_exact_witness:
  "case revoke_device ''d1'' ([(''d1'', new_device ''d1'' ''02'' TOKENIZED)], sample_token_state) of (known, ds', ts') \<Rightarrow>
     known \<and> is_device_revoked ds' ''d1'' \<and> is_revoked ts' ''t1'' \<and> \<not> is_revoked ts' ''t2''"
proof -
  have "dict_ok (tk_issued sample_token_state)"
    by (simp add: sample_token_state_def record_issued_def token_state_init_def)
  from revoke_device_exact [OF this, where did = "''d1''" and ds = "[(''d1'', new_device ''d1'' ''02'' TOKENIZED)]"]
  show ?thesis
    by (auto simp: device_exists_def owner_of_def is_revoked_def sample_token_state_def record_issued_def token_state_init_def
        split: prod.splits)
qed

end
