(* ===== verification/Proof_Package.thy ===== *)
theory Proof_Package
  imports Merkle Crypto
begin

text \<open>
  fog/proofs/proof_package.py and the two shapes of common/schemas.py it uses: what the fog signs for
  a member of an epoch, how a package is built from the epoch's tree, and the verifier, check by
  check. The two \<open>str\<close> fields of a step are validated as the schema says; the coercion pydantic
  applies to \<open>epoch_id: int\<close> is the parameter \<open>lax_int\<close> of the platform.
  Lemmas: a built package is accepted, an accepted package names a member of the epoch or exhibits a
  collision of SHA-256, the signed message determines every field, and when the verifier raises.
\<close>

section \<open>The shapes\<close>

datatype side = Side_L | Side_R

record path_step =
  ps_sibling :: string
  ps_side :: side

record proof_package =
  pp_did :: string
  pp_public_key :: string
  pp_leaf :: string
  pp_epoch_id :: int
  pp_root :: string
  pp_proof_path :: "path_step list"
  pp_fog_id :: string
  pp_fog_signature :: string

fun side_text :: "side \<Rightarrow> string" where
  "side_text Side_L = ''L''"
| "side_text Side_R = ''R''"

text \<open>\<open>s.model_dump()\<close>\<close>

definition dump_step :: "path_step \<Rightarrow> json" where
  "dump_step s = JObj [(''sibling'', JStr (ps_sibling s)), (''side'', JStr (side_text (ps_side s)))]"

text \<open>\<open>ProofStep(**s)\<close>; a \<open>ValidationError\<close> is a \<open>ValueError\<close>.\<close>

definition parse_side :: "string \<Rightarrow> side res" where
  "parse_side s = (if s = ''L'' then Inr Side_L else if s = ''R'' then Inr Side_R else Inl ValueError)"

fun parse_step :: "json \<Rightarrow> path_step res" where
  "parse_step (JObj d) =
     (case (dict_get d ''sibling'', dict_get d ''side'') of
        (Some (JStr sibling), Some (JStr s)) \<Rightarrow>
          (case parse_side s of Inl e \<Rightarrow> Inl e | Inr sd \<Rightarrow> Inr \<lparr>ps_sibling = sibling, ps_side = sd\<rparr>)
      | _ \<Rightarrow> Inl ValueError)"
| "parse_step _ = Inl ValueError"

fun parse_steps :: "json list \<Rightarrow> path_step list res" where
  "parse_steps [] = Inr []"
| "parse_steps (v # vs) =
     (case parse_step v of
        Inl e \<Rightarrow> Inl e
      | Inr s \<Rightarrow> (case parse_steps vs of Inl e \<Rightarrow> Inl e | Inr ss \<Rightarrow> Inr (s # ss)))"

text \<open>\<open>ProofPackage(**pkg)\<close>\<close>

fun str_field :: "(string, json) dict \<Rightarrow> string \<Rightarrow> string res" where
  "str_field d k = (case dict_get d k of Some (JStr s) \<Rightarrow> Inr s | _ \<Rightarrow> Inl ValueError)"

definition int_field :: "'sk platform \<Rightarrow> (string, json) dict \<Rightarrow> string \<Rightarrow> int res" where
  "int_field P d k =
     (case Option.bind (dict_get d k) (lax_int P) of None \<Rightarrow> Inl ValueError | Some i \<Rightarrow> Inr i)"

definition path_field :: "(string, json) dict \<Rightarrow> path_step list res" where
  "path_field d = (case dict_get d ''proof_path'' of Some (JArr vs) \<Rightarrow> parse_steps vs | _ \<Rightarrow> Inl ValueError)"

definition parse_package :: "'sk platform \<Rightarrow> (string, json) dict \<Rightarrow> proof_package res" where
  "parse_package P d =
     (case (str_field d ''did'', str_field d ''public_key'', str_field d ''leaf'', int_field P d ''epoch_id'',
            str_field d ''root'', path_field d, str_field d ''fog_id'', str_field d ''fog_signature'') of
        (Inr did, Inr pk, Inr leaf, Inr epoch, Inr rt, Inr path, Inr fog, Inr s) \<Rightarrow>
          Inr \<lparr>pp_did = did, pp_public_key = pk, pp_leaf = leaf, pp_epoch_id = epoch, pp_root = rt,
               pp_proof_path = path, pp_fog_id = fog, pp_fog_signature = s\<rparr>
      | _ \<Rightarrow> Inl ValueError)"

text \<open>\<open>pkg.model_dump()\<close>, as stored with the device and sent in answers.\<close>

definition dump_package :: "proof_package \<Rightarrow> (string, json) dict" where
  "dump_package p =
     [(''did'', JStr (pp_did p)), (''public_key'', JStr (pp_public_key p)), (''leaf'', JStr (pp_leaf p)),
      (''epoch_id'', JInt (pp_epoch_id p)), (''root'', JStr (pp_root p)),
      (''proof_path'', JArr (map dump_step (pp_proof_path p))), (''fog_id'', JStr (pp_fog_id p)),
      (''fog_signature'', JStr (pp_fog_signature p))]"

section \<open>Building and verifying\<close>

definition package_message :: "'sk platform \<Rightarrow> string \<Rightarrow> string \<Rightarrow> string \<Rightarrow> int \<Rightarrow> string \<Rightarrow> bytes" where
  "package_message P did leaf_hex root_hex epoch_id fog_id =
     cjson P (JObj [(''did'', JStr did), (''leaf'', JStr leaf_hex), (''root'', JStr root_hex),
                    (''epoch_id'', JInt epoch_id), (''fog_id'', JStr fog_id)])"

definition build_proof_package ::
    "'sk platform \<Rightarrow> nat \<Rightarrow> string \<Rightarrow> string \<Rightarrow> bytes \<Rightarrow> merkle_tree \<Rightarrow> int \<Rightarrow> string \<Rightarrow> 'sk \<Rightarrow> proof_package res" where
  "build_proof_package P n did pk_hex leaf tree epoch_id fog_id signing_key =
     (let root_hex = mt_root_hex tree
      in case get_proof tree (Raw leaf) of
           Inl e \<Rightarrow> Inl e
         | Inr path \<Rightarrow>
             let signature = to_hex (sign P signing_key n (package_message P did (to_hex leaf) root_hex epoch_id fog_id))
             in (case parse_steps path of
                   Inl e \<Rightarrow> Inl e
                 | Inr steps \<Rightarrow>
                     Inr \<lparr>pp_did = did, pp_public_key = pk_hex, pp_leaf = to_hex leaf, pp_epoch_id = epoch_id,
                          pp_root = root_hex, pp_proof_path = steps, pp_fog_id = fog_id,
                          pp_fog_signature = signature\<rparr>))"

datatype reason =
    Malformed_identity
  | Leaf_mismatch
  | No_anchored_root int
  | Malformed_path
  | Root_mismatch
  | Bad_fog_signature
  | Membership_proven

record verification_result =
  vr_ok :: bool
  vr_reason :: reason
  vr_detected_by :: string
  vr_recomputed_leaf :: "string option"
  vr_reconstructed_root :: "string option"
  vr_trusted_root :: "string option"

definition recompute_leaf :: "proof_package \<Rightarrow> bytes res" where
  "recompute_leaf pkg = (case from_hex (pp_public_key pkg) of Inl e \<Rightarrow> Inl e | Inr pk \<Rightarrow> leaf_hash (pp_did pkg) pk)"

definition verify_proof_package ::
    "'sk platform \<Rightarrow> proof_package \<Rightarrow> string option \<Rightarrow> bytes \<Rightarrow> verification_result res" where
  "verify_proof_package P pkg trusted_root_hex fog_pk_bytes =
     (let path = map dump_step (pp_proof_path pkg)
      in case recompute_leaf pkg of
           Inl e \<Rightarrow> (if e = ValueError
             then Inr \<lparr>vr_ok = False, vr_reason = Malformed_identity, vr_detected_by = ''identity check'',
                       vr_recomputed_leaf = None, vr_reconstructed_root = None, vr_trusted_root = None\<rparr>
             else Inl e)
         | Inr leaf \<Rightarrow>
             let recomputed = to_hex leaf
             in if recomputed \<noteq> pp_leaf pkg then
                  Inr \<lparr>vr_ok = False, vr_reason = Leaf_mismatch, vr_detected_by = ''identity check'',
                       vr_recomputed_leaf = Some recomputed, vr_reconstructed_root = None, vr_trusted_root = None\<rparr>
                else case trusted_root_hex of
                  None \<Rightarrow>
                    Inr \<lparr>vr_ok = False, vr_reason = No_anchored_root (pp_epoch_id pkg), vr_detected_by = ''root registry'',
                         vr_recomputed_leaf = Some recomputed, vr_reconstructed_root = None, vr_trusted_root = None\<rparr>
                | Some trusted \<Rightarrow>
                    (case reconstruct_root (Hex recomputed) path of
                       Inl e \<Rightarrow> Inl e
                     | Inr None \<Rightarrow>
                         Inr \<lparr>vr_ok = False, vr_reason = Malformed_path, vr_detected_by = ''Merkle verifier'',
                              vr_recomputed_leaf = Some recomputed, vr_reconstructed_root = None,
                              vr_trusted_root = Some trusted\<rparr>
                     | Inr (Some candidate) \<Rightarrow>
                         let candidate_hex = to_hex candidate
                         in if candidate_hex \<noteq> trusted then
                              Inr \<lparr>vr_ok = False, vr_reason = Root_mismatch, vr_detected_by = ''Merkle verifier'',
                                   vr_recomputed_leaf = Some recomputed, vr_reconstructed_root = Some candidate_hex,
                                   vr_trusted_root = Some trusted\<rparr>
                            else
                              let msg = package_message P (pp_did pkg) (pp_leaf pkg) (pp_root pkg) (pp_epoch_id pkg) (pp_fog_id pkg);
                                  rejected = \<lparr>vr_ok = False, vr_reason = Bad_fog_signature, vr_detected_by = ''signature check'',
                                   vr_recomputed_leaf = Some recomputed, vr_reconstructed_root = Some candidate_hex,
                                   vr_trusted_root = Some trusted\<rparr>
                              in if pp_root pkg \<noteq> trusted then Inr rejected
                                 else case from_hex (pp_fog_signature pkg) of
                                   Inl e \<Rightarrow> Inl e
                                 | Inr sig_bytes \<Rightarrow>
                                     if \<not> verify P fog_pk_bytes msg sig_bytes then Inr rejected
                                     else Inr \<lparr>vr_ok = True, vr_reason = Membership_proven, vr_detected_by = ''all checks passed'',
                                   vr_recomputed_leaf = Some recomputed, vr_reconstructed_root = Some candidate_hex,
                                   vr_trusted_root = Some trusted\<rparr>))"


section \<open>When a package is accepted\<close>

definition accepts :: "'sk platform \<Rightarrow> proof_package \<Rightarrow> string option \<Rightarrow> bytes \<Rightarrow> bool" where
  "accepts P pkg trusted fog_pk = (case verify_proof_package P pkg trusted fog_pk of Inl _ \<Rightarrow> False | Inr r \<Rightarrow> vr_ok r)"

lemma recompute_leaf_ok_iff:
  "recompute_leaf pkg = Inr leaf \<longleftrightarrow> (\<exists>pk. from_hex (pp_public_key pkg) = Inr pk \<and> leaf_hash (pp_did pkg) pk = Inr leaf)"
  by (auto simp: recompute_leaf_def split: sum.splits)

lemma recompute_leaf_error: "recompute_leaf pkg = Inl e \<Longrightarrow> e = ValueError"
  by (auto simp: recompute_leaf_def dest: leaf_hash_errors from_hex_error split: sum.splits)

lemma accepts_iff:
  "accepts P pkg trusted fog_pk \<longleftrightarrow>
     (\<exists>leaf r s. recompute_leaf pkg = Inr leaf \<and> pp_leaf pkg = to_hex leaf \<and> trusted = Some (to_hex r) \<and>
       climbs leaf (map dump_step (pp_proof_path pkg)) r \<and> pp_root pkg = to_hex r \<and>
       from_hex (pp_fog_signature pkg) = Inr s \<and>
       verify P fog_pk (package_message P (pp_did pkg) (pp_leaf pkg) (pp_root pkg) (pp_epoch_id pkg) (pp_fog_id pkg)) s)"
    (is "_ \<longleftrightarrow> ?rhs")
proof
  assume "accepts P pkg trusted fog_pk"
  then show ?rhs
    by (auto simp: accepts_def verify_proof_package_def Let_def climbs_def simp flip: reconstruct_root_hex
        split: sum.splits if_splits option.splits)
next
  assume ?rhs
  then show "accepts P pkg trusted fog_pk"
    by (auto simp: accepts_def verify_proof_package_def Let_def reconstruct_root_hex climbs_def)
qed

lemma accepts_result:
  "accepts P pkg trusted fog_pk \<Longrightarrow> \<exists>r. verify_proof_package P pkg trusted fog_pk = Inr r \<and> vr_ok r"
  by (auto simp: accepts_def split: sum.splits)

text \<open>The verdict names the first check that fails; only a signature that is not hex raises.\<close>

lemma verify_package_raises_iff:
  "verify_proof_package P pkg trusted fog_pk = Inl e \<longleftrightarrow>
     e = ValueError \<and> (\<exists>leaf r. recompute_leaf pkg = Inr leaf \<and> pp_leaf pkg = to_hex leaf \<and> trusted = Some (to_hex r) \<and>
       climbs leaf (map dump_step (pp_proof_path pkg)) r \<and> pp_root pkg = to_hex r \<and>
       from_hex (pp_fog_signature pkg) = Inl ValueError)"
proof -
  have never: "reconstruct_root x path \<noteq> Inl e'" for x path e'
    using reconstruct_root_never_raises [of x path] by auto
  show ?thesis
    by (auto simp: verify_proof_package_def Let_def climbs_def never simp flip: reconstruct_root_hex
        dest: recompute_leaf_error from_hex_error split: sum.splits if_splits option.splits)
qed

section \<open>The signed message determines the package\<close>

lemma package_message_inject:
  assumes "float_repr_ok (float_repr P)"
  shows "package_message P did leaf rt e fog = package_message P did' leaf' rt' e' fog' \<longleftrightarrow>
    did = did' \<and> leaf = leaf' \<and> rt = rt' \<and> e = e' \<and> fog = fog'"
proof -
  let ?d = "\<lambda>did leaf rt e fog. [(''did'', JStr did), (''leaf'', JStr leaf), (''root'', JStr rt),
      (''epoch_id'', JInt e), (''fog_id'', JStr fog)]"
  have "did = did' \<and> leaf = leaf' \<and> rt = rt' \<and> e = e' \<and> fog = fog'"
    if "sort_keys (JObj (?d did leaf rt e fog)) = sort_keys (JObj (?d did' leaf' rt' e' fog'))"
  proof -
    have "map_option sort_keys (dict_get (?d did leaf rt e fog) k) =
        map_option sort_keys (dict_get (?d did' leaf' rt' e' fog') k)" for k
      using that by (rule sort_keys_lookup) simp_all
    from this [of "''did''"] this [of "''leaf''"] this [of "''root''"] this [of "''epoch_id''"] this [of "''fog_id''"]
    show ?thesis by simp
  qed
  then show ?thesis unfolding package_message_def canonical_json_inject [OF assms] by blast
qed

section \<open>Completeness and soundness\<close>

lemma dump_parse_side: "parse_side s = Inr sd \<Longrightarrow> side_text sd = s"
  by (auto simp: parse_side_def split: if_splits)

lemma parse_dump_step [simp]: "parse_step (dump_step s) = Inr s"
  by (cases "ps_side s") (simp_all add: dump_step_def parse_side_def)

lemma parse_dump_steps [simp]: "parse_steps (map dump_step ss) = Inr ss"
  by (induction ss) simp_all

lemma parse_dump_package:
  assumes "runtime_ok P"
  shows "parse_package P (dump_package p) = Inr p"
  using assms by (simp add: parse_package_def dump_package_def int_field_def path_field_def runtime_ok_def)

lemma parse_proof_steps: "\<exists>ss. parse_steps (proof_steps i levels) = Inr ss \<and> map dump_step ss = proof_steps i levels"
proof (induction levels arbitrary: i)
  case (Cons level levels)
  have one: "\<exists>s. parse_step (proof_step h x) = Inr s \<and> dump_step s = proof_step h x" if "x = ''L'' \<or> x = ''R''" for h x
    using that by (auto simp: proof_step_def parse_side_def dump_step_def)
  obtain ss where "parse_steps (proof_steps (i div 2) levels) = Inr ss"
    "map dump_step ss = proof_steps (i div 2) levels" using Cons by blast
  then show ?case
    using one [of "if i XOR 1 < i then ''L'' else ''R''" "level ! (i XOR 1)"]
    by (auto simp: Let_def)
qed simp

lemma build_proof_package_ok_iff:
  "build_proof_package P n did pk_hex leaf tree epoch fog sk = Inr pkg \<longleftrightarrow>
     (\<exists>path. get_proof tree (Raw leaf) = Inr path \<and> map dump_step (pp_proof_path pkg) = path \<and>
       pp_did pkg = did \<and> pp_public_key pkg = pk_hex \<and> pp_leaf pkg = to_hex leaf \<and> pp_epoch_id pkg = epoch \<and>
       pp_root pkg = mt_root_hex tree \<and> pp_fog_id pkg = fog \<and>
       pp_fog_signature pkg = to_hex (sign P sk n (package_message P did (to_hex leaf) (mt_root_hex tree) epoch fog)))"
proof (cases "get_proof tree (Raw leaf)")
  case Inl
  then show ?thesis by (simp add: build_proof_package_def Let_def)
next
  case (Inr path)
  then obtain i where "path = proof_steps i (butlast (mt_levels tree))"
    by (auto simp: get_proof_def split: sum.splits)
  then obtain ss where ss: "parse_steps path = Inr ss" "map dump_step ss = path"
    using parse_proof_steps by blast
  have inj: "map dump_step xs = path \<longleftrightarrow> xs = ss" for xs
    using ss by (metis parse_dump_steps sum.inject(2))
  show ?thesis using Inr ss
    by (cases pkg) (auto simp: build_proof_package_def Let_def inj)
qed

lemma build_proof_package_succeeds:
  assumes "get_proof tree (Raw leaf) = Inr path"
  shows "\<exists>pkg. build_proof_package P n did pk_hex leaf tree epoch fog sk = Inr pkg"
proof -
  obtain ss where "parse_steps path = Inr ss"
    using assms parse_proof_steps by (fastforce simp: get_proof_def split: sum.splits)
  with assms show ?thesis by (simp add: build_proof_package_def Let_def)
qed


text \<open>The leaves of an epoch, from its members, and what their keys have to be.\<close>

definition member_preimages :: "(string \<times> bytes) list \<Rightarrow> bytes list" where
  "member_preimages ms = map (\<lambda>(d, k). leaf_preimage d k) ms"

definition member_leaves :: "(string \<times> bytes) list \<Rightarrow> bytes list" where
  "member_leaves ms = map sha256 (member_preimages ms)"

lemma preimage_member:
  assumes "leaf_preimage d k \<in> set (member_preimages ms)" "length k = compressed_pk_len"
    and keys: "\<forall>(d, k)\<in>set ms. length k = compressed_pk_len"
  shows "(d, k) \<in> set ms"
proof -
  from assms(1) obtain d' k' where m: "(d', k') \<in> set ms" "leaf_preimage d k = leaf_preimage d' k'"
    by (auto simp: member_preimages_def)
  with keys have "length k' = compressed_pk_len" by fast
  with m assms(2) leaf_preimage_inject [of k k' d d'] show ?thesis by simp
qed

lemma accepts_member:
  assumes t: "merkle_init (member_leaves ms) do_sort = Inr t"
    and keys: "\<forall>(d, k)\<in>set ms. length k = compressed_pk_len"
    and acc: "accepts P pkg (Some (mt_root_hex t)) fog_pk"
  shows "\<exists>pk. from_hex (pp_public_key pkg) = Inr pk \<and>
    ((pp_did pkg, pk) \<in> set ms \<or>
     path_collision (pp_did pkg) pk (map dump_step (pp_proof_path pkg)) (member_preimages ms) (mt_leaves t))"
proof -
  from acc obtain leaf r where a: "recompute_leaf pkg = Inr leaf" "mt_root_hex t = to_hex r"
      "climbs leaf (map dump_step (pp_proof_path pkg)) r"
    unfolding accepts_iff by blast
  then obtain pk where pk: "from_hex (pp_public_key pkg) = Inr pk" "leaf_hash (pp_did pkg) pk = Inr leaf"
    unfolding recompute_leaf_ok_iff by blast
  then have leaf: "leaf = sha256 (leaf_preimage (pp_did pkg) pk)" "length pk = compressed_pk_len"
    by (simp_all add: leaf_hash_ok_iff)
  from t have wf: "well_formed_leaves (member_leaves ms)" unfolding merkle_init_ok_iff by simp
  from t have fields: "set (mt_leaves t) = set (member_leaves ms)" "mt_levels t = levels_of (mt_leaves t)"
    unfolding merkle_init_ok_iff by (auto simp: Let_def)
  have "mt_leaves t \<noteq> []" using fields(1) wf by (metis well_formed_leaves_def set_empty)
  moreover have "r = merkle_root (mt_leaves t)"
    using a(2) fields(2) by (simp add: mt_root_hex_def mt_root_def merkle_root_def)
  then have "climb leaf (map dump_step (pp_proof_path pkg)) = Inr (Some (merkle_root (mt_leaves t)))"
    using a(3) reconstruct_root_SomeD(1) unfolding climbs_def by simp
  ultimately have "leaf_preimage (pp_did pkg) pk \<in> set (member_preimages ms) \<or>
      path_collision (pp_did pkg) pk (map dump_step (pp_proof_path pkg)) (member_preimages ms) (mt_leaves t)"
    unfolding leaf
    by (intro climb_leaf_sound [where leaves = "member_leaves ms"])
      (use fields(1) in \<open>auto simp: member_leaves_def member_preimages_def\<close>)
  moreover have "(pp_did pkg, pk) \<in> set ms" if "leaf_preimage (pp_did pkg) pk \<in> set (member_preimages ms)"
    using that leaf(2) keys by (rule preimage_member)
  ultimately show ?thesis using pk(1) by blast
qed

text \<open>The inclusion proof of a member of one tree exhibits a collision with the other tree.\<close>

definition proof_collision :: "(string \<times> bytes) list \<Rightarrow> merkle_tree \<Rightarrow> (string \<times> bytes) list \<Rightarrow> merkle_tree \<Rightarrow> bool" where
  "proof_collision ms t ms' t' \<longleftrightarrow>
     (\<exists>(d, k)\<in>set ms. \<exists>path. get_proof t (Raw (sha256 (leaf_preimage d k))) = Inr path \<and>
        path_collision d k path (member_preimages ms') (mt_leaves t'))"

lemma members_included:
  assumes t: "merkle_init (member_leaves ms) do_sort = Inr t" and t': "merkle_init (member_leaves ms') do_sort' = Inr t'"
    and keys: "\<forall>(d, k)\<in>set ms \<union> set ms'. length k = compressed_pk_len"
    and same: "mt_root t = mt_root t'"
  shows "set ms \<subseteq> set ms' \<or> proof_collision ms t ms' t'"
proof -
  note f = merkle_init_fields [OF t']
  have "(d, k) \<in> set ms' \<or> (\<exists>path. get_proof t (Raw (sha256 (leaf_preimage d k))) = Inr path \<and>
      path_collision d k path (member_preimages ms') (mt_leaves t'))"
    if "(d, k) \<in> set ms" for d k
  proof -
    have "sha256 (leaf_preimage d k) \<in> set (member_leaves ms)"
      using that by (force simp: member_leaves_def member_preimages_def)
    from mt.complete [OF t this] obtain path where
      path: "get_proof t (Raw (sha256 (leaf_preimage d k))) = Inr path" "climbs (sha256 (leaf_preimage d k)) path (mt_root t)" by blast
    then have "climb (sha256 (leaf_preimage d k)) path = Inr (Some (merkle_root (mt_leaves t')))"
      using reconstruct_root_SomeD(1) same f(8) unfolding climbs_def by simp
    then have "leaf_preimage d k \<in> set (member_preimages ms') \<or>
        path_collision d k path (member_preimages ms') (mt_leaves t')"
      by (intro climb_leaf_sound [where leaves = "member_leaves ms'"])
        (use f(1,4) in \<open>auto simp: member_leaves_def member_preimages_def\<close>)
    moreover have "(d, k) \<in> set ms'" if "leaf_preimage d k \<in> set (member_preimages ms')"
    proof (rule preimage_member [OF that])
      show "length k = compressed_pk_len" using keys \<open>(d, k) \<in> set ms\<close> by blast
    qed (use keys in blast)
    ultimately show ?thesis using path(1) by blast
  qed
  then show ?thesis unfolding proof_collision_def by fast
qed

lemma build_accepts:
  assumes P: "ecdsa_ok P"
    and t: "merkle_init leaves do_sort = Inr t" and leaf: "leaf \<in> set leaves"
    and ident: "from_hex pk_hex = Inr pk" "leaf_hash did pk = Inr leaf"
  shows "\<exists>pkg. build_proof_package P n did pk_hex leaf t epoch fog sk = Inr pkg \<and>
    accepts P pkg (Some (mt_root_hex t)) (public_key_bytes P sk)"
proof -
  from mt.complete [OF t leaf] obtain path where path: "get_proof t (Raw leaf) = Inr path" "climbs leaf path (mt_root t)"
    by blast
  obtain pkg where pkg: "build_proof_package P n did pk_hex leaf t epoch fog sk = Inr pkg"
    using build_proof_package_succeeds [OF path(1), of P n did pk_hex epoch fog sk] by blast
  then have "accepts P pkg (Some (mt_root_hex t)) (public_key_bytes P sk)"
    using path ident verify_sign [OF P]
    unfolding build_proof_package_ok_iff accepts_iff recompute_leaf_ok_iff
    by (auto simp: mt_root_hex_def intro!: exI [of _ leaf] exI [of _ "mt_root t"])
  with pkg show ?thesis by blast
qed


section \<open>Properties\<close>

text \<open>
  C10: a package that the verifier accepts against the root of an epoch names a member of that epoch,
  by its DID and its public key; otherwise the package's own path exhibits a collision of SHA-256.
  The accepted signature is one under the fog's key over a message with exactly the package's DID,
  leaf, root, epoch and fog id.
\<close>

theorem accepted_package_names_member:
  assumes "merkle_init (member_leaves ms) do_sort = Inr t"
    and "\<forall>(d, k)\<in>set ms. length k = compressed_pk_len"
    and "accepts P pkg (Some (mt_root_hex t)) fog_pk"
  shows "(\<exists>pk. from_hex (pp_public_key pkg) = Inr pk \<and>
      ((pp_did pkg, pk) \<in> set ms \<or>
       path_collision (pp_did pkg) pk (map dump_step (pp_proof_path pkg)) (member_preimages ms) (mt_leaves t))) \<and>
    (\<exists>s. from_hex (pp_fog_signature pkg) = Inr s \<and>
      verify P fog_pk (package_message P (pp_did pkg) (pp_leaf pkg) (mt_root_hex t) (pp_epoch_id pkg) (pp_fog_id pkg)) s)"
proof -
  have "mt_root_hex t = pp_root pkg" using assms(3) unfolding accepts_iff by auto
  then show ?thesis using accepts_member [OF assms] assms(3) unfolding accepts_iff by auto
qed

text \<open>
  C21: the package that the fog builds for a member of a tree is accepted under the fog's public key,
  for every key, every randomness of the signature and every epoch.
\<close>

theorem built_package_accepted:
  assumes "ecdsa_ok P" and "merkle_init leaves do_sort = Inr t" and "leaf \<in> set leaves"
    and "from_hex pk_hex = Inr pk" and "leaf_hash did pk = Inr leaf"
  shows "\<exists>pkg. build_proof_package P n did pk_hex leaf t epoch fog sk = Inr pkg \<and>
    accepts P pkg (Some (mt_root_hex t)) (public_key_bytes P sk)"
  using build_accepts [OF assms] .

text \<open>
  What changes in an accepted package when one of its fields is edited. With the same trusted
  root, two accepted packages for the same DID that carry the same key have the same leaf and root;
  and a package whose DID, leaf, root, epoch or fog id differs was signed over another message.
\<close>

lemma accepted_packages_agree:
  assumes "float_repr_ok (float_repr P)"
    and "accepts P p trusted fog_pk" and "accepts P q trusted fog_pk"
  shows "pp_root p = pp_root q \<and>
    (pp_did p = pp_did q \<and> pp_public_key p = pp_public_key q \<longrightarrow> pp_leaf p = pp_leaf q) \<and>
    (package_message P (pp_did p) (pp_leaf p) (pp_root p) (pp_epoch_id p) (pp_fog_id p) =
       package_message P (pp_did q) (pp_leaf q) (pp_root q) (pp_epoch_id q) (pp_fog_id q) \<longleftrightarrow>
     pp_did p = pp_did q \<and> pp_leaf p = pp_leaf q \<and> pp_epoch_id p = pp_epoch_id q \<and> pp_fog_id p = pp_fog_id q)"
  using assms(2,3) unfolding accepts_iff package_message_inject [OF assms(1)]
  by (auto simp: recompute_leaf_ok_iff)

text \<open>
  The verifier answers with a verdict on every package, except that a signature field which is not
  hexadecimal raises \<open>ValueError\<close>, and only once every other check has passed.
\<close>

lemma verifier_raises_only_on_signature_text:
  "verify_proof_package P pkg trusted fog_pk = Inl e \<longleftrightarrow>
     e = ValueError \<and> \<not> is_hex (pp_fog_signature pkg) \<and> trusted = Some (pp_root pkg) \<and>
     (\<exists>leaf r. recompute_leaf pkg = Inr leaf \<and> pp_leaf pkg = to_hex leaf \<and> pp_root pkg = to_hex r \<and>
       climbs leaf (map dump_step (pp_proof_path pkg)) r)"
proof -
  have "from_hex s = Inl ValueError \<longleftrightarrow> \<not> is_hex s" for s
    by (cases "from_hex s") (auto simp: is_hex_def dest: from_hex_error)
  then show ?thesis unfolding verify_package_raises_iff by auto
qed

text \<open>
  C20: an epoch root commits to its members. Two trees with the same root have the same members, or
  the proof path of a member of one exhibits a collision of SHA-256 with the other.
\<close>

theorem root_commits_to_members:
  assumes "merkle_init (member_leaves ms) do_sort = Inr t" and "merkle_init (member_leaves ms') do_sort' = Inr t'"
    and "\<forall>(d, k)\<in>set ms \<union> set ms'. length k = compressed_pk_len"
    and "mt_root t = mt_root t'"
  shows "set ms = set ms' \<or> proof_collision ms t ms' t' \<or> proof_collision ms' t' ms t"
  using members_included [OF assms(1,2) _ assms(4)] members_included [OF assms(2,1) _ assms(4) [symmetric]] assms(3)
  by blast


section \<open>Concrete instances\<close>

text \<open>An epoch with one member, and its package, over the platform of \<open>toy_platform\<close>.\<close>

definition sample_pk :: bytes where
  "sample_pk = public_key_bytes toy_platform 1"

definition sample_members :: "(string \<times> bytes) list" where
  "sample_members = [(derive_did sample_pk, sample_pk)]"

definition sample_tree :: merkle_tree where
  "sample_tree = (let ls = member_leaves sample_members
     in \<lparr>mt_leaves = ls, mt_index = index_leaves ls, mt_levels = [ls]\<rparr>)"

definition sample_package :: proof_package where
  "sample_package = (let leaf = sha256 (leaf_preimage (derive_did sample_pk) sample_pk)
     in \<lparr>pp_did = derive_did sample_pk, pp_public_key = to_hex sample_pk, pp_leaf = to_hex leaf, pp_epoch_id = 1,
         pp_root = to_hex leaf, pp_proof_path = [], pp_fog_id = ''fog_A'',
         pp_fog_signature = to_hex (sign toy_platform 7 0
           (package_message toy_platform (derive_did sample_pk) (to_hex leaf) (to_hex leaf) 1 ''fog_A''))\<rparr>)"

lemma sample_pk_length: "length sample_pk = compressed_pk_len"
  using toy_platform_ok by (simp add: sample_pk_def length_public_key platform_ok_def)

lemma sample_leaves: "member_leaves sample_members = [sha256 (leaf_preimage (derive_did sample_pk) sample_pk)]"
  by (simp add: member_leaves_def member_preimages_def sample_members_def)

lemma sample_tree_init: "merkle_init (member_leaves sample_members) True = Inr sample_tree"
  unfolding merkle_init_ok_iff
  by (simp add: well_formed_leaves_def sample_leaves sample_tree_def levels_of_small hash_len_def Let_def)

lemma sample_root: "mt_root sample_tree = sha256 (leaf_preimage (derive_did sample_pk) sample_pk)"
  by (simp add: mt_root_def sample_tree_def sample_leaves Let_def)

lemma sample_leaf: "leaf_hash (derive_did sample_pk) sample_pk = Inr (sha256 (leaf_preimage (derive_did sample_pk) sample_pk))"
  by (rule leaf_hash_derived [OF sample_pk_length])

lemma sample_accepted:
  "accepts toy_platform sample_package (Some (mt_root_hex sample_tree)) (public_key_bytes toy_platform 7)"
  using sample_leaf verify_sign [of toy_platform] toy_platform_ok
  unfolding accepts_iff recompute_leaf_ok_iff
  by (auto simp: sample_package_def Let_def mt_root_hex_def sample_root climbs_def reconstruct_root_def
      hash_len_def platform_ok_def)

theorem accepted_package_names_member_witness:
  "\<exists>pk. from_hex (pp_public_key sample_package) = Inr pk \<and>
     ((pp_did sample_package, pk) \<in> set sample_members \<or>
      path_collision (pp_did sample_package) pk [] (member_preimages sample_members) (mt_leaves sample_tree))"
proof -
  have keys: "\<forall>(d, k)\<in>set sample_members. length k = compressed_pk_len"
    by (simp add: sample_members_def sample_pk_length)
  from accepted_package_names_member [OF sample_tree_init keys sample_accepted]
  show ?thesis by (simp add: sample_package_def Let_def)
qed

theorem built_package_accepted_witness:
  "\<exists>pkg. build_proof_package toy_platform 0 (derive_did sample_pk) (to_hex sample_pk)
      (sha256 (leaf_preimage (derive_did sample_pk) sample_pk)) sample_tree 1 ''fog_A'' 7 = Inr pkg \<and>
    accepts toy_platform pkg (Some (mt_root_hex sample_tree)) (public_key_bytes toy_platform 7)"
proof -
  have "ecdsa_ok toy_platform" using toy_platform_ok by (simp add: platform_ok_def)
  from built_package_accepted [OF this sample_tree_init, of _ "to_hex sample_pk" sample_pk] sample_leaf show ?thesis
    by (simp add: sample_leaves)
qed

theorem root_commits_to_members_witness:
  "set sample_members = set (sample_members @ []) \<or>
    (\<exists>d k path. path_collision d k path (member_preimages sample_members) (mt_leaves sample_tree))"
proof -
  have "\<forall>(d, k)\<in>set sample_members \<union> set sample_members. length k = compressed_pk_len"
    by (simp add: sample_members_def sample_pk_length)
  from root_commits_to_members [OF sample_tree_init sample_tree_init this] show ?thesis by auto
qed

end
