(* ===== verification/Ledger.thy ===== *)
theory Ledger
  imports Crypto
begin

text \<open>
  registry/ledger.py: the hash-chained root registry. A block is the JSON object the code stores
  (a dictionary in insertion order); the file is the list of such objects, so what \<open>verify_chain\<close>
  re-reads may be any JSON. \<open>json.loads(json.dumps(blocks))\<close> is taken to give \<open>blocks\<close> back.
  \<open>_root_cache\<close> is read at \<open>int\<close> keys only, so a block whose epoch id equals no integer is left out
  of it on loading; so is one whose root is not a \<open>str\<close>.
  Lemmas: anchoring keeps the chain valid and never changes an anchored root (as an interpretation of
  the locale \<open>root_registry\<close>), two valid chains with the same head have the same contents unless
  SHA-256 collides, and what the chain check does not see.
\<close>

type_synonym block = "(string, json) dict"

definition genesis_prev_hash :: string where
  "genesis_prev_hash = replicate 64 (CHR ''0'')"

definition body_fields :: "string list" where
  "body_fields =
    [''block_index'', ''epoch_id'', ''root'', ''leaf_count'', ''timestamp'', ''fog_id'', ''prev_hash'']"

text \<open>\<open>{k: b[k] for k in BODY_FIELDS}\<close>: the first missing key, or the body.\<close>

fun select_fields :: "string list \<Rightarrow> block \<Rightarrow> string + block" where
  "select_fields [] b = Inr []"
| "select_fields (k # ks) b =
     (case dict_get b k of
        None \<Rightarrow> Inl k
      | Some v \<Rightarrow> (case select_fields ks b of Inl k' \<Rightarrow> Inl k' | Inr kvs \<Rightarrow> Inr ((k, v) # kvs)))"

definition body_of :: "block \<Rightarrow> string + block" where
  "body_of b = select_fields body_fields b"

definition block_text :: "'sk platform \<Rightarrow> block \<Rightarrow> json \<Rightarrow> bytes" where
  "block_text P body signature = cjson P (JObj (body @ [(''signature'', signature)]))"

definition block_hash :: "'sk platform \<Rightarrow> block \<Rightarrow> json \<Rightarrow> string" where
  "block_hash P body signature = to_hex (sha256 (block_text P body signature))"

text \<open>The file at \<open>self.path\<close>: absent, of size 0, or a JSON list of blocks.\<close>

datatype registry_file = No_file | Empty_file | Blocks "block list"

record 'sk ledger =
  lg_key :: 'sk
  lg_fog_id :: string
  lg_blocks :: "block list"
  lg_cache :: "(int, string) dict"
  lg_file :: registry_file

text \<open>The integer a dictionary key is equal to, if any; lists and objects cannot be keys.\<close>

fun int_key :: "json \<Rightarrow> int option res" where
  "int_key (JInt e) = Inr (Some e)"
| "int_key (JBool b) = Inr (Some (if b then 1 else 0))"
| "int_key (JFloat r) = Inr (if r = of_int \<lfloor>r\<rfloor> then Some \<lfloor>r\<rfloor> else None)"
| "int_key (JArr _) = Inl TypeError"
| "int_key (JObj _) = Inl TypeError"
| "int_key _ = Inr None"

fun cache_block :: "(int, string) dict \<Rightarrow> block \<Rightarrow> (int, string) dict res" where
  "cache_block c b =
     (case (dict_get b ''epoch_id'', dict_get b ''root'') of
        (Some e, Some r) \<Rightarrow>
          (case (int_key e, r) of
             (Inl ex, _) \<Rightarrow> Inl ex
           | (Inr (Some i), JStr root_hex) \<Rightarrow> Inr (dict_set i root_hex c)
           | _ \<Rightarrow> Inr c)
      | _ \<Rightarrow> Inl KeyError)"

fun cache_blocks :: "(int, string) dict \<Rightarrow> block list \<Rightarrow> (int, string) dict res" where
  "cache_blocks c [] = Inr c"
| "cache_blocks c (b # bs) =
     (case cache_block c b of Inl e \<Rightarrow> Inl e | Inr c' \<Rightarrow> cache_blocks c' bs)"

text \<open>\<open>Ledger.__init__\<close> with \<open>_load\<close>.\<close>

definition ledger_init :: "'sk \<Rightarrow> string \<Rightarrow> registry_file \<Rightarrow> 'sk ledger res" where
  "ledger_init key fog_id contents =
     (let blocks = (case contents of Blocks bs \<Rightarrow> bs | _ \<Rightarrow> [])
      in case cache_blocks [] blocks of
           Inl e \<Rightarrow> Inl e
         | Inr c \<Rightarrow> Inr \<lparr>lg_key = key, lg_fog_id = fog_id, lg_blocks = blocks, lg_cache = c, lg_file = contents\<rparr>)"

definition save :: "'sk ledger \<Rightarrow> 'sk ledger" where
  "save L = L\<lparr>lg_file := Blocks (lg_blocks L)\<rparr>"

text \<open>\<open>self.blocks[-1]["block_hash"] if self.blocks else GENESIS_PREV_HASH\<close>\<close>

definition head_hash :: "block list \<Rightarrow> json res" where
  "head_hash blocks =
     (if blocks = [] then Inr (JStr genesis_prev_hash)
      else case dict_get (last blocks) ''block_hash'' of None \<Rightarrow> Inl KeyError | Some h \<Rightarrow> Inr h)"

text \<open>\<open>timestamp\<close> is the clock's ISO text, \<open>n\<close> the randomness of the signature.\<close>

definition anchor_root ::
    "'sk platform \<Rightarrow> string \<Rightarrow> nat \<Rightarrow> int \<Rightarrow> string \<Rightarrow> int \<Rightarrow> 'sk ledger \<Rightarrow> (block \<times> 'sk ledger) res" where
  "anchor_root P timestamp n epoch_id root_hex leaf_count L =
     (if dict_get (lg_cache L) epoch_id \<noteq> None then
        Inl (LedgerError (''epoch '' @ str_int epoch_id @ '' is already anchored (epochs are immutable)''))
      else case from_hex root_hex of
        Inl e \<Rightarrow> Inl e
      | Inr rb \<Rightarrow>
          if length rb \<noteq> 32 then Inl (LedgerError ''root must be a 32 byte hash in hex'')
          else case head_hash (lg_blocks L) of
            Inl e \<Rightarrow> Inl e
          | Inr prev_hash \<Rightarrow>
              let body =
                    [(''block_index'', JInt (int (length (lg_blocks L)))),
                     (''epoch_id'', JInt epoch_id),
                     (''root'', JStr root_hex),
                     (''leaf_count'', JInt leaf_count),
                     (''timestamp'', JStr timestamp),
                     (''fog_id'', JStr (lg_fog_id L)),
                     (''prev_hash'', prev_hash)];
                  signature_hex = to_hex (sign P (lg_key L) n (cjson P (JObj body)));
                  block = body @ [(''signature'', JStr signature_hex),
                                  (''block_hash'', JStr (block_hash P body (JStr signature_hex)))]
              in Inr (block, save (L\<lparr>lg_blocks := lg_blocks L @ [block],
                                      lg_cache := dict_set epoch_id root_hex (lg_cache L)\<rparr>)))"

definition get_root :: "'sk ledger \<Rightarrow> int \<Rightarrow> string option" where
  "get_root L epoch_id = dict_get (lg_cache L) epoch_id"

text \<open>\<open>b["epoch_id"] == int(epoch_id)\<close> for the first such block; a block without the key raises.\<close>

fun find_block :: "block list \<Rightarrow> int \<Rightarrow> block option res" where
  "find_block [] e = Inr None"
| "find_block (b # bs) e =
     (case dict_get b ''epoch_id'' of
        None \<Rightarrow> Inl KeyError
      | Some v \<Rightarrow> if json_eq_int v e then Inr (Some b) else find_block bs e)"

definition get_block :: "'sk ledger \<Rightarrow> int \<Rightarrow> block option res" where
  "get_block L epoch_id = find_block (lg_blocks L) epoch_id"

definition latest_epoch :: "'sk ledger \<Rightarrow> json option res" where
  "latest_epoch L =
     (if lg_blocks L = [] then Inr None
      else case dict_get (last (lg_blocks L)) ''epoch_id'' of None \<Rightarrow> Inl KeyError | Some v \<Rightarrow> Inr (Some v))"

definition ledger_len :: "'sk ledger \<Rightarrow> nat" where
  "ledger_len L = length (lg_blocks L)"

text \<open>The answers of \<open>verify_chain\<close>, with what their texts show; only the first is \<open>True\<close>.\<close>

datatype chain_verdict =
    Chain_valid nat
  | Missing_field nat string
  | Wrong_index nat json
  | Broken_link nat
  | Bad_signature nat
  | Hash_mismatch nat

definition verdict_ok :: "chain_verdict \<Rightarrow> bool" where
  "verdict_ok v = (case v of Chain_valid _ \<Rightarrow> True | _ \<Rightarrow> False)"

text \<open>\<open>bytes.fromhex(b["signature"])\<close>, with the value itself.\<close>

definition block_signature :: "block \<Rightarrow> (json \<times> bytes) res" where
  "block_signature b =
     (case dict_get b ''signature'' of
        None \<Rightarrow> Inl KeyError
      | Some (JStr s) \<Rightarrow> (case from_hex s of Inl e \<Rightarrow> Inl e | Inr bs \<Rightarrow> Inr (JStr s, bs))
      | Some _ \<Rightarrow> Inl TypeError)"

text \<open>The checks on one block: \<open>Inr (Inr prev)\<close> is the next \<open>prev\<close>, \<open>Inr (Inl v)\<close> an early answer.\<close>

definition check_block ::
    "'sk platform \<Rightarrow> bytes \<Rightarrow> nat \<Rightarrow> json \<Rightarrow> block \<Rightarrow> (chain_verdict + json) res" where
  "check_block P pk i prev b =
     (case body_of b of
        Inl k \<Rightarrow> Inr (Inl (Missing_field i k))
      | Inr body \<Rightarrow>
          case dict_get b ''block_index'' of
            None \<Rightarrow> Inl KeyError
          | Some index \<Rightarrow>
              if \<not> json_eq_int index (int i) then Inr (Inl (Wrong_index i index))
              else if dict_get b ''prev_hash'' \<noteq> Some prev then Inr (Inl (Broken_link i))
              else case block_signature b of
                Inl e \<Rightarrow> Inl e
              | Inr (signature, sig_bytes) \<Rightarrow>
                  if \<not> verify P pk (cjson P (JObj body)) sig_bytes then Inr (Inl (Bad_signature i))
                  else case dict_get b ''block_hash'' of
                    None \<Rightarrow> Inl KeyError
                  | Some h \<Rightarrow>
                      if JStr (block_hash P body signature) \<noteq> h then Inr (Inl (Hash_mismatch i))
                      else Inr (Inr h))"

fun check_blocks :: "'sk platform \<Rightarrow> bytes \<Rightarrow> nat \<Rightarrow> json \<Rightarrow> block list \<Rightarrow> chain_verdict res" where
  "check_blocks P pk i prev [] = Inr (Chain_valid i)"
| "check_blocks P pk i prev (b # bs) =
     (case check_block P pk i prev b of
        Inl e \<Rightarrow> Inl e
      | Inr (Inl v) \<Rightarrow> Inr v
      | Inr (Inr h) \<Rightarrow> check_blocks P pk (Suc i) h bs)"

definition verify_chain :: "'sk platform \<Rightarrow> bytes option \<Rightarrow> 'sk ledger \<Rightarrow> chain_verdict res" where
  "verify_chain P trusted_fog_pk L =
     (let pk = (case trusted_fog_pk of
                  Some k \<Rightarrow> if k = [] then public_key_bytes P (lg_key L) else k
                | None \<Rightarrow> public_key_bytes P (lg_key L))
      in case lg_file L of
           No_file \<Rightarrow> check_blocks P pk 0 (JStr genesis_prev_hash) []
         | Empty_file \<Rightarrow> Inl ValueError
         | Blocks blocks \<Rightarrow> check_blocks P pk 0 (JStr genesis_prev_hash) blocks)"

section \<open>Anchoring keeps the chain valid\<close>

text \<open>The \<open>prev\<close> the loop of \<open>verify_chain\<close> holds after the blocks \<open>bs\<close>.\<close>

definition link_after :: "json \<Rightarrow> block list \<Rightarrow> json" where
  "link_after prev bs = (if bs = [] then prev else the (dict_get (last bs) ''block_hash''))"

lemma check_block_link: "check_block P pk i prev b = Inr (Inr h) \<Longrightarrow> dict_get b ''block_hash'' = Some h"
  by (auto simp: check_block_def split: sum.splits option.splits if_splits prod.splits)

lemma check_blocks_Cons_valid:
  "check_blocks P pk i prev (b # bs) = Inr (Chain_valid n) \<longleftrightarrow>
     (\<exists>h. check_block P pk i prev b = Inr (Inr h) \<and> check_blocks P pk (Suc i) h bs = Inr (Chain_valid n))"
proof -
  have "check_block P pk i prev b \<noteq> Inr (Inl (Chain_valid n))"
    by (auto simp: check_block_def split: sum.splits option.splits if_splits prod.splits)
  then show ?thesis by (auto split: sum.splits)
qed

lemma check_blocks_valid_length: "check_blocks P pk i prev bs = Inr (Chain_valid n) \<Longrightarrow> n = i + length bs"
proof (induction bs arbitrary: i prev)
  case (Cons b bs)
  then obtain h where "check_blocks P pk (Suc i) h bs = Inr (Chain_valid n)"
    unfolding check_blocks_Cons_valid by blast
  from Cons.IH [OF this] show ?case by simp
qed simp

lemma link_after_Cons: "link_after prev (b # bs) = link_after (the (dict_get b ''block_hash'')) bs"
  by (simp add: link_after_def)

lemma check_blocks_append:
  "check_blocks P pk i prev (bs @ cs) = Inr (Chain_valid n) \<longleftrightarrow>
     check_blocks P pk i prev bs = Inr (Chain_valid (i + length bs)) \<and>
     check_blocks P pk (i + length bs) (link_after prev bs) cs = Inr (Chain_valid n)"
proof (induction bs arbitrary: i prev)
  case Nil
  then show ?case by (simp add: link_after_def)
next
  case (Cons b bs)
  then show ?case
    by (auto simp: check_blocks_Cons_valid link_after_Cons check_block_link simp del: check_blocks.simps(2))
qed

lemma check_blocks_skip:
  "check_blocks P pk i prev bs = Inr (Chain_valid n) \<Longrightarrow>
     check_blocks P pk i prev (bs @ cs) = check_blocks P pk n (link_after prev bs) cs"
proof (induction bs arbitrary: i prev)
  case Nil
  then show ?case by (simp add: link_after_def)
next
  case (Cons b bs)
  then obtain h where h: "check_block P pk i prev b = Inr (Inr h)" "check_blocks P pk (Suc i) h bs = Inr (Chain_valid n)"
    unfolding check_blocks_Cons_valid by blast
  with Cons.IH [OF h(2)] show ?case by (simp add: link_after_Cons check_block_link)
qed

text \<open>Any first part of a valid chain is a valid chain.\<close>

lemma check_blocks_prefix:
  "check_blocks P pk i prev bs = Inr (Chain_valid n) \<Longrightarrow>
     check_blocks P pk i prev (take m bs) = Inr (Chain_valid (i + min m (length bs)))"
  using check_blocks_append [of P pk i prev "take m bs" "drop m bs" n] by (simp add: min.commute)

definition ledger_inv :: "'sk platform \<Rightarrow> 'sk ledger \<Rightarrow> bool" where
  "ledger_inv P L \<longleftrightarrow>
     check_blocks P (public_key_bytes P (lg_key L)) 0 (JStr genesis_prev_hash) (lg_blocks L) =
       Inr (Chain_valid (length (lg_blocks L))) \<and>
     (lg_file L = Blocks (lg_blocks L) \<or> lg_blocks L = [] \<and> lg_file L = No_file) \<and>
     cache_blocks [] (lg_blocks L) = Inr (lg_cache L)"

lemma ledger_init_new: "ledger_init key fog_id No_file = Inr L \<Longrightarrow> ledger_inv P L"
  by (auto simp: ledger_init_def ledger_inv_def)

lemma head_hash_link:
  assumes "check_blocks P pk 0 (JStr genesis_prev_hash) bs = Inr (Chain_valid n)"
  shows "head_hash bs = Inr (link_after (JStr genesis_prev_hash) bs)"
proof (cases bs rule: rev_cases)
  case Nil
  then show ?thesis by (simp add: head_hash_def link_after_def)
next
  case (snoc ys y)
  with assms obtain h where "check_block P pk (length ys) (link_after (JStr genesis_prev_hash) ys) y = Inr (Inr h)"
    by (auto simp: check_blocks_append check_blocks_Cons_valid simp del: check_blocks.simps(2))
  with snoc check_block_link show ?thesis by (fastforce simp: head_hash_def link_after_def)
qed

lemma cache_blocks_append:
  "cache_blocks c (bs @ [b]) = (case cache_blocks c bs of Inl e \<Rightarrow> Inl e | Inr c' \<Rightarrow> cache_block c' b)"
  by (induction bs arbitrary: c) (auto split: sum.split simp del: cache_block.simps)

text \<open>What \<open>anchor_root\<close> appends.\<close>

definition new_body :: "'sk ledger \<Rightarrow> string \<Rightarrow> int \<Rightarrow> string \<Rightarrow> int \<Rightarrow> json \<Rightarrow> block" where
  "new_body L timestamp epoch_id root_hex leaf_count prev_hash =
     [(''block_index'', JInt (int (length (lg_blocks L)))), (''epoch_id'', JInt epoch_id),
      (''root'', JStr root_hex), (''leaf_count'', JInt leaf_count), (''timestamp'', JStr timestamp),
      (''fog_id'', JStr (lg_fog_id L)), (''prev_hash'', prev_hash)]"

definition new_block :: "'sk platform \<Rightarrow> 'sk ledger \<Rightarrow> nat \<Rightarrow> block \<Rightarrow> block" where
  "new_block P L n body =
     (let s = to_hex (sign P (lg_key L) n (cjson P (JObj body)))
      in body @ [(''signature'', JStr s), (''block_hash'', JStr (block_hash P body (JStr s)))])"

lemma anchor_root_ok_iff:
  "anchor_root P ts n e r c L = Inr (b, L') \<longleftrightarrow>
     get_root L e = None \<and> (\<exists>rb. from_hex r = Inr rb \<and> length rb = 32) \<and>
     (\<exists>prev. head_hash (lg_blocks L) = Inr prev \<and> b = new_block P L n (new_body L ts e r c prev)) \<and>
     L' = L\<lparr>lg_blocks := lg_blocks L @ [b], lg_cache := dict_set e r (lg_cache L),
            lg_file := Blocks (lg_blocks L @ [b])\<rparr>"
  by (auto simp: anchor_root_def get_root_def new_block_def new_body_def save_def Let_def
      split: sum.splits if_splits)

lemma body_of_new_block: "body_of (new_block P L n (new_body L ts e r c prev)) = Inr (new_body L ts e r c prev)"
  by (simp add: body_of_def body_fields_def new_block_def new_body_def Let_def)

lemma new_block_get:
  fixes P L n ts e r c prev
  defines "body \<equiv> new_body L ts e r c prev"
  defines "b \<equiv> new_block P L n body" and "s \<equiv> sign P (lg_key L) n (cjson P (JObj body))"
  shows "dict_get b ''signature'' = Some (JStr (to_hex s))"
    and "dict_get b ''block_hash'' = Some (JStr (block_hash P body (JStr (to_hex s))))"
    and "dict_get b ''block_index'' = Some (JInt (int (length (lg_blocks L))))"
    and "dict_get b ''prev_hash'' = Some prev" and "dict_get b ''epoch_id'' = Some (JInt e)"
    and "dict_get b ''root'' = Some (JStr r)"
  by (simp_all add: b_def s_def new_block_def Let_def) (simp_all add: body_def new_body_def)

lemma check_new_block:
  assumes "ecdsa_ok P"
  shows "\<exists>h. check_block P (public_key_bytes P (lg_key L)) (length (lg_blocks L)) prev
    (new_block P L n (new_body L ts e r c prev)) = Inr (Inr h)"
  using verify_sign [OF assms]
  by (simp add: check_block_def body_of_new_block block_signature_def new_block_get)

lemma cache_new_block: "cache_block d (new_block P L n (new_body L ts e r c prev)) = Inr (dict_set e r d)"
  by (simp add: new_block_get)

lemma anchor_root_inv:
  assumes P: "ecdsa_ok P" and L: "ledger_inv P L" and anchor: "anchor_root P ts n e r c L = Inr (b, L')"
  shows "ledger_inv P L'"
proof -
  from anchor obtain prev where b: "head_hash (lg_blocks L) = Inr prev"
      "b = new_block P L n (new_body L ts e r c prev)"
    and L': "L' = L\<lparr>lg_blocks := lg_blocks L @ [b], lg_cache := dict_set e r (lg_cache L),
            lg_file := Blocks (lg_blocks L @ [b])\<rparr>"
    unfolding anchor_root_ok_iff by blast
  from L have "prev = link_after (JStr genesis_prev_hash) (lg_blocks L)"
    using head_hash_link b(1) unfolding ledger_inv_def by fastforce
  with check_new_block [OF P, of L prev n ts e r c] L b(2)
  have "check_blocks P (public_key_bytes P (lg_key L)) 0 (JStr genesis_prev_hash) (lg_blocks L @ [b]) =
      Inr (Chain_valid (Suc (length (lg_blocks L))))"
    by (auto simp: check_blocks_append ledger_inv_def)
  moreover have "cache_blocks [] (lg_blocks L @ [b]) = Inr (dict_set e r (lg_cache L))"
    using L b(2) by (simp add: cache_blocks_append cache_new_block ledger_inv_def del: cache_block.simps)
  ultimately show ?thesis by (simp add: ledger_inv_def L')
qed

lemma anchor_root_succeeds:
  assumes "ledger_inv P L" "get_root L e = None" "from_hex r = Inr rb" "length rb = 32"
  shows "\<exists>b L'. anchor_root P ts n e r c L = Inr (b, L')"
  using assms head_hash_link [of P "public_key_bytes P (lg_key L)" "lg_blocks L"]
  unfolding anchor_root_ok_iff ledger_inv_def by fastforce

text \<open>The check of an untouched ledger, and a restart, which rebuilds the same ledger from its file.\<close>

lemma verify_chain_honest: "ledger_inv P L \<Longrightarrow> verify_chain P None L = Inr (Chain_valid (ledger_len L))"
  by (auto simp: ledger_inv_def verify_chain_def ledger_len_def)

lemma ledger_init_reload:
  "ledger_inv P L \<Longrightarrow> ledger_init (lg_key L) (lg_fog_id L) (lg_file L) = Inr L"
  by (cases L) (auto simp: ledger_inv_def ledger_init_def)

section \<open>Epochs are frozen\<close>

text \<open>
  The interface the epoch manager and the verifier rely on: a registry of roots by epoch, written at
  most once per epoch.
\<close>

locale root_registry =
  fixes anchors :: "'s \<Rightarrow> int \<Rightarrow> string \<Rightarrow> 's \<Rightarrow> bool"
    and lookup :: "'s \<Rightarrow> int \<Rightarrow> string option"
  assumes stored: "anchors s e r s' \<Longrightarrow> lookup s' e = Some r"
    and others: "anchors s e r s' \<Longrightarrow> e' \<noteq> e \<Longrightarrow> lookup s' e' = lookup s e'"
    and fresh: "anchors s e r s' \<Longrightarrow> lookup s e = None"
begin

definition step :: "'s \<Rightarrow> 's \<Rightarrow> bool" where
  "step s s' \<longleftrightarrow> (\<exists>e r. anchors s e r s')"

lemma step_frozen: "step s s' \<Longrightarrow> lookup s e = Some r \<Longrightarrow> lookup s' e = Some r"
  using others fresh unfolding step_def by (metis option.distinct(1))

lemma frozen: "step\<^sup>*\<^sup>* s s' \<Longrightarrow> lookup s e = Some r \<Longrightarrow> lookup s' e = Some r"
  by (induction rule: rtranclp_induct) (auto intro: step_frozen)

lemma never_again: "anchors s e r s1 \<Longrightarrow> step\<^sup>*\<^sup>* s1 s2 \<Longrightarrow> \<not> anchors s2 e r' s3"
  using frozen [of s1 s2 e r] stored fresh by fastforce

end

definition anchors :: "'sk platform \<Rightarrow> 'sk ledger \<Rightarrow> int \<Rightarrow> string \<Rightarrow> 'sk ledger \<Rightarrow> bool" where
  "anchors P L e r L' \<longleftrightarrow> (\<exists>ts n c b. anchor_root P ts n e r c L = Inr (b, L'))"

interpretation reg: root_registry "anchors P" get_root for P
  by unfold_locales (auto simp: anchors_def anchor_root_ok_iff get_root_def dict_simps)

text \<open>A run of requests to anchor; a refused one raises and leaves the ledger alone.\<close>

fun run_anchors ::
    "'sk platform \<Rightarrow> (string \<times> nat \<times> int \<times> string \<times> int) list \<Rightarrow> 'sk ledger \<Rightarrow> 'sk ledger" where
  "run_anchors P [] L = L"
| "run_anchors P ((ts, n, e, r, c) # reqs) L =
     run_anchors P reqs (case anchor_root P ts n e r c L of Inl _ \<Rightarrow> L | Inr (_, L') \<Rightarrow> L')"

lemma run_anchors_steps: "(reg.step P)\<^sup>*\<^sup>* L (run_anchors P reqs L)"
proof (induction reqs arbitrary: L)
  case (Cons q reqs)
  obtain ts n e r c where q: "q = (ts, n, e, r, c)" by (metis surj_pair)
  show ?case
  proof (cases "anchor_root P ts n e r c L")
    case Inl
    with Cons.IH show ?thesis by (simp add: q)
  next
    case (Inr x)
    obtain b L' where x: "x = (b, L')" by fastforce
    with Inr have "reg.step P L L'" unfolding reg.step_def anchors_def by blast
    with Cons.IH [of L'] Inr x show ?thesis
      by (simp add: q converse_rtranclp_into_rtranclp)
  qed
qed simp

lemma run_anchors_inv: "ecdsa_ok P \<Longrightarrow> ledger_inv P L \<Longrightarrow> ledger_inv P (run_anchors P reqs L)"
proof (induction reqs arbitrary: L)
  case (Cons q reqs)
  then show ?case
    by (cases q) (auto simp del: anchor_root_def split: sum.split intro: anchor_root_inv)
qed simp

section \<open>What the chain check sees\<close>

definition hashed_text :: "'sk platform \<Rightarrow> block \<Rightarrow> bytes" where
  "hashed_text P b = (case body_of b of
     Inl _ \<Rightarrow> [] | Inr body \<Rightarrow> block_text P body (the (dict_get b ''signature'')))"

text \<open>The same contents, up to the order of keys inside a field.\<close>

definition same_contents :: "block \<Rightarrow> block \<Rightarrow> bool" where
  "same_contents b b' \<longleftrightarrow> (\<forall>k\<in>set (body_fields @ [''signature'']).
     map_option sort_keys (dict_get b k) = map_option sort_keys (dict_get b' k))"

lemma select_fields_get:
  "select_fields ks b = Inr body \<Longrightarrow> map fst body = ks \<and> (\<forall>k\<in>set ks. dict_get body k = dict_get b k)"
  by (induction ks arbitrary: body) (auto split: option.splits sum.splits)

lemma check_block_okD:
  assumes "check_block P pk i prev b = Inr (Inr h)"
  obtains body s where "body_of b = Inr body" "dict_get b ''signature'' = Some s"
    "dict_get b ''prev_hash'' = Some prev" "dict_get b ''block_hash'' = Some h"
    "h = JStr (to_hex (sha256 (hashed_text P b)))" "hashed_text P b = block_text P body s"
  using assms
  by (auto simp: check_block_def block_signature_def hashed_text_def block_hash_def
      split: sum.splits option.splits if_splits prod.splits json.splits)

lemma hashed_text_inject:
  assumes fr: "float_repr_ok (float_repr P)"
    and b: "body_of b = Inr body" "dict_get b ''signature'' = Some s"
    and b': "body_of b' = Inr body'" "dict_get b' ''signature'' = Some s'"
    and eq: "block_text P body s = block_text P body' s'"
  shows "same_contents b b'"
proof -
  let ?d = "body @ [(''signature'', s)]" and ?d' = "body' @ [(''signature'', s')]"
  have keys: "map fst body = body_fields" "map fst body' = body_fields"
    using b b' select_fields_get by (auto simp: body_of_def)
  then have ok: "dict_ok ?d" "dict_ok ?d'" by (simp_all add: body_fields_def)
  have get: "dict_get (bd @ [(''signature'', x)]) k = dict_get c k"
    if "k \<in> set (body_fields @ [''signature''])" "body_of c = Inr bd" "dict_get c ''signature'' = Some x"
    for k c bd x
  proof -
    have bd: "map fst bd = body_fields" "\<forall>k\<in>set body_fields. dict_get bd k = dict_get c k"
      using that(2) select_fields_get unfolding body_of_def by blast+
    have "''signature'' \<notin> set body_fields" by (simp add: body_fields_def)
    moreover from this have "dict_get bd ''signature'' = None" using bd(1) by (simp add: dict_get_None_iff)
    moreover have "dict_get bd k \<noteq> None" if "k \<in> set body_fields"
      using bd(1) that by (simp add: dict_get_None_iff)
    ultimately show ?thesis using that bd(2) by (cases "k = ''signature''") (auto simp: map_add_def)
  qed
  have "sort_keys (JObj ?d) = sort_keys (JObj ?d')"
    using eq by (simp only: block_text_def canonical_json_inject [OF fr])
  from sort_keys_lookup [OF this ok] show ?thesis
    using get [OF _ b] get [OF _ b'] unfolding same_contents_def by metis
qed

lemma link_after_string:
  assumes "check_blocks P pk 0 (JStr g) bs = Inr (Chain_valid n)"
  shows "\<exists>s. link_after (JStr g) bs = JStr s"
proof (cases bs rule: rev_cases)
  case (snoc ys y)
  with assms obtain h where "check_block P pk (length ys) (link_after (JStr g) ys) y = Inr (Inr h)"
    by (auto simp: check_blocks_append check_blocks_Cons_valid simp del: check_blocks.simps(2))
  then show ?thesis by (rule check_block_okD) (auto simp: link_after_def snoc)
qed (simp add: link_after_def)

text \<open>
  Two valid chains of the same length that end in the same block hash have the same contents, or show
  a collision of SHA-256.
\<close>

lemma same_head_same_chain:
  assumes fr: "float_repr_ok (float_repr P)"
  shows "check_blocks P pk 0 (JStr g) bs = Inr (Chain_valid n) \<Longrightarrow>
    check_blocks P pk 0 (JStr g) bs' = Inr (Chain_valid n) \<Longrightarrow>
    link_after (JStr g) bs = link_after (JStr g) bs' \<Longrightarrow>
    (\<forall>j<n. same_contents (bs ! j) (bs' ! j)) \<or> (\<exists>j<n. collides (hashed_text P (bs ! j)) (hashed_text P (bs' ! j)))"
proof (induction bs arbitrary: bs' n rule: rev_induct)
  case Nil
  then show ?case by simp
next
  case (snoc b ys)
  have n: "n = Suc (length ys)" using check_blocks_valid_length [OF snoc.prems(1)] by simp
  then obtain ys' b' where bs': "bs' = ys' @ [b']" "length ys' = length ys"
    using check_blocks_valid_length [OF snoc.prems(2)] by (cases bs' rule: rev_cases) auto
  from snoc.prems(1) have ys: "check_blocks P pk 0 (JStr g) ys = Inr (Chain_valid (length ys))"
    and "\<exists>h. check_block P pk (length ys) (link_after (JStr g) ys) b = Inr (Inr h)"
    by (auto simp: check_blocks_append check_blocks_Cons_valid simp del: check_blocks.simps(2))
  then obtain h where "check_block P pk (length ys) (link_after (JStr g) ys) b = Inr (Inr h)" by blast
  then obtain body s where b: "body_of b = Inr body" "dict_get b ''signature'' = Some s"
    "dict_get b ''prev_hash'' = Some (link_after (JStr g) ys)" "dict_get b ''block_hash'' = Some h"
    "h = JStr (to_hex (sha256 (hashed_text P b)))" "hashed_text P b = block_text P body s"
    by (rule check_block_okD)
  from snoc.prems(2) bs' have ys': "check_blocks P pk 0 (JStr g) ys' = Inr (Chain_valid (length ys))"
    and "\<exists>h. check_block P pk (length ys) (link_after (JStr g) ys') b' = Inr (Inr h)"
    by (auto simp: check_blocks_append check_blocks_Cons_valid simp del: check_blocks.simps(2))
  then obtain h' where "check_block P pk (length ys) (link_after (JStr g) ys') b' = Inr (Inr h')" by blast
  then obtain body' s' where b': "body_of b' = Inr body'" "dict_get b' ''signature'' = Some s'"
    "dict_get b' ''prev_hash'' = Some (link_after (JStr g) ys')" "dict_get b' ''block_hash'' = Some h'"
    "h' = JStr (to_hex (sha256 (hashed_text P b')))" "hashed_text P b' = block_text P body' s'"
    by (rule check_block_okD)
  have "h = h'" using snoc.prems(3) b(4) b'(4) bs' by (simp add: link_after_def)
  then have hash: "sha256 (hashed_text P b) = sha256 (hashed_text P b')" using b(5) b'(5) by simp
  show ?case
  proof (cases "hashed_text P b = hashed_text P b'")
    case False
    with hash have "collides (hashed_text P b) (hashed_text P b')" by (simp add: collides_def)
    with n bs' show ?thesis by (intro disjI2 exI [of _ "length ys"]) (simp add: nth_append)
  next
    case True
    with b(6) b'(6) have "block_text P body s = block_text P body' s'" by simp
    then have last: "same_contents b b'" by (rule hashed_text_inject [OF fr b(1,2) b'(1,2)])
    have "link_after (JStr g) ys = link_after (JStr g) ys'"
      using last b(3) b'(3) link_after_string [OF ys] link_after_string [OF ys']
      by (auto simp: same_contents_def body_fields_def)
    with snoc.IH [OF ys ys'] consider "\<forall>j<length ys. same_contents (ys ! j) (ys' ! j)"
      | j where "j < length ys" "collides (hashed_text P (ys ! j)) (hashed_text P (ys' ! j))" by blast
    then show ?thesis
    proof cases
      case 1
      with last n bs' show ?thesis by (auto simp: nth_append less_Suc_eq)
    next
      case (2 j)
      with n bs' show ?thesis by (intro disjI2 exI [of _ j]) (simp add: nth_append)
    qed
  qed
qed

section \<open>Properties\<close>

text \<open>
  C23: whatever is asked of a fresh ledger, in any order and with any refused request, its file passes
  \<open>verify_chain\<close> with as many blocks as it holds, and a restart reads back the same ledger, blocks and
  root cache alike.
\<close>

theorem honest_chain_valid:
  assumes "ecdsa_ok P" and "ledger_init key fog_id No_file = Inr L0" and "L = run_anchors P reqs L0"
  shows "verify_chain P None L = Inr (Chain_valid (ledger_len L)) \<and>
    ledger_init (lg_key L) (lg_fog_id L) (lg_file L) = Inr L"
proof -
  have "ledger_inv P L" using run_anchors_inv [OF assms(1) ledger_init_new [OF assms(2)]] assms(3) by blast
  then show ?thesis using verify_chain_honest ledger_init_reload by blast
qed

text \<open>
  C31: an anchored epoch is frozen. Its root never changes under later requests, and a second attempt to
  anchor it is refused with the code's error, whatever the root.
\<close>

theorem anchored_root_frozen:
  assumes "anchor_root P ts n e r c L = Inr (b, L')"
  shows "get_root (run_anchors P reqs L') e = Some r \<and>
    anchor_root P ts' n' e r' c' (run_anchors P reqs L') =
      Inl (LedgerError (''epoch '' @ str_int e @ '' is already anchored (epochs are immutable)''))"
proof -
  have "anchors P L e r L'" using assms unfolding anchors_def by blast
  then have "get_root (run_anchors P reqs L') e = Some r"
    using reg.frozen [OF run_anchors_steps] reg.stored by blast
  then show ?thesis by (simp add: anchor_root_def get_root_def)
qed

text \<open>
  C30: tampering with the file is evident to whoever knows the last block hash. If the file is replaced
  and the chain still verifies with the same number of blocks and the same last hash, then every block
  has its original contents, or two explicit block texts collide under SHA-256.
\<close>

theorem tampering_evident:
  assumes "platform_ok P" and "ledger_inv P L" and "blocks \<noteq> []"
    and "verify_chain P None (L\<lparr>lg_file := Blocks blocks\<rparr>) = Inr (Chain_valid (ledger_len L))"
    and "dict_get (last blocks) ''block_hash'' = dict_get (last (lg_blocks L)) ''block_hash''"
  shows "(\<forall>j<ledger_len L. same_contents (lg_blocks L ! j) (blocks ! j)) \<or>
    (\<exists>j<ledger_len L. collides (hashed_text P (lg_blocks L ! j)) (hashed_text P (blocks ! j)))"
proof (rule same_head_same_chain)
  show "float_repr_ok (float_repr P)" using assms(1) by (simp add: platform_ok_def)
  let ?pk = "public_key_bytes P (lg_key L)"
  show one: "check_blocks P ?pk 0 (JStr genesis_prev_hash) (lg_blocks L) = Inr (Chain_valid (ledger_len L))"
    using assms(2) by (simp add: ledger_inv_def ledger_len_def)
  show two: "check_blocks P ?pk 0 (JStr genesis_prev_hash) blocks = Inr (Chain_valid (ledger_len L))"
    using assms(4) by (simp add: verify_chain_def)
  show "link_after (JStr genesis_prev_hash) (lg_blocks L) = link_after (JStr genesis_prev_hash) blocks"
    using assms(3,5) check_blocks_valid_length [OF two] by (auto simp: link_after_def ledger_len_def)
qed

text \<open>
  C36: what the chain check cannot see. Cutting any number of blocks off the end of the file leaves a
  chain that verifies, with nothing to tell it from a shorter history.
\<close>

theorem truncation_unseen:
  assumes "ledger_inv P L" and "m \<le> ledger_len L"
  shows "verify_chain P None (L\<lparr>lg_file := Blocks (take m (lg_blocks L))\<rparr>) = Inr (Chain_valid m)"
proof -
  have "check_blocks P (public_key_bytes P (lg_key L)) 0 (JStr genesis_prev_hash) (take m (lg_blocks L)) =
      Inr (Chain_valid (0 + min m (length (lg_blocks L))))"
    using assms(1) unfolding ledger_inv_def by (intro check_blocks_prefix) blast
  then show ?thesis using assms(2) by (simp add: verify_chain_def ledger_len_def min_def)
qed

text \<open>
  A file edited so that a block's signature is not hexadecimal text, or is missing, makes the
  check raise instead of answering: when the blocks before it are valid and its own index and link
  are, \<open>verify_chain\<close> raises the exception of \<open>bytes.fromhex(b["signature"])\<close>.
\<close>

theorem malformed_signature_raises:
  assumes "check_blocks P (public_key_bytes P (lg_key L)) 0 (JStr genesis_prev_hash) bs = Inr (Chain_valid (length bs))"
    and "body_of b = Inr body" and "dict_get b ''block_index'' = Some (JInt (int (length bs)))"
    and "dict_get b ''prev_hash'' = Some (link_after (JStr genesis_prev_hash) bs)"
    and "block_signature b = Inl e"
  shows "verify_chain P None (L\<lparr>lg_file := Blocks (bs @ b # rest)\<rparr>) = Inl e"
proof -
  have "check_block P pk (length bs) (link_after (JStr genesis_prev_hash) bs) b = Inl e" for pk
    using assms by (simp add: check_block_def)
  then have "check_blocks P pk (length bs) (link_after (JStr genesis_prev_hash) bs) (b # rest) = Inl e" for pk
    by simp
  with check_blocks_skip [OF assms(1)] show ?thesis by (simp add: verify_chain_def)
qed

section \<open>Concrete instances\<close>

definition sample_ledger :: "byte ledger" where
  "sample_ledger = \<lparr>lg_key = 7, lg_fog_id = ''fog_A'', lg_blocks = [], lg_cache = [], lg_file = No_file\<rparr>"

definition sample_root_hex :: string where
  "sample_root_hex = to_hex (replicate 32 5)"

definition sample_block :: block where
  "sample_block = new_block toy_platform sample_ledger 0
     (new_body sample_ledger ''2026-01-01T00:00:00+00:00'' 1 sample_root_hex 3 (JStr genesis_prev_hash))"

definition sample_ledger1 :: "byte ledger" where
  "sample_ledger1 = sample_ledger\<lparr>lg_blocks := [sample_block], lg_cache := [(1, sample_root_hex)],
     lg_file := Blocks [sample_block]\<rparr>"

lemma toy_ecdsa: "ecdsa_ok toy_platform"
  using toy_platform_ok by (simp add: platform_ok_def)

lemma sample_ledger_init: "ledger_init 7 ''fog_A'' No_file = Inr sample_ledger"
  by (simp add: ledger_init_def sample_ledger_def)

lemma sample_anchor:
  "anchor_root toy_platform ''2026-01-01T00:00:00+00:00'' 0 1 sample_root_hex 3 sample_ledger =
     Inr (sample_block, sample_ledger1)"
  unfolding anchor_root_ok_iff
  by (simp add: get_root_def sample_ledger_def sample_ledger1_def sample_block_def sample_root_hex_def
      head_hash_def del: to_hex_simps)

lemma sample_ledger1_inv: "ledger_inv toy_platform sample_ledger1"
  using anchor_root_inv [OF toy_ecdsa ledger_init_new [OF sample_ledger_init] sample_anchor] .

theorem honest_chain_valid_witness:
  "verify_chain toy_platform None sample_ledger1 = Inr (Chain_valid 1)"
proof -
  have "sample_ledger1 = run_anchors toy_platform [(''2026-01-01T00:00:00+00:00'', 0, 1, sample_root_hex, 3)] sample_ledger"
    by (simp add: sample_anchor)
  from honest_chain_valid [OF toy_ecdsa sample_ledger_init this] show ?thesis
    by (simp add: ledger_len_def sample_ledger1_def)
qed

theorem anchored_root_frozen_witness:
  "get_root (run_anchors toy_platform [(''t'', 0, 1, to_hex (replicate 32 6), 9)] sample_ledger1) 1 = Some sample_root_hex"
  using anchored_root_frozen [OF sample_anchor, of "[(''t'', 0, 1, to_hex (replicate 32 6), 9)]"] by blast

theorem tampering_evident_witness:
  "same_contents sample_block sample_block \<or>
   collides (hashed_text toy_platform sample_block) (hashed_text toy_platform sample_block)"
proof -
  have "verify_chain toy_platform None (sample_ledger1\<lparr>lg_file := Blocks [sample_block]\<rparr>) =
      Inr (Chain_valid (ledger_len sample_ledger1))"
    using verify_chain_honest [OF sample_ledger1_inv] by (simp add: sample_ledger1_def)
  from tampering_evident [OF toy_platform_ok sample_ledger1_inv _ this]
  show ?thesis by (simp add: sample_ledger1_def ledger_len_def)
qed

theorem truncation_unseen_witness:
  "verify_chain toy_platform None (sample_ledger1\<lparr>lg_file := Blocks []\<rparr>) = Inr (Chain_valid 0)"
  using truncation_unseen [OF sample_ledger1_inv, of 0] by simp

definition sample_bad_block :: block where
  "sample_bad_block = new_body sample_ledger ''t'' 1 sample_root_hex 3 (JStr genesis_prev_hash) @
     [(''signature'', JStr ''zz''), (''block_hash'', JStr ''00'')]"

theorem malformed_signature_raises_witness:
  "verify_chain toy_platform None (sample_ledger\<lparr>lg_file := Blocks [sample_bad_block]\<rparr>) = Inl ValueError"
proof -
  have "body_of sample_bad_block = Inr (new_body sample_ledger ''t'' 1 sample_root_hex 3 (JStr genesis_prev_hash))"
    by (simp add: body_of_def body_fields_def sample_bad_block_def new_body_def)
  moreover have "dict_get sample_bad_block ''block_index'' = Some (JInt (int (length ([]::block list))))"
    by (simp add: sample_bad_block_def new_body_def sample_ledger_def)
  moreover have "dict_get sample_bad_block ''prev_hash'' = Some (link_after (JStr genesis_prev_hash) [])"
    by (simp add: sample_bad_block_def new_body_def link_after_def)
  moreover have "block_signature sample_bad_block = Inl ValueError"
    by (simp add: sample_bad_block_def new_body_def block_signature_def ascii_space_def hex_value_def)
  ultimately show ?thesis
    using malformed_signature_raises [of toy_platform sample_ledger "[]" sample_bad_block] by simp
qed

end
