(* ===== verification/Epochs.thy ===== *)
theory Epochs
  imports Proof_Package Ledger Stores
begin

text \<open>
  fog/batch/epoch_manager.py: the open batch and the closing of an epoch. The manager of the code holds
  references to the ledger and to the device store; here they are arguments and results of its
  operations. Logging and timings are left out. The lock of the manager does not cover the device
  store, so \<open>finalize_epoch\<close> is given in the two parts between which another request can change a
  device: \<open>finalize_plan\<close> reads the devices and picks the members, \<open>finalize_commit\<close> anchors and writes.
  Lemmas: who is in the root, that the epoch closes unless SHA-256 collides, that every member gets a
  package the verifier accepts, and what a revocation between the two parts leads to.
\<close>

section \<open>State\<close>

record pending_entry =
  pe_did :: string
  pe_public_key :: string
  pe_leaf :: bytes
  pe_queued_at :: time

record epoch_result =
  er_epoch_id :: int
  er_root :: string
  er_block :: block
  er_sorted_leaves :: "(nat \<times> string \<times> string) list"
  er_packages :: "(string, proof_package) dict"
  er_new_devices :: nat
  er_carried_forward :: nat
  er_excluded :: "string list"

record 'sk epoch_manager =
  em_signing_key :: 'sk
  em_fog_id :: string
  em_carry_forward :: bool
  em_current_epoch_id :: int
  em_pending :: "(string, pending_entry) dict"
  em_packages :: "(int, (string, proof_package) dict) dict"
  em_latest_package :: "(string, proof_package) dict"
  em_active_dids :: "string set"

text \<open>\<open>(latest + 1) if latest is not None else 1\<close>; a file whose last epoch id is a float is not modelled.\<close>

fun next_epoch :: "json option \<Rightarrow> int res" where
  "next_epoch None = Inr 1"
| "next_epoch (Some JNull) = Inr 1"
| "next_epoch (Some (JInt e)) = Inr (e + 1)"
| "next_epoch (Some (JBool b)) = Inr (if b then 2 else 1)"
| "next_epoch (Some _) = Inl TypeError"

definition epoch_manager_init :: "'sk ledger \<Rightarrow> 'sk \<Rightarrow> string \<Rightarrow> bool \<Rightarrow> 'sk epoch_manager res" where
  "epoch_manager_init L signing_key fog_id carry_forward =
     (case latest_epoch L of
        Inl e \<Rightarrow> Inl e
      | Inr latest \<Rightarrow>
          (case next_epoch latest of
             Inl e \<Rightarrow> Inl e
           | Inr current \<Rightarrow>
               Inr \<lparr>em_signing_key = signing_key, em_fog_id = fog_id, em_carry_forward = carry_forward,
                    em_current_epoch_id = current, em_pending = [], em_packages = [], em_latest_package = [],
                    em_active_dids = {}\<rparr>))"

section \<open>The open batch\<close>

definition add_leaf :: "time \<Rightarrow> string \<Rightarrow> bytes \<Rightarrow> 'sk epoch_manager \<Rightarrow> string res \<times> 'sk epoch_manager" where
  "add_leaf now did pk_bytes E =
     (if dict_get (em_pending E) did \<noteq> None then
        (Inl (EpochError (did @ '' is already queued for epoch '' @ str_int (em_current_epoch_id E))), E)
      else case leaf_hash did pk_bytes of
        Inl e \<Rightarrow> (Inl e, E)
      | Inr leaf \<Rightarrow>
          let entry = \<lparr>pe_did = did, pe_public_key = to_hex pk_bytes, pe_leaf = leaf, pe_queued_at = now\<rparr>
          in (Inr (to_hex leaf), E\<lparr>em_pending := dict_set did entry (em_pending E)\<rparr>))"

definition batch_size :: "'sk epoch_manager \<Rightarrow> nat" where
  "batch_size E = length (em_pending E)"

definition pending_dids :: "'sk epoch_manager \<Rightarrow> string list" where
  "pending_dids E = dict_keys (em_pending E)"

section \<open>Closing the batch\<close>

text \<open>The two loops that collect the members, and the counters \<open>carried\<close> and \<open>new\<close>.\<close>

fun carry_loop ::
    "string set \<Rightarrow> (string, pending_entry) dict \<Rightarrow> device_record list \<Rightarrow>
     (string, pending_entry) dict \<Rightarrow> nat \<Rightarrow> ((string, pending_entry) dict \<times> nat) res" where
  "carry_loop blocked pending [] members carried = Inr (members, carried)"
| "carry_loop blocked pending (rec # recs) members carried =
     (if dr_did rec \<notin> blocked \<and> dict_get pending (dr_did rec) = None then
        (case dr_leaf rec of
           None \<Rightarrow> Inl TypeError
         | Some leaf_hex \<Rightarrow>
             (case from_hex leaf_hex of
                Inl e \<Rightarrow> Inl e
              | Inr leaf \<Rightarrow>
                  let entry = \<lparr>pe_did = dr_did rec, pe_public_key = dr_public_key rec, pe_leaf = leaf, pe_queued_at = 0\<rparr>
                  in carry_loop blocked pending recs (dict_set (dr_did rec) entry members) (Suc carried)))
      else carry_loop blocked pending recs members carried)"

fun new_loop ::
    "string set \<Rightarrow> (string, pending_entry) dict \<Rightarrow> (string, pending_entry) dict \<Rightarrow> nat \<Rightarrow>
     (string, pending_entry) dict \<times> nat" where
  "new_loop blocked [] members new = (members, new)"
| "new_loop blocked ((did, entry) # es) members new =
     (if did \<notin> blocked then new_loop blocked es (dict_set did entry members) (Suc new)
      else new_loop blocked es members new)"

record plan =
  pl_members :: "(string, pending_entry) dict"
  pl_carried :: nat
  pl_new :: nat
  pl_dropped :: "string list"

definition blocked_dids :: "string list \<Rightarrow> device_store \<Rightarrow> string set" where
  "blocked_dids exclude_dids D = set exclude_dids \<union> set (map dr_did (by_status D REVOKED))"

definition finalize_plan :: "string list \<Rightarrow> 'sk epoch_manager \<Rightarrow> device_store \<Rightarrow> plan res" where
  "finalize_plan exclude_dids E D =
     (let blocked = blocked_dids exclude_dids D
      in case (if em_carry_forward E then carry_loop blocked (em_pending E) (by_status D REGISTERED) [] 0 else Inr ([], 0)) of
           Inl e \<Rightarrow> Inl e
         | Inr (carried_members, carried) \<Rightarrow>
             (case new_loop blocked (em_pending E) carried_members 0 of
                (members, new) \<Rightarrow>
                  let dropped = sorted_list_of_set
                        (Set.filter (\<lambda>d. dict_get (em_pending E) d \<noteq> None \<or> d \<in> em_active_dids E) blocked)
                  in if members = [] then Inl (EpochError ''nothing to finalize: the batch is empty'')
                     else Inr \<lparr>pl_members = members, pl_carried = carried, pl_new = new, pl_dropped = dropped\<rparr>))"

text \<open>One package per leaf, in tree order; \<open>rnd\<close> is the randomness of each leaf's signature.\<close>

fun package_loop ::
    "'sk platform \<Rightarrow> (bytes \<Rightarrow> nat) \<Rightarrow> merkle_tree \<Rightarrow> int \<Rightarrow> string \<Rightarrow> 'sk \<Rightarrow> (bytes, pending_entry) dict \<Rightarrow>
     bytes list \<Rightarrow> (string, proof_package) dict \<Rightarrow> (string, proof_package) dict res" where
  "package_loop P rnd tree epoch_id fog_id sk by_leaf [] packages = Inr packages"
| "package_loop P rnd tree epoch_id fog_id sk by_leaf (leaf # leaves) packages =
     (case dict_get by_leaf leaf of
        None \<Rightarrow> Inl KeyError
      | Some e \<Rightarrow>
          (case build_proof_package P (rnd leaf) (pe_did e) (pe_public_key e) leaf tree epoch_id fog_id sk of
             Inl ex \<Rightarrow> Inl ex
           | Inr pkg \<Rightarrow> package_loop P rnd tree epoch_id fog_id sk by_leaf leaves (dict_set (pe_did e) pkg packages)))"

text \<open>Step 5: the status, leaf and epoch of every member, and its latest package.\<close>

definition register_member :: "int \<Rightarrow> string \<times> proof_package \<Rightarrow> device_store \<Rightarrow> device_store" where
  "register_member epoch_id dp D =
     (case dp of (did, pkg) \<Rightarrow>
        (case device_get D did of
           None \<Rightarrow> D
         | Some rec \<Rightarrow> dict_set did (rec\<lparr>dr_status := REGISTERED, dr_leaf := Some (pp_leaf pkg), dr_epoch_id := Some epoch_id\<rparr>) D))"

definition by_leaf_of :: "(string, pending_entry) dict \<Rightarrow> (bytes, pending_entry) dict" where
  "by_leaf_of members = foldl (\<lambda>d (_, e). dict_set (pe_leaf e) e d) [] members"

definition finalize_commit ::
    "'sk platform \<Rightarrow> string \<Rightarrow> nat \<Rightarrow> (bytes \<Rightarrow> nat) \<Rightarrow> plan \<Rightarrow> 'sk epoch_manager \<Rightarrow> device_store \<Rightarrow> 'sk ledger \<Rightarrow>
     epoch_result res \<times> 'sk epoch_manager \<times> device_store \<times> 'sk ledger" where
  "finalize_commit P timestamp n rnd pl E D L =
     (let members = pl_members pl;
          epoch_id = em_current_epoch_id E;
          leaves_sorted = sort (map (\<lambda>(_, e). pe_leaf e) members)
      in case merkle_init leaves_sorted False of
           Inl e \<Rightarrow> (Inl e, E, D, L)
         | Inr tree \<Rightarrow>
             (case anchor_root P timestamp n epoch_id (mt_root_hex tree) (int (mt_size tree)) L of
                Inl e \<Rightarrow> (Inl e, E, D, L)
              | Inr (blk, L') \<Rightarrow>
                  let by_leaf = by_leaf_of members
                  in case package_loop P rnd tree epoch_id (em_fog_id E) (em_signing_key E) by_leaf (mt_leaves tree) [] of
                       Inl e \<Rightarrow> (Inl e, E, D, L')
                     | Inr packages \<Rightarrow>
                         let D' = fold (register_member epoch_id) packages D;
                             E' = E\<lparr>em_latest_package := fold (\<lambda>(did, pkg). dict_set did pkg) packages (em_latest_package E),
                                    em_packages := dict_set epoch_id packages (em_packages E),
                                    em_active_dids := set (dict_keys packages),
                                    em_pending := [],
                                    em_current_epoch_id := epoch_id + 1\<rparr>;
                             sorted_view = map (\<lambda>(i, l). (i, to_hex l, pe_did (the (dict_get by_leaf l)))) (enumerate 0 (mt_leaves tree))
                         in (Inr \<lparr>er_epoch_id = epoch_id, er_root = mt_root_hex tree, er_block = blk,
                                  er_sorted_leaves = sorted_view, er_packages = packages, er_new_devices = pl_new pl,
                                  er_carried_forward = pl_carried pl, er_excluded = pl_dropped pl\<rparr>, E', D', L')))"

definition finalize_epoch ::
    "'sk platform \<Rightarrow> string \<Rightarrow> nat \<Rightarrow> (bytes \<Rightarrow> nat) \<Rightarrow> string list \<Rightarrow> 'sk epoch_manager \<Rightarrow> device_store \<Rightarrow> 'sk ledger \<Rightarrow>
     epoch_result res \<times> 'sk epoch_manager \<times> device_store \<times> 'sk ledger" where
  "finalize_epoch P timestamp n rnd exclude_dids E D L =
     (case finalize_plan exclude_dids E D of
        Inl e \<Rightarrow> (Inl e, E, D, L)
      | Inr pl \<Rightarrow> finalize_commit P timestamp n rnd pl E D L)"

definition get_package :: "'sk epoch_manager \<Rightarrow> string \<Rightarrow> int option \<Rightarrow> proof_package option" where
  "get_package E did epoch_id =
     (case epoch_id of
        None \<Rightarrow> dict_get (em_latest_package E) did
      | Some e \<Rightarrow> (case dict_get (em_packages E) e of None \<Rightarrow> None | Some ps \<Rightarrow> dict_get ps did))"

text \<open>One turn of the loop of \<open>start_auto_close\<close>; an \<open>EpochError\<close> is logged, any other exception ends the thread.\<close>

definition auto_close_turn ::
    "'sk platform \<Rightarrow> string \<Rightarrow> nat \<Rightarrow> (bytes \<Rightarrow> nat) \<Rightarrow> 'sk epoch_manager \<Rightarrow> device_store \<Rightarrow> 'sk ledger \<Rightarrow>
     unit res \<times> 'sk epoch_manager \<times> device_store \<times> 'sk ledger" where
  "auto_close_turn P timestamp n rnd E D L =
     (if batch_size E > 0 then
        (case finalize_epoch P timestamp n rnd [] E D L of
           (Inl (EpochError _), E', D', L') \<Rightarrow> (Inr (), E', D', L')
         | (Inl e, E', D', L') \<Rightarrow> (Inl e, E', D', L')
         | (Inr _, E', D', L') \<Rightarrow> (Inr (), E', D', L'))
      else (Inr (), E, D, L))"

section \<open>Who is in the root\<close>

text \<open>An entry of the batch: its DID is derived from its public key, and its leaf is the leaf hash of both.\<close>

definition entry_ok :: "string \<Rightarrow> pending_entry \<Rightarrow> bool" where
  "entry_ok k e \<longleftrightarrow> pe_did e = k \<and> (\<exists>pk. from_hex (pe_public_key e) = Inr pk \<and> leaf_hash k pk = Inr (pe_leaf e) \<and>
     k = derive_did pk)"

definition members_ok :: "(string, pending_entry) dict \<Rightarrow> bool" where
  "members_ok ms \<longleftrightarrow> dict_ok ms \<and> (\<forall>(k, e)\<in>set ms. entry_ok k e)"

text \<open>A registered device: its record holds the leaf hash of its DID and public key.\<close>

definition registered_ok :: "device_record \<Rightarrow> bool" where
  "registered_ok rec \<longleftrightarrow> (\<exists>pk leaf. dr_leaf rec = Some (to_hex leaf) \<and> from_hex (dr_public_key rec) = Inr pk \<and>
     leaf_hash (dr_did rec) pk = Inr leaf \<and> dr_did rec = derive_did pk)"

lemma members_ok_Nil: "members_ok []"
  by (simp add: members_ok_def)

lemma members_ok_set: "members_ok ms \<Longrightarrow> entry_ok k e \<Longrightarrow> members_ok (dict_set k e ms)"
  by (auto simp: members_ok_def set_update)

lemma carry_loop_ok:
  assumes "\<forall>rec\<in>set recs. registered_ok rec" "members_ok ms"
  shows "\<exists>ms' c'. carry_loop blocked pending recs ms c = Inr (ms', c') \<and> members_ok ms' \<and>
    dict_dom ms' = dict_dom ms \<union> {k \<in> dr_did ` set recs. k \<notin> blocked \<and> dict_get pending k = None}"
  using assms
proof (induction recs arbitrary: ms c)
  case (Cons rec recs)
  show ?case
  proof (cases "dr_did rec \<notin> blocked \<and> dict_get pending (dr_did rec) = None")
    case False
    with Cons.IH [OF _ Cons.prems(2), of c] Cons.prems(1) show ?thesis by auto
  next
    case True
    from Cons.prems(1) obtain pk leaf where r: "dr_leaf rec = Some (to_hex leaf)"
      "from_hex (dr_public_key rec) = Inr pk" "leaf_hash (dr_did rec) pk = Inr leaf" "dr_did rec = derive_did pk"
      by (auto simp: registered_ok_def)
    define e where "e = \<lparr>pe_did = dr_did rec, pe_public_key = dr_public_key rec, pe_leaf = leaf, pe_queued_at = 0\<rparr>"
    have "entry_ok (dr_did rec) e" using r(2-4) unfolding entry_ok_def e_def by auto
    from Cons.IH [OF _ members_ok_set [OF Cons.prems(2) this], of "Suc c"] Cons.prems(1)
    obtain ms' c' where "carry_loop blocked pending recs (dict_set (dr_did rec) e ms) (Suc c) = Inr (ms', c')"
      "members_ok ms'" "dict_dom ms' = dict_dom (dict_set (dr_did rec) e ms) \<union>
         {k \<in> dr_did ` set recs. k \<notin> blocked \<and> dict_get pending k = None}" by auto
    with True r(1) show ?thesis by (auto simp: e_def)
  qed
qed simp

lemma new_loop_ok:
  assumes "\<forall>(k, e)\<in>set es. entry_ok k e" "members_ok ms" "new_loop blocked es ms c = (ms', c')"
  shows "members_ok ms' \<and> dict_dom ms' = dict_dom ms \<union> {k \<in> dict_dom es. k \<notin> blocked}"
  using assms
proof (induction es arbitrary: ms c)
  case (Cons p es)
  obtain k e where p: "p = (k, e)" by fastforce
  show ?case
  proof (cases "k \<in> blocked")
    case True
    with Cons.IH [OF _ Cons.prems(2), of c] Cons.prems p show ?thesis by auto
  next
    case False
    from Cons.prems p have "entry_ok k e" by simp
    with Cons.IH [OF _ members_ok_set [OF Cons.prems(2)], of k e "Suc c"] Cons.prems p False show ?thesis
      by auto
  qed
qed simp

text \<open>The members of the next root, as the documentation gives them.\<close>

definition next_members :: "string list \<Rightarrow> 'sk epoch_manager \<Rightarrow> device_store \<Rightarrow> string set" where
  "next_members exclude_dids E D =
     {k. k \<notin> set exclude_dids \<and> \<not> (\<exists>d. dict_get D k = Some d \<and> dr_status d = REVOKED) \<and>
         (dict_get (em_pending E) k \<noteq> None \<or>
          em_carry_forward E \<and> (\<exists>d. dict_get D k = Some d \<and> dr_status d = REGISTERED))}"

lemma by_status_dids: "devices_ok D \<Longrightarrow> k \<in> dr_did ` set (by_status D s) \<longleftrightarrow> (\<exists>d. dict_get D k = Some d \<and> dr_status d = s)"
  using by_status_iff [of D _ s] devices_ok_get [of D k] by (auto simp: image_iff)

lemma blocked_iff:
  "devices_ok D \<Longrightarrow> k \<in> blocked_dids ex D \<longleftrightarrow> k \<in> set ex \<or> (\<exists>d. dict_get D k = Some d \<and> dr_status d = REVOKED)"
  by (simp add: blocked_dids_def by_status_dids)

definition batch_ok :: "'sk epoch_manager \<Rightarrow> device_store \<Rightarrow> bool" where
  "batch_ok E D \<longleftrightarrow> devices_ok D \<and> members_ok (em_pending E) \<and> (\<forall>rec\<in>set (by_status D REGISTERED). registered_ok rec)"

lemma finalize_plan_cases:
  assumes ok: "batch_ok E D"
  shows "(next_members ex E D = {} \<and> finalize_plan ex E D = Inl (EpochError ''nothing to finalize: the batch is empty'')) \<or>
    (\<exists>pl. finalize_plan ex E D = Inr pl \<and> members_ok (pl_members pl) \<and> pl_members pl \<noteq> [] \<and>
       dict_dom (pl_members pl) = next_members ex E D)"
proof -
  let ?b = "blocked_dids ex D"
  let ?carry = "if em_carry_forward E then carry_loop ?b (em_pending E) (by_status D REGISTERED) [] 0 else Inr ([], 0)"
  have d: "devices_ok D" using ok by (simp add: batch_ok_def)
  obtain ms c where carry: "?carry = Inr (ms, c)" "members_ok ms"
    "dict_dom ms = (if em_carry_forward E then {k \<in> dr_did ` set (by_status D REGISTERED). k \<notin> ?b \<and> dict_get (em_pending E) k = None} else {})"
    using carry_loop_ok [OF _ members_ok_Nil, of "by_status D REGISTERED" ?b "em_pending E" 0] ok members_ok_Nil
    by (cases "em_carry_forward E") (auto simp: batch_ok_def)
  obtain ms' c' where new: "new_loop ?b (em_pending E) ms 0 = (ms', c')" by fastforce
  have "\<forall>(k, e)\<in>set (em_pending E). entry_ok k e" using ok by (simp add: batch_ok_def members_ok_def)
  from new_loop_ok [OF this carry(2) new] have ms': "members_ok ms'"
    "dict_dom ms' = dict_dom ms \<union> {k \<in> dict_dom (em_pending E). k \<notin> ?b}" by blast+
  have keys: "dict_dom ms' = next_members ex E D"
    unfolding ms'(2) carry(3) next_members_def
    by (rule set_eqI) (auto simp: blocked_iff [OF d] by_status_dids [OF d] dict_dom_iff)
  show ?thesis
  proof (cases "ms' = []")
    case True
    then have "next_members ex E D = {}" using keys by simp
    with True carry(1) new show ?thesis by (simp add: finalize_plan_def Let_def)
  next
    case False
    with keys ms'(1) carry(1) new show ?thesis by (simp add: finalize_plan_def Let_def)
  qed
qed

section \<open>Anchoring and handing out packages\<close>

lemma fold_dict_get:
  "dict_ok ps \<Longrightarrow> dict_get (fold (\<lambda>(k, v). dict_set k v) ps d) x =
     (case dict_get ps x of None \<Rightarrow> dict_get d x | Some v \<Rightarrow> Some v)"
proof (induction ps arbitrary: d)
  case (Cons p ps)
  obtain k v where p: "p = (k, v)" by fastforce
  with Cons.prems have "dict_get ps k = None" by (simp add: dict_get_None_iff)
  with Cons p show ?case by (auto simp: dict_simps split: option.split)
qed simp

lemma register_member_get:
  "dict_get (register_member ep (did, pkg) D) x =
     (if x = did then map_option (\<lambda>rec. rec\<lparr>dr_status := REGISTERED, dr_leaf := Some (pp_leaf pkg), dr_epoch_id := Some ep\<rparr>) (dict_get D x)
      else dict_get D x)"
  by (auto simp: register_member_def device_get_def dict_simps split: option.split)

lemma register_all_get:
  "dict_ok ps \<Longrightarrow> dict_get (fold (register_member ep) ps D) x =
     (case dict_get ps x of None \<Rightarrow> dict_get D x
      | Some pkg \<Rightarrow> map_option (\<lambda>rec. rec\<lparr>dr_status := REGISTERED, dr_leaf := Some (pp_leaf pkg), dr_epoch_id := Some ep\<rparr>) (dict_get D x))"
proof (induction ps arbitrary: D)
  case (Cons p ps)
  obtain k v where p: "p = (k, v)" by fastforce
  with Cons.prems have "dict_get ps k = None" by (simp add: dict_get_None_iff)
  with Cons p show ?case by (auto simp: register_member_get split: option.split)
qed simp

lemma devices_ok_register: "devices_ok D \<Longrightarrow> devices_ok (fold (register_member ep) ps D)"
proof (induction ps arbitrary: D)
  case (Cons p ps)
  obtain k v where "p = (k, v)" by fastforce
  with Cons.prems devices_ok_get [of D k] have "devices_ok (register_member ep p D)"
    by (auto simp: register_member_def device_get_def intro!: devices_ok_set split: option.split)
  with Cons.IH show ?case by simp
qed simp

lemma by_leaf_get:
  assumes "distinct (map (\<lambda>(_, e). pe_leaf e) ms)" "(k, e) \<in> set ms"
  shows "dict_get (by_leaf_of ms) (pe_leaf e) = Some e"
proof -
  let ?ps = "map (\<lambda>(_, e). (e, pe_leaf e)) ms"
  have "by_leaf_of ms = foldl (\<lambda>d (i, leaf). dict_set leaf i d) [] ?ps"
    by (simp add: by_leaf_of_def foldl_map case_prod_unfold)
  moreover have "distinct (map snd ?ps)" using assms(1) by (simp add: comp_def case_prod_unfold)
  moreover have "map_of (map (\<lambda>(i, l). (l, i)) ?ps) (pe_leaf e) = Some e"
    using assms by (intro map_of_is_SomeI) (force simp: comp_def case_prod_unfold)+
  ultimately show ?thesis using dict_set_fold [of ?ps "[]" "pe_leaf e"] by simp
qed

text \<open>What every package of an epoch satisfies.\<close>

definition package_good ::
    "'sk platform \<Rightarrow> merkle_tree \<Rightarrow> int \<Rightarrow> 'sk \<Rightarrow> (string \<Rightarrow> string) \<Rightarrow> string \<Rightarrow> proof_package \<Rightarrow> bool" where
  "package_good P tree epoch sk key k pkg \<longleftrightarrow> pp_did pkg = k \<and> pp_public_key pkg = key k \<and> pp_epoch_id pkg = epoch \<and>
     accepts P pkg (Some (mt_root_hex tree)) (public_key_bytes P sk)"

lemma package_loop_ok:
  assumes P: "ecdsa_ok P" and tree: "merkle_init ls False = Inr tree"
  shows "\<forall>leaf\<in>set leaves. leaf \<in> set ls \<and> (\<exists>e. dict_get by_leaf leaf = Some e \<and> pe_leaf e = leaf \<and> entry_ok (pe_did e) e \<and>
      pe_public_key e = key (pe_did e)) \<Longrightarrow>
    dict_ok ps \<Longrightarrow> \<forall>(k, pkg)\<in>set ps. package_good P tree epoch sk key k pkg \<Longrightarrow>
    \<exists>ps'. package_loop P rnd tree epoch fog sk by_leaf leaves ps = Inr ps' \<and> dict_ok ps' \<and>
      (\<forall>(k, pkg)\<in>set ps'. package_good P tree epoch sk key k pkg) \<and>
      dict_dom ps' = dict_dom ps \<union> (\<lambda>leaf. pe_did (the (dict_get by_leaf leaf))) ` set leaves"
proof (induction leaves arbitrary: ps)
  case (Cons leaf leaves)
  from Cons.prems(1) obtain e where e: "leaf \<in> set ls" "dict_get by_leaf leaf = Some e" "pe_leaf e = leaf"
    "entry_ok (pe_did e) e" "pe_public_key e = key (pe_did e)" by auto
  then obtain pk where "from_hex (pe_public_key e) = Inr pk" "leaf_hash (pe_did e) pk = Inr leaf"
    by (auto simp: entry_ok_def)
  from build_accepts [OF P tree e(1) this, of "rnd leaf" epoch fog sk] obtain pkg where
    pkg: "build_proof_package P (rnd leaf) (pe_did e) (pe_public_key e) leaf tree epoch fog sk = Inr pkg"
    "accepts P pkg (Some (mt_root_hex tree)) (public_key_bytes P sk)" by blast
  then have good: "package_good P tree epoch sk key (pe_did e) pkg"
    using e(5) unfolding build_proof_package_ok_iff by (auto simp: package_good_def)
  have all: "\<forall>(k, pkg)\<in>set (dict_set (pe_did e) pkg ps). package_good P tree epoch sk key k pkg"
    using good Cons.prems(2,3) by (auto simp: set_update)
  from Cons.IH [OF _ dict_ok_set [OF Cons.prems(2)] all] Cons.prems(1) obtain ps' where
    "package_loop P rnd tree epoch fog sk by_leaf leaves (dict_set (pe_did e) pkg ps) = Inr ps'" "dict_ok ps'"
    "\<forall>(k, pkg)\<in>set ps'. package_good P tree epoch sk key k pkg"
    "dict_dom ps' = dict_dom (dict_set (pe_did e) pkg ps) \<union> (\<lambda>leaf. pe_did (the (dict_get by_leaf leaf))) ` set leaves"
    by auto
  with pkg(1) e(2) show ?case by auto
qed simp

text \<open>Two members whose leaves are the same, so that their two preimages collide under SHA-256.\<close>

definition did_collision :: "(string, pending_entry) dict \<Rightarrow> bool" where
  "did_collision ms \<longleftrightarrow>
     (\<exists>(k, e)\<in>set ms. \<exists>(k', e')\<in>set ms. k \<noteq> k' \<and> pe_leaf e = pe_leaf e' \<and>
        (\<exists>pk pk'. from_hex (pe_public_key e) = Inr pk \<and> from_hex (pe_public_key e') = Inr pk' \<and>
           collides (leaf_preimage k pk) (leaf_preimage k' pk')))"

lemma members_distinct_leaves:
  assumes "members_ok ms"
  shows "distinct (map (\<lambda>(_, e). pe_leaf e) ms) \<or> did_collision ms"
proof (rule disjCI)
  assume no: "\<not> did_collision ms"
  have "inj_on (\<lambda>(_, e). pe_leaf e) (set ms)"
  proof (rule inj_onI)
    fix x y assume xy: "x \<in> set ms" "y \<in> set ms" "(\<lambda>(_, e). pe_leaf e) x = (\<lambda>(_, e). pe_leaf e) y"
    obtain k e k' e' where p: "x = (k, e)" "y = (k', e')" by (metis surj_pair)
    with xy assms have ok: "entry_ok k e" "entry_ok k' e'" "pe_leaf e = pe_leaf e'" by (auto simp: members_ok_def)
    then obtain pk pk' where pk: "from_hex (pe_public_key e) = Inr pk" "from_hex (pe_public_key e') = Inr pk'"
      "leaf_hash k pk = Inr (pe_leaf e)" "leaf_hash k' pk' = Inr (pe_leaf e)"
      unfolding entry_ok_def by auto
    have "k = k'"
    proof (rule ccontr)
      assume "k \<noteq> k'"
      with leaf_hash_binding [OF pk(3,4)] have "collides (leaf_preimage k pk) (leaf_preimage k' pk')" by blast
      with xy(1,2) p ok(3) pk(1,2) \<open>k \<noteq> k'\<close> have "did_collision ms" unfolding did_collision_def by blast
      with no show False by blast
    qed
    moreover have "dict_ok ms" using assms by (simp add: members_ok_def)
    ultimately show "x = y" using p xy(1,2) by (metis dict_get_in option.inject)
  qed
  moreover have "distinct ms" using assms by (simp add: members_ok_def distinct_map)
  ultimately show "distinct (map (\<lambda>(_, e). pe_leaf e) ms)" by (simp add: distinct_map)
qed

text \<open>A root of the tree over the leaves of the members \<open>mem\<close>, each a 33-byte key with the DID derived from it.\<close>

definition commits_to :: "string \<Rightarrow> (string \<times> bytes) list \<Rightarrow> bool" where
  "commits_to root_hex mem \<longleftrightarrow> (\<forall>(d, k)\<in>set mem. length k = compressed_pk_len \<and> d = derive_did k) \<and>
     (\<exists>tree. merkle_init (member_leaves mem) True = Inr tree \<and> root_hex = mt_root_hex tree)"

definition decoded_members :: "(string, pending_entry) dict \<Rightarrow> (string \<times> bytes) list" where
  "decoded_members ms = map (\<lambda>(k, e). (k, projr (from_hex (pe_public_key e)))) ms"

lemma decoded_members:
  assumes "members_ok ms"
  shows "member_leaves (decoded_members ms) = map (\<lambda>(_, e). pe_leaf e) ms"
    and "\<forall>(d, k)\<in>set (decoded_members ms). length k = compressed_pk_len \<and> d = derive_did k"
    and "fst ` set (decoded_members ms) = dict_dom ms"
proof -
  have e: "\<exists>pk. from_hex (pe_public_key e) = Inr pk \<and> length pk = compressed_pk_len \<and> k = derive_did pk \<and>
      pe_leaf e = sha256 (leaf_preimage k pk)" if "(k, e) \<in> set ms" for k e
    using assms that by (fastforce simp: members_ok_def entry_ok_def leaf_hash_ok_iff)
  show "member_leaves (decoded_members ms) = map (\<lambda>(_, e). pe_leaf e) ms"
    using e by (fastforce simp: member_leaves_def member_preimages_def decoded_members_def)
  show "\<forall>(d, k)\<in>set (decoded_members ms). length k = compressed_pk_len \<and> d = derive_did k"
    using e by (fastforce simp: decoded_members_def)
  show "fst ` set (decoded_members ms) = dict_dom ms"
    by (force simp: decoded_members_def dict_dom_keys)
qed

text \<open>What a successful close has done.\<close>

definition epoch_closed ::
    "'sk platform \<Rightarrow> (string, pending_entry) dict \<Rightarrow> 'sk epoch_manager \<Rightarrow> device_store \<Rightarrow> 'sk ledger \<Rightarrow> epoch_result \<Rightarrow>
     'sk epoch_manager \<Rightarrow> device_store \<Rightarrow> 'sk ledger \<Rightarrow> bool" where
  "epoch_closed P ms E D L r E' D' L' \<longleftrightarrow>
     er_epoch_id r = em_current_epoch_id E \<and> em_current_epoch_id E' = em_current_epoch_id E + 1 \<and>
     em_pending E' = [] \<and> em_active_dids E' = dict_dom ms \<and>
     get_root L' (em_current_epoch_id E) = Some (er_root r) \<and>
     (\<exists>ts n c b. anchor_root P ts n (em_current_epoch_id E) (er_root r) c L = Inr (b, L')) \<and>
     (\<exists>mem. commits_to (er_root r) mem \<and> fst ` set mem = dict_dom ms) \<and>
     dict_ok (er_packages r) \<and> dict_dom (er_packages r) = dict_dom ms \<and>
     (\<forall>k pkg. dict_get (er_packages r) k = Some pkg \<longrightarrow>
        pp_did pkg = k \<and> pp_public_key pkg = pe_public_key (the (dict_get ms k)) \<and> pp_epoch_id pkg = em_current_epoch_id E \<and>
        accepts P pkg (Some (er_root r)) (public_key_bytes P (em_signing_key E))) \<and>
     em_packages E' = dict_set (em_current_epoch_id E) (er_packages r) (em_packages E) \<and>
     (\<forall>k. dict_get (em_latest_package E') k =
        (case dict_get (er_packages r) k of None \<Rightarrow> dict_get (em_latest_package E) k | Some pkg \<Rightarrow> Some pkg)) \<and>
     (\<forall>k. dict_get D' k = (case dict_get (er_packages r) k of
        None \<Rightarrow> dict_get D k
      | Some pkg \<Rightarrow> map_option (\<lambda>rec. rec\<lparr>dr_status := REGISTERED, dr_leaf := Some (pp_leaf pkg),
                      dr_epoch_id := Some (em_current_epoch_id E)\<rparr>) (dict_get D k))) \<and>
     (devices_ok D \<longrightarrow> devices_ok D') \<and>
     em_signing_key E' = em_signing_key E \<and> em_fog_id E' = em_fog_id E \<and> em_carry_forward E' = em_carry_forward E"

lemma finalize_commit_ok:
  assumes P: "ecdsa_ok P" and L: "ledger_inv P L" and fresh: "get_root L (em_current_epoch_id E) = None"
    and ms: "members_ok (pl_members pl)" "pl_members pl \<noteq> []"
    and distinct: "distinct (map (\<lambda>(_, e). pe_leaf e) (pl_members pl))"
  shows "\<exists>r E' D' L'. finalize_commit P ts n rnd pl E D L = (Inr r, E', D', L') \<and>
    epoch_closed P (pl_members pl) E D L r E' D' L'"
proof -
  let ?ms = "pl_members pl" and ?ep = "em_current_epoch_id E" and ?sk = "em_signing_key E"
  let ?leaves = "map (\<lambda>(_, e). pe_leaf e) ?ms"
  have entries: "entry_ok k e" if "(k, e) \<in> set ?ms" for k e using ms(1) that by (auto simp: members_ok_def)
  have "sort ?leaves \<noteq> []" using ms(2) by (metis length_0_conv length_sort length_map)
  then have "well_formed_leaves (sort ?leaves)"
    using distinct entries by (auto simp: well_formed_leaves_def entry_ok_def dest: length_leaf_hash)
  then obtain tree where tree: "merkle_init (sort ?leaves) False = Inr tree"
    unfolding merkle_init_ok_iff by blast
  note f = merkle_init_fields [OF tree]
  have "length (mt_root tree) = hash_len" using length_merkle_root f by metis
  then obtain b L' where anchor: "anchor_root P ts n ?ep (mt_root_hex tree) (int (mt_size tree)) L = Inr (b, L')"
    using anchor_root_succeeds [OF L fresh, of "mt_root_hex tree" "mt_root tree" ts n "int (mt_size tree)"]
    unfolding mt_root_hex_def hash_len_def by fastforce
  let ?by = "by_leaf_of ?ms" and ?key = "\<lambda>k. pe_public_key (the (dict_get ?ms k))"
  have by_leaf: "\<exists>k e. (k, e) \<in> set ?ms \<and> leaf = pe_leaf e \<and> dict_get ?by leaf = Some e" if "leaf \<in> set (mt_leaves tree)" for leaf
    using that f(1) by_leaf_get [OF distinct] by auto
  have "\<forall>leaf\<in>set (mt_leaves tree). leaf \<in> set (sort ?leaves) \<and>
      (\<exists>e. dict_get ?by leaf = Some e \<and> pe_leaf e = leaf \<and> entry_ok (pe_did e) e \<and>
        pe_public_key e = ?key (pe_did e))"
  proof
    fix leaf assume leaf: "leaf \<in> set (mt_leaves tree)"
    with by_leaf obtain k e where e: "(k, e) \<in> set ?ms" "leaf = pe_leaf e" "dict_get ?by leaf = Some e" by blast
    with entries have "entry_ok k e" "pe_did e = k" by (auto simp: entry_ok_def)
    moreover have "dict_get ?ms k = Some e" using ms(1) e(1) by (simp add: members_ok_def)
    ultimately show "leaf \<in> set (sort ?leaves) \<and> (\<exists>e. dict_get ?by leaf = Some e \<and> pe_leaf e = leaf \<and> entry_ok (pe_did e) e \<and>
        pe_public_key e = ?key (pe_did e))"
      using leaf e f(1) by auto
  qed
  from package_loop_ok [OF P tree this, of "[]" ?ep ?sk rnd "em_fog_id E"] obtain ps where
    ps: "package_loop P rnd tree ?ep (em_fog_id E) ?sk ?by (mt_leaves tree) [] = Inr ps" "dict_ok ps"
      "\<forall>(k, pkg)\<in>set ps. package_good P tree ?ep ?sk ?key k pkg"
      "dict_dom ps = (\<lambda>leaf. pe_did (the (dict_get ?by leaf))) ` set (mt_leaves tree)" by auto
  have dom: "dict_dom ps = dict_dom ?ms"
  proof -
    have "(\<lambda>leaf. pe_did (the (dict_get ?by leaf))) ` set (mt_leaves tree) = (\<lambda>(k, e). pe_did e) ` set ?ms"
      using f(1) by_leaf_get [OF distinct] by (force simp: image_iff)
    also have "\<dots> = fst ` set ?ms" using entries by (force simp: entry_ok_def)
    finally show ?thesis using ps(4) by (simp add: dict_dom_keys)
  qed
  have good: "package_good P tree ?ep ?sk ?key k pkg" if "dict_get ps k = Some pkg" for k pkg
    using ps(3) dict_get_SomeD [OF that] by blast
  have "get_root L' ?ep = Some (mt_root_hex tree)"
    using anchor reg.stored unfolding anchors_def by blast
  moreover have "merkle_init ?leaves True = Inr tree"
    using tree by (simp only: merkle_init_presorted)
  then have "commits_to (mt_root_hex tree) (decoded_members ?ms)"
    using decoded_members [OF ms(1)] by (auto simp: commits_to_def)
  ultimately have facts: "get_root L' ?ep = Some (mt_root_hex tree)"
    "\<exists>mem. commits_to (mt_root_hex tree) mem \<and> fst ` set mem = dict_dom ?ms"
    using decoded_members(3) [OF ms(1)] by blast+
  with ps anchor tree dom good fold_dict_get [OF ps(2)] register_all_get [OF ps(2)] devices_ok_register show ?thesis
    unfolding finalize_commit_def Let_def
    by (simp add: epoch_closed_def package_good_def dict_dom_keys) blast
qed

lemma finalize_commit_collision:
  assumes "members_ok (pl_members pl)" "pl_members pl \<noteq> []"
    and "\<not> distinct (map (\<lambda>(_, e). pe_leaf e) (pl_members pl))"
  shows "finalize_commit P ts n rnd pl E D L = (Inl ValueError, E, D, L)"
proof -
  have "\<not> well_formed_leaves (sort (map (\<lambda>(_, e). pe_leaf e) (pl_members pl)))"
    using assms(3) by (simp add: well_formed_leaves_def)
  from merkle_init_error [OF this] show ?thesis by (simp add: finalize_commit_def Let_def)
qed

lemma finalize_epoch_cases:
  assumes "ecdsa_ok P" "ledger_inv P L" "get_root L (em_current_epoch_id E) = None" "batch_ok E D"
  obtains (empty) "next_members ex E D = {}"
      "finalize_epoch P ts n rnd ex E D L = (Inl (EpochError ''nothing to finalize: the batch is empty''), E, D, L)"
    | (closed) pl r E' D' L' where "finalize_plan ex E D = Inr pl" "members_ok (pl_members pl)"
        "dict_dom (pl_members pl) = next_members ex E D"
        "finalize_epoch P ts n rnd ex E D L = (Inr r, E', D', L')" "epoch_closed P (pl_members pl) E D L r E' D' L'"
    | (collision) pl where "finalize_epoch P ts n rnd ex E D L = (Inl ValueError, E, D, L)"
        "finalize_plan ex E D = Inr pl" "did_collision (pl_members pl)"
proof -
  from finalize_plan_cases [OF assms(4), of ex] consider
    "next_members ex E D = {}" "finalize_plan ex E D = Inl (EpochError ''nothing to finalize: the batch is empty'')"
  | pl where "finalize_plan ex E D = Inr pl" "members_ok (pl_members pl)" "pl_members pl \<noteq> []"
      "dict_dom (pl_members pl) = next_members ex E D" by blast
  then show thesis
  proof cases
    case 1
    then show ?thesis using empty by (simp add: finalize_epoch_def)
  next
    case (2 pl)
    show ?thesis
    proof (cases "distinct (map (\<lambda>(_, e). pe_leaf e) (pl_members pl))")
      case True
      from finalize_commit_ok [OF assms(1-3) 2(2,3) True, of ts n rnd D] obtain r E' D' L' where
        c: "finalize_commit P ts n rnd pl E D L = (Inr r, E', D', L')" "epoch_closed P (pl_members pl) E D L r E' D' L'" by blast
      show ?thesis by (rule closed [OF 2(1,2,4) _ c(2)]) (simp add: finalize_epoch_def 2(1) c(1))
    next
      case False
      have "did_collision (pl_members pl)" using members_distinct_leaves [OF 2(2)] False by blast
      moreover have "finalize_epoch P ts n rnd ex E D L = (Inl ValueError, E, D, L)"
        using finalize_commit_collision [OF 2(2,3) False] 2(1) by (simp add: finalize_epoch_def)
      ultimately show ?thesis using collision 2(1) by blast
    qed
  qed
qed

lemma finalize_epoch_plan_members:
  assumes "finalize_epoch P ts n rnd ex E D L = (Inr r, E', D', L')"
  obtains pl where "finalize_plan ex E D = Inr pl" "finalize_commit P ts n rnd pl E D L = (Inr r, E', D', L')"
  using assms by (auto simp: finalize_epoch_def split: sum.splits)

section \<open>The invariant of the manager\<close>

text \<open>The entries of the batch belong to device records with the same key.\<close>

definition backed :: "device_store \<Rightarrow> (string, pending_entry) dict \<Rightarrow> bool" where
  "backed D ms \<longleftrightarrow> (\<forall>k e. dict_get ms k = Some e \<longrightarrow>
     (\<exists>rec. dict_get D k = Some rec \<and> from_hex (dr_public_key rec) = from_hex (pe_public_key e)))"

lemma backed_set:
  "backed D ms \<Longrightarrow> dict_get D k = Some rec \<Longrightarrow> from_hex (dr_public_key rec) = from_hex (pe_public_key e) \<Longrightarrow>
     backed D (dict_set k e ms)"
  by (auto simp: backed_def dict_simps)

lemma backed_carry:
  "backed D ms \<Longrightarrow> dict_get D (dr_did rec) = Some rec \<Longrightarrow>
     backed D (dict_set (dr_did rec) \<lparr>pe_did = d, pe_public_key = dr_public_key rec, pe_leaf = l, pe_queued_at = q\<rparr> ms)"
  by (rule backed_set) simp_all

lemma carry_loop_backed:
  "\<forall>rec\<in>set recs. dict_get D (dr_did rec) = Some rec \<Longrightarrow> backed D ms \<Longrightarrow>
     carry_loop blocked pending recs ms c = Inr (ms', c') \<Longrightarrow> backed D ms'"
proof (induction recs arbitrary: ms c)
  case (Cons rec recs)
  then show ?case
    by (auto split: if_splits option.splits sum.splits simp: Let_def intro: Cons.IH Cons.IH [OF _ backed_carry])
qed simp

lemma new_loop_backed:
  "\<forall>(k, e)\<in>set es. \<exists>rec. dict_get D k = Some rec \<and> from_hex (dr_public_key rec) = from_hex (pe_public_key e) \<Longrightarrow>
     backed D ms \<Longrightarrow> new_loop blocked es ms c = (ms', c') \<Longrightarrow> backed D ms'"
proof (induction es arbitrary: ms c)
  case (Cons p es)
  obtain k e where p: "p = (k, e)" by fastforce
  then obtain rec where "dict_get D k = Some rec" "from_hex (dr_public_key rec) = from_hex (pe_public_key e)"
    using Cons.prems(1) by auto
  from backed_set [OF Cons.prems(2) this] Cons p show ?case by (auto split: if_splits)
qed simp

lemma finalize_plan_backed:
  assumes "batch_ok E D" "backed D (em_pending E)" "finalize_plan ex E D = Inr pl"
  shows "backed D (pl_members pl)"
proof -
  have d: "devices_ok D" "dict_ok (em_pending E)" using assms(1) by (auto simp: batch_ok_def members_ok_def)
  have "\<forall>rec\<in>set (by_status D REGISTERED). dict_get D (dr_did rec) = Some rec"
    using by_status_iff [OF d(1)] by blast
  note carry = carry_loop_backed [OF this, of "[]"]
  have "\<forall>(k, e)\<in>set (em_pending E). \<exists>rec. dict_get D k = Some rec \<and> from_hex (dr_public_key rec) = from_hex (pe_public_key e)"
    using assms(2) d(2) by (auto simp: backed_def)
  note new = new_loop_backed [OF this]
  from assms(3) obtain ms c where
    ms: "(if em_carry_forward E then carry_loop (blocked_dids ex D) (em_pending E) (by_status D REGISTERED) [] 0 else Inr ([], 0)) = Inr (ms, c)"
      "pl_members pl = fst (new_loop (blocked_dids ex D) (em_pending E) ms 0)"
    by (auto simp: finalize_plan_def Let_def split: sum.splits prod.splits if_splits)
  have "backed D []" by (simp add: backed_def)
  with ms(1) carry have "backed D ms" by (auto split: if_splits)
  from new [OF this] ms(2) show ?thesis by (metis prod.collapse)
qed

definition device_ok :: "device_record \<Rightarrow> bool" where
  "device_ok rec \<longleftrightarrow> (\<exists>pk. from_hex (dr_public_key rec) = Inr pk \<and> length pk = compressed_pk_len \<and> dr_did rec = derive_did pk)"

text \<open>A package that the registry backs: it is of the given DID and epoch and its epoch's root accepts it.\<close>

definition package_ok :: "'sk platform \<Rightarrow> 'sk \<Rightarrow> 'sk ledger \<Rightarrow> string \<Rightarrow> proof_package \<Rightarrow> bool" where
  "package_ok P sk L k pkg \<longleftrightarrow> pp_did pkg = k \<and>
     (\<exists>root_hex. get_root L (pp_epoch_id pkg) = Some root_hex \<and> accepts P pkg (Some root_hex) (public_key_bytes P sk))"

definition epochs_inv :: "'sk platform \<Rightarrow> 'sk epoch_manager \<Rightarrow> device_store \<Rightarrow> 'sk ledger \<Rightarrow> bool" where
  "epochs_inv P E D L \<longleftrightarrow>
     ledger_inv P L \<and> batch_ok E D \<and> backed D (em_pending E) \<and>
     (\<forall>k rec. dict_get D k = Some rec \<longrightarrow> device_ok rec) \<and>
     (\<forall>e \<ge> em_current_epoch_id E. get_root L e = None) \<and>
     (\<forall>e root_hex. get_root L e = Some root_hex \<longrightarrow> (\<exists>mem. commits_to root_hex mem)) \<and>
     (\<forall>k pkg. dict_get (em_latest_package E) k = Some pkg \<longrightarrow> package_ok P (em_signing_key E) L k pkg) \<and>
     (\<forall>k e pkg. get_package E k (Some e) = Some pkg \<longrightarrow> pp_epoch_id pkg = e \<and> package_ok P (em_signing_key E) L k pkg)"

lemma epochs_invD:
  assumes "epochs_inv P E D L"
  shows "ledger_inv P L" "batch_ok E D" "backed D (em_pending E)" "dict_get D k = Some rec \<Longrightarrow> device_ok rec"
    "em_current_epoch_id E \<le> e \<Longrightarrow> get_root L e = None"
    "get_root L e = Some root_hex \<Longrightarrow> \<exists>mem. commits_to root_hex mem"
    "dict_get (em_latest_package E) k = Some pkg \<Longrightarrow> package_ok P (em_signing_key E) L k pkg"
    "get_package E k (Some e) = Some pkg \<Longrightarrow> pp_epoch_id pkg = e \<and> package_ok P (em_signing_key E) L k pkg"
  using assms unfolding epochs_inv_def by blast+

lemma closed_anchors: "epoch_closed P ms E D L r E' D' L' \<Longrightarrow> anchors P L (em_current_epoch_id E) (er_root r) L'"
  unfolding epoch_closed_def anchors_def by blast

lemma package_ok_mono: "anchors P L e r L' \<Longrightarrow> package_ok P sk L k pkg \<Longrightarrow> package_ok P sk L' k pkg"
  unfolding package_ok_def by (metis reg.step_def reg.step_frozen)

lemma closed_package_ok:
  assumes "epoch_closed P ms E D L r E' D' L'" "dict_get (er_packages r) k = Some pkg"
  shows "package_ok P (em_signing_key E') L' k pkg" "pp_epoch_id pkg = em_current_epoch_id E"
  using assms unfolding epoch_closed_def package_ok_def by auto

lemma closed_registered:
  assumes c: "epoch_closed P ms E D L r E' D' L'" and b: "backed D ms"
    and d: "\<forall>k rec. dict_get D k = Some rec \<longrightarrow> device_ok rec" "devices_ok D"
    and pkg: "dict_get (er_packages r) k = Some pkg" and rec: "dict_get D k = Some rec"
  shows "registered_ok (rec\<lparr>dr_status := REGISTERED, dr_leaf := Some (pp_leaf pkg), dr_epoch_id := Some ep\<rparr>)"
proof -
  have "k \<in> dict_dom ms" using pkg c by (auto simp: epoch_closed_def dict_dom_iff dest: sym)
  then obtain e where e: "dict_get ms k = Some e" by (auto simp: dict_dom_iff)
  with b rec have key: "from_hex (dr_public_key rec) = from_hex (pe_public_key e)" unfolding backed_def by fastforce
  from c pkg e have p: "pp_did pkg = k" "pp_public_key pkg = pe_public_key e"
    "accepts P pkg (Some (er_root r)) (public_key_bytes P (em_signing_key E))" by (auto simp: epoch_closed_def)
  then obtain leaf pk where l: "pp_leaf pkg = to_hex leaf" "from_hex (pe_public_key e) = Inr pk" "leaf_hash k pk = Inr leaf"
    unfolding accepts_iff recompute_leaf_ok_iff by auto
  have "dr_did rec = k" using devices_ok_get [OF d(2) rec] .
  moreover have "dr_did rec = derive_did pk"
    using d(1) [rule_format, OF rec] key l(2) by (auto simp: device_ok_def)
  ultimately show ?thesis using l key by (simp add: registered_ok_def)
qed

lemma closed_inv:
  assumes P: "ecdsa_ok P" and inv: "epochs_inv P E D L" and c: "epoch_closed P ms E D L r E' D' L'"
    and b: "backed D ms"
  shows "epochs_inv P E' D' L'"
proof -
  note i = epochs_invD [OF inv]
  note a = closed_anchors [OF c]
  have dok: "devices_ok D" using i(2) by (simp add: batch_ok_def)
  have dev: "\<forall>k rec. dict_get D k = Some rec \<longrightarrow> device_ok rec" using i(4) by blast
  have dok': "devices_ok D'" using c dok by (simp add: epoch_closed_def)
  have D': "dict_get D' k = (case dict_get (er_packages r) k of None \<Rightarrow> dict_get D k
      | Some pkg \<Rightarrow> map_option (\<lambda>rec. rec\<lparr>dr_status := REGISTERED, dr_leaf := Some (pp_leaf pkg),
                      dr_epoch_id := Some (em_current_epoch_id E)\<rparr>) (dict_get D k))" for k
    using c unfolding epoch_closed_def by (elim conjE) simp
  obtain ts n cnt b where "anchor_root P ts n (em_current_epoch_id E) (er_root r) cnt L = Inr (b, L')"
    using c unfolding epoch_closed_def by (elim conjE exE)
  from anchor_root_inv [OF P i(1) this] have led: "ledger_inv P L'" .
  have reg: "registered_ok rec'" if "dict_get D' k = Some rec'" "dr_status rec' = REGISTERED" for k rec'
  proof (cases "dict_get (er_packages r) k")
    case None
    with that D' have "dict_get D k = Some rec'" by simp
    with that(2) have "rec' \<in> set (by_status D REGISTERED)"
      using by_status_iff [OF dok] devices_ok_get [OF dok] by metis
    then show ?thesis using i(2) by (simp add: batch_ok_def)
  next
    case (Some pkg)
    with that(1) D' obtain rec where rec: "dict_get D k = Some rec" "rec' = rec\<lparr>dr_status := REGISTERED,
        dr_leaf := Some (pp_leaf pkg), dr_epoch_id := Some (em_current_epoch_id E)\<rparr>" by auto
    show ?thesis unfolding rec(2) by (rule closed_registered [OF c b dev dok Some rec(1)])
  qed
  then have "\<forall>rec\<in>set (by_status D' REGISTERED). registered_ok rec"
    using by_status_iff [OF dok'] by blast
  moreover have pend: "em_pending E' = []" using c by (simp add: epoch_closed_def)
  ultimately have batch: "batch_ok E' D'" using dok' by (simp add: batch_ok_def members_ok_Nil)
  have "device_ok rec'" if "dict_get D' k = Some rec'" for k rec'
    using that D' [of k] dev by (auto simp: device_ok_def split: option.splits)
  moreover have "get_root L' e = None" if "em_current_epoch_id E' \<le> e" for e
    using that c i(5) [of e] reg.others [OF a, of e] unfolding epoch_closed_def by auto
  moreover have "\<exists>mem. commits_to rt mem" if "get_root L' e = Some rt" for e rt
    using that c reg.stored [OF a] reg.others [OF a, of e] i(6) [of e rt]
    unfolding epoch_closed_def by (cases "e = em_current_epoch_id E") auto
  moreover have key: "em_signing_key E' = em_signing_key E" using c by (simp add: epoch_closed_def)
  have "package_ok P (em_signing_key E') L' k pkg" if "dict_get (em_latest_package E') k = Some pkg" for k pkg
  proof (cases "dict_get (er_packages r) k")
    case None
    with that c have "dict_get (em_latest_package E) k = Some pkg" by (simp add: epoch_closed_def)
    from package_ok_mono [OF a i(7) [OF this]] show ?thesis by (simp add: key)
  next
    case (Some pkg')
    with that c have "pkg' = pkg" by (simp add: epoch_closed_def)
    with closed_package_ok(1) [OF c Some] show ?thesis by simp
  qed
  moreover have "pp_epoch_id pkg = e \<and> package_ok P (em_signing_key E') L' k pkg"
    if "get_package E' k (Some e) = Some pkg" for k e pkg
  proof (cases "e = em_current_epoch_id E")
    case True
    with that c have "dict_get (er_packages r) k = Some pkg" by (simp add: epoch_closed_def get_package_def dict_simps)
    from closed_package_ok [OF c this] True show ?thesis by simp
  next
    case False
    with that c have "get_package E k (Some e) = Some pkg" by (simp add: epoch_closed_def get_package_def dict_simps)
    from i(8) [OF this] package_ok_mono [OF a] show ?thesis by (simp add: key)
  qed
  ultimately show ?thesis using led batch pend unfolding epochs_inv_def by (auto simp: backed_def)
qed

lemma finalize_epoch_inv:
  assumes P: "ecdsa_ok P" and inv: "epochs_inv P E D L"
    and fin: "finalize_epoch P ts n rnd ex E D L = (res, E', D', L')"
  shows "epochs_inv P E' D' L'"
proof -
  note i = epochs_invD [OF inv]
  show ?thesis
  proof (cases rule: finalize_epoch_cases [OF P i(1) i(5) [OF order.refl] i(2), of ex ts n rnd])
    case 1
    with fin inv show ?thesis by simp
  next
    case (2 pl r E'' D'' L'')
    from closed_inv [OF P inv 2(5) finalize_plan_backed [OF i(2,3) 2(1)]] 2(4) fin
    show ?thesis by simp
  next
    case 3
    with fin inv show ?thesis by simp
  qed
qed

section \<open>Properties\<close>

text \<open>
  C11: how an epoch closes. From a state that satisfies the manager's invariant, closing it has one of
  three outcomes, and the invariant holds afterwards. It succeeds: the members of the new root are
  exactly the devices that the documentation names, all their packages are accepted by the verifier
  against the root just anchored, the batch is empty and the next epoch is open. Or no device is left,
  it raises the \<open>EpochError\<close> and changes nothing. Or two of the very members it picked have different
  DIDs and the same leaf, a collision of SHA-256, it raises \<open>ValueError\<close> and changes nothing.
\<close>

theorem epoch_close_outcome:
  assumes "ecdsa_ok P" and "epochs_inv P E D L"
    and "finalize_epoch P ts n rnd ex E D L = (result, E', D', L')"
  shows "epochs_inv P E' D' L' \<and>
    (case result of
       Inr r \<Rightarrow> next_members ex E D \<noteq> {} \<and> em_active_dids E' = next_members ex E D \<and>
         (\<exists>mem. commits_to (er_root r) mem \<and> fst ` set mem = next_members ex E D) \<and>
         get_root L (em_current_epoch_id E) = None \<and> get_root L' (em_current_epoch_id E) = Some (er_root r) \<and>
         dict_dom (er_packages r) = next_members ex E D \<and>
         (\<forall>k pkg. dict_get (er_packages r) k = Some pkg \<longrightarrow> pp_did pkg = k \<and> pp_epoch_id pkg = em_current_epoch_id E \<and>
            accepts P pkg (Some (er_root r)) (public_key_bytes P (em_signing_key E))) \<and>
         em_pending E' = [] \<and> em_current_epoch_id E' = em_current_epoch_id E + 1
     | Inl e \<Rightarrow> E' = E \<and> D' = D \<and> L' = L \<and>
         (next_members ex E D = {} \<and> e = EpochError ''nothing to finalize: the batch is empty'' \<or>
          e = ValueError \<and> (\<exists>pl. finalize_plan ex E D = Inr pl \<and> did_collision (pl_members pl))))"
proof -
  note i = epochs_invD [OF assms(2)]
  have inv: "epochs_inv P E' D' L'" using finalize_epoch_inv [OF assms] .
  show ?thesis
  proof (cases rule: finalize_epoch_cases [OF assms(1) i(1) i(5) [OF order.refl] i(2), of ex ts n rnd])
    case 1
    with assms(3) inv show ?thesis by auto
  next
    case (2 pl r E'' D'' L'')
    have "next_members ex E D \<noteq> {}"
      using finalize_plan_cases [OF i(2), of ex] 2(1,3) by (auto simp: dict_dom_empty_iff)
    moreover have eqs: "result = Inr r" "E'' = E'" "D'' = D'" "L'' = L'" using 2(4) assms(3) by auto
    note c = 2(5) [unfolded epoch_closed_def eqs 2(3)]
    from c have "\<exists>mem. commits_to (er_root r) mem \<and> fst ` set mem = next_members ex E D"
      "get_root L' (em_current_epoch_id E) = Some (er_root r)"
      "\<forall>k pkg. dict_get (er_packages r) k = Some pkg \<longrightarrow> pp_did pkg = k \<and> pp_epoch_id pkg = em_current_epoch_id E \<and>
            accepts P pkg (Some (er_root r)) (public_key_bytes P (em_signing_key E))"
      by simp_all
    moreover from c have "em_active_dids E' = next_members ex E D" "dict_dom (er_packages r) = next_members ex E D"
      "em_pending E' = []" "em_current_epoch_id E' = em_current_epoch_id E + 1" by simp_all
    ultimately show ?thesis using inv i(5) [OF order.refl] eqs by simp
  next
    case 3
    with assms(3) inv show ?thesis by auto
  qed
qed

text \<open>
  C24: revocation takes a device out of every later root and leaves history alone. If a device is
  revoked when an epoch closes, it is not in the new active set and has no package of that epoch, its
  record stays as it was, and its packages of earlier epochs and the roots they check against are
  unchanged.
\<close>

theorem revoked_leaves_next_root:
  assumes "ecdsa_ok P" and "epochs_inv P E D L"
    and "finalize_epoch P ts n rnd ex E D L = (Inr r, E', D', L')"
    and "dict_get D k = Some rec" and "dr_status rec = REVOKED"
  shows "k \<notin> em_active_dids E' \<and> get_package E' k (Some (em_current_epoch_id E)) = None \<and>
    dict_get D' k = Some rec \<and>
    (e \<noteq> em_current_epoch_id E \<longrightarrow> get_package E' k (Some e) = get_package E k (Some e) \<and> get_root L' e = get_root L e)"
proof -
  note i = epochs_invD [OF assms(2)]
  show ?thesis
  proof (cases rule: finalize_epoch_cases [OF assms(1) i(1) i(5) [OF order.refl] i(2), of ex ts n rnd])
    case (2 pl r' E'' D'' L'')
    have eqs: "r' = r" "E'' = E'" "D'' = D'" "L'' = L'" using 2(4) assms(3) by auto
    have no: "k \<notin> dict_dom (pl_members pl)" using 2(3) assms(4,5) by (simp add: next_members_def)
    note c = 2(5) [unfolded eqs]
    from c no have dom: "k \<notin> dict_dom (er_packages r)" "k \<notin> em_active_dids E'" by (simp_all add: epoch_closed_def)
    then have none: "dict_get (er_packages r) k = None" by (simp add: dict_dom_iff)
    with c have "dict_get D' k = Some rec" using assms(4) by (simp add: epoch_closed_def)
    moreover have "em_packages E' = dict_set (em_current_epoch_id E) (er_packages r) (em_packages E)"
      using c by (simp add: epoch_closed_def)
    ultimately show ?thesis using dom none reg.others [OF closed_anchors [OF c], of e]
      by (simp add: get_package_def dict_simps)
  qed (use assms(3) in auto)
qed

text \<open>
  C38: a device excluded from a closing epoch is dropped from the batch for good. Its leaf is not in the
  root, it is not queued for the next epoch either, and its record keeps its status, so nothing will
  ever register it.
\<close>

theorem excluded_device_dropped:
  assumes "ecdsa_ok P" and "epochs_inv P E D L"
    and "finalize_epoch P ts n rnd ex E D L = (Inr r, E', D', L')"
    and "k \<in> set ex"
  shows "k \<notin> em_active_dids E' \<and> k \<notin> set (pending_dids E') \<and> dict_get D' k = dict_get D k"
proof -
  note i = epochs_invD [OF assms(2)]
  show ?thesis
  proof (cases rule: finalize_epoch_cases [OF assms(1) i(1) i(5) [OF order.refl] i(2), of ex ts n rnd])
    case (2 pl r' E'' D'' L'')
    have eqs: "r' = r" "E'' = E'" "D'' = D'" "L'' = L'" using 2(4) assms(3) by auto
    have no: "k \<notin> dict_dom (pl_members pl)" using 2(3) assms(4) by (simp add: next_members_def)
    note c = 2(5) [unfolded eqs]
    from c no have dom: "k \<notin> dict_dom (er_packages r)" "k \<notin> em_active_dids E'" "em_pending E' = []"
      by (simp_all add: epoch_closed_def)
    then have "dict_get (er_packages r) k = None" by (simp add: dict_dom_iff)
    with c dom show ?thesis by (simp add: epoch_closed_def pending_dids_def)
  qed (use assms(3) in auto)
qed

text \<open>
  C39: a revocation that arrives while an epoch is being closed is lost. If the members have been picked
  before a member is revoked and the root is anchored after, the close succeeds, registers the device
  again and puts it in the active set.
\<close>

theorem revocation_lost_in_race:
  assumes "ecdsa_ok P" and "epochs_inv P E D L" and "finalize_plan ex E D = Inr pl"
    and "k \<in> dict_dom (pl_members pl)"
    and "distinct (map (\<lambda>(_, e). pe_leaf e) (pl_members pl))"
  shows "\<exists>r E' D' L' rec. finalize_commit P ts n rnd pl E (set_status k REVOKED D) L = (Inr r, E', D', L') \<and>
    k \<in> em_active_dids E' \<and> dict_get D' k = Some rec \<and> dr_status rec = REGISTERED"
proof -
  note i = epochs_invD [OF assms(2)]
  from finalize_plan_cases [OF i(2), of ex] assms(3) have ms: "members_ok (pl_members pl)" "pl_members pl \<noteq> []" by auto
  from finalize_commit_ok [OF assms(1) i(1) i(5) [OF order.refl] ms assms(5), of ts n rnd "set_status k REVOKED D"]
  obtain r E' D' L' where c: "finalize_commit P ts n rnd pl E (set_status k REVOKED D) L = (Inr r, E', D', L')"
    "epoch_closed P (pl_members pl) E (set_status k REVOKED D) L r E' D' L'" by blast
  from c(2) assms(4) have act: "k \<in> em_active_dids E'" and "k \<in> dict_dom (er_packages r)" by (simp_all add: epoch_closed_def)
  then obtain pkg where pkg: "dict_get (er_packages r) k = Some pkg" by (auto simp: dict_dom_iff)
  obtain e where "dict_get (pl_members pl) k = Some e" using assms(4) by (auto simp: dict_dom_iff)
  then obtain rec where "dict_get D k = Some rec"
    using finalize_plan_backed [OF i(2,3) assms(3)] unfolding backed_def by blast
  with c(2) pkg have "\<exists>rec. dict_get D' k = Some rec \<and> dr_status rec = REGISTERED"
    by (simp add: epoch_closed_def device_get_status)
  with c(1) act show ?thesis by blast
qed

end
