(* ===== verification/Samples.thy ===== *)
theory Samples
  imports Crypto
begin

text \<open>
  Two device keys of \<open>toy_platform\<close> and their DIDs, for the witnesses: the digests are evaluated by the
  kernel, one block each, so that the two DIDs are known to differ.
\<close>

definition sample_block_of :: "byte \<Rightarrow> bytes" where
  "sample_block_of b = replicate 33 b @ 0x80 # replicate 22 0 @ [0, 0, 0, 0, 0, 0, 1, 8]"

lemma pad_message_key: "message_blocks (pad_message (replicate 33 b)) = [sample_block_of b]"
proof -
  have "pad_message (replicate 33 b) = sample_block_of b"
    by (simp add: pad_message_def sample_block_of_def)
  then show ?thesis by (simp add: message_blocks_def sample_block_of_def)
qed

lemma compress_key1:
  "compress initial_state (sample_block_of 1) =
    (0xce041765, 0x675ad4d9, 0x3378e20b, 0xd3a7d0d9, 0x7ddcf338, 0x5fb63415, 0x81b21d4b, 0xc9e3e69e)"
  by code_simp

lemma compress_key2:
  "compress initial_state (sample_block_of 2) =
    (0x7f2f54ff, 0x94459f3a, 0xc4d19d32, 0x19ce6ef0, 0x6868eb8c, 0x72e6d84c, 0xc358bc76, 0x9b23113a)"
  by code_simp

definition pk1 :: bytes where "pk1 = replicate 33 1"
definition pk2 :: bytes where "pk2 = replicate 33 2"
definition did1 :: string where "did1 = derive_did pk1"
definition did2 :: string where "did2 = derive_did pk2"

lemma sample_pk: "length pk1 = compressed_pk_len" "length pk2 = compressed_pk_len"
    "public_key_bytes toy_platform 1 = pk1" "public_key_bytes toy_platform 2 = pk2"
  by (simp_all add: pk1_def pk2_def compressed_pk_len_def public_key_bytes_def toy_platform_def)

lemma sha256_heads: "hd (sha256 pk1) = 0xce" "hd (sha256 pk2) = 0x7f"
  unfolding sha256_def pk1_def pk2_def pad_message_key foldl.simps compress_key1 compress_key2
  by code_simp+

lemma did1_neq_did2 [simp]: "did1 \<noteq> did2" "did2 \<noteq> did1"
proof -
  obtain h1 t1 h2 t2 where h: "sha256 pk1 = h1 # t1" "sha256 pk2 = h2 # t2"
    using length_sha256 by (metis length_0_conv list.exhaust zero_neq_numeral)
  with sha256_heads have "h1 = 0xce" "h2 = 0x7f" by simp_all
  then have e: "did1 = did_prefix @ ''ce'' @ take 14 (to_hex t1)" "did2 = did_prefix @ ''7f'' @ take 14 (to_hex t2)"
    by (simp_all add: did1_def did2_def derive_did_def h hex_byte_def hex_digit_def hex_digits_def)
  show "did1 \<noteq> did2" "did2 \<noteq> did1" unfolding e by simp_all
qed

end
