(* ===== verification/Instances.thy ===== *)
theory Instances
  imports Epochs Samples
begin

text \<open>
  Concrete states for the witnesses of the epoch manager: a fog node with two devices, over
  \<open>toy_platform\<close>, that satisfy the manager's invariant and in which the epoch closes.
\<close>

definition sample_device :: "bytes \<Rightarrow> device_status \<Rightarrow> device_record" where
  "sample_device pk status = new_device (derive_did pk) (to_hex pk) status"

definition sample_entry :: "bytes \<Rightarrow> pending_entry" where
  "sample_entry pk = \<lparr>pe_did = derive_did pk, pe_public_key = to_hex pk,
     pe_leaf = sha256 (leaf_preimage (derive_did pk) pk), pe_queued_at = 0\<rparr>"

definition sample_devices :: "device_status \<Rightarrow> device_store" where
  "sample_devices s = [(did1, sample_device pk1 PENDING), (did2, sample_device pk2 s)]"

definition sample_manager :: "bool \<Rightarrow> byte epoch_manager" where
  "sample_manager both = \<lparr>em_signing_key = 7, em_fog_id = ''fog_A'', em_carry_forward = True, em_current_epoch_id = 1,
     em_pending = (did1, sample_entry pk1) # (if both then [(did2, sample_entry pk2)] else []),
     em_packages = [], em_latest_package = [], em_active_dids = {}\<rparr>"

lemma entry_ok_sample: "length pk = compressed_pk_len \<Longrightarrow> entry_ok (derive_did pk) (sample_entry pk)"
  by (simp add: entry_ok_def sample_entry_def leaf_hash_derived)

lemma sample_members_ok: "members_ok (em_pending (sample_manager both))"
  using entry_ok_sample sample_pk unfolding did1_def did2_def members_ok_def sample_manager_def
  by (simp add: did1_neq_did2 [unfolded did1_def did2_def])

lemma sample_devices_get:
  "dict_get (sample_devices s) k = (if k = did1 then Some (sample_device pk1 PENDING)
     else if k = did2 then Some (sample_device pk2 s) else None)"
  by (simp add: sample_devices_def)

lemma sample_devices_ok: "devices_ok (sample_devices s)"
  by (simp add: devices_ok_def sample_devices_def sample_device_def new_device_def)
    (simp add: did1_def did2_def)

lemma sample_epochs_inv:
  assumes "s \<noteq> REGISTERED"
  shows "epochs_inv toy_platform (sample_manager both) (sample_devices s) sample_ledger"
proof -
  have "by_status (sample_devices s) REGISTERED = []"
    using assms by (simp add: by_status_def sample_devices_def sample_device_def new_device_def)
  then have "batch_ok (sample_manager both) (sample_devices s)"
    using sample_members_ok sample_devices_ok by (simp add: batch_ok_def)
  moreover have "backed (sample_devices s) (em_pending (sample_manager both))"
    by (auto simp: backed_def sample_devices_get sample_manager_def sample_device_def sample_entry_def new_device_def
        split: if_splits)
  moreover have "device_ok (sample_device pk st)" if "length pk = compressed_pk_len" for pk st
    using that by (simp add: device_ok_def sample_device_def new_device_def)
  then have "\<forall>k rec. dict_get (sample_devices s) k = Some rec \<longrightarrow> device_ok rec"
    using sample_pk by (auto simp: sample_devices_get split: if_splits)
  ultimately show ?thesis
    using ledger_init_new [OF sample_ledger_init]
    by (simp add: epochs_inv_def sample_manager_def get_package_def) (simp add: get_root_def sample_ledger_def)
qed

lemma sample_next_members:
  "next_members [] (sample_manager False) (sample_devices REVOKED) = {did1}"
  "next_members [did2] (sample_manager True) (sample_devices PENDING) = {did1}"
  by (auto simp: next_members_def sample_devices_get sample_manager_def sample_device_def new_device_def split: if_splits)

text \<open>With one member there is nothing for its leaf to collide with.\<close>

lemma single_member_plan:
  assumes "epochs_inv P E D L" "next_members ex E D = {k}"
  obtains pl where "finalize_plan ex E D = Inr pl" "dict_dom (pl_members pl) = {k}"
    "distinct (map (\<lambda>(_, e). pe_leaf e) (pl_members pl))" "members_ok (pl_members pl)" "pl_members pl \<noteq> []"
proof -
  from finalize_plan_cases [OF epochs_invD(2) [OF assms(1)], of ex] assms(2) obtain pl where
    pl: "finalize_plan ex E D = Inr pl" "members_ok (pl_members pl)" "pl_members pl \<noteq> []" "dict_dom (pl_members pl) = {k}"
    by auto
  have "length (dict_keys (pl_members pl)) = card (set (dict_keys (pl_members pl)))"
    using pl(2) by (simp add: members_ok_def distinct_card del: set_map)
  then have "length (pl_members pl) = 1"
    using pl(4) by (simp add: dict_dom_keys)
  then have "distinct (map (\<lambda>(_, e). pe_leaf e) (pl_members pl))"
    by (cases "pl_members pl") auto
  with pl show thesis by (intro that) auto
qed

lemma single_member_close:
  assumes "ecdsa_ok P" "epochs_inv P E D L" "next_members ex E D = {k}"
  shows "\<exists>r E' D' L'. finalize_epoch P ts n rnd ex E D L = (Inr r, E', D', L')"
proof -
  note i = epochs_invD [OF assms(2)]
  obtain pl where pl: "finalize_plan ex E D = Inr pl" "members_ok (pl_members pl)" "pl_members pl \<noteq> []"
    "distinct (map (\<lambda>(_, e). pe_leaf e) (pl_members pl))"
    using single_member_plan [OF assms(2,3)] by metis
  from finalize_commit_ok [OF assms(1) i(1) i(5) [OF order.refl] pl(2-4), of ts n rnd D] show ?thesis
    unfolding finalize_epoch_def pl(1) by auto
qed

section \<open>Witnesses\<close>

theorem epoch_close_outcome_witness:
  "\<exists>r E' D' L'. finalize_epoch toy_platform ''t'' 0 (\<lambda>_. 0) [did2] (sample_manager True) (sample_devices PENDING) sample_ledger
      = (Inr r, E', D', L') \<and> em_active_dids E' = {did1} \<and> get_root L' 1 = Some (er_root r)"
proof -
  have inv: "epochs_inv toy_platform (sample_manager True) (sample_devices PENDING) sample_ledger"
    by (rule sample_epochs_inv) simp
  from single_member_close [OF toy_ecdsa inv sample_next_members(2)] obtain r E' D' L' where
    fin: "finalize_epoch toy_platform ''t'' 0 (\<lambda>_. 0) [did2] (sample_manager True) (sample_devices PENDING) sample_ledger
      = (Inr r, E', D', L')" by blast
  from epoch_close_outcome [OF toy_ecdsa inv fin] fin show ?thesis
    by (simp add: sample_next_members) (simp add: sample_manager_def)
qed

theorem revoked_leaves_next_root_witness:
  "\<exists>r E' D' L'. finalize_epoch toy_platform ''t'' 0 (\<lambda>_. 0) [] (sample_manager False) (sample_devices REVOKED) sample_ledger
      = (Inr r, E', D', L') \<and> did2 \<notin> em_active_dids E' \<and> dict_get D' did2 = Some (sample_device pk2 REVOKED)"
proof -
  have inv: "epochs_inv toy_platform (sample_manager False) (sample_devices REVOKED) sample_ledger"
    by (rule sample_epochs_inv) simp
  from single_member_close [OF toy_ecdsa inv sample_next_members(1)] obtain r E' D' L' where
    fin: "finalize_epoch toy_platform ''t'' 0 (\<lambda>_. 0) [] (sample_manager False) (sample_devices REVOKED) sample_ledger
      = (Inr r, E', D', L')" by blast
  have "dict_get (sample_devices REVOKED) did2 = Some (sample_device pk2 REVOKED)" by (simp add: sample_devices_get)
  from revoked_leaves_next_root [OF toy_ecdsa inv fin this] fin show ?thesis
    by (simp add: sample_device_def new_device_def)
qed

theorem excluded_device_dropped_witness:
  "\<exists>r E' D' L'. finalize_epoch toy_platform ''t'' 0 (\<lambda>_. 0) [did2] (sample_manager True) (sample_devices PENDING) sample_ledger
      = (Inr r, E', D', L') \<and> did2 \<notin> set (pending_dids E') \<and> dict_get D' did2 = Some (sample_device pk2 PENDING)"
proof -
  have inv: "epochs_inv toy_platform (sample_manager True) (sample_devices PENDING) sample_ledger"
    by (rule sample_epochs_inv) simp
  from single_member_close [OF toy_ecdsa inv sample_next_members(2)] obtain r E' D' L' where
    fin: "finalize_epoch toy_platform ''t'' 0 (\<lambda>_. 0) [did2] (sample_manager True) (sample_devices PENDING) sample_ledger
      = (Inr r, E', D', L')" by blast
  from excluded_device_dropped [OF toy_ecdsa inv fin, of did2] fin show ?thesis
    by (simp add: sample_devices_get)
qed

theorem revocation_lost_in_race_witness:
  "\<exists>pl r E' D' L'. finalize_plan [did2] (sample_manager True) (sample_devices PENDING) = Inr pl \<and>
     finalize_commit toy_platform ''t'' 0 (\<lambda>_. 0) pl (sample_manager True) (set_status did1 REVOKED (sample_devices PENDING)) sample_ledger
       = (Inr r, E', D', L') \<and> did1 \<in> em_active_dids E'"
proof -
  have inv: "epochs_inv toy_platform (sample_manager True) (sample_devices PENDING) sample_ledger"
    by (rule sample_epochs_inv) simp
  obtain pl where pl: "finalize_plan [did2] (sample_manager True) (sample_devices PENDING) = Inr pl"
    "did1 \<in> dict_dom (pl_members pl)" "distinct (map (\<lambda>(_, e). pe_leaf e) (pl_members pl))"
    using single_member_plan [OF inv sample_next_members(2)] by (metis singletonI)
  from revocation_lost_in_race [OF toy_ecdsa inv pl] pl(1) show ?thesis by blast
qed

end
