(* ===== verification/Fog.thy ===== *)
theory Fog
  imports Psk Validation Pop Tokens Epochs
begin

text \<open>
  fog/main.py: the context that every request handler works on, the application factory and
  \<open>/health\<close>; and what the handlers of all routes share. A handler is a function from the context to a
  reply and the new context, also when it raises: an \<open>HTTPException\<close> is \<open>Http_error\<close> with its detail,
  any other exception is \<open>Server_error\<close> (the framework answers 500). A request body arrives validated
  against its schema, so its fields are typed. \<open>now k\<close> is the k-th reading of the clock during the
  request, in the order of the code; randomness is an argument. The epoch manager of the code refers
  to the device store and the ledger of the context, so its operations take and return them.
\<close>

datatype reply =
    Reply json
  | Http_error nat json
  | Server_error exn

record 'sk fog =
  fg_fog_id :: string
  fg_zone :: string
  fg_signing_key :: 'sk
  fg_psk_store :: psk_store
  fg_sessions :: session_store
  fg_devices :: device_store
  fg_ledger :: "'sk ledger"
  fg_epochs :: "'sk epoch_manager"
  fg_challenge_ttl :: int
  fg_admin_key :: string
  fg_allowed_types :: "string set"
  fg_token_state :: token_state

definition fog_public_key_hex :: "'sk platform \<Rightarrow> 'sk fog \<Rightarrow> string" where
  "fog_public_key_hex P c = to_hex (public_key_bytes P (fg_signing_key c))"

text \<open>\<open>create_app\<close>; Key_Files models how it reads the key and the two files.\<close>

definition create_app ::
    "(string, string) dict option \<Rightarrow> (string, string) dict option \<Rightarrow> 'sk \<Rightarrow> registry_file \<Rightarrow> int \<Rightarrow> int \<Rightarrow>
     bool \<Rightarrow> string \<Rightarrow> 'sk fog res" where
  "create_app psk_file psk_entries signing_key ledger_file challenge_ttl session_ttl carry_forward admin_key =
     (let devices = []
      in case ledger_init signing_key config_fog_id ledger_file of
           Inl e \<Rightarrow> Inl e
         | Inr ledger \<Rightarrow>
             (case epoch_manager_init ledger signing_key config_fog_id carry_forward of
                Inl e \<Rightarrow> Inl e
              | Inr epochs \<Rightarrow>
                  Inr \<lparr>fg_fog_id = config_fog_id, fg_zone = fog_zone, fg_signing_key = signing_key,
                       fg_psk_store = psk_store_init psk_file psk_entries,
                       fg_sessions = session_store_init session_ttl, fg_devices = devices, fg_ledger = ledger,
                       fg_epochs = epochs, fg_challenge_ttl = challenge_ttl, fg_admin_key = admin_key,
                       fg_allowed_types = allowed_device_types,
                       fg_token_state = token_state_init nonce_ttl_seconds\<rparr>))"

definition health :: "'sk platform \<Rightarrow> 'sk fog \<Rightarrow> reply \<times> 'sk fog" where
  "health P c =
     (Reply (JObj [(''status'', JStr ''ok''), (''fog_id'', JStr (fg_fog_id c)), (''zone'', JStr (fg_zone c)),
        (''fog_public_key'', JStr (fog_public_key_hex P c)),
        (''registered_psks'', JInt (int (psk_store_len (fg_psk_store c)))),
        (''anchored_epochs'', JInt (int (ledger_len (fg_ledger c)))),
        (''current_epoch'', JInt (em_current_epoch_id (fg_epochs c))),
        (''batch_size'', JInt (int (batch_size (fg_epochs c))))]), c)"

text \<open>The admin check that two handlers start with.\<close>

definition admin_ok :: "'sk fog \<Rightarrow> string option \<Rightarrow> bool" where
  "admin_ok c x_admin_key = (x_admin_key = Some (fg_admin_key c))"

text \<open>In-place updates of the parts of the context.\<close>

definition put_session :: "session \<Rightarrow> 'sk fog \<Rightarrow> 'sk fog" where
  "put_session s c = c\<lparr>fg_sessions := session_put s (fg_sessions c)\<rparr>"

definition put_device :: "device_record \<Rightarrow> 'sk fog \<Rightarrow> 'sk fog" where
  "put_device d c = c\<lparr>fg_devices := device_upsert d (fg_devices c)\<rparr>"

definition put_nonces :: "nonce_book \<Rightarrow> 'sk fog \<Rightarrow> 'sk fog" where
  "put_nonces b c = c\<lparr>fg_token_state := (fg_token_state c)\<lparr>tk_nonces := b\<rparr>\<rparr>"

lemma put_simps [simp]:
  "fg_devices (put_session s c) = fg_devices c" "fg_ledger (put_session s c) = fg_ledger c"
  "fg_epochs (put_session s c) = fg_epochs c" "fg_token_state (put_session s c) = fg_token_state c"
  "fg_sessions (put_session s c) = session_put s (fg_sessions c)"
  "fg_signing_key (put_session s c) = fg_signing_key c" "fg_admin_key (put_session s c) = fg_admin_key c"
  "fg_sessions (put_device d c) = fg_sessions c" "fg_ledger (put_device d c) = fg_ledger c"
  "fg_epochs (put_device d c) = fg_epochs c" "fg_token_state (put_device d c) = fg_token_state c"
  "fg_devices (put_device d c) = device_upsert d (fg_devices c)"
  "fg_signing_key (put_device d c) = fg_signing_key c" "fg_admin_key (put_device d c) = fg_admin_key c"
  "fg_sessions (put_nonces b c) = fg_sessions c" "fg_ledger (put_nonces b c) = fg_ledger c"
  "fg_epochs (put_nonces b c) = fg_epochs c" "fg_devices (put_nonces b c) = fg_devices c"
  "tk_nonces (fg_token_state (put_nonces b c)) = b"
  "tk_issued (fg_token_state (put_nonces b c)) = tk_issued (fg_token_state c)"
  "tk_revoked (fg_token_state (put_nonces b c)) = tk_revoked (fg_token_state c)"
  "fg_signing_key (put_nonces b c) = fg_signing_key c" "fg_admin_key (put_nonces b c) = fg_admin_key c"
  by (simp_all add: put_session_def put_device_def put_nonces_def)

end
