(* ===== verification/Registration.thy ===== *)
theory Registration
  imports Fog
begin

text \<open>
  fog/registration/routes.py: the four steps of onboarding. \<open>session_or_404\<close> may delete an expired
  session, so it returns the context beside its answer.
\<close>

definition session_or_404 :: "time \<Rightarrow> string \<Rightarrow> 'sk fog \<Rightarrow> (reply + session) \<times> 'sk fog" where
  "session_or_404 now session_id c =
     (case session_get now session_id (fg_sessions c) of
        (None, st) \<Rightarrow> (Inl (Http_error 404 (JStr ''unknown or expired session'')), c\<lparr>fg_sessions := st\<rparr>)
      | (Some s, st) \<Rightarrow> (Inr s, c\<lparr>fg_sessions := st\<rparr>))"

definition require_state :: "session \<Rightarrow> session_state \<Rightarrow> reply option" where
  "require_state s expected =
     (if ss_state s \<noteq> expected
      then Some (Http_error 409 (JStr (''wrong step order: session is '' @ state_text (ss_state s) @ '', expected '' @ state_text expected)))
      else None)"

definition register_start :: "(nat \<Rightarrow> time) \<Rightarrow> bytes \<Rightarrow> string option \<Rightarrow> 'sk fog \<Rightarrow> reply \<times> 'sk fog" where
  "register_start now rnd authorization c =
     (case parse_authorization authorization of
        None \<Rightarrow> (Http_error 401 (JStr ''missing or malformed PSK header''), c)
      | Some (prov_id, psk) \<Rightarrow>
          (case psk_check (fg_psk_store c) prov_id psk of
             Inl e \<Rightarrow> (Server_error e, c)
           | Inr False \<Rightarrow> (Http_error 401 (JStr ''PSK authentication failed''), c)
           | Inr True \<Rightarrow>
               (case session_create rnd (now 0) prov_id (fg_sessions c) of
                  (s, st) \<Rightarrow>
                    (Reply (JObj [(''session_id'', JStr (ss_session_id s)), (''expires_in'', JInt (st_ttl st))]),
                     c\<lparr>fg_sessions := st\<rparr>))))"

text \<open>The \<open>try\<close> block of \<open>register_pubkey\<close>: the key's bytes, or a \<open>ValueError\<close>.\<close>

definition parse_public_key :: "'sk platform \<Rightarrow> string \<Rightarrow> bytes res" where
  "parse_public_key P public_key =
     (case from_hex public_key of
        Inl e \<Rightarrow> Inl e
      | Inr pk_bytes \<Rightarrow>
          if length pk_bytes \<noteq> compressed_pk_len then Inl ValueError
          else case load_public_key P pk_bytes of Inl e \<Rightarrow> Inl e | Inr _ \<Rightarrow> Inr pk_bytes)"

definition register_pubkey ::
    "'sk platform \<Rightarrow> (nat \<Rightarrow> time) \<Rightarrow> bytes \<Rightarrow> string \<Rightarrow> string \<Rightarrow> string \<Rightarrow> 'sk fog \<Rightarrow> reply \<times> 'sk fog" where
  "register_pubkey P now rnd session_id did public_key c0 =
     (case session_or_404 (now 0) session_id c0 of
        (Inl r, c) \<Rightarrow> (r, c)
      | (Inr s, c) \<Rightarrow>
          (case require_state s AUTHENTICATED of
             Some r \<Rightarrow> (r, c)
           | None \<Rightarrow>
               (case parse_public_key P public_key of
                  Inl e \<Rightarrow> (if e = ValueError then Http_error 400 (JStr ''invalid public key'') else Server_error e, c)
                | Inr pk_bytes \<Rightarrow>
                    if did \<noteq> derive_did pk_bytes
                    then (Http_error 400 (JStr ''DID does not match public key fingerprint''), c)
                    else case device_get (fg_devices c) did of
                      Some existing \<Rightarrow>
                        (Http_error 409 (JStr (''DID already known (status '' @ status_text (dr_status existing) @ '')'')), c)
                    | None \<Rightarrow>
                        if did_in_use (fg_sessions c) did (ss_session_id s)
                        then (Http_error 409 (JStr ''DID already in an onboarding session''), c)
                        else
                          (case issue_challenge rnd (now 1) (fg_challenge_ttl c) (s\<lparr>ss_did := Some did, ss_public_key := Some public_key\<rparr>) of
                             (challenge, s') \<Rightarrow>
                               (Reply (JObj [(''session_id'', JStr (ss_session_id s)), (''challenge'', JStr challenge),
                                             (''expires_in'', JInt (fg_challenge_ttl c))]),
                                put_session (s'\<lparr>ss_state := KEY_SUBMITTED\<rparr>) c)))))"

definition register_pop :: "'sk platform \<Rightarrow> (nat \<Rightarrow> time) \<Rightarrow> string \<Rightarrow> string \<Rightarrow> 'sk fog \<Rightarrow> reply \<times> 'sk fog" where
  "register_pop P now session_id signature c0 =
     (case session_or_404 (now 0) session_id c0 of
        (Inl r, c) \<Rightarrow> (r, c)
      | (Inr s, c) \<Rightarrow>
          (case require_state s KEY_SUBMITTED of
             Some r \<Rightarrow> (r, c)
           | None \<Rightarrow>
               (case verify_pop P (now 1) signature s of
                  (Inl e, s') \<Rightarrow> (Server_error e, put_session s' c)
                | (Inr (False, reason), s') \<Rightarrow>
                    (Http_error 403 (JStr (''proof of possession failed: '' @ reason)),
                     put_session (s'\<lparr>ss_state := AUTHENTICATED\<rparr>) c)
                | (Inr (True, _), s') \<Rightarrow>
                    let s'' = s'\<lparr>ss_state := POP_VERIFIED, ss_timings := dict_set ''pop_verified_at'' (now 2) (ss_timings s')\<rparr>;
                        c' = put_session s'' c
                    in (case (ss_did s'', ss_public_key s'') of
                          (Some did, Some public_key) \<Rightarrow>
                            (Reply (JObj [(''session_id'', JStr (ss_session_id s'')), (''did'', JStr did),
                                          (''status'', JStr (state_text POP_VERIFIED))]),
                             put_device (new_device did public_key PENDING) c')
                        | _ \<Rightarrow> (Server_error ValueError, c')))))"

definition with_metadata :: "metadata_request \<Rightarrow> device_record \<Rightarrow> device_record" where
  "with_metadata body record =
     record\<lparr>dr_device_name := Some (md_device_name body), dr_device_type := Some (md_device_type body),
            dr_zone := Some (md_zone body), dr_vendor := Some (md_vendor body), dr_role := Some (md_role body)\<rparr>"

definition session_record :: "session \<Rightarrow> device_store \<Rightarrow> device_record option" where
  "session_record s devices = (case ss_did s of None \<Rightarrow> None | Some did \<Rightarrow> device_get devices did)"

definition register_metadata :: "(nat \<Rightarrow> time) \<Rightarrow> metadata_request \<Rightarrow> 'sk fog \<Rightarrow> reply \<times> 'sk fog" where
  "register_metadata now body c0 =
     (case session_or_404 (now 0) (md_session_id body) c0 of
        (Inl r, c) \<Rightarrow> (r, c)
      | (Inr s, c) \<Rightarrow>
          (case require_state s POP_VERIFIED of
             Some r \<Rightarrow> (r, c)
           | None \<Rightarrow>
               let errors = validate_metadata body (fg_zone c) (fg_allowed_types c)
               in if errors \<noteq> []
                  then (Http_error 422 (JObj [(''metadata_errors'', JArr (map JStr errors))]), c)
                  else case session_record s (fg_devices c) of
                    None \<Rightarrow> (Server_error AttributeError, c)
                  | Some record \<Rightarrow>
                      let record' = with_metadata body record;
                          c1 = put_device record' c
                      in (case (case ss_public_key s of None \<Rightarrow> Inl TypeError | Some pk_hex \<Rightarrow> from_hex pk_hex) of
                            Inl e \<Rightarrow> (Server_error e, c1)
                          | Inr pk_bytes \<Rightarrow>
                              (case add_leaf (now 1) (the (ss_did s)) pk_bytes (fg_epochs c1) of
                                 (Inl (EpochError msg), E) \<Rightarrow> (Http_error 409 (JStr msg), c1\<lparr>fg_epochs := E\<rparr>)
                               | (Inl e, E) \<Rightarrow> (Server_error e, c1\<lparr>fg_epochs := E\<rparr>)
                               | (Inr leaf_hex, E) \<Rightarrow>
                                   let c2 = put_session (s\<lparr>ss_state := METADATA_ACCEPTED\<rparr>)
                                              (put_device (record'\<lparr>dr_leaf := Some leaf_hex\<rparr>) (c1\<lparr>fg_epochs := E\<rparr>))
                                   in (Reply (JObj [(''did'', JStr (the (ss_did s))), (''leaf'', JStr leaf_hex),
                                                    (''epoch_id'', JInt (em_current_epoch_id E)),
                                                    (''batch_size'', JInt (int (batch_size E))),
                                                    (''status'', JStr ''QUEUED_FOR_BATCH'')]), c2)))))"

end
