(* ===== verification/Epoch_Routes.thy ===== *)
theory Epoch_Routes
  imports Fog
begin

text \<open>
  fog/batch/routes.py and fog/revocation/routes.py: the epoch, proof and registry endpoints, and the
  two revocation endpoints. The durations that \<open>/epoch/close\<close> reports are an argument.
\<close>

section \<open>Epochs, proofs and the registry\<close>

definition epoch_current :: "'sk fog \<Rightarrow> reply \<times> 'sk fog" where
  "epoch_current c =
     (case latest_epoch (fg_ledger c) of
        Inl e \<Rightarrow> (Server_error e, c)
      | Inr latest \<Rightarrow>
          (Reply (JObj [(''epoch_id'', JInt (em_current_epoch_id (fg_epochs c))),
             (''batch_size'', JInt (int (batch_size (fg_epochs c)))),
             (''queued_dids'', JArr (map JStr (pending_dids (fg_epochs c)))),
             (''latest_anchored_epoch'', case latest of None \<Rightarrow> JNull | Some v \<Rightarrow> v)]), c))"

definition close_reply :: "json \<Rightarrow> epoch_result \<Rightarrow> json" where
  "close_reply timings r =
     JObj [(''epoch_id'', JInt (er_epoch_id r)), (''root'', JStr (er_root r)),
       (''leaf_count'', JInt (int (length (er_sorted_leaves r)))),
       (''new_devices'', JInt (int (er_new_devices r))), (''carried_forward'', JInt (int (er_carried_forward r))),
       (''excluded'', JArr (map JStr (er_excluded r))),
       (''sorted_leaves'', JArr (map (\<lambda>(i, leaf, did). JObj [(''index'', JInt (int i)), (''leaf'', JStr leaf), (''did'', JStr did)])
          (er_sorted_leaves r))),
       (''block'', JObj (er_block r)), (''timings_ms'', timings)]"

definition epoch_close ::
    "'sk platform \<Rightarrow> string \<Rightarrow> nat \<Rightarrow> (bytes \<Rightarrow> nat) \<Rightarrow> json \<Rightarrow> string list option \<Rightarrow> string option \<Rightarrow> 'sk fog \<Rightarrow> reply \<times> 'sk fog" where
  "epoch_close P timestamp n rnd timings exclude_dids x_admin_key c =
     (if \<not> admin_ok c x_admin_key then (Http_error 401 (JStr ''admin key required''), c)
      else case finalize_epoch P timestamp n rnd (case exclude_dids of None \<Rightarrow> [] | Some ds \<Rightarrow> ds)
                  (fg_epochs c) (fg_devices c) (fg_ledger c) of
        (result, E, D, L) \<Rightarrow>
          (case result of
             Inl (EpochError msg) \<Rightarrow> Http_error 409 (JStr msg)
           | Inl e \<Rightarrow> Server_error e
           | Inr r \<Rightarrow> Reply (close_reply timings r),
           c\<lparr>fg_epochs := E, fg_devices := D, fg_ledger := L\<rparr>))"

definition route_get_proof :: "string \<Rightarrow> int option \<Rightarrow> 'sk fog \<Rightarrow> reply \<times> 'sk fog" where
  "route_get_proof did epoch_id c =
     (case device_get (fg_devices c) did of
        None \<Rightarrow> (Http_error 404 (JStr ''unknown DID''), c)
      | Some rec \<Rightarrow>
          if dr_status rec = REVOKED then (Http_error 403 (JStr ''device is revoked; no proof issued''), c)
          else case get_package (fg_epochs c) did epoch_id of
            None \<Rightarrow> (Http_error 404 (JStr ''no proof yet: device is waiting for the epoch to close''), c)
          | Some pkg \<Rightarrow> (Reply (JObj (dump_package pkg)), c))"

text \<open>\<open>block.root\<close> of a block whose root is no text is the \<open>ValidationError\<close> of its schema.\<close>

definition registry_root :: "int \<Rightarrow> 'sk fog \<Rightarrow> reply \<times> 'sk fog" where
  "registry_root epoch_id c =
     (case get_block (fg_ledger c) epoch_id of
        Inl e \<Rightarrow> (Server_error e, c)
      | Inr None \<Rightarrow> (Http_error 404 (JStr (''epoch '' @ str_int epoch_id @ '' not anchored'')), c)
      | Inr (Some b) \<Rightarrow>
          (case str_field b ''root'' of
             Inl e \<Rightarrow> (Server_error e, c)
           | Inr rt \<Rightarrow> (Reply (JObj [(''epoch_id'', JInt epoch_id), (''root'', JStr rt), (''block'', JObj b)]), c)))"

text \<open>The second component of what \<open>verify_chain\<close> returns.\<close>

definition verdict_text :: "'sk platform \<Rightarrow> chain_verdict \<Rightarrow> string" where
  "verdict_text P v =
     (let block = (\<lambda>i. ''block '' @ str_int (int i) @ '': '')
      in case v of
           Chain_valid n \<Rightarrow> ''chain valid ('' @ str_int (int n) @ '' blocks)''
         | Missing_field i k \<Rightarrow> block i @ ''missing field '' @ [CHR 0x27] @ k @ [CHR 0x27]
         | Wrong_index i w \<Rightarrow> block i @ ''wrong index '' @ py_str P w
         | Broken_link i \<Rightarrow> block i @ ''prev_hash does not link to block '' @ str_int (int i - 1)
         | Bad_signature i \<Rightarrow> block i @ ''fog signature invalid (contents were modified)''
         | Hash_mismatch i \<Rightarrow> block i @ ''block_hash mismatch'')"

definition registry_verify :: "'sk platform \<Rightarrow> 'sk fog \<Rightarrow> reply \<times> 'sk fog" where
  "registry_verify P c =
     (case verify_chain P None (fg_ledger c) of
        Inl e \<Rightarrow> (Server_error e, c)
      | Inr v \<Rightarrow> (Reply (JObj [(''valid'', JBool (verdict_ok v)), (''message'', JStr (verdict_text P v)),
                              (''blocks'', JInt (int (ledger_len (fg_ledger c))))]), c))"

section \<open>Revocation\<close>

definition revoke_reply :: "string \<Rightarrow> string \<Rightarrow> string list \<Rightarrow> json" where
  "revoke_reply did status tokens =
     JObj [(''did'', JStr did), (''status'', JStr status), (''revoked_tokens'', JArr (map JStr tokens))]"

definition revoke :: "string \<Rightarrow> string option \<Rightarrow> bool \<Rightarrow> string option \<Rightarrow> 'sk fog \<Rightarrow> reply \<times> 'sk fog" where
  "revoke did token_id token_only x_admin_key c =
     (if \<not> admin_ok c x_admin_key then (Http_error 401 (JStr ''admin key required''), c)
      else if token_only then
        (case token_id of
           None \<Rightarrow> (Http_error 422 (JStr ''token_only requires token_id''), c)
         | Some tid \<Rightarrow>
             if tid = [] then (Http_error 422 (JStr ''token_only requires token_id''), c)
             else if owner_of (fg_token_state c) tid \<noteq> Some did
             then (Http_error 404 (JStr ''unknown token_id for this DID''), c)
             else case revoke_token tid (fg_token_state c) of
               (False, ts) \<Rightarrow> (Http_error 404 (JStr ''unknown token_id for this DID''), c\<lparr>fg_token_state := ts\<rparr>)
             | (True, ts) \<Rightarrow>
                 (case device_get (fg_devices c) did of
                    None \<Rightarrow> (Server_error AttributeError, c\<lparr>fg_token_state := ts\<rparr>)
                  | Some d \<Rightarrow> (Reply (revoke_reply did (status_text (dr_status d)) [tid]), c\<lparr>fg_token_state := ts\<rparr>)))
      else case revoke_device did (fg_devices c, fg_token_state c) of
        (known, D, ts) \<Rightarrow>
          if \<not> known then (Http_error 404 (JStr ''unknown DID''), c\<lparr>fg_devices := D, fg_token_state := ts\<rparr>)
          else
            let ts' = (case token_id of None \<Rightarrow> ts | Some tid \<Rightarrow> if tid = [] then ts else token_revoke tid ts);
                revoked = filter (is_revoked ts') (tokens_of ts' did)
            in (Reply (revoke_reply did ''REVOKED'' revoked), c\<lparr>fg_devices := D, fg_token_state := ts'\<rparr>))"

definition revocation_status :: "string \<Rightarrow> 'sk fog \<Rightarrow> reply \<times> 'sk fog" where
  "revocation_status did c =
     (case device_get (fg_devices c) did of
        None \<Rightarrow> (Http_error 404 (JStr ''unknown DID''), c)
      | Some record \<Rightarrow>
          let tokens = tokens_of (fg_token_state c) did
          in (Reply (JObj [(''did'', JStr did), (''status'', JStr (status_text (dr_status record))),
                (''revoked'', JBool (is_device_revoked (fg_devices c) did)),
                (''last_epoch'', opt_int (dr_epoch_id record)),
                (''in_latest_active_set'', JBool (did \<in> em_active_dids (fg_epochs c))),
                (''tokens'', JObj (map (\<lambda>t. (t, JStr (if is_revoked (fg_token_state c) t then ''REVOKED'' else ''active''))) tokens))]), c))"

end
