(* ===== verification/Token_Routes.thy ===== *)
theory Token_Routes
  imports Fog
begin

text \<open>
  fog/tokens/routes.py: issuing a provisional token, a nonce, and the check of a provisional request in
  seven steps. The token in the body of a request is any JSON object, so a field of it may be missing
  or of another type.
\<close>

definition tokens_issue :: "'sk platform \<Rightarrow> (nat \<Rightarrow> time) \<Rightarrow> bytes \<Rightarrow> nat \<Rightarrow> string \<Rightarrow> 'sk fog \<Rightarrow> reply \<times> 'sk fog" where
  "tokens_issue P now rnd n session_id c0 =
     (case session_get (now 0) session_id (fg_sessions c0) of
        (None, st) \<Rightarrow> (Http_error 404 (JStr ''unknown or expired session''), c0\<lparr>fg_sessions := st\<rparr>)
      | (Some session, st) \<Rightarrow>
          let c = c0\<lparr>fg_sessions := st\<rparr>
          in if ss_state session \<noteq> METADATA_ACCEPTED
             then (Http_error 409 (JStr (''token requires proof of possession AND a queued leaf (session is '' @
                     state_text (ss_state session) @ '', expected '' @ state_text METADATA_ACCEPTED @ '')'')), c)
             else case (case ss_did session of None \<Rightarrow> None | Some did \<Rightarrow> device_get (fg_devices c) did) of
               None \<Rightarrow> (Http_error 404 (JStr ''unknown device''), c)
             | Some record \<Rightarrow>
                 if dr_status record = REVOKED then (Http_error 403 (JStr ''device is revoked''), c)
                 else if dr_status record = REGISTERED
                 then (Http_error 409 (JStr ''device already has an inclusion proof; use /verify''), c)
                 else if \<not> role_valid_for_type (dr_device_type record) (dr_role record)
                 then (Http_error 403 (JStr ''registered role does not match device type''), c)
                 else
                   let epoch_id = em_current_epoch_id (fg_epochs c);
                       token = issue_token P rnd n (now 1) (dr_did record) (dr_public_key record) (dr_device_type record)
                                 (dr_role record) (fg_signing_key c) token_ttl_seconds (Some epoch_id)
                   in (Reply (JObj token),
                       c\<lparr>fg_token_state := record_issued (to_hex rnd) (dr_did record) (fg_token_state c),
                         fg_devices := set_status (dr_did record) TOKENIZED (fg_devices c)\<rparr>))"

definition tokens_nonce :: "(nat \<Rightarrow> time) \<Rightarrow> bytes \<Rightarrow> string \<Rightarrow> 'sk fog \<Rightarrow> reply \<times> 'sk fog" where
  "tokens_nonce now rnd token_id c =
     (if \<not> was_issued (fg_token_state c) token_id then (Http_error 404 (JStr ''unknown token_id''), c)
      else case nonce_issue rnd (now 0) token_nonce_purpose token_id (tk_nonces (fg_token_state c)) of
        (nonce, b) \<Rightarrow>
          (Reply (JObj [(''token_id'', JStr token_id), (''nonce'', JStr nonce), (''expires_in'', JInt (nb_ttl b))]),
           put_nonces b c))"

definition token_deny :: "string \<Rightarrow> string \<Rightarrow> json" where
  "token_deny reason detected_by =
     JObj [(''decision'', JStr ''DENY''), (''reason'', JStr reason), (''detected_by'', JStr detected_by)]"

definition token_allow :: json where
  "token_allow = JObj [(''decision'', JStr ''ALLOW''), (''reason'', JStr ''ok''), (''access'', JStr ''provisional'')]"

text \<open>A JSON value used as a key of a set or dictionary of texts: a list or an object is a \<open>TypeError\<close>.\<close>

fun hashable :: "(string \<Rightarrow> bool) \<Rightarrow> json \<Rightarrow> bool res" where
  "hashable f (JStr s) = Inr (f s)"
| "hashable f (JArr _) = Inl TypeError"
| "hashable f (JObj _) = Inl TypeError"
| "hashable f _ = Inr False"

text \<open>The revocation check: the second operand of \<open>or\<close> is evaluated when the first is false.\<close>

definition token_or_device_revoked :: "'sk fog \<Rightarrow> json \<Rightarrow> json \<Rightarrow> bool res" where
  "token_or_device_revoked c tid did =
     (case hashable (is_revoked (fg_token_state c)) tid of
        Inl e \<Rightarrow> Inl e
      | Inr True \<Rightarrow> Inr True
      | Inr False \<Rightarrow> hashable (is_device_revoked (fg_devices c)) did)"

text \<open>Steps 4 to 7 of \<open>tokens_access\<close>, after the nonce is consumed.\<close>

definition provisional_decision ::
    "'sk platform \<Rightarrow> token \<Rightarrow> json \<Rightarrow> json \<Rightarrow> string \<Rightarrow> string \<Rightarrow> string \<Rightarrow> string \<Rightarrow> 'sk fog \<Rightarrow> reply" where
  "provisional_decision P token tid did nonce resource operation signature c =
     (case token_or_device_revoked c tid did of
        Inl e \<Rightarrow> Server_error e
      | Inr True \<Rightarrow> Reply (token_deny ''revoked'' ''revocation checker'')
      | Inr False \<Rightarrow>
          if \<not> access_signature_valid P token nonce resource operation signature
          then Reply (token_deny ''proof_of_possession_failed'' ''proof of possession check'')
          else case json_item (JObj token) ''device_type'' of
            Inl e \<Rightarrow> Server_error e
          | Inr own_type \<Rightarrow>
              if \<not> (case own_type of JStr t \<Rightarrow> provisional_allowed t resource operation | _ \<Rightarrow> False)
              then (case json_item (JObj token) ''allowed_operations'' of
                      Inl e \<Rightarrow> Server_error e
                    | Inr _ \<Rightarrow> Reply (token_deny ''provisional_scope'' ''provisional scope check''))
              else case json_item (JObj token) ''role'' of
                Inl e \<Rightarrow> Server_error e
              | Inr role \<Rightarrow>
                  (case hashable (check_policy resource operation) role of
                     Inl e \<Rightarrow> Server_error e
                   | Inr False \<Rightarrow> Reply (token_deny ''policy_denied'' ''access policy'')
                   | Inr True \<Rightarrow> Reply token_allow))"

definition tokens_access ::
    "'sk platform \<Rightarrow> (nat \<Rightarrow> time) \<Rightarrow> token \<Rightarrow> string \<Rightarrow> string \<Rightarrow> string \<Rightarrow> string \<Rightarrow> 'sk fog \<Rightarrow> reply \<times> 'sk fog" where
  "tokens_access P now token nonce resource operation signature c =
     (if \<not> token_signature_valid P token (fg_signing_key c)
      then (Reply (token_deny ''bad_token_signature'' ''token signature check''), c)
      else case (json_item (JObj token) ''token_id'', json_item (JObj token) ''did'') of
        (Inl e, _) \<Rightarrow> (Server_error e, c)
      | (_, Inl e) \<Rightarrow> (Server_error e, c)
      | (Inr tid, Inr did) \<Rightarrow>
          if token_expired P (now 0) token then (Reply (token_deny ''expired'' ''token expiry check''), c)
          else case nonce_consume (now 1) token_nonce_purpose tid nonce (tk_nonces (fg_token_state c)) of
            (status, b) \<Rightarrow>
              if status \<noteq> Nonce_ok
              then (Reply (token_deny (nonce_status_text status) ''nonce validator''), put_nonces b c)
              else (provisional_decision P token tid did nonce resource operation signature (put_nonces b c), put_nonces b c))"

end
