(* ===== verification/Verification.thy ===== *)
theory Verification
  imports Fog
begin

text \<open>
  fog/verification/routes.py: full access with a proof package, in six steps. The package in the body is
  any JSON object; every exception of its parser and verifier is caught and answered as a malformed
  package. The reason text of a malformed identity carries the text of the exception in the code,
  which is left out.
\<close>

definition verify_label :: string where "verify_label = ''IIOT_VERIFY_ACCESS_V1''"
definition verify_nonce_purpose :: string where "verify_nonce_purpose = ''verify_access''"

text \<open>\<open>epoch_text\<close> is \<open>str(epoch_id)\<close>.\<close>

definition verify_message :: "string \<Rightarrow> string \<Rightarrow> string \<Rightarrow> string \<Rightarrow> string \<Rightarrow> bytes" where
  "verify_message did epoch_text nonce resource operation =
     join_bytes (map encode_utf8 [verify_label, did, epoch_text, nonce, resource, operation])"

definition sign_verify_request ::
    "'sk platform \<Rightarrow> nat \<Rightarrow> 'sk \<Rightarrow> (string, json) dict \<Rightarrow> string \<Rightarrow> string \<Rightarrow> string \<Rightarrow> string res" where
  "sign_verify_request P n device_private_key pkg nonce resource operation =
     (case (token_text pkg ''did'', json_item (JObj pkg) ''epoch_id'') of
        (Inr did, Inr epoch_id) \<Rightarrow>
          Inr (to_hex (sign P device_private_key n (verify_message did (py_str P epoch_id) nonce resource operation)))
      | (Inl e, _) \<Rightarrow> Inl e
      | (_, Inl e) \<Rightarrow> Inl e)"

definition verify_deny :: "string \<Rightarrow> string \<Rightarrow> bool \<Rightarrow> json \<Rightarrow> json" where
  "verify_deny reason detected_by identity_verified epoch_id =
     JObj [(''decision'', JStr ''DENY''), (''reason'', JStr reason), (''detected_by'', JStr detected_by),
           (''identity_verified'', JBool identity_verified), (''epoch_id'', epoch_id)]"

definition verify_allow :: "json \<Rightarrow> string \<Rightarrow> json" where
  "verify_allow epoch_id role =
     JObj [(''decision'', JStr ''ALLOW''), (''reason'', JStr ''ok''), (''identity_verified'', JBool True),
           (''epoch_id'', epoch_id), (''role'', JStr role)]"

definition verify_nonce :: "(nat \<Rightarrow> time) \<Rightarrow> bytes \<Rightarrow> string \<Rightarrow> 'sk fog \<Rightarrow> reply \<times> 'sk fog" where
  "verify_nonce now rnd did c =
     (if \<not> device_exists (fg_devices c) did then (Http_error 404 (JStr ''unknown DID''), c)
      else case nonce_issue rnd (now 0) verify_nonce_purpose did (tk_nonces (fg_token_state c)) of
        (nonce, b) \<Rightarrow>
          (Reply (JObj [(''did'', JStr did), (''nonce'', JStr nonce), (''expires_in'', JInt (nb_ttl b))]), put_nonces b c))"

text \<open>\<open>ledger.get_root(epoch_id) if isinstance(epoch_id, int) else None\<close>; a Python \<open>bool\<close> is an \<open>int\<close>.\<close>

fun trusted_root_of :: "'sk ledger \<Rightarrow> json \<Rightarrow> string option" where
  "trusted_root_of L (JInt e) = get_root L e"
| "trusted_root_of L (JBool b) = get_root L (if b then 1 else 0)"
| "trusted_root_of L _ = None"

fun reason_text :: "reason \<Rightarrow> string" where
  "reason_text Malformed_identity = ''malformed identity''"
| "reason_text Leaf_mismatch = ''claimed leaf does not equal H(DID || PK)''"
| "reason_text (No_anchored_root e) = ''no anchored root for epoch '' @ str_int e"
| "reason_text Malformed_path = ''malformed proof path''"
| "reason_text Root_mismatch = ''reconstructed root does not match anchored root''"
| "reason_text Bad_fog_signature = ''fog signature on proof package is invalid''"
| "reason_text Membership_proven = ''membership proven for this epoch''"

text \<open>Steps 4 to 6: the current status, the role and the policy.\<close>

definition current_decision :: "string \<Rightarrow> json \<Rightarrow> string \<Rightarrow> string \<Rightarrow> device_store \<Rightarrow> json" where
  "current_decision did epoch_id resource operation devices =
     (case device_get devices did of
        None \<Rightarrow> verify_deny ''unknown_device'' ''device status check'' True epoch_id
      | Some record \<Rightarrow>
          if dr_status record = REVOKED then verify_deny ''device_revoked'' ''revocation checker'' True epoch_id
          else if dr_status record \<noteq> REGISTERED
          then verify_deny ''not_registered'' ''device status check'' True epoch_id
          else if \<not> role_valid_for_type (dr_device_type record) (dr_role record)
          then verify_deny ''role_type_mismatch'' ''access policy'' True epoch_id
          else if \<not> check_policy resource operation (the (dr_role record))
          then verify_deny ''policy_denied'' ''access policy'' True epoch_id
          else verify_allow epoch_id (the (dr_role record)))"

text \<open>Step 3: the proof of possession for this request; then steps 4 to 6.\<close>

definition possession_decision ::
    "'sk platform \<Rightarrow> (string, json) dict \<Rightarrow> json \<Rightarrow> json \<Rightarrow> string \<Rightarrow> string \<Rightarrow> string \<Rightarrow> string \<Rightarrow> 'sk fog \<Rightarrow> reply" where
  "possession_decision P pkg did epoch_id nonce resource operation signature c =
     (let pk_bytes = (case (case json_item (JObj pkg) ''public_key'' of Inl e \<Rightarrow> Inl e | Inr v \<Rightarrow> json_as_bytes v) of
                        Inl _ \<Rightarrow> [] | Inr b \<Rightarrow> b);
          sig_bytes = (case from_hex signature of Inl _ \<Rightarrow> [] | Inr b \<Rightarrow> b)
      in case encode_field did of
           Inl e \<Rightarrow> Server_error e
         | Inr d \<Rightarrow>
             if \<not> verify P pk_bytes (verify_message d (py_str P epoch_id) nonce resource operation) sig_bytes
             then Reply (verify_deny ''proof_of_possession_failed'' ''proof of possession check'' True epoch_id)
             else Reply (current_decision d epoch_id resource operation (fg_devices c)))"

definition json_field :: "(string, json) dict \<Rightarrow> string \<Rightarrow> json" where
  "json_field d k = (case dict_get d k of None \<Rightarrow> JNull | Some v \<Rightarrow> v)"

definition verify_and_authorize ::
    "'sk platform \<Rightarrow> (nat \<Rightarrow> time) \<Rightarrow> (string, json) dict \<Rightarrow> string \<Rightarrow> string \<Rightarrow> string \<Rightarrow> string \<Rightarrow> 'sk fog \<Rightarrow> reply \<times> 'sk fog" where
  "verify_and_authorize P now pkg resource operation nonce signature c0 =
     (let did = json_field pkg ''did''; epoch_id = json_field pkg ''epoch_id''
      in case nonce_consume (now 0) verify_nonce_purpose (JStr (py_str P did)) nonce (tk_nonces (fg_token_state c0)) of
           (status, b) \<Rightarrow>
             let c = put_nonces b c0
             in if status \<noteq> Nonce_ok
                then (Reply (verify_deny (nonce_status_text status) ''nonce validator'' False epoch_id), c)
                else case (case parse_package P pkg of
                             Inl e \<Rightarrow> Inl e
                           | Inr p \<Rightarrow> verify_proof_package P p (trusted_root_of (fg_ledger c) epoch_id)
                                       (public_key_bytes P (fg_signing_key c))) of
                  Inl _ \<Rightarrow> (Reply (verify_deny ''malformed_proof_package'' ''proof package parser'' False epoch_id), c)
                | Inr result \<Rightarrow>
                    if \<not> vr_ok result
                    then (Reply (verify_deny (reason_text (vr_reason result)) (vr_detected_by result) False epoch_id), c)
                    else (possession_decision P pkg did epoch_id nonce resource operation signature c, c))"

end
