(* ===== verification/Fog_Invariant.thy ===== *)
theory Fog_Invariant
  imports Registration Epoch_Routes Token_Routes Verification
begin

text \<open>
  The invariant of the whole fog node, and that every handler keeps it. \<open>sessions_inv\<close>: a session past
  the first step has a DID derived from its key and a challenge, at most one such session exists per
  DID, a DID of a session waiting for its signature has no record yet, and one that passed it has a
  record with the same key. \<open>registry_inv\<close>: the blocks are typed, the cache of roots agrees with them,
  and the open epoch follows the last block. \<open>tokens_inv\<close>: every issued token belongs to a known device.
  The rest is the invariant of the epoch manager.
\<close>

section \<open>Sessions\<close>

definition onboarding :: "session \<Rightarrow> bool" where
  "onboarding s \<longleftrightarrow> AUTHENTICATED < ss_state s"

definition own_record :: "device_store \<Rightarrow> session \<Rightarrow> device_record \<Rightarrow> bool" where
  "own_record D s rec \<longleftrightarrow> dict_get D (the (ss_did s)) = Some rec \<and> ss_public_key s = Some (dr_public_key rec)"

definition session_ok :: "device_store \<Rightarrow> string set \<Rightarrow> session \<Rightarrow> bool" where
  "session_ok D queued s \<longleftrightarrow>
     (onboarding s \<longrightarrow> key_submitted_ok s) \<and>
     (case ss_state s of
        AUTHENTICATED \<Rightarrow> True
      | KEY_SUBMITTED \<Rightarrow> the (ss_did s) \<notin> dict_dom D
      | POP_VERIFIED \<Rightarrow> the (ss_did s) \<notin> queued \<and> (\<exists>rec. own_record D s rec \<and> dr_status rec \<in> {PENDING, REVOKED})
      | METADATA_ACCEPTED \<Rightarrow> (\<exists>rec. own_record D s rec))"

definition sessions_inv :: "device_store \<Rightarrow> string set \<Rightarrow> session_store \<Rightarrow> bool" where
  "sessions_inv D queued st \<longleftrightarrow> sessions_ok st \<and>
     (\<forall>k s. dict_get (st_sessions st) k = Some s \<longrightarrow> session_ok D queued s) \<and>
     (\<forall>k s k' s'. dict_get (st_sessions st) k = Some s \<longrightarrow> dict_get (st_sessions st) k' = Some s' \<longrightarrow>
        onboarding s \<longrightarrow> onboarding s' \<longrightarrow> ss_did s = ss_did s' \<longrightarrow> k = k')"

lemma onboarding_iff: "onboarding s \<longleftrightarrow> ss_state s \<noteq> AUTHENTICATED"
  by (cases "ss_state s") (simp_all add: onboarding_def less_session_state_def)

lemma onboarding_did: "session_ok D q s \<Longrightarrow> onboarding s \<Longrightarrow> \<exists>did. ss_did s = Some did"
  by (auto simp: session_ok_def key_submitted_ok_def)

lemma sessions_invD:
  assumes "sessions_inv D q st" "dict_get (st_sessions st) k = Some s"
  shows "session_ok D q s" "ss_session_id s = k"
    "dict_get (st_sessions st) k' = Some s' \<Longrightarrow> onboarding s \<Longrightarrow> onboarding s' \<Longrightarrow> ss_did s = ss_did s' \<Longrightarrow> k = k'"
  using assms sessions_ok_get unfolding sessions_inv_def by blast+

lemma sessions_inv_sub:
  assumes "sessions_inv D q st" "sessions_ok st'"
    and "\<And>k s. dict_get (st_sessions st') k = Some s \<Longrightarrow> dict_get (st_sessions st) k = Some s"
  shows "sessions_inv D q st'"
  using assms unfolding sessions_inv_def by blast

lemma sessions_inv_get:
  assumes "sessions_inv D q st" "session_get now k st = (r, st')"
  shows "sessions_inv D q st'"
proof (rule sessions_inv_sub [OF assms(1)])
  show "sessions_ok st'" using assms sessions_ok_lookup by (auto simp: sessions_inv_def)
  show "dict_get (st_sessions st) j = Some s" if "dict_get (st_sessions st') j = Some s" for j s
    using that assms(2) by (auto simp: session_get_def AList.delete_conv' split: option.splits if_splits)
qed

lemma sessions_inv_put:
  assumes inv: "sessions_inv D q st" and ok: "session_ok D q s'"
    and unique: "\<And>k s. dict_get (st_sessions st) k = Some s \<Longrightarrow> onboarding s' \<Longrightarrow> onboarding s \<Longrightarrow>
      ss_did s = ss_did s' \<Longrightarrow> k = ss_session_id s'"
  shows "sessions_inv D q (session_put s' st)"
proof -
  have "dict_get (st_sessions (session_put s' st)) k = (if k = ss_session_id s' then Some s' else dict_get (st_sessions st) k)" for k
    by (simp add: session_put_def dict_simps)
  then show ?thesis
    using inv ok unique sessions_ok_put [of st s'] unfolding sessions_inv_def by (metis option.inject)
qed

text \<open>The session keeps its DID, or falls back to the first state; the records and the batch may change.\<close>

lemma sessions_inv_replace:
  assumes inv: "sessions_inv D q st" and s: "dict_get (st_sessions st) k = Some s"
    and id: "ss_session_id s' = k" and same: "onboarding s' \<Longrightarrow> onboarding s \<and> ss_did s' = ss_did s"
    and ok: "session_ok D' q' s'"
    and others: "\<And>j t. dict_get (st_sessions st) j = Some t \<Longrightarrow> j \<noteq> k \<Longrightarrow> session_ok D' q' t"
  shows "sessions_inv D' q' (session_put s' st)"
proof -
  have get: "dict_get (st_sessions (session_put s' st)) j = (if j = k then Some s' else dict_get (st_sessions st) j)" for j
    using id by (simp add: session_put_def dict_simps)
  have uniq: "i = j" if "dict_get (st_sessions st) i = Some t" "dict_get (st_sessions st) j = Some u"
      "onboarding t" "onboarding u" "ss_did t = ss_did u" for i j t u
    using inv that unfolding sessions_inv_def by blast
  have "i = j" if "(if i = k then Some s' else dict_get (st_sessions st) i) = Some t"
      "(if j = k then Some s' else dict_get (st_sessions st) j) = Some u"
      "onboarding t" "onboarding u" "ss_did t = ss_did u" for i j t u
    using that uniq [of i t j u] uniq [OF s, of j u] uniq [OF s, of i t] same by (auto split: if_splits)
  then show ?thesis
    using inv sessions_ok_put [of st s'] ok others unfolding sessions_inv_def get by (metis option.inject)
qed

lemma sessions_inv_advance:
  assumes "sessions_inv D q st" "dict_get (st_sessions st) k = Some s" "session_ok D q s'" "ss_session_id s' = k"
    and "onboarding s' \<Longrightarrow> onboarding s \<and> ss_did s' = ss_did s"
  shows "sessions_inv D q (session_put s' st)"
  by (rule sessions_inv_replace [OF assms(1,2,4)]) (use assms sessions_invD(1) [OF assms(1)] in auto)

lemma sessions_inv_create:
  assumes "sessions_inv D q st" "session_create rnd now p st = (s, st')"
  shows "sessions_inv D q st'"
proof -
  have "st' = session_put s st" "ss_state s = AUTHENTICATED"
    using assms(2) by (auto simp: session_create_def session_put_def new_session_def Let_def)
  then show ?thesis
    using assms(1) by (auto simp: session_ok_def onboarding_iff intro!: sessions_inv_put)
qed

lemma sessions_inv_world:
  assumes "sessions_inv D q st"
    and "\<And>k s. dict_get (st_sessions st) k = Some s \<Longrightarrow> session_ok D q s \<Longrightarrow> session_ok D' q' s"
  shows "sessions_inv D' q' st"
  using assms unfolding sessions_inv_def by blast

lemma did_in_use_iff:
  assumes "sessions_inv D q st"
  shows "did_in_use st did k \<longleftrightarrow> (\<exists>j s. dict_get (st_sessions st) j = Some s \<and> ss_did s = Some did \<and> onboarding s \<and> j \<noteq> k)"
proof -
  from assms have ok: "sessions_ok st" by (simp add: sessions_inv_def)
  then have "dict_get (st_sessions st) j = Some s \<longleftrightarrow> (j, s) \<in> set (st_sessions st)" for j s
    by (simp add: sessions_ok_def)
  moreover have "ss_session_id s = j" if "(j, s) \<in> set (st_sessions st)" for j s
    using that ok by (auto simp: sessions_ok_def)
  ultimately show ?thesis unfolding did_in_use_def list_ex_iff onboarding_iff by fastforce
qed

section \<open>The registry, the batch and the token state\<close>

definition registry_inv :: "'sk epoch_manager \<Rightarrow> 'sk ledger \<Rightarrow> bool" where
  "registry_inv E L \<longleftrightarrow>
     (\<forall>b\<in>set (lg_blocks L). \<exists>e rt. dict_get b ''epoch_id'' = Some (JInt e) \<and> dict_get b ''root'' = Some (JStr rt) \<and>
        get_root L e = Some rt) \<and>
     (\<exists>latest. latest_epoch L = Inr latest \<and> next_epoch latest = Inr (em_current_epoch_id E))"

definition tokens_inv :: "device_store \<Rightarrow> token_state \<Rightarrow> bool" where
  "tokens_inv D ts \<longleftrightarrow> nonces_ok (tk_nonces ts) \<and> dict_ok (tk_issued ts) \<and>
     (\<forall>t did. owner_of ts t = Some did \<longrightarrow> did \<in> dict_dom D)"

lemma registry_inv_anchor:
  assumes "registry_inv E L" "anchor_root P ts n (em_current_epoch_id E) rt c L = Inr (b, L')"
    and "em_current_epoch_id E' = em_current_epoch_id E + 1"
  shows "registry_inv E' L'"
proof -
  let ?e = "em_current_epoch_id E"
  from assms(2) obtain prev where b: "b = new_block P L n (new_body L ts ?e rt c prev)"
    and fresh: "get_root L ?e = None"
    and L': "lg_blocks L' = lg_blocks L @ [b]" "lg_cache L' = dict_set ?e rt (lg_cache L)"
    unfolding anchor_root_ok_iff by auto
  have "\<exists>e r. dict_get b' ''epoch_id'' = Some (JInt e) \<and> dict_get b' ''root'' = Some (JStr r) \<and> get_root L' e = Some r"
    if "b' \<in> set (lg_blocks L')" for b'
  proof (cases "b' = b")
    case True
    then show ?thesis by (auto simp: b new_block_get get_root_def L' dict_simps)
  next
    case False
    with that assms(1) L'(1) obtain e r where "dict_get b' ''epoch_id'' = Some (JInt e)"
      "dict_get b' ''root'' = Some (JStr r)" "get_root L e = Some r"
      unfolding registry_inv_def by auto
    with fresh show ?thesis by (auto simp: get_root_def L' dict_simps)
  qed
  moreover have "latest_epoch L' = Inr (Some (JInt ?e))"
    by (simp add: latest_epoch_def L' b new_block_get)
  ultimately show ?thesis using assms(3) by (simp add: registry_inv_def)
qed

lemma registry_inv_manager: "registry_inv E L \<Longrightarrow> em_current_epoch_id E' = em_current_epoch_id E \<Longrightarrow> registry_inv E' L"
  by (simp add: registry_inv_def)

text \<open>A record is written: it keeps the key, and a registered record holds its leaf.\<close>

lemma epochs_inv_put:
  assumes inv: "epochs_inv P E D L" and d: "device_ok d" "dr_status d = REGISTERED \<Longrightarrow> registered_ok d"
    and key: "\<And>rec. dict_get D (dr_did d) = Some rec \<Longrightarrow> dr_public_key rec = dr_public_key d"
  shows "epochs_inv P E (device_upsert d D) L"
proof -
  note i = epochs_invD [OF inv]
  have dok: "devices_ok D" using i(2) by (simp add: batch_ok_def)
  have get: "dict_get (device_upsert d D) k = (if k = dr_did d then Some d else dict_get D k)" for k
    by (simp add: device_upsert_def dict_simps)
  have "registered_ok rec" if r: "rec \<in> set (by_status (device_upsert d D) REGISTERED)" for rec
  proof -
    from r have rec: "dict_get (device_upsert d D) (dr_did rec) = Some rec" "dr_status rec = REGISTERED"
      using by_status_iff [OF devices_ok_upsert [OF dok]] by blast+
    show ?thesis
    proof (cases "dr_did rec = dr_did d")
      case True
      with rec d(2) show ?thesis by (simp add: get)
    next
      case False
      with rec have "rec \<in> set (by_status D REGISTERED)" using by_status_iff [OF dok] by (simp add: get)
      with i(2) show ?thesis by (simp add: batch_ok_def)
    qed
  qed
  then have "batch_ok E (device_upsert d D)"
    using i(2) devices_ok_upsert [OF dok] by (simp add: batch_ok_def)
  moreover have "backed (device_upsert d D) (em_pending E)"
    using i(3) key by (fastforce simp: backed_def get)
  moreover have "device_ok rec" if "dict_get (device_upsert d D) k = Some rec" for k rec
    using that i(4) d(1) by (auto simp: get split: if_splits)
  ultimately show ?thesis using inv unfolding epochs_inv_def by blast
qed

lemma set_status_upsert:
  "devices_ok D \<Longrightarrow> dict_get D did = Some rec \<Longrightarrow> set_status did s D = device_upsert (rec\<lparr>dr_status := s\<rparr>) D"
  using devices_ok_get by (auto simp: set_status_def device_upsert_def)

lemma device_ok_fields [simp]:
  "device_ok (rec\<lparr>dr_status := s\<rparr>) = device_ok rec" "device_ok (rec\<lparr>dr_leaf := l\<rparr>) = device_ok rec"
  "device_ok (with_metadata md rec) = device_ok rec"
  by (simp_all add: device_ok_def with_metadata_def)

lemma epochs_inv_status:
  assumes "epochs_inv P E D L" "s \<noteq> REGISTERED"
  shows "epochs_inv P E (set_status did s D) L"
proof (cases "dict_get D did")
  case None
  then show ?thesis using assms(1) by (simp add: set_status_def)
next
  case (Some rec)
  have dok: "devices_ok D" using epochs_invD(2) [OF assms(1)] by (simp add: batch_ok_def)
  show ?thesis
    unfolding set_status_upsert [OF dok Some]
    using Some assms(2) epochs_invD(4) [OF assms(1) Some] devices_ok_get [OF dok Some]
    by (intro epochs_inv_put [OF assms(1)]) auto
qed

lemma epochs_inv_queue:
  assumes inv: "epochs_inv P E D L" and rec: "dict_get D did = Some rec" "from_hex (dr_public_key rec) = Inr pk"
    and add: "add_leaf now did pk E = (Inr leaf_hex, E')"
  shows "epochs_inv P E' D L \<and> dict_dom (em_pending E') = insert did (dict_dom (em_pending E)) \<and>
    em_current_epoch_id E' = em_current_epoch_id E \<and> em_signing_key E' = em_signing_key E"
proof -
  note i = epochs_invD [OF inv]
  have dok: "devices_ok D" using i(2) by (simp add: batch_ok_def)
  from add obtain leaf where leaf: "leaf_hash did pk = Inr leaf"
    and E': "E' = E\<lparr>em_pending := dict_set did
        \<lparr>pe_did = did, pe_public_key = to_hex pk, pe_leaf = leaf, pe_queued_at = now\<rparr> (em_pending E)\<rparr>"
    by (auto simp: add_leaf_def Let_def split: if_splits sum.splits)
  from i(4) [OF rec(1)] rec devices_ok_get [OF dok rec(1)] have "did = derive_did pk" by (auto simp: device_ok_def)
  with leaf have entry: "entry_ok did \<lparr>pe_did = did, pe_public_key = to_hex pk, pe_leaf = leaf, pe_queued_at = now\<rparr>"
    by (simp add: entry_ok_def)
  then have "batch_ok E' D" using i(2) by (simp add: batch_ok_def E' members_ok_set)
  moreover have "backed D (em_pending E')" using backed_set [OF i(3) rec(1)] rec(2) by (simp add: E')
  ultimately show ?thesis
    using inv unfolding epochs_inv_def E' by (simp add: get_package_def)
qed

section \<open>The node\<close>

definition queued :: "'sk fog \<Rightarrow> string set" where
  "queued c = dict_dom (em_pending (fg_epochs c))"

definition fog_inv :: "'sk platform \<Rightarrow> 'sk fog \<Rightarrow> bool" where
  "fog_inv P c \<longleftrightarrow>
     sessions_inv (fg_devices c) (queued c) (fg_sessions c) \<and>
     epochs_inv P (fg_epochs c) (fg_devices c) (fg_ledger c) \<and>
     registry_inv (fg_epochs c) (fg_ledger c) \<and> em_signing_key (fg_epochs c) = fg_signing_key c \<and>
     lg_key (fg_ledger c) = fg_signing_key c \<and> tokens_inv (fg_devices c) (fg_token_state c)"

lemma fog_invD:
  assumes "fog_inv P c"
  shows "sessions_inv (fg_devices c) (queued c) (fg_sessions c)"
    "epochs_inv P (fg_epochs c) (fg_devices c) (fg_ledger c)"
    "registry_inv (fg_epochs c) (fg_ledger c)" "em_signing_key (fg_epochs c) = fg_signing_key c"
    "tokens_inv (fg_devices c) (fg_token_state c)" "devices_ok (fg_devices c)" "lg_key (fg_ledger c) = fg_signing_key c"
  using assms epochs_invD(2) [of P "fg_epochs c" "fg_devices c" "fg_ledger c"]
  unfolding fog_inv_def batch_ok_def by blast+

text \<open>What a handler is shown to do: it keeps the invariant, and it raises nothing unhandled.\<close>

definition raises :: "reply \<Rightarrow> bool" where
  "raises r \<longleftrightarrow> (\<exists>e. r = Server_error e)"

lemma raises_simps [simp]: "\<not> raises (Reply v)" "\<not> raises (Http_error n v)" "raises (Server_error e)"
  by (simp_all add: raises_def)

definition sound :: "'sk platform \<Rightarrow> reply \<times> 'sk fog \<Rightarrow> bool" where
  "sound P rc \<longleftrightarrow> \<not> raises (fst rc) \<and> fog_inv P (snd rc)"

lemma soundI [intro!]: "\<not> raises r \<Longrightarrow> fog_inv P c \<Longrightarrow> sound P (r, c)"
  by (simp add: sound_def)

lemma fog_inv_sessions:
  "fog_inv P c \<Longrightarrow> sessions_inv (fg_devices c) (queued c) st \<Longrightarrow> fog_inv P (c\<lparr>fg_sessions := st\<rparr>)"
  by (simp add: fog_inv_def queued_def)

lemma fog_inv_put_session:
  "fog_inv P c \<Longrightarrow> sessions_inv (fg_devices c) (queued c) (session_put s (fg_sessions c)) \<Longrightarrow> fog_inv P (put_session s c)"
  by (simp add: put_session_def fog_inv_sessions)

lemma fog_inv_put_nonces: "fog_inv P c \<Longrightarrow> nonces_ok b \<Longrightarrow> fog_inv P (put_nonces b c)"
  by (simp add: fog_inv_def queued_def tokens_inv_def owner_of_def)

lemma fog_inv_tokens:
  "fog_inv P c \<Longrightarrow> tokens_inv (fg_devices c) ts \<Longrightarrow> fog_inv P (c\<lparr>fg_token_state := ts\<rparr>)"
  by (simp add: fog_inv_def queued_def)

lemma tokens_inv_revoke: "tokens_inv D ts \<Longrightarrow> tokens_inv D (token_revoke t ts)"
  by (simp add: tokens_inv_def token_revoke_def owner_of_def)

lemma tokens_inv_mono: "tokens_inv D ts \<Longrightarrow> dict_dom D \<subseteq> dict_dom D' \<Longrightarrow> tokens_inv D' ts"
  unfolding tokens_inv_def by blast

lemma dict_dom_status [simp]: "dict_dom (set_status did s D) = dict_dom D"
  by (auto simp: dict_dom_iff device_get_status split: if_split_asm)

lemma dict_dom_upsert [simp]: "dict_dom (device_upsert d D) = insert (dr_did d) (dict_dom D)"
  by (simp add: device_upsert_def)

section \<open>Registration\<close>

lemma session_or_404_cases:
  assumes "fog_inv P c" "session_or_404 now k c = (r, c')"
  obtains n v where "r = Inl (Http_error n v)" "fog_inv P c'"
  | s where "r = Inr s" "c' = c" "dict_get (st_sessions (fg_sessions c)) k = Some s"
proof (cases "session_get now k (fg_sessions c)")
  case (Pair a st)
  from sessions_inv_get [OF fog_invD(1) [OF assms(1)] Pair] have "fog_inv P (c\<lparr>fg_sessions := st\<rparr>)"
    by (rule fog_inv_sessions [OF assms(1)])
  moreover have "c\<lparr>fg_sessions := fg_sessions c\<rparr> = c" by simp
  ultimately show thesis
    using Pair assms(2) [unfolded session_or_404_def Pair] that by (cases a) (auto simp: session_get_Some_iff)
qed

lemma register_start_inv:
  assumes "fog_inv P c"
  shows "fog_inv P (snd (register_start now rnd a c))"
proof -
  have "fog_inv P (c\<lparr>fg_sessions := st\<rparr>)" if "session_create rnd t p (fg_sessions c) = (s, st)" for t p s st
    using fog_inv_sessions [OF assms sessions_inv_create [OF fog_invD(1) [OF assms] that]] .
  then show ?thesis using assms by (auto simp: register_start_def split: option.splits sum.splits bool.splits prod.splits)
qed

lemma parse_public_key_ok:
  "parse_public_key P hex = Inr pk \<Longrightarrow> from_hex hex = Inr pk \<and> length pk = compressed_pk_len"
  by (auto simp: parse_public_key_def split: sum.splits if_splits)

lemma parse_public_key_error: "parse_public_key P hex = Inl e \<Longrightarrow> e = ValueError"
  by (auto simp: parse_public_key_def load_public_key_def dest: from_hex_error split: sum.splits if_splits)

lemma register_pubkey_sound:
  assumes "fog_inv P c"
  shows "sound P (register_pubkey P now rnd k did hex c)"
proof (cases "session_or_404 (now 0) k c")
  case (Pair r c1)
  from assms Pair show ?thesis
  proof (cases rule: session_or_404_cases)
    case (2 s)
    show ?thesis
    proof (cases "ss_state s = AUTHENTICATED \<and> (\<exists>pk. parse_public_key P hex = Inr pk \<and> did = derive_did pk) \<and>
        device_get (fg_devices c) did = None \<and> \<not> did_in_use (fg_sessions c) did (ss_session_id s)")
      case True
      then obtain pk where pk: "parse_public_key P hex = Inr pk" "did = derive_did pk" by blast
      let ?s = "s\<lparr>ss_did := Some did, ss_public_key := Some hex, ss_challenge := Some (to_hex rnd),
        ss_challenge_expires := now 1 + of_int (fg_challenge_ttl c), ss_challenge_used := False, ss_state := KEY_SUBMITTED\<rparr>"
      have k: "ss_session_id s = k" using sessions_invD(2) [OF fog_invD(1) [OF assms] 2(3)] .
      have "session_ok (fg_devices c) (queued c) ?s"
        using True pk parse_public_key_ok [OF pk(1)]
        by (auto simp: session_ok_def onboarding_iff key_submitted_ok_def dict_dom_iff device_get_def)
      then have "sessions_inv (fg_devices c) (queued c) (session_put ?s (fg_sessions c))"
        using True did_in_use_iff [OF fog_invD(1) [OF assms]] by (intro sessions_inv_put [OF fog_invD(1) [OF assms]]) auto
      from fog_inv_put_session [OF assms this] True pk 2 Pair show ?thesis
        by (auto simp: register_pubkey_def require_state_def issue_challenge_def Let_def)
    next
      case False
      with 2 Pair assms parse_public_key_error [of P hex] show ?thesis
        by (auto simp: register_pubkey_def require_state_def split: option.split sum.split)
    qed
  qed (use Pair in \<open>auto simp: register_pubkey_def\<close>)
qed

text \<open>Writing a record that keeps key and DID, or a new one.\<close>

lemma fog_inv_put_device:
  assumes inv: "fog_inv P c" and d: "device_ok d" "dr_status d = REGISTERED \<Longrightarrow> registered_ok d"
    and key: "\<And>rec. dict_get (fg_devices c) (dr_did d) = Some rec \<Longrightarrow> dr_public_key rec = dr_public_key d"
    and sess: "sessions_inv (device_upsert d (fg_devices c)) (queued c) (fg_sessions c)"
  shows "fog_inv P (put_device d c)"
proof -
  note i = fog_invD [OF inv]
  have "tokens_inv (device_upsert d (fg_devices c)) (fg_token_state c)"
    using i(5) by (rule tokens_inv_mono) auto
  with epochs_inv_put [OF i(2) d key] sess i show ?thesis by (simp add: fog_inv_def queued_def)
qed

lemma session_ok_other:
  assumes "session_ok D q s" "onboarding s \<Longrightarrow> ss_did s \<noteq> Some (dr_did d)" "q' \<subseteq> insert (dr_did d) q"
  shows "session_ok (device_upsert d D) q' s"
proof (cases "onboarding s")
  case True
  with onboarding_did [OF assms(1)] assms(2) obtain did where "ss_did s = Some did" "did \<noteq> dr_did d" by fastforce
  with assms(1,3) show ?thesis
    by (cases "ss_state s") (auto simp: session_ok_def own_record_def device_upsert_def dict_simps)
next
  case False
  with assms(1) show ?thesis by (auto simp: session_ok_def onboarding_iff split: session_state.split)
qed

lemma register_pop_sound:
  assumes inv: "fog_inv P c"
  shows "sound P (register_pop P now k sg c)"
proof (cases "session_or_404 (now 0) k c")
  case (Pair r c1)
  from inv Pair show ?thesis
  proof (cases rule: session_or_404_cases)
    case (2 s)
    note i = fog_invD [OF inv]
    show ?thesis
    proof (cases "ss_state s = KEY_SUBMITTED")
      case True
      obtain res s' where pop: "verify_pop P (now 1) sg s = (res, s')" by fastforce
      from sessions_invD(1,2) [OF i(1) 2(3)] have s: "session_ok (fg_devices c) (queued c) s" "ss_session_id s = k" by blast+
      then have key: "key_submitted_ok s" and absent: "the (ss_did s) \<notin> dict_dom (fg_devices c)"
        using True by (simp_all add: session_ok_def onboarding_iff)
      then obtain did hex pk where f: "ss_did s = Some did" "ss_public_key s = Some hex" "from_hex hex = Inr pk"
        "length pk = compressed_pk_len" "did = derive_did pk" "ss_challenge s \<noteq> None"
        unfolding key_submitted_ok_def by blast
      have s': "s' = s\<lparr>ss_challenge_used := True\<rparr>" using verify_pop_session [OF pop] f(6) by simp
      have key': "key_submitted_ok (s'\<lparr>ss_state := st, ss_timings := tm\<rparr>)" for st tm
        using key by (simp add: key_submitted_ok_def s')
      from verify_pop_no_raise [OF key, of P "now 1" sg] pop obtain b reason where res: "res = Inr (b, reason)"
        by (auto simp: is_ok_iff)
      show ?thesis
      proof (cases b)
        case False
        let ?s = "s'\<lparr>ss_state := AUTHENTICATED\<rparr>"
        have "session_ok (fg_devices c) (queued c) ?s" by (simp add: session_ok_def onboarding_iff)
        then have "sessions_inv (fg_devices c) (queued c) (session_put ?s (fg_sessions c))"
          using s(2) by (intro sessions_inv_advance [OF i(1) 2(3)]) (auto simp: s' onboarding_iff)
        from fog_inv_put_session [OF inv this] 2 Pair True pop res False show ?thesis
          by (auto simp: register_pop_def require_state_def)
      next
        case b: True
        let ?s = "s'\<lparr>ss_state := POP_VERIFIED, ss_timings := dict_set ''pop_verified_at'' (now 2) (ss_timings s')\<rparr>"
        let ?d = "new_device did hex PENDING"
        have not_queued: "did \<notin> queued c"
        proof
          assume "did \<in> queued c"
          then obtain e where "dict_get (em_pending (fg_epochs c)) did = Some e" by (auto simp: queued_def dict_dom_iff)
          with epochs_invD(3) [OF i(2)] absent f(1) show False unfolding backed_def dict_dom_iff by fastforce
        qed
        have ok: "session_ok (device_upsert ?d (fg_devices c)) (queued c) ?s"
          using f not_queued key'
          by (auto simp: session_ok_def onboarding_iff own_record_def device_upsert_def new_device_def s' dict_simps)
        have others: "session_ok (device_upsert ?d (fg_devices c)) (queued c) t"
          if "dict_get (st_sessions (fg_sessions c)) j = Some t" "j \<noteq> k" for j t
        proof (rule session_ok_other)
          show "session_ok (fg_devices c) (queued c) t" using sessions_invD(1) [OF i(1) that(1)] .
          show "ss_did t \<noteq> Some (dr_did ?d)" if "onboarding t"
            using sessions_invD(3) [OF i(1) \<open>dict_get _ j = Some t\<close> 2(3)] that f(1) True \<open>j \<noteq> k\<close>
            by (auto simp: onboarding_iff new_device_def)
        qed auto
        let ?st = "session_put ?s (fg_sessions c)"
        have sess: "sessions_inv (device_upsert ?d (fg_devices c)) (queued c) ?st"
          by (rule sessions_inv_replace [OF i(1) 2(3) _ _ ok others]) (auto simp: s' s(2) True onboarding_iff)
        have "device_ok ?d" using f by (simp add: device_ok_def new_device_def)
        then have "epochs_inv P (fg_epochs c) (device_upsert ?d (fg_devices c)) (fg_ledger c)"
          using absent f(1) by (intro epochs_inv_put [OF i(2)]) (auto simp: new_device_def dict_dom_iff)
        moreover have "tokens_inv (device_upsert ?d (fg_devices c)) (fg_token_state c)"
          using i(5) by (rule tokens_inv_mono) auto
        ultimately have "fog_inv P (put_device ?d (put_session ?s c))"
          using sess i(3,4,7) by (simp add: fog_inv_def queued_def)
        with 2 Pair True pop res b f show ?thesis
          by (auto simp: register_pop_def require_state_def s')
      qed
    qed (use 2 Pair inv in \<open>auto simp: register_pop_def require_state_def\<close>)
  qed (use Pair in \<open>auto simp: register_pop_def\<close>)
qed

lemma add_leaf_fresh:
  assumes "did \<notin> dict_dom (em_pending E)" "length pk = compressed_pk_len" "did = derive_did pk"
  obtains leaf_hex E' where "add_leaf now did pk E = (Inr leaf_hex, E')"
  using assms leaf_hash_derived [of pk] by (auto simp: add_leaf_def dict_dom_iff Let_def)

lemma register_metadata_sound:
  assumes inv: "fog_inv P c"
  shows "sound P (register_metadata now body c)"
proof (cases "session_or_404 (now 0) (md_session_id body) c")
  case (Pair r c1)
  from inv Pair show ?thesis
  proof (cases rule: session_or_404_cases)
    case (2 s)
    note i = fog_invD [OF inv]
    show ?thesis
    proof (cases "ss_state s = POP_VERIFIED \<and> validate_metadata body (fg_zone c) (fg_allowed_types c) = []")
      case True
      from sessions_invD(1,2) [OF i(1) 2(3)] have s: "session_ok (fg_devices c) (queued c) s" "ss_session_id s = md_session_id body" by blast+
      then have key: "key_submitted_ok s" and fresh: "the (ss_did s) \<notin> queued c"
        using True by (simp_all add: session_ok_def onboarding_iff)
      from s(1) True obtain rec where rec: "own_record (fg_devices c) s rec" "dr_status rec \<in> {PENDING, REVOKED}"
        by (auto simp: session_ok_def)
      from key rec(1) obtain did pk where f: "ss_did s = Some did" "ss_public_key s = Some (dr_public_key rec)"
        "from_hex (dr_public_key rec) = Inr pk" "length pk = compressed_pk_len" "did = derive_did pk"
        "dict_get (fg_devices c) did = Some rec"
        unfolding key_submitted_ok_def own_record_def by auto
      have did: "dr_did rec = did" using devices_ok_get [OF i(6) f(6)] .
      from add_leaf_fresh [of did "fg_epochs c" pk "now 1"] fresh f(1,4,5) obtain leaf E' where
        add: "add_leaf (now 1) did pk (fg_epochs c) = (Inr leaf, E')" by (auto simp: queued_def)
      let ?r1 = "with_metadata body rec" and ?r2 = "(with_metadata body rec)\<lparr>dr_leaf := Some leaf\<rparr>"
      let ?D1 = "device_upsert ?r1 (fg_devices c)" and ?D2 = "device_upsert ?r2 (device_upsert ?r1 (fg_devices c))"
      have r: "dr_did ?r1 = did" "dr_did ?r2 = did" "dr_public_key ?r1 = dr_public_key rec" "dr_public_key ?r2 = dr_public_key rec"
        "dr_status ?r1 = dr_status rec" "dr_status ?r2 = dr_status rec" "device_ok ?r1" "device_ok ?r2"
        using did epochs_invD(4) [OF i(2) f(6)] by (simp_all) (simp_all add: with_metadata_def)
      have e1: "epochs_inv P (fg_epochs c) ?D1 (fg_ledger c)"
        using r rec(2) f(6) by (intro epochs_inv_put [OF i(2)]) auto
      have get1: "dict_get ?D1 did = Some ?r1" using r by (simp add: device_upsert_def dict_simps)
      from epochs_inv_queue [OF e1 get1 _ add] r f(3) have
        e2: "epochs_inv P E' ?D1 (fg_ledger c)" and E': "dict_dom (em_pending E') = insert did (queued c)"
          "em_current_epoch_id E' = em_current_epoch_id (fg_epochs c)" "em_signing_key E' = em_signing_key (fg_epochs c)"
        by (simp_all add: queued_def)
      have e3: "epochs_inv P E' ?D2 (fg_ledger c)"
        using r rec(2) get1 by (intro epochs_inv_put [OF e2]) auto
      let ?s = "s\<lparr>ss_state := METADATA_ACCEPTED\<rparr>"
      have "own_record ?D2 ?s ?r2" using f(1,2) r by (simp add: own_record_def device_upsert_def dict_simps)
      then have ok: "session_ok ?D2 (dict_dom (em_pending E')) ?s"
        using key by (auto simp: session_ok_def onboarding_iff key_submitted_ok_def)
      have others: "session_ok ?D2 (dict_dom (em_pending E')) t"
        if t: "dict_get (st_sessions (fg_sessions c)) j = Some t" "j \<noteq> md_session_id body" for j t
      proof -
        have no: "ss_did t \<noteq> Some did" if "onboarding t"
          using sessions_invD(3) [OF i(1) t(1) 2(3)] that f(1) True t(2) by (auto simp: onboarding_iff)
        have "session_ok ?D1 (queued c) t"
          by (rule session_ok_other [OF sessions_invD(1) [OF i(1) t(1)]]) (use no r in auto)
        then show ?thesis by (rule session_ok_other) (use no r E' in auto)
      qed
      have "sessions_inv ?D2 (dict_dom (em_pending E')) (session_put ?s (fg_sessions c))"
        by (rule sessions_inv_replace [OF i(1) 2(3) _ _ ok others]) (auto simp: s(2) True onboarding_iff)
      moreover have "tokens_inv ?D2 (fg_token_state c)" using i(5) by (rule tokens_inv_mono) auto
      moreover have "registry_inv E' (fg_ledger c)" using i(3) E'(2) by (rule registry_inv_manager)
      ultimately have "fog_inv P (put_session ?s (put_device ?r2 ((put_device ?r1 c)\<lparr>fg_epochs := E'\<rparr>)))"
        using e3 i(4,7) E'(3) by (simp add: fog_inv_def queued_def put_session_def put_device_def)
      with 2 Pair True f add show ?thesis
        by (auto simp: register_metadata_def require_state_def session_record_def device_get_def Let_def put_device_def)
    qed (use 2 Pair inv in \<open>auto simp: register_metadata_def require_state_def Let_def\<close>)
  qed (use Pair in \<open>auto simp: register_metadata_def\<close>)
qed

section \<open>Tokens and revocation\<close>

lemma session_ok_status:
  assumes "session_ok D q t" "ss_state t = POP_VERIFIED \<Longrightarrow> ss_did t \<noteq> Some did \<or> s \<in> {PENDING, REVOKED}"
  shows "session_ok (set_status did s D) q t"
proof (cases "dict_get D (the (ss_did t))")
  case None
  with assms(1) show ?thesis
    by (cases "ss_state t") (auto simp: session_ok_def own_record_def)
next
  case (Some rec)
  let ?r = "if the (ss_did t) = did then rec\<lparr>dr_status := s\<rparr> else rec"
  have get: "dict_get (set_status did s D) (the (ss_did t)) = Some ?r" using Some by (auto simp: device_get_status)
  have own: "own_record (set_status did s D) t ?r \<longleftrightarrow> own_record D t rec" using Some get by (simp add: own_record_def)
  have only: "r = rec" if "own_record D t r" for r using that Some by (simp add: own_record_def)
  show ?thesis
  proof (cases "ss_state t = POP_VERIFIED")
    case True
    with assms(1) have "onboarding t" by (simp add: onboarding_iff)
    with onboarding_did [OF assms(1)] obtain d where "ss_did t = Some d" by blast
    with True assms own only show ?thesis
      by (auto simp: session_ok_def split: if_splits)
  next
    case False
    with assms(1) own only show ?thesis
      by (cases "ss_state t") (auto simp: session_ok_def)
  qed
qed

lemma fog_inv_status:
  assumes inv: "fog_inv P c" and s: "s \<noteq> REGISTERED"
    and sess: "\<And>k t. dict_get (st_sessions (fg_sessions c)) k = Some t \<Longrightarrow> ss_state t = POP_VERIFIED \<Longrightarrow>
      ss_did t \<noteq> Some did \<or> s \<in> {PENDING, REVOKED}"
    and ts: "tokens_inv (fg_devices c) ts"
  shows "fog_inv P (c\<lparr>fg_token_state := ts, fg_devices := set_status did s (fg_devices c)\<rparr>)"
proof -
  note i = fog_invD [OF inv]
  have "sessions_inv (set_status did s (fg_devices c)) (queued c) (fg_sessions c)"
    using sess by (intro sessions_inv_world [OF i(1)] session_ok_status) auto
  with epochs_inv_status [OF i(2) s] i(3,4,7) ts show ?thesis
    by (simp add: fog_inv_def queued_def tokens_inv_def)
qed

lemma tokens_issue_sound:
  assumes inv: "fog_inv P c"
  shows "sound P (tokens_issue P now rnd n k c)"
proof (cases "session_get (now 0) k (fg_sessions c)")
  case (Pair a st)
  note i = fog_invD [OF inv]
  have inv': "fog_inv P (c\<lparr>fg_sessions := st\<rparr>)"
    by (rule fog_inv_sessions [OF inv sessions_inv_get [OF i(1) Pair]])
  show ?thesis
  proof (cases "\<exists>s did rec. a = Some s \<and> ss_state s = METADATA_ACCEPTED \<and> ss_did s = Some did \<and> dict_get (fg_devices c) did = Some rec")
    case True
    then obtain s did rec where s: "a = Some s" "ss_state s = METADATA_ACCEPTED" "ss_did s = Some did"
      "dict_get (fg_devices c) did = Some rec" by blast
    with Pair have get: "dict_get (st_sessions (fg_sessions c)) k = Some s" "st = fg_sessions c"
      by (simp_all add: session_get_Some_iff)
    have did: "dr_did rec = did" using devices_ok_get [OF i(6) s(4)] .
    have "tokens_inv (fg_devices c) (record_issued (to_hex rnd) did (fg_token_state c))"
      using i(5) s(4) by (auto simp: tokens_inv_def record_issued_def owner_of_def dict_simps dict_dom_iff split: if_splits)
    moreover have "ss_did t \<noteq> Some did" if "dict_get (st_sessions (fg_sessions c)) j = Some t" "ss_state t = POP_VERIFIED" for j t
      using sessions_invD(3) [OF i(1) that(1) get(1)] that s get(1) by (auto simp: onboarding_iff)
    ultimately have "fog_inv P (c\<lparr>fg_token_state := record_issued (to_hex rnd) did (fg_token_state c),
        fg_devices := set_status did TOKENIZED (fg_devices c)\<rparr>)"
      by (intro fog_inv_status [OF inv]) auto
    with Pair s inv get(2) did show ?thesis
      by (auto simp: tokens_issue_def device_get_def Let_def)
  next
    case False
    with Pair inv' show ?thesis
      by (auto simp: tokens_issue_def device_get_def Let_def split: option.split)
  qed
qed

lemma tokens_nonce_sound: "fog_inv P c \<Longrightarrow> sound P (tokens_nonce now rnd t c)"
  using nonces_ok_issue [of "tk_nonces (fg_token_state c)" rnd "now 0" token_nonce_purpose t] fog_invD(5) [of P c]
  by (auto simp: tokens_nonce_def tokens_inv_def split: prod.split intro!: fog_inv_put_nonces)

lemma verify_nonce_sound: "fog_inv P c \<Longrightarrow> sound P (verify_nonce now rnd did c)"
  using nonces_ok_issue [of "tk_nonces (fg_token_state c)" rnd "now 0" verify_nonce_purpose did] fog_invD(5) [of P c]
  by (auto simp: verify_nonce_def tokens_inv_def split: prod.split intro!: fog_inv_put_nonces)

text \<open>The two access checks change nothing but the book of nonces.\<close>

lemma tokens_access_state:
  "tokens_access P now token nonce rs op sg c = (r, c') \<Longrightarrow>
     c' = c \<or> (\<exists>tid. c' = put_nonces (snd (nonce_consume (now 1) token_nonce_purpose tid nonce (tk_nonces (fg_token_state c)))) c)"
  by (auto simp: tokens_access_def split: if_splits sum.splits prod.splits) (metis snd_conv)+

lemma verify_state:
  "snd (verify_and_authorize P now pkg rs op nonce sg c) =
     put_nonces (snd (nonce_consume (now 0) verify_nonce_purpose (JStr (py_str P (json_field pkg ''did''))) nonce
       (tk_nonces (fg_token_state c)))) c"
  by (simp add: verify_and_authorize_def Let_def split: sum.split prod.split)

lemma fog_inv_consume:
  "fog_inv P c \<Longrightarrow> fog_inv P (put_nonces (snd (nonce_consume t p sj n (tk_nonces (fg_token_state c)))) c)"
  using fog_invD(5) [of P c] by (auto simp: tokens_inv_def intro!: fog_inv_put_nonces nonces_ok_consume)

lemma tokens_access_inv: "fog_inv P c \<Longrightarrow> fog_inv P (snd (tokens_access P now token nonce rs op sg c))"
  using tokens_access_state [of P now token nonce rs op sg c] fog_inv_consume [of P c]
  by (cases "tokens_access P now token nonce rs op sg c") auto

text \<open>\<open>/verify\<close> never raises: an accepted package has a text for a DID.\<close>

lemma parse_package_did: "parse_package P pkg = Inr p \<Longrightarrow> dict_get pkg ''did'' = Some (JStr (pp_did p))"
  by (auto simp: parse_package_def split: sum.splits option.splits json.splits)

lemma verify_sound: "fog_inv P c \<Longrightarrow> sound P (verify_and_authorize P now pkg rs op nonce sg c)"
proof -
  assume inv: "fog_inv P c"
  have "\<not> raises (possession_decision P pkg (json_field pkg ''did'') e nonce rs op sg c')" if "parse_package P pkg = Inr p" for p e c'
    using parse_package_did [OF that] by (simp add: possession_decision_def json_field_def Let_def)
  then have "\<not> raises (fst (verify_and_authorize P now pkg rs op nonce sg c))"
    by (auto simp: verify_and_authorize_def Let_def split: sum.split prod.split)
  then show ?thesis
    using verify_state [of P now pkg rs op nonce sg c] fog_inv_consume [OF inv]
    by (cases "verify_and_authorize P now pkg rs op nonce sg c") auto
qed

lemma revoke_sound:
  assumes inv: "fog_inv P c"
  shows "sound P (revoke did tid only k c)"
proof -
  note i = fog_invD [OF inv]
  have one: "fog_inv P (c\<lparr>fg_token_state := token_revoke t (fg_token_state c)\<rparr>)" for t
    using fog_inv_tokens [OF inv tokens_inv_revoke [OF i(5)]] .
  have known: "dict_get (fg_devices c) did \<noteq> None" if "owner_of (fg_token_state c) t = Some did" for t
    using i(5) that by (auto simp: tokens_inv_def dict_dom_iff)
  have fold: "tokens_inv (fg_devices c) (fold token_revoke ts (fg_token_state c))" for ts
    using i(5) fold_revoke [of ts "fg_token_state c"] by (simp add: tokens_inv_def owner_of_def)
  have dev: "fog_inv P (c\<lparr>fg_devices := set_status did REVOKED (fg_devices c), fg_token_state := ts\<rparr>)"
    if "tokens_inv (fg_devices c) ts" for ts
    using fog_inv_status [OF inv _ _ that, of REVOKED did] by (simp add: fog_inv_def queued_def)
  show ?thesis
  proof (cases only)
    case only: True
    then show ?thesis
    proof (cases "\<exists>t. tid = Some t \<and> owner_of (fg_token_state c) t = Some did")
      case True
      then obtain t d where "tid = Some t" "owner_of (fg_token_state c) t = Some did" "dict_get (fg_devices c) did = Some d"
        using known by blast
      with only one inv show ?thesis
        by (auto simp: revoke_def revoke_token_def was_issued_def owner_of_def device_get_def)
    qed (use inv only in \<open>auto simp: revoke_def split: option.split\<close>)
  next
    case False
    have "fog_inv P (c\<lparr>fg_devices := fg_devices c, fg_token_state := fg_token_state c\<rparr>)" using inv by simp
    with False show ?thesis
      using inv dev [OF fold] dev [OF tokens_inv_revoke [OF fold]]
      by (auto simp: revoke_def revoke_device_def device_get_def Let_def split: option.split)
  qed
qed

section \<open>Epochs and the registry\<close>

text \<open>A close leaves the sessions' view of the records alone.\<close>

lemma session_ok_closed:
  assumes ok: "session_ok D (dict_dom (em_pending E)) t" and c: "epoch_closed P ms E D L r E' D' L'"
    and ms: "dict_dom ms = next_members ex E D"
  shows "session_ok D' (dict_dom (em_pending E')) t"
proof -
  let ?d = "the (ss_did t)"
  have pend: "em_pending E' = []" using c by (simp add: epoch_closed_def)
  have D': "dict_get D' k = (case dict_get (er_packages r) k of None \<Rightarrow> dict_get D k
      | Some pkg \<Rightarrow> map_option (\<lambda>rec. rec\<lparr>dr_status := REGISTERED, dr_leaf := Some (pp_leaf pkg),
                      dr_epoch_id := Some (em_current_epoch_id E)\<rparr>) (dict_get D k))" for k
    using c unfolding epoch_closed_def by (elim conjE) simp
  have dom: "dict_get (er_packages r) k = None \<longleftrightarrow> k \<notin> next_members ex E D" for k
  proof -
    have "dict_dom (er_packages r) = next_members ex E D" using c ms by (simp add: epoch_closed_def)
    then show ?thesis using dict_dom_iff by metis
  qed
  have own: "\<exists>rec'. own_record D' t rec'" if "own_record D t rec" for rec
    using that D' [of ?d] by (cases "dict_get (er_packages r) ?d") (auto simp: own_record_def)
  have none: "?d \<notin> dict_dom D \<Longrightarrow> ?d \<notin> dict_dom D'"
    using D' [of ?d] by (simp add: dict_dom_iff split: option.split)
  have kept: "own_record D' t rec" if "own_record D t rec" "dr_status rec \<in> {PENDING, REVOKED}" "?d \<notin> dict_dom (em_pending E)" for rec
  proof -
    have "?d \<notin> next_members ex E D"
      using that by (auto simp: next_members_def own_record_def dict_dom_iff)
    then have "dict_get (er_packages r) ?d = None" using dom by simp
    with D' [of ?d] that(1) show ?thesis by (simp add: own_record_def)
  qed
  show ?thesis
  proof (cases "ss_state t")
    case POP_VERIFIED
    with ok obtain rec where rec: "own_record D t rec" "dr_status rec \<in> {PENDING, REVOKED}" "?d \<notin> dict_dom (em_pending E)"
      by (auto simp: session_ok_def)
    with kept [OF rec] ok POP_VERIFIED show ?thesis by (simp add: session_ok_def pend) blast
  next
    case METADATA_ACCEPTED
    with ok obtain rec where "own_record D t rec" by (auto simp: session_ok_def)
    from own [OF this] ok METADATA_ACCEPTED show ?thesis by (simp add: session_ok_def)
  qed (use ok none in \<open>simp_all add: session_ok_def\<close>)
qed

lemma finalize_fog_inv:
  assumes P: "ecdsa_ok P" and inv: "fog_inv P c"
    and fin: "finalize_epoch P ts n rnd ex (fg_epochs c) (fg_devices c) (fg_ledger c) = (res, E, D, L)"
  shows "fog_inv P (c\<lparr>fg_epochs := E, fg_devices := D, fg_ledger := L\<rparr>)"
    and "res = Inl e \<Longrightarrow> e = EpochError ''nothing to finalize: the batch is empty'' \<or> e = ValueError \<and> (\<exists>pl. finalize_plan ex (fg_epochs c) (fg_devices c) = Inr pl \<and> did_collision (pl_members pl))"
proof -
  note i = fog_invD [OF inv]
  note ei = epochs_invD [OF i(2)]
  let ?E = "fg_epochs c" and ?D = "fg_devices c" and ?L = "fg_ledger c"
  have same: "fog_inv P (c\<lparr>fg_epochs := ?E, fg_devices := ?D, fg_ledger := ?L\<rparr>)" using inv by simp
  have "fog_inv P (c\<lparr>fg_epochs := E, fg_devices := D, fg_ledger := L\<rparr>) \<and>
    (\<forall>e. res = Inl e \<longrightarrow> e = EpochError ''nothing to finalize: the batch is empty'' \<or> e = ValueError \<and> (\<exists>pl. finalize_plan ex (fg_epochs c) (fg_devices c) = Inr pl \<and> did_collision (pl_members pl)))"
  proof (cases rule: finalize_epoch_cases [OF P ei(1) ei(5) [OF order.refl] ei(2), of ex ts n rnd])
    case 1
    with fin same show ?thesis by auto
  next
    case (2 pl r E' D' L')
    have eqs: "res = Inr r" "E' = E" "D' = D" "L' = L" using 2(4) fin by auto
    note c' = 2(5) [unfolded eqs]
    have "sessions_inv D (dict_dom (em_pending E)) (fg_sessions c)"
      using session_ok_closed [OF _ c' 2(3)] by (intro sessions_inv_world [OF i(1)]) (simp add: queued_def)
    moreover obtain ts' n' cnt b where anchor: "anchor_root P ts' n' (em_current_epoch_id ?E) (er_root r) cnt ?L = Inr (b, L)"
      using c' unfolding epoch_closed_def by (elim conjE exE)
    then have "registry_inv E L"
      by (rule registry_inv_anchor [OF i(3)]) (use c' in \<open>simp add: epoch_closed_def\<close>)
    moreover have "lg_key L = lg_key ?L" using anchor by (auto simp: anchor_root_ok_iff)
    moreover have "dict_dom D = dict_dom ?D"
    proof -
      have "dict_get D k = (case dict_get (er_packages r) k of None \<Rightarrow> dict_get ?D k
        | Some pkg \<Rightarrow> map_option (\<lambda>rec. rec\<lparr>dr_status := REGISTERED, dr_leaf := Some (pp_leaf pkg),
                        dr_epoch_id := Some (em_current_epoch_id ?E)\<rparr>) (dict_get ?D k))" for k
        using c' unfolding epoch_closed_def by (elim conjE) simp
      then show ?thesis by (auto simp: dict_dom_iff split: option.splits)
    qed
    moreover have "em_signing_key E = em_signing_key ?E" using c' by (simp add: epoch_closed_def)
    ultimately have "fog_inv P (c\<lparr>fg_epochs := E, fg_devices := D, fg_ledger := L\<rparr>)"
      using closed_inv [OF P i(2) c' finalize_plan_backed [OF ei(2,3) 2(1)]] i(4,5,7)
      by (simp add: fog_inv_def queued_def tokens_inv_def)
    with eqs show ?thesis by simp
  next
    case 3
    with fin same show ?thesis by auto
  qed
  then show "fog_inv P (c\<lparr>fg_epochs := E, fg_devices := D, fg_ledger := L\<rparr>)"
    "res = Inl e \<Longrightarrow> e = EpochError ''nothing to finalize: the batch is empty'' \<or> e = ValueError \<and> (\<exists>pl. finalize_plan ex (fg_epochs c) (fg_devices c) = Inr pl \<and> did_collision (pl_members pl))" by blast+
qed

text \<open>Two members of the epoch being closed have the same leaf.\<close>

definition close_collision :: "string list option \<Rightarrow> 'sk fog \<Rightarrow> bool" where
  "close_collision ex c \<longleftrightarrow>
     (\<exists>pl. finalize_plan (case ex of None \<Rightarrow> [] | Some ds \<Rightarrow> ds) (fg_epochs c) (fg_devices c) = Inr pl \<and> did_collision (pl_members pl))"

lemma epoch_close_sound:
  assumes "ecdsa_ok P" "fog_inv P c" "epoch_close P ts n rnd tm ex k c = (r, c')"
  shows "fog_inv P c'" and "raises r \<Longrightarrow> close_collision ex c"
proof -
  obtain res E D L where fin: "finalize_epoch P ts n rnd (case ex of None \<Rightarrow> [] | Some ds \<Rightarrow> ds) (fg_epochs c) (fg_devices c)
    (fg_ledger c) = (res, E, D, L)" using prod_cases4 by blast
  note f = finalize_fog_inv [OF assms(1,2) fin]
  from f assms(2,3) fin show "fog_inv P c'"
    by (auto simp: epoch_close_def split: if_splits)
  from f(2) assms(3) fin show "raises r \<Longrightarrow> close_collision ex c"
    by (cases res) (auto simp: epoch_close_def close_collision_def split: if_splits exn.splits)
qed

lemma find_block_typed:
  "\<forall>b\<in>set bs. \<exists>e rt. dict_get b ''epoch_id'' = Some (JInt e) \<and> dict_get b ''root'' = Some (JStr rt) \<Longrightarrow>
     find_block bs e = Inr None \<or> (\<exists>b rt. find_block bs e = Inr (Some b) \<and> b \<in> set bs \<and>
       dict_get b ''epoch_id'' = Some (JInt e) \<and> dict_get b ''root'' = Some (JStr rt))"
  proof (induction bs)
  case (Cons b bs)
  then obtain e' rt where b: "dict_get b ''epoch_id'' = Some (JInt e')" "dict_get b ''root'' = Some (JStr rt)" by auto
  show ?case
  proof (cases "e' = e")
    case False
    with Cons b show ?thesis by fastforce
  qed (use b in auto)
qed simp

lemma registry_root_sound:
  assumes "fog_inv P c"
  shows "sound P (registry_root e c)"
proof -
  from fog_invD(3) [OF assms] have "\<forall>b\<in>set (lg_blocks (fg_ledger c)). \<exists>e rt. dict_get b ''epoch_id'' = Some (JInt e) \<and>
      dict_get b ''root'' = Some (JStr rt)" unfolding registry_inv_def by blast
  from find_block_typed [OF this, of e] assms show ?thesis
    by (auto simp: registry_root_def get_block_def)
qed

lemma read_only_sound:
  assumes "fog_inv P c"
  shows "sound P (health P c)" "sound P (epoch_current c)" "sound P (route_get_proof did ep c)"
    "sound P (registry_verify P c)" "sound P (revocation_status did c)"
proof -
  note i = fog_invD [OF assms]
  show "sound P (epoch_current c)"
    using i(3) assms by (auto simp: epoch_current_def registry_inv_def)
  show "sound P (registry_verify P c)"
    using verify_chain_honest [OF epochs_invD(1) [OF i(2)]] assms by (auto simp: registry_verify_def)
qed (use assms in \<open>auto simp: health_def route_get_proof_def revocation_status_def Let_def split: option.split\<close>)

end
