(* ===== verification/System.thy ===== *)
theory System
  imports Fog_Invariant
begin

text \<open>
  The fog node as a whole: the calls its routers accept, the dispatch to the handlers, and its runs, in
  which any caller sends any request at any clock reading and the timer of the automatic close fires
  at any moment. A handler runs to its end before the next one starts: the locks of the code protect
  each store, and the interleavings inside \<open>finalize_epoch\<close> are treated with the epoch manager.
  The properties say what holds in every reachable state and of every reply.
\<close>

section \<open>Calls and runs\<close>

datatype call =
    Health
  | Register_start "string option"
  | Register_pubkey string string string
  | Register_pop string string
  | Register_metadata metadata_request
  | Epoch_current
  | Epoch_close "string list option" "string option"
  | Get_proof string "int option"
  | Registry_root int
  | Registry_verify
  | Revoke string "string option" bool "string option"
  | Revocation_status string
  | Tokens_issue string
  | Tokens_nonce string
  | Tokens_access token string string string string
  | Verify_nonce string
  | Verify_access "(string, json) dict" string string string string

text \<open>What a handler takes from its surroundings: the clock, random bytes, the randomness of signatures.\<close>

record env =
  ev_now :: "nat \<Rightarrow> time"
  ev_rnd :: bytes
  ev_seed :: nat
  ev_leaf_seed :: "bytes \<Rightarrow> nat"
  ev_timestamp :: string
  ev_timings :: json

fun handle :: "'sk platform \<Rightarrow> env \<Rightarrow> call \<Rightarrow> 'sk fog \<Rightarrow> reply \<times> 'sk fog" where
  "handle P v Health c = health P c"
| "handle P v (Register_start authorization) c = register_start (ev_now v) (ev_rnd v) authorization c"
| "handle P v (Register_pubkey session_id did public_key) c =
     register_pubkey P (ev_now v) (ev_rnd v) session_id did public_key c"
| "handle P v (Register_pop session_id signature) c = register_pop P (ev_now v) session_id signature c"
| "handle P v (Register_metadata body) c = register_metadata (ev_now v) body c"
| "handle P v Epoch_current c = epoch_current c"
| "handle P v (Epoch_close exclude_dids admin_key) c =
     epoch_close P (ev_timestamp v) (ev_seed v) (ev_leaf_seed v) (ev_timings v) exclude_dids admin_key c"
| "handle P v (Get_proof did epoch_id) c = route_get_proof did epoch_id c"
| "handle P v (Registry_root epoch_id) c = registry_root epoch_id c"
| "handle P v Registry_verify c = registry_verify P c"
| "handle P v (Revoke did token_id token_only admin_key) c = revoke did token_id token_only admin_key c"
| "handle P v (Revocation_status did) c = revocation_status did c"
| "handle P v (Tokens_issue session_id) c = tokens_issue P (ev_now v) (ev_rnd v) (ev_seed v) session_id c"
| "handle P v (Tokens_nonce token_id) c = tokens_nonce (ev_now v) (ev_rnd v) token_id c"
| "handle P v (Tokens_access token nonce resource operation signature) c =
     tokens_access P (ev_now v) token nonce resource operation signature c"
| "handle P v (Verify_nonce did) c = verify_nonce (ev_now v) (ev_rnd v) did c"
| "handle P v (Verify_access pkg resource operation nonce signature) c =
     verify_and_authorize P (ev_now v) pkg resource operation nonce signature c"

text \<open>One turn of the automatic close, on the context.\<close>

definition timer_turn :: "'sk platform \<Rightarrow> env \<Rightarrow> 'sk fog \<Rightarrow> 'sk fog" where
  "timer_turn P v c =
     (case auto_close_turn P (ev_timestamp v) (ev_seed v) (ev_leaf_seed v) (fg_epochs c) (fg_devices c) (fg_ledger c) of
        (_, E, D, L) \<Rightarrow> c\<lparr>fg_epochs := E, fg_devices := D, fg_ledger := L\<rparr>)"

datatype event = Answered env call reply | Timer env

inductive fog_step :: "'sk platform \<Rightarrow> 'sk fog \<Rightarrow> event \<Rightarrow> 'sk fog \<Rightarrow> bool" for P where
  answered: "handle P v q c = (r, c') \<Longrightarrow> fog_step P c (Answered v q r) c'"
| timer: "fog_step P c (Timer v) (timer_turn P v c)"

inductive fog_run :: "'sk platform \<Rightarrow> 'sk fog \<Rightarrow> event list \<Rightarrow> 'sk fog \<Rightarrow> bool" for P where
  stop: "fog_run P c [] c"
| move: "fog_step P c e c' \<Longrightarrow> fog_run P c' es c'' \<Longrightarrow> fog_run P c (e # es) c''"

inductive_cases fog_step_cases: "fog_step P c e c'"
inductive_simps fog_step_answered: "fog_step P c (Answered v q r) c'"
inductive_simps fog_step_timer: "fog_step P c (Timer v) c'"
inductive_simps fog_run_Nil [simp]: "fog_run P c [] c'"
inductive_simps fog_run_Cons: "fog_run P c (e # es) c'"

lemma fog_run_append: "fog_run P c (es @ fs) c'' \<longleftrightarrow> (\<exists>c'. fog_run P c es c' \<and> fog_run P c' fs c'')"
proof (induction es arbitrary: c)
  case (Cons e es)
  then show ?case by (auto simp: fog_run_Cons)
qed simp

lemma run_invariant:
  assumes "\<And>c e c'. fog_step P c e c' \<Longrightarrow> I c \<Longrightarrow> I c'" "fog_run P c es c'" "I c"
  shows "I c'"
  using assms(2,3) by (induction rule: fog_run.induct) (auto intro: assms(1))

section \<open>The configuration\<close>

definition config_of :: "'sk fog \<Rightarrow> 'sk \<times> psk_store \<times> string \<times> string \<times> string set \<times> int" where
  "config_of c = (fg_signing_key c, fg_psk_store c, fg_zone c, fg_admin_key c, fg_allowed_types c, fg_challenge_ttl c)"

lemma config_of_update [simp]:
  "config_of (c\<lparr>fg_sessions := st\<rparr>) = config_of c" "config_of (c\<lparr>fg_devices := D\<rparr>) = config_of c"
  "config_of (c\<lparr>fg_ledger := L\<rparr>) = config_of c" "config_of (c\<lparr>fg_epochs := E\<rparr>) = config_of c"
  "config_of (c\<lparr>fg_token_state := ts\<rparr>) = config_of c" "config_of (put_session s c) = config_of c"
  "config_of (put_device d c) = config_of c" "config_of (put_nonces b c) = config_of c"
  by (simp_all add: config_of_def put_session_def put_device_def put_nonces_def)

lemma session_or_404_config: "session_or_404 now k c = (r, c') \<Longrightarrow> config_of c' = config_of c"
  by (auto simp: session_or_404_def split: prod.splits option.splits)

lemma handle_config:
  assumes "handle P v q c = (r, c')"
  shows "config_of c' = config_of c"
proof (cases q)
  case (Tokens_access token nonce rs op sg)
  with assms tokens_access_state [of P "ev_now v" token nonce rs op sg c r c'] show ?thesis by auto
next
  case (Verify_access pkg rs op nonce sg)
  with assms verify_state [of P "ev_now v" pkg rs op nonce sg c] show ?thesis by auto
qed (use assms in \<open>auto simp: health_def register_start_def register_pubkey_def register_pop_def register_metadata_def epoch_current_def
      epoch_close_def route_get_proof_def registry_root_def registry_verify_def revoke_def revocation_status_def tokens_issue_def
      tokens_nonce_def verify_nonce_def Let_def dest!: session_or_404_config
      split: if_splits option.splits sum.splits prod.splits bool.splits exn.splits\<close>)

lemma step_config: "fog_step P c e c' \<Longrightarrow> config_of c' = config_of c"
  by (erule fog_step_cases) (auto simp: timer_turn_def dest: handle_config split: prod.split)

lemma run_config: "fog_run P c es c' \<Longrightarrow> config_of c' = config_of c"
  by (induction rule: fog_run.induct) (auto dest: step_config)

section \<open>The invariant along runs\<close>

lemma handle_inv: "ecdsa_ok P \<Longrightarrow> fog_inv P c \<Longrightarrow> handle P v q c = (r, c') \<Longrightarrow> fog_inv P c'"
  using register_start_inv [of P c "ev_now v" "ev_rnd v"] register_pubkey_sound [of P c "ev_now v" "ev_rnd v"]
    register_pop_sound [of P c "ev_now v"] register_metadata_sound [of P c "ev_now v"] epoch_close_sound(1) [of P c]
    read_only_sound [of P c] registry_root_sound [of P c] revoke_sound [of P c] tokens_issue_sound [of P c "ev_now v" "ev_rnd v" "ev_seed v"]
    tokens_nonce_sound [of P c "ev_now v" "ev_rnd v"] verify_nonce_sound [of P c "ev_now v" "ev_rnd v"]
    tokens_access_inv [of P c "ev_now v"] verify_sound [of P c "ev_now v"]
  by (cases q) (metis handle.simps sound_def snd_conv)+

lemma timer_inv:
  assumes "ecdsa_ok P" "fog_inv P c"
  shows "fog_inv P (timer_turn P v c)"
proof -
  let ?fin = "finalize_epoch P (ev_timestamp v) (ev_seed v) (ev_leaf_seed v) [] (fg_epochs c) (fg_devices c) (fg_ledger c)"
  obtain res E D L where fin: "?fin = (res, E, D, L)" using prod_cases4 by blast
  have "fog_inv P (c\<lparr>fg_epochs := fg_epochs c, fg_devices := fg_devices c, fg_ledger := fg_ledger c\<rparr>)" using assms(2) by simp
  with finalize_fog_inv(1) [OF assms fin] fin show ?thesis
    by (auto simp: timer_turn_def auto_close_turn_def split: sum.split exn.split)
qed

lemma step_inv: "ecdsa_ok P \<Longrightarrow> fog_step P c e c' \<Longrightarrow> fog_inv P c \<Longrightarrow> fog_inv P c'"
  by (auto elim!: fog_step_cases intro: handle_inv timer_inv)

lemma run_inv: "ecdsa_ok P \<Longrightarrow> fog_run P c es c' \<Longrightarrow> fog_inv P c \<Longrightarrow> fog_inv P c'"
  by (rule run_invariant [where I = "fog_inv P"]) (auto intro: step_inv)

section \<open>Starting and restarting\<close>

text \<open>A start over a file that is absent or that an earlier run has written: only the roots survive.\<close>

lemma create_app_parts:
  assumes "create_app psk_file entries sk contents challenge_ttl session_ttl carry admin = Inr c"
  obtains L E where "ledger_init sk config_fog_id contents = Inr L" "epoch_manager_init L sk config_fog_id carry = Inr E"
    "fg_ledger c = L" "fg_epochs c = E" "fg_devices c = []" "fg_sessions c = session_store_init session_ttl"
    "fg_signing_key c = sk" "fg_token_state c = token_state_init nonce_ttl_seconds"
  using assms by (auto simp: create_app_def Let_def split: sum.splits)

lemma ledger_init_written:
  assumes "ledger_inv P L" "ledger_init (lg_key L) fog_id (lg_file L) = Inr L'"
  shows "L' = L\<lparr>lg_fog_id := fog_id\<rparr>"
  using assms by (cases L) (auto simp: ledger_inv_def ledger_init_def)

lemma create_app_inv:
  assumes app: "create_app psk_file entries sk (lg_file L0) challenge_ttl session_ttl carry admin = Inr c"
    and L0: "ledger_inv P L0" "registry_inv E0 L0" "lg_key L0 = sk"
    and fresh: "\<And>e. em_current_epoch_id E0 \<le> e \<Longrightarrow> get_root L0 e = None"
    and roots: "\<And>e rt. get_root L0 e = Some rt \<Longrightarrow> \<exists>mem. commits_to rt mem"
  shows "fog_inv P c \<and> get_root (fg_ledger c) = get_root L0"
proof -
  from app obtain L E where L: "ledger_init sk config_fog_id (lg_file L0) = Inr L"
    and E: "epoch_manager_init L sk config_fog_id carry = Inr E"
    and c: "fg_ledger c = L" "fg_epochs c = E" "fg_devices c = []" "fg_sessions c = session_store_init session_ttl"
      "fg_signing_key c = sk" "fg_token_state c = token_state_init nonce_ttl_seconds"
    by (rule create_app_parts)
  from ledger_init_written [OF L0(1)] L L0(3) have L': "L = L0\<lparr>lg_fog_id := config_fog_id\<rparr>" by blast
  then have same: "latest_epoch L = latest_epoch L0" "get_root L = get_root L0" "lg_blocks L = lg_blocks L0" "lg_key L = sk"
    using L0(3) by (auto simp: latest_epoch_def get_root_def fun_eq_iff)
  from L0(2) same(1) have lt: "\<exists>lt. latest_epoch L = Inr lt \<and> next_epoch lt = Inr (em_current_epoch_id E0)"
    by (simp add: registry_inv_def)
  with E have E': "em_pending E = []" "em_latest_package E = []" "em_packages E = []" "em_signing_key E = sk"
    "em_current_epoch_id E = em_current_epoch_id E0"
    by (auto simp: epoch_manager_init_def)
  have "ledger_inv P L" using L0(1) by (simp add: L' ledger_inv_def)
  then have "epochs_inv P E [] L"
    using fresh roots by (simp add: epochs_inv_def batch_ok_def devices_ok_def members_ok_Nil by_status_def backed_def E'
        same get_package_def)
  moreover have "registry_inv E L" using L0(2) same E'(5) by (simp add: registry_inv_def)
  ultimately show ?thesis
    by (simp add: fog_inv_def c E' same sessions_inv_def sessions_ok_def session_store_init_def
        tokens_inv_def token_state_init_def nonces_ok_init owner_of_def)
qed

lemma first_start_inv:
  assumes "create_app psk_file entries sk No_file challenge_ttl session_ttl carry admin = Inr c"
  shows "fog_inv P c"
proof -
  let ?L = "\<lparr>lg_key = sk, lg_fog_id = config_fog_id, lg_blocks = [], lg_cache = [], lg_file = No_file\<rparr>"
  let ?E = "\<lparr>em_signing_key = sk, em_fog_id = config_fog_id, em_carry_forward = carry, em_current_epoch_id = 1,
     em_pending = [], em_packages = [], em_latest_package = [], em_active_dids = {}\<rparr>"
  have "create_app psk_file entries sk (lg_file ?L) challenge_ttl session_ttl carry admin = Inr c" using assms by simp
  from create_app_inv [OF this, of P ?E] show ?thesis
    by (simp add: ledger_inv_def registry_inv_def latest_epoch_def get_root_def)
qed

lemma restart_inv:
  assumes inv: "fog_inv P c"
    and app: "create_app psk_file entries (fg_signing_key c) (lg_file (fg_ledger c)) challenge_ttl session_ttl carry admin = Inr c'"
  shows "fog_inv P c' \<and> get_root (fg_ledger c') = get_root (fg_ledger c)"
  using fog_invD [OF inv] epochs_invD [OF fog_invD(2) [OF inv]] by (intro create_app_inv [OF app]) auto

lemma restart_epoch:
  assumes inv: "fog_inv P c"
    and app: "create_app psk_file entries (fg_signing_key c) (lg_file (fg_ledger c)) challenge_ttl session_ttl carry admin = Inr c'"
  shows "em_current_epoch_id (fg_epochs c') = em_current_epoch_id (fg_epochs c)"
proof -
  from app obtain L E where L: "ledger_init (fg_signing_key c) config_fog_id (lg_file (fg_ledger c)) = Inr L"
    and E: "epoch_manager_init L (fg_signing_key c) config_fog_id carry = Inr E" and c': "fg_epochs c' = E"
    by (rule create_app_parts)
  note i = fog_invD [OF inv]
  from ledger_init_written [OF epochs_invD(1) [OF i(2)]] L i(7) have "L = fg_ledger c\<lparr>lg_fog_id := config_fog_id\<rparr>" by metis
  then have "latest_epoch L = latest_epoch (fg_ledger c)" by (simp add: latest_epoch_def)
  with E i(3) have "em_current_epoch_id E = em_current_epoch_id (fg_epochs c)"
    by (auto simp: epoch_manager_init_def registry_inv_def)
  with c' show ?thesis by simp
qed

lemma restart_succeeds:
  assumes "fog_inv P c"
  shows "\<exists>c'. create_app psk_file entries (fg_signing_key c) (lg_file (fg_ledger c)) challenge_ttl session_ttl carry admin = Inr c'"
proof -
  note i = fog_invD [OF assms]
  let ?L = "fg_ledger c\<lparr>lg_fog_id := config_fog_id\<rparr>"
  have "ledger_init (fg_signing_key c) config_fog_id (lg_file (fg_ledger c)) = Inr ?L"
    using epochs_invD(1) [OF i(2)] i(7) by (cases "fg_ledger c") (auto simp: ledger_inv_def ledger_init_def)
  moreover have "latest_epoch ?L = latest_epoch (fg_ledger c)" by (simp add: latest_epoch_def)
  ultimately show ?thesis using i(3) by (auto simp: create_app_def registry_inv_def epoch_manager_init_def)
qed

text \<open>The states the node can be in: after a start, after any step, and after a restart over its own file.\<close>

inductive reachable :: "'sk platform \<Rightarrow> 'sk fog \<Rightarrow> bool" for P where
  start: "create_app psk_file entries sk No_file challenge_ttl session_ttl carry admin = Inr c \<Longrightarrow> reachable P c"
| step: "reachable P c \<Longrightarrow> fog_step P c e c' \<Longrightarrow> reachable P c'"
| restart: "reachable P c \<Longrightarrow>
    create_app psk_file entries (fg_signing_key c) (lg_file (fg_ledger c)) challenge_ttl session_ttl carry admin = Inr c' \<Longrightarrow>
    reachable P c'"

lemma reachable_inv: "reachable P c \<Longrightarrow> ecdsa_ok P \<Longrightarrow> fog_inv P c"
  by (induction rule: reachable.induct) (auto intro: first_start_inv step_inv restart_inv [THEN conjunct1])

section \<open>What is left unhandled\<close>

text \<open>The fields that \<open>/tokens/access\<close> reads without a check.\<close>

definition well_shaped :: "token \<Rightarrow> bool" where
  "well_shaped token \<longleftrightarrow>
     (\<exists>tid did role. dict_get token ''token_id'' = Some (JStr tid) \<and> dict_get token ''did'' = Some (JStr did) \<and>
        dict_get token ''role'' = Some (JStr role)) \<and>
     dict_get token ''device_type'' \<noteq> None \<and> dict_get token ''allowed_operations'' \<noteq> None"

lemma decision_well_shaped:
  assumes "dict_get token ''role'' = Some (JStr role)" "dict_get token ''device_type'' = Some ty"
    "dict_get token ''allowed_operations'' = Some ops"
  shows "\<not> raises (provisional_decision P token (JStr tid) (JStr did) nonce rs op sg c)"
  using assms by (simp add: provisional_decision_def token_or_device_revoked_def split: bool.split)

lemma tokens_access_well_shaped:
  assumes "well_shaped token"
  shows "\<not> raises (fst (tokens_access P now token nonce rs op sg c))"
proof -
  from assms obtain tid did role ty ops where f: "dict_get token ''token_id'' = Some (JStr tid)"
    "dict_get token ''did'' = Some (JStr did)" "dict_get token ''role'' = Some (JStr role)"
    "dict_get token ''device_type'' = Some ty" "dict_get token ''allowed_operations'' = Some ops"
    by (auto simp: well_shaped_def)
  from f(1,2) show ?thesis
    by (simp add: tokens_access_def decision_well_shaped [OF f(3-5)] split: prod.split)
qed

lemma psk_check_ascii: "psk_check st i k = Inl e \<Longrightarrow> \<exists>h. dict_get st i = Some h \<and> \<not> is_ascii h"
proof (cases "from_hex k")
  case (Inl e')
  then show "psk_check st i k = Inl e \<Longrightarrow> ?thesis" using from_hex_error [OF Inl] by (simp add: psk_check_def hash_psk_def)
next
  case (Inr b)
  have "is_ascii (replicate 64 (CHR ''0''))" by (simp add: is_ascii_def list_all_iff)
  with Inr show "psk_check st i k = Inl e \<Longrightarrow> ?thesis"
    by (auto simp: psk_check_def hash_psk_def compare_digest_def split: option.splits if_splits)
qed

lemma register_start_raises:
  "raises (fst (register_start now rnd a c)) \<Longrightarrow> \<exists>i h. dict_get (fg_psk_store c) i = Some h \<and> \<not> is_ascii h"
  using psk_check_ascii by (fastforce simp: register_start_def split: option.splits sum.splits bool.splits prod.splits)

lemma sound_no_raise: "sound P h \<Longrightarrow> h = (r, c') \<Longrightarrow> \<not> raises r"
  by (simp add: sound_def)

lemma handle_raises_cases:
  assumes "ecdsa_ok P" "fog_inv P c" "handle P v q c = (r, c')" "raises r"
  shows "(\<exists>a. q = Register_start a \<and> (\<exists>i h. dict_get (fg_psk_store c) i = Some h \<and> \<not> is_ascii h)) \<or>
    (\<exists>ex k. q = Epoch_close ex k \<and> close_collision ex c) \<or>
    (\<exists>token nonce rs op sg. q = Tokens_access token nonce rs op sg \<and> \<not> well_shaped token)"
proof (cases q)
  case (Register_start a)
  with assms(3,4) register_start_raises [of "ev_now v" "ev_rnd v" a c] show ?thesis by simp
next
  case (Epoch_close ex k)
  with assms epoch_close_sound(2) [OF assms(1,2)] show ?thesis by simp
next
  case (Tokens_access token nonce rs op sg)
  with assms(3,4) tokens_access_well_shaped [of token P "ev_now v" nonce rs op sg c] show ?thesis by auto
qed (use assms(3,4) in \<open>auto dest!: sound_no_raise [OF register_pubkey_sound [OF assms(2)]]
    sound_no_raise [OF register_pop_sound [OF assms(2)]] sound_no_raise [OF register_metadata_sound [OF assms(2)]]
    sound_no_raise [OF read_only_sound(1) [OF assms(2)]] sound_no_raise [OF read_only_sound(2) [OF assms(2)]]
    sound_no_raise [OF read_only_sound(3) [OF assms(2)]] sound_no_raise [OF read_only_sound(4) [OF assms(2)]]
    sound_no_raise [OF read_only_sound(5) [OF assms(2)]] sound_no_raise [OF registry_root_sound [OF assms(2)]]
    sound_no_raise [OF revoke_sound [OF assms(2)]] sound_no_raise [OF tokens_issue_sound [OF assms(2)]]
    sound_no_raise [OF tokens_nonce_sound [OF assms(2)]] sound_no_raise [OF verify_nonce_sound [OF assms(2)]]
    sound_no_raise [OF verify_sound [OF assms(2)]]\<close>)

section \<open>Properties\<close>

text \<open>
  C9: what holds in every state the node can be in, after any requests by anybody, any closes by the admin
  or the timer, and any restarts over its own file. The chain of the registry verifies; every anchored
  root is of an epoch already closed and commits to a list of members whose DIDs are derived from their
  33-byte keys; every package the node would hand out is accepted against the root of its epoch; and
  every device record is filed under the DID derived from its key.
\<close>

theorem reachable_state_consistent:
  assumes "ecdsa_ok P" and "reachable P c"
  shows "verify_chain P None (fg_ledger c) = Inr (Chain_valid (ledger_len (fg_ledger c))) \<and>
    (\<forall>e root_hex. get_root (fg_ledger c) e = Some root_hex \<longrightarrow>
       e < em_current_epoch_id (fg_epochs c) \<and> (\<exists>mem. commits_to root_hex mem)) \<and>
    (\<forall>did ep pkg. get_package (fg_epochs c) did ep = Some pkg \<longrightarrow> pp_did pkg = did \<and>
       (\<exists>root_hex. get_root (fg_ledger c) (pp_epoch_id pkg) = Some root_hex \<and>
          accepts P pkg (Some root_hex) (public_key_bytes P (fg_signing_key c)))) \<and>
    (\<forall>did rec. device_get (fg_devices c) did = Some rec \<longrightarrow> dr_did rec = did \<and>
       (\<exists>pk. from_hex (dr_public_key rec) = Inr pk \<and> length pk = compressed_pk_len \<and> did = derive_did pk))"
proof -
  note i = fog_invD [OF reachable_inv [OF assms(2,1)]]
  note e = epochs_invD [OF i(2)]
  have roots: "ep < em_current_epoch_id (fg_epochs c) \<and> (\<exists>mem. commits_to rt mem)" if "get_root (fg_ledger c) ep = Some rt" for ep rt
    using e(5) [of ep] e(6) [OF that] that by (metis not_le option.distinct(1))
  have packages: "package_ok P (fg_signing_key c) (fg_ledger c) did pkg" if "get_package (fg_epochs c) did ep = Some pkg" for did ep pkg
    using that e(7,8) i(4) by (cases ep) (auto simp: get_package_def split: option.splits)
  have records: "dr_did rec = did" "\<exists>pk. from_hex (dr_public_key rec) = Inr pk \<and> length pk = compressed_pk_len \<and> did = derive_did pk"
    if "dict_get (fg_devices c) did = Some rec" for did rec
    using devices_ok_get [OF i(6) that] e(4) [OF that] by (auto simp: device_ok_def)
  show ?thesis
  proof (intro conjI allI impI)
    show "verify_chain P None (fg_ledger c) = Inr (Chain_valid (ledger_len (fg_ledger c)))"
      by (rule verify_chain_honest [OF e(1)])
  qed (use roots packages records in \<open>auto simp: package_ok_def device_get_def\<close>)
qed

text \<open>
  C25: what the node leaves to the framework as an internal error. In every reachable state a request is
  answered without an unhandled exception, except: a start of registration while the store of keys
  holds a value outside ASCII, a close of an epoch with two DIDs that collide under SHA-256, and a
  provisional request whose token lacks one of the fields the fog puts in.
\<close>

theorem unhandled_exceptions_are_these:
  assumes "ecdsa_ok P" and "reachable P c" and "handle P v q c = (Server_error e, c')"
  shows "(\<exists>a. q = Register_start a \<and> (\<exists>i h. dict_get (fg_psk_store c) i = Some h \<and> \<not> is_ascii h)) \<or>
    (\<exists>ex k. q = Epoch_close ex k \<and> close_collision ex c) \<or>
    (\<exists>token nonce rs op sg. q = Tokens_access token nonce rs op sg \<and> \<not> well_shaped token)"
  using handle_raises_cases [OF assms(1) reachable_inv [OF assms(2,1)] assms(3)] by simp

text \<open>
  C27: a restart keeps the registry and forgets the devices. The restarted node serves the same root for
  every epoch and continues with the next one, so packages handed out before still verify against it;
  but no device is known and none is revoked, so a device revoked before the restart is so no more.
\<close>

theorem restart_forgets_revocation:
  assumes "ecdsa_ok P" and "reachable P c"
    and "create_app psk_file entries (fg_signing_key c) (lg_file (fg_ledger c)) challenge_ttl session_ttl carry admin = Inr c'"
  shows "get_root (fg_ledger c') = get_root (fg_ledger c) \<and>
    em_current_epoch_id (fg_epochs c') = em_current_epoch_id (fg_epochs c) \<and>
    \<not> device_exists (fg_devices c') did \<and> \<not> is_device_revoked (fg_devices c') did \<and>
    \<not> is_revoked (fg_token_state c') tid"
proof -
  note inv = reachable_inv [OF assms(2,1)]
  note r = restart_inv [OF inv assms(3)]
  from assms(3) have c': "fg_devices c' = []" "fg_token_state c' = token_state_init nonce_ttl_seconds"
    by (rule create_app_parts, simp)+
  have "em_current_epoch_id (fg_epochs c') = em_current_epoch_id (fg_epochs c)"
    using restart_epoch [OF inv assms(3)] .
  with r c' show ?thesis
    by (simp add: device_exists_def is_device_revoked_iff is_revoked_def token_state_init_def)
qed

end
