(* ===== verification/Onboarding.thy ===== *)
theory Onboarding
  imports System "HOL-Library.Sublist"
begin

text \<open>
  The contract of registration, and that the handlers implement it. \<open>onboard\<close> is the state machine the
  documentation of fog/registration/routes.py describes, over a map from session ids to a state and a
  DID; \<open>onboarding_refines\<close> is the simulation, and the order of the steps follows from the machine.
\<close>

section \<open>The machine\<close>

type_synonym onboarding_view = "string \<Rightarrow> (session_state \<times> string option) option"

definition view :: "'sk fog \<Rightarrow> onboarding_view" where
  "view c k = map_option (\<lambda>s. (ss_state s, ss_did s)) (dict_get (st_sessions (fg_sessions c)) k)"

fun registers :: "call \<Rightarrow> bool" where
  "registers (Register_start _) = True"
| "registers (Register_pubkey _ _ _) = True"
| "registers (Register_pop _ _) = True"
| "registers (Register_metadata _) = True"
| "registers _ = False"

fun session_of :: "call \<Rightarrow> string option" where
  "session_of (Register_pubkey k _ _) = Some k"
| "session_of (Register_pop k _) = Some k"
| "session_of (Register_metadata body) = Some (md_session_id body)"
| "session_of (Tokens_issue k) = Some k"
| "session_of _ = None"

text \<open>
  One call, whether it was answered with success, and what it does to the sessions. \<open>auth\<close> says which
  headers carry a provisioned key.
\<close>

inductive onboard ::
    "(string option \<Rightarrow> bool) \<Rightarrow> call \<Rightarrow> bool \<Rightarrow> onboarding_view \<Rightarrow> onboarding_view \<Rightarrow> bool" for auth where
  opened: "auth a \<Longrightarrow> onboard auth (Register_start a) True m (m(k \<mapsto> (AUTHENTICATED, None)))"
| submitted: "m k = Some (AUTHENTICATED, d) \<Longrightarrow>
    (\<And>j st. m j = Some (st, Some did) \<Longrightarrow> j \<noteq> k \<Longrightarrow> st = AUTHENTICATED) \<Longrightarrow>
    onboard auth (Register_pubkey k did hex) True m (m(k \<mapsto> (KEY_SUBMITTED, Some did)))"
| rejected: "m k = Some (KEY_SUBMITTED, Some did) \<Longrightarrow>
    onboard auth (Register_pop k sg) False m (m(k \<mapsto> (AUTHENTICATED, Some did)))"
| proven: "m k = Some (KEY_SUBMITTED, Some did) \<Longrightarrow>
    onboard auth (Register_pop k sg) True m (m(k \<mapsto> (POP_VERIFIED, Some did)))"
| accepted: "m (md_session_id body) = Some (POP_VERIFIED, Some did) \<Longrightarrow>
    onboard auth (Register_metadata body) True m (m(md_session_id body \<mapsto> (METADATA_ACCEPTED, Some did)))"
| expired: "session_of q = Some k \<Longrightarrow> onboard auth q False m (m(k := None))"
| idle: "(ok \<Longrightarrow> \<not> registers q) \<Longrightarrow> onboard auth q ok m m"

inductive_cases onboard_cases: "onboard auth q ok m m'"

section \<open>The handlers implement it\<close>

definition answered_ok :: "reply \<Rightarrow> bool" where
  "answered_ok r \<longleftrightarrow> (\<exists>v. r = Reply v)"

lemma answered_ok_simps [simp]:
  "answered_ok (Reply v)" "\<not> answered_ok (Http_error n v)" "\<not> answered_ok (Server_error e)"
  by (simp_all add: answered_ok_def)

definition authorised :: "'sk fog \<Rightarrow> string option \<Rightarrow> bool" where
  "authorised c a \<longleftrightarrow> (\<exists>i psk. parse_authorization a = Some (i, psk) \<and> psk_check (fg_psk_store c) i psk = Inr True)"

lemma view_put_session [simp]:
  "view (put_session s c) = (view c)(ss_session_id s \<mapsto> (ss_state s, ss_did s))"
  by (auto simp: view_def put_session_def session_put_def dict_simps fun_eq_iff)

lemma view_put [simp]: "view (put_device d c) = view c" "view (put_nonces b c) = view c"
  "view (c\<lparr>fg_devices := D\<rparr>) = view c" "view (c\<lparr>fg_token_state := ts\<rparr>) = view c" "view (c\<lparr>fg_epochs := E\<rparr>) = view c"
  "view (c\<lparr>fg_ledger := L\<rparr>) = view c"
  by (auto simp: view_def put_device_def put_nonces_def fun_eq_iff)

lemma view_get: "dict_get (st_sessions (fg_sessions c)) k = Some s \<Longrightarrow> view c k = Some (ss_state s, ss_did s)"
  by (simp add: view_def)

lemma view_session_get:
  assumes "session_get now k (fg_sessions c) = (r, st)"
  shows "view (c\<lparr>fg_sessions := st\<rparr>) = view c \<or> r = None \<and> view (c\<lparr>fg_sessions := st\<rparr>) = (view c)(k := None)"
  using assms by (auto simp: session_get_def view_def fun_eq_iff AList.delete_conv' split: option.splits if_splits)

lemma session_or_404_view:
  assumes "session_or_404 now k c = (Inl r, c')" "session_of q = Some k"
  shows "\<not> answered_ok r \<and> onboard auth q False (view c) (view c')"
proof (cases "session_get now k (fg_sessions c)")
  case (Pair a st)
  with view_session_get [OF Pair] assms show ?thesis
    by (auto simp: session_or_404_def intro: expired idle split: option.splits)
qed

lemma idle_refines: "view c' = view c \<Longrightarrow> (answered_ok r \<Longrightarrow> \<not> registers q) \<Longrightarrow> onboard auth q (answered_ok r) (view c) (view c')"
  using idle by metis

lemma register_start_refines:
  "register_start now rnd a c = (r, c') \<Longrightarrow> onboard (authorised c) (Register_start a) (answered_ok r) (view c) (view c')"
proof -
  have "view (c\<lparr>fg_sessions := st\<rparr>) = (view c)(ss_session_id s \<mapsto> (AUTHENTICATED, None))"
    if "session_create rnd t i (fg_sessions c) = (s, st)" for t i s st
    using that by (auto simp: session_create_def new_session_def view_def dict_simps fun_eq_iff Let_def)
  then show "register_start now rnd a c = (r, c') \<Longrightarrow> ?thesis"
    by (auto simp: register_start_def authorised_def intro!: opened idle split: option.splits sum.splits bool.splits prod.splits)
qed

lemma register_pubkey_refines:
  assumes inv: "fog_inv P c" and h: "register_pubkey P now rnd k did hex c = (r, c')"
  shows "onboard auth (Register_pubkey k did hex) (answered_ok r) (view c) (view c')"
proof (cases "session_or_404 (now 0) k c")
  case (Pair x c1)
  note i = fog_invD(1) [OF inv]
  from inv Pair show ?thesis
  proof (cases rule: session_or_404_cases)
    case (1 n v)
    with session_or_404_view [of "now 0" k c _ c1 "Register_pubkey k did hex"] Pair h show ?thesis
      by (auto simp: register_pubkey_def)
  next
    case (2 s)
    have k: "ss_session_id s = k" using sessions_invD(2) [OF i 2(3)] .
    show ?thesis
    proof (cases "answered_ok r")
      case False
      with h 2 Pair show ?thesis
        by (auto simp: register_pubkey_def issue_challenge_def Let_def intro!: idle split: option.splits sum.splits if_splits)
    next
      case True
      with h 2 Pair have f: "ss_state s = AUTHENTICATED" "\<not> did_in_use (fg_sessions c) did k"
        and c': "view c' = (view c)(k \<mapsto> (KEY_SUBMITTED, Some did))"
        by (auto simp: register_pubkey_def require_state_def issue_challenge_def Let_def k split: option.splits sum.splits if_splits)
      have "st = AUTHENTICATED" if "view c j = Some (st, Some did)" "j \<noteq> k" for j st
        using that f(2) did_in_use_iff [OF i] by (auto simp: view_def onboarding_iff)
      with submitted [of "view c" k "ss_did s" did auth hex] view_get [OF 2(3)] f(1) c' True show ?thesis by simp
    qed
  qed
qed

lemma register_pop_refines:
  assumes inv: "fog_inv P c" and h: "register_pop P now k sg c = (r, c')"
  shows "onboard auth (Register_pop k sg) (answered_ok r) (view c) (view c')"
proof (cases "session_or_404 (now 0) k c")
  case (Pair x c1)
  note i = fog_invD(1) [OF inv]
  from inv Pair show ?thesis
  proof (cases rule: session_or_404_cases)
    case (1 n v)
    with session_or_404_view [of "now 0" k c _ c1 "Register_pop k sg"] Pair h show ?thesis
      by (auto simp: register_pop_def)
  next
    case (2 s)
    have k: "ss_session_id s = k" using sessions_invD(2) [OF i 2(3)] .
    show ?thesis
    proof (cases "ss_state s = KEY_SUBMITTED")
      case False
      with h 2 Pair show ?thesis by (auto simp: register_pop_def require_state_def intro!: idle)
    next
      case True
      with sessions_invD(1) [OF i 2(3)] have key: "key_submitted_ok s" by (simp add: session_ok_def onboarding_iff)
      then obtain did hex where did: "ss_did s = Some did" "ss_public_key s = Some hex" unfolding key_submitted_ok_def by blast
      have m: "view c k = Some (KEY_SUBMITTED, Some did)" using view_get [OF 2(3)] True did by simp
      obtain res s' where pop: "verify_pop P (now 1) sg s = (res, s')" by fastforce
      with verify_pop_no_raise [OF key, of P "now 1" sg] obtain b reason where res: "res = Inr (b, reason)" by (auto simp: is_ok_iff)
      have s': "ss_session_id s' = k" "ss_did s' = Some did" "ss_public_key s' = Some hex"
        using verify_pop_session [OF pop] k did by auto
      show ?thesis
        using h 2 Pair True pop res s' rejected [where m = "view c" and k = k, OF m] proven [where m = "view c" and k = k, OF m]
        by (cases b) (auto simp: register_pop_def require_state_def Let_def)
    qed
  qed
qed

lemma register_metadata_refines:
  assumes inv: "fog_inv P c" and h: "register_metadata now body c = (r, c')"
  shows "onboard auth (Register_metadata body) (answered_ok r) (view c) (view c')"
proof (cases "session_or_404 (now 0) (md_session_id body) c")
  case (Pair x c1)
  note i = fog_invD(1) [OF inv]
  from inv Pair show ?thesis
  proof (cases rule: session_or_404_cases)
    case (1 n v)
    with session_or_404_view [of "now 0" "md_session_id body" c _ c1 "Register_metadata body"] Pair h show ?thesis
      by (auto simp: register_metadata_def)
  next
    case (2 s)
    have k: "ss_session_id s = md_session_id body" using sessions_invD(2) [OF i 2(3)] .
    show ?thesis
    proof (cases "answered_ok r")
      case False
      with h 2 Pair show ?thesis
        by (auto simp: register_metadata_def Let_def intro!: idle split: option.splits sum.splits if_splits prod.splits exn.splits)
    next
      case True
      with h 2 Pair have f: "ss_state s = POP_VERIFIED"
        and c': "view c' = (view c)(md_session_id body \<mapsto> (METADATA_ACCEPTED, ss_did s))"
        by (auto simp: register_metadata_def require_state_def Let_def k split: option.splits sum.splits if_splits prod.splits exn.splits)
      from sessions_invD(1) [OF i 2(3)] f obtain did where "ss_did s = Some did"
        using onboarding_did [of "fg_devices c" "queued c" s] by (auto simp: onboarding_iff)
      with accepted [of "view c" body did auth] view_get [OF 2(3)] f c' True show ?thesis by simp
    qed
  qed
qed

lemma tokens_issue_refines:
  assumes "tokens_issue P now rnd n k c = (r, c')"
  shows "onboard auth (Tokens_issue k) (answered_ok r) (view c) (view c')"
proof (cases "session_get (now 0) k (fg_sessions c)")
  case (Pair a st)
  show ?thesis
  proof (cases a)
    case None
    with assms Pair view_session_get [OF Pair] expired [of "Tokens_issue k" k auth "view c"] show ?thesis
      by (auto simp: tokens_issue_def intro: idle)
  next
    case (Some s)
    with Pair have "st = fg_sessions c" by (simp add: session_get_Some_iff)
    with assms Pair Some have "view c' = view c"
      by (auto simp: tokens_issue_def Let_def split: if_splits option.splits)
    then show ?thesis by (auto intro: idle)
  qed
qed

text \<open>Every other call, and the timer, leaves the sessions alone.\<close>

lemma other_calls_view:
  assumes "handle P v q c = (r, c')" "\<not> registers q" "session_of q = None"
  shows "view c' = view c"
proof (cases q)
  case (Epoch_close ex k)
  with assms(1) show ?thesis
    by (auto simp: epoch_close_def view_def fun_eq_iff split: if_splits prod.splits)
next
  case (Revoke did tid only k)
  with assms(1) show ?thesis
    by (auto simp: revoke_def view_def fun_eq_iff Let_def split: if_splits option.splits prod.splits bool.splits)
next
  case (Tokens_access token nonce rs op sg)
  with assms(1) tokens_access_state [of P "ev_now v" token nonce rs op sg c r c'] show ?thesis by auto
next
  case (Verify_access pkg rs op nonce sg)
  with assms(1) verify_state [of P "ev_now v" pkg rs op nonce sg c] show ?thesis by auto
qed (use assms in \<open>auto simp: health_def epoch_current_def route_get_proof_def registry_root_def registry_verify_def
      revocation_status_def tokens_nonce_def verify_nonce_def Let_def split: if_splits option.splits sum.splits prod.splits\<close>)

lemma timer_view: "view (timer_turn P v c) = view c"
  by (auto simp: timer_turn_def view_def fun_eq_iff split: prod.split)

lemma handle_refines:
  assumes "fog_inv P c" "handle P v q c = (r, c')"
  shows "onboard (authorised c) q (answered_ok r) (view c) (view c')"
proof (cases "registers q \<or> session_of q \<noteq> None")
  case True
  then show ?thesis
    using assms register_start_refines register_pubkey_refines register_pop_refines register_metadata_refines tokens_issue_refines
    by (cases q) auto
next
  case False
  with other_calls_view [OF assms(2)] show ?thesis by (intro idle_refines) auto
qed

lemma create_app_view: "create_app f e sk contents ttl sttl carry admin = Inr c \<Longrightarrow> view c = Map.empty"
  by (rule create_app_parts, assumption) (simp add: view_def session_store_init_def fun_eq_iff)

section \<open>The order of the steps\<close>

fun successes :: "event list \<Rightarrow> call list" where
  "successes [] = []"
| "successes (Answered v q r # es) = (if answered_ok r then q # successes es else successes es)"
| "successes (Timer v # es) = successes es"

lemma successes_append [simp]: "successes (es @ fs) = successes es @ successes fs"
  by (induction es rule: successes.induct) auto

text \<open>The calls that brought a session to a state.\<close>

fun trail :: "(string option \<Rightarrow> bool) \<Rightarrow> string \<Rightarrow> call list \<Rightarrow> session_state \<times> string option \<Rightarrow> bool" where
  "trail auth k cs (AUTHENTICATED, d) = (\<exists>a. auth a \<and> subseq [Register_start a] cs)"
| "trail auth k cs (KEY_SUBMITTED, d) =
     (\<exists>a did hex. d = Some did \<and> auth a \<and> subseq [Register_start a, Register_pubkey k did hex] cs)"
| "trail auth k cs (POP_VERIFIED, d) =
     (\<exists>a did hex sg. d = Some did \<and> auth a \<and> subseq [Register_start a, Register_pubkey k did hex, Register_pop k sg] cs)"
| "trail auth k cs (METADATA_ACCEPTED, d) =
     (\<exists>a did hex sg body. d = Some did \<and> auth a \<and> md_session_id body = k \<and>
        subseq [Register_start a, Register_pubkey k did hex, Register_pop k sg, Register_metadata body] cs)"

lemma subseq_more: "subseq xs ys \<Longrightarrow> subseq xs (ys @ zs)"
  by (rule list_emb_prefix)

lemma subseq_snoc: "subseq xs ys \<Longrightarrow> subseq (xs @ [q]) (ys @ [q])"
  by (intro list_emb_append_mono) auto

lemma trail_more: "trail auth k cs x \<Longrightarrow> trail auth k (cs @ ds) x"
  using subseq_more by (cases "(auth, k, cs, x)" rule: trail.cases) (simp, blast)+

lemma trail_back: "trail auth k cs (KEY_SUBMITTED, d) \<Longrightarrow> trail auth k cs (AUTHENTICATED, d')"
proof -
  have "subseq [Register_start a] cs" if "subseq [Register_start a, Register_pubkey k did hex] cs" for a did hex
    by (rule subseq_order.order_trans [OF _ that]) simp
  then show "trail auth k cs (KEY_SUBMITTED, d) \<Longrightarrow> trail auth k cs (AUTHENTICATED, d')" by auto
qed

lemma onboard_trail:
  assumes "onboard auth q ok m m'" and m: "\<And>k x. m k = Some x \<Longrightarrow> trail auth k cs x" and m': "m' k = Some x"
  shows "trail auth k (cs @ (if ok then [q] else [])) x"
  using assms(1)
proof (cases rule: onboard.cases)
  case (opened a j)
  show ?thesis
  proof (cases "j = k")
    case True
    then show ?thesis using opened m' subseq_snoc [of "[]" cs q] by auto
  next
    case False
    with opened m' have "m k = Some x" by simp
    from trail_more [OF m [OF this]] show ?thesis .
  qed
next
  case (submitted j d did hex)
  show ?thesis
  proof (cases "j = k")
    case True
    with submitted m [of j "(AUTHENTICATED, d)"] obtain a where "auth a" "subseq [Register_start a] cs" by auto
    with True submitted m' subseq_snoc [of "[Register_start a]" cs q] show ?thesis by clarsimp blast
  next
    case False
    with submitted m' have "m k = Some x" by simp
    from trail_more [OF m [OF this]] show ?thesis .
  qed
next
  case (rejected j did sg)
  show ?thesis
  proof (cases "j = k")
    case True
    with rejected m' trail_back [OF m [of j "(KEY_SUBMITTED, Some did)"]] show ?thesis by clarsimp blast
  next
    case False
    with rejected m m' show ?thesis by simp
  qed
next
  case (proven j did sg)
  show ?thesis
  proof (cases "j = k")
    case True
    with proven m [of j "(KEY_SUBMITTED, Some did)"] obtain a hex where
      "auth a" "subseq [Register_start a, Register_pubkey k did hex] cs" by auto
    with True proven m' subseq_snoc [of "[Register_start a, Register_pubkey k did hex]" cs q] show ?thesis by clarsimp blast
  next
    case False
    with proven m' have "m k = Some x" by simp
    from trail_more [OF m [OF this]] show ?thesis .
  qed
next
  case (accepted body did)
  show ?thesis
  proof (cases "md_session_id body = k")
    case True
    with accepted m [of k "(POP_VERIFIED, Some did)"] obtain a hex sg where
      "auth a" "subseq [Register_start a, Register_pubkey k did hex, Register_pop k sg] cs" by auto
    with True accepted m' subseq_snoc [of "[Register_start a, Register_pubkey k did hex, Register_pop k sg]" cs q]
    show ?thesis by clarsimp blast
  next
    case False
    with accepted m' have "m k = Some x" by simp
    from trail_more [OF m [OF this]] show ?thesis .
  qed
next
  case (expired j)
  with m m' show ?thesis by (auto split: if_splits)
next
  case idle
  with m m' trail_more show ?thesis by auto
qed

lemma run_trail:
  assumes "ecdsa_ok P" "fog_inv P c0" "view c0 = Map.empty"
  shows "fog_run P c0 es c \<Longrightarrow> view c k = Some x \<Longrightarrow> trail (authorised c0) k (successes es) x"
proof (induction es arbitrary: c k x rule: rev_induct)
  case Nil
  with assms(3) show ?case by simp
next
  case (snoc e es)
  then obtain c1 where run: "fog_run P c0 es c1" and step: "fog_step P c1 e c"
    by (auto simp: fog_run_append fog_run_Cons)
  have auth: "authorised c1 = authorised c0"
    using run_config [OF run] by (auto simp: authorised_def config_of_def fun_eq_iff)
  show ?case
  proof (cases e)
    case (Answered v q r)
    with step have h: "handle P v q c1 = (r, c)" by (simp add: fog_step_answered)
    from handle_refines [OF run_inv [OF assms(1) run assms(2)] h] auth
    have ref: "onboard (authorised c0) q (answered_ok r) (view c1) (view c)" by simp
    from onboard_trail [OF ref snoc.IH [OF run] snoc.prems(2)] Answered show ?thesis by (cases "answered_ok r") simp_all
  next
    case (Timer v)
    with step have "view c = view c1" by (simp add: fog_step_timer timer_view)
    with snoc.IH [OF run, of k x] snoc.prems(2) Timer show ?thesis by simp
  qed
qed

section \<open>Properties\<close>

text \<open>
  C5: registration implements its state machine. Whatever call the node handles, in any state it can be
  in, the sessions move exactly as \<open>onboard\<close> says: a session is opened only for a header with a
  provisioned key; a key is taken only in the first state, and only for a DID that no other session
  holds; a failed proof of possession sends the session back to the first state, a passed one
  forward; metadata is taken only after it; a success reply and the move come together; and every
  other call changes no session except by dropping an expired one.
\<close>

theorem registration_implements_machine:
  assumes "ecdsa_ok P" and "reachable P c" and "handle P v q c = (r, c')"
  shows "onboard (authorised c) q (answered_ok r) (view c) (view c')"
  by (rule handle_refines [OF reachable_inv [OF assms(2,1)] assms(3)])

text \<open>
  C12: nobody skips a step. If in a run of a node, from its start, a session has had its metadata accepted
  for a DID, then the run contains, in this order, a successful start with a provisioned key, a
  successful submission of a key for that DID in that session, a successful proof of possession in that
  session, and a successful submission of metadata in it.
\<close>

theorem registration_in_order:
  assumes "ecdsa_ok P"
    and "create_app psk_file entries sk No_file challenge_ttl session_ttl carry admin = Inr c0"
    and "fog_run P c0 es c" and "view c k = Some (METADATA_ACCEPTED, d)"
  shows "\<exists>a did hex sg body. d = Some did \<and> authorised c0 a \<and> md_session_id body = k \<and>
    subseq [Register_start a, Register_pubkey k did hex, Register_pop k sg, Register_metadata body] (successes es)"
  using run_trail [OF assms(1) first_start_inv [OF assms(2)] create_app_view [OF assms(2)] assms(3,4)] by simp

end
