(* ===== verification/Access.thy ===== *)
theory Access
  imports System
begin

text \<open>
  What an ALLOW of the node means, at both access endpoints and over whole runs: the checks that led to
  it, that revoking a device or a token ends all access, that an allowed request cannot be replayed, and
  that a known device is never overwritten by a new registration.
\<close>

section \<open>Decisions\<close>

fun allowed :: "reply \<Rightarrow> bool" where
  "allowed (Reply (JObj fs)) = (dict_get fs ''decision'' = Some (JStr ''ALLOW''))"
| "allowed _ = False"

lemma allowed_decisions [simp]:
  "\<not> allowed (Reply (token_deny a b))" "allowed (Reply token_allow)"
  "\<not> allowed (Reply (verify_deny a b i e))" "allowed (Reply (verify_allow e role))"
  by (simp_all add: token_deny_def token_allow_def verify_deny_def verify_allow_def)

lemma current_decision_allowed:
  "allowed (Reply (current_decision did e rs op D)) \<longleftrightarrow>
     (\<exists>rec role. dict_get D did = Some rec \<and> dr_status rec = REGISTERED \<and> dr_role rec = Some role \<and>
        role_valid_for_type (dr_device_type rec) (Some role) \<and> check_policy rs op role \<and>
        current_decision did e rs op D = verify_allow e role)"
  by (auto simp: current_decision_def device_get_def role_valid_for_type_def split: option.splits if_splits)

text \<open>The bytes of a signature field at \<open>/verify\<close>: empty when it is no hex.\<close>

definition signature_bytes :: "string \<Rightarrow> bytes" where
  "signature_bytes sg = (case from_hex sg of Inl _ \<Rightarrow> [] | Inr b \<Rightarrow> b)"

lemma verify_allowedD:
  assumes "verify_and_authorize P now pkg rs op nonce sg c = (r, c')" "allowed r"
  obtains p root pk rec role b where "parse_package P pkg = Inr p"
    "trusted_root_of (fg_ledger c) (json_field pkg ''epoch_id'') = Some root"
    "accepts P p (Some root) (public_key_bytes P (fg_signing_key c))" "from_hex (pp_public_key p) = Inr pk"
    "verify P pk (verify_message (pp_did p) (py_str P (json_field pkg ''epoch_id'')) nonce rs op) (signature_bytes sg)"
    "dict_get (fg_devices c) (pp_did p) = Some rec" "dr_status rec = REGISTERED" "dr_role rec = Some role"
    "role_valid_for_type (dr_device_type rec) (Some role)" "check_policy rs op role"
    "nonce_consume (now 0) verify_nonce_purpose (JStr (py_str P (JStr (pp_did p)))) nonce (tk_nonces (fg_token_state c)) = (Nonce_ok, b)"
    "c' = put_nonces b c" "r = Reply (verify_allow (json_field pkg ''epoch_id'') role)"
proof -
  let ?did = "json_field pkg ''did''" and ?e = "json_field pkg ''epoch_id''"
  obtain status b where n: "nonce_consume (now 0) verify_nonce_purpose (JStr (py_str P ?did)) nonce
    (tk_nonces (fg_token_state c)) = (status, b)" by fastforce
  let ?c = "put_nonces b c"
  from assms n have ok: "status = Nonce_ok"
    by (auto simp: verify_and_authorize_def Let_def split: if_splits)
  let ?v = "case parse_package P pkg of Inl e \<Rightarrow> Inl e | Inr p \<Rightarrow>
    verify_proof_package P p (trusted_root_of (fg_ledger c) ?e) (public_key_bytes P (fg_signing_key c))"
  have step: "(r, c') = (case ?v of
      Inl _ \<Rightarrow> (Reply (verify_deny ''malformed_proof_package'' ''proof package parser'' False ?e), ?c)
    | Inr result \<Rightarrow> if \<not> vr_ok result then (Reply (verify_deny (reason_text (vr_reason result)) (vr_detected_by result) False ?e), ?c)
        else (possession_decision P pkg ?did ?e nonce rs op sg ?c, ?c))"
    using assms(1) unfolding verify_and_authorize_def Let_def n ok prod.case put_simps by simp
  obtain result where res: "?v = Inr result" "vr_ok result"
    and r: "r = possession_decision P pkg ?did ?e nonce rs op sg ?c" "c' = ?c"
    using step assms(2) by (cases ?v) (auto split: if_splits)
  from res(1) obtain p where p: "parse_package P pkg = Inr p"
    "verify_proof_package P p (trusted_root_of (fg_ledger c) ?e) (public_key_bytes P (fg_signing_key c)) = Inr result"
    by (cases "parse_package P pkg") auto
  from p(2) res(2) have acc: "accepts P p (trusted_root_of (fg_ledger c) ?e) (public_key_bytes P (fg_signing_key c))"
    by (simp add: accepts_def)
  then obtain root where root: "trusted_root_of (fg_ledger c) ?e = Some root" unfolding accepts_iff by blast
  from acc obtain pk where pk: "from_hex (pp_public_key p) = Inr pk" unfolding accepts_iff recompute_leaf_ok_iff by blast
  have did: "?did = JStr (pp_did p)" using parse_package_did [OF p(1)] by (simp add: json_field_def)
  have "dict_get pkg ''public_key'' = Some (JStr (pp_public_key p))"
    using p(1) by (auto simp: parse_package_def split: sum.splits option.splits json.splits)
  with r(1) pk did assms(2) have
    v: "verify P pk (verify_message (pp_did p) (py_str P ?e) nonce rs op) (signature_bytes sg)"
    and d: "r = Reply (current_decision (pp_did p) ?e rs op (fg_devices c))"
    by (auto simp: possession_decision_def signature_bytes_def Let_def split: if_splits)
  from assms(2) d obtain rec role where "dict_get (fg_devices c) (pp_did p) = Some rec" "dr_status rec = REGISTERED"
    "dr_role rec = Some role" "role_valid_for_type (dr_device_type rec) (Some role)" "check_policy rs op role"
    "current_decision (pp_did p) ?e rs op (fg_devices c) = verify_allow ?e role"
    unfolding d current_decision_allowed by blast
  with that [OF p(1) root _ pk v] acc root n ok did r(2) d show thesis by simp
qed

text \<open>The fields a token must have for an ALLOW, and what was checked of them.\<close>

lemma access_allowedD:
  assumes "tokens_access P now token nonce rs op sg c = (r, c')" "allowed r"
  obtains tid did ty role b where "token_signature_valid P token (fg_signing_key c)"
    "dict_get token ''token_id'' = Some (JStr tid)" "dict_get token ''did'' = Some (JStr did)"
    "dict_get token ''device_type'' = Some (JStr ty)" "dict_get token ''role'' = Some (JStr role)"
    "\<not> token_expired P (now 0) token"
    "nonce_consume (now 1) token_nonce_purpose (JStr tid) nonce (tk_nonces (fg_token_state c)) = (Nonce_ok, b)"
    "c' = put_nonces b c" "\<not> is_revoked (fg_token_state c) tid" "\<not> is_device_revoked (fg_devices c) did"
    "access_signature_valid P token nonce rs op sg" "provisional_allowed ty rs op" "check_policy rs op role"
proof -
  from assms have s: "token_signature_valid P token (fg_signing_key c)" by (auto simp: tokens_access_def split: if_splits)
  from assms s obtain jt jd where j: "json_item (JObj token) ''token_id'' = Inr jt" "json_item (JObj token) ''did'' = Inr jd"
    by (auto simp: tokens_access_def split: sum.splits)
  obtain status b where n: "nonce_consume (now 1) token_nonce_purpose jt nonce (tk_nonces (fg_token_state c)) = (status, b)" by fastforce
  from assms s j n have x: "\<not> token_expired P (now 0) token" "status = Nonce_ok" "c' = put_nonces b c"
    and r: "r = provisional_decision P token jt jd nonce rs op sg (put_nonces b c)"
    by (auto simp: tokens_access_def split: if_splits)
  from n x(2) obtain tid where tid: "jt = JStr tid" by (auto simp: consume_ok_iff)
  from r assms(2) have rev: "token_or_device_revoked (put_nonces b c) jt jd = Inr False"
    and sig: "access_signature_valid P token nonce rs op sg"
    by (auto simp: provisional_decision_def split: sum.splits bool.splits if_splits)
  from sig obtain did where did: "jd = JStr did"
    using j(2) by (cases jd) (auto simp: access_signature_valid_def token_text_def split: sum.splits)
  from r assms(2) rev sig obtain ty where ty: "json_item (JObj token) ''device_type'' = Inr (JStr ty)" "provisional_allowed ty rs op"
    by (auto simp: provisional_decision_def split: sum.splits if_splits json.splits)
  from r assms(2) rev sig ty obtain role where role: "json_item (JObj token) ''role'' = Inr (JStr role)" "check_policy rs op role"
    by (auto simp: provisional_decision_def split: sum.splits if_splits bool.splits elim!: hashable.elims)
  from rev tid did have "\<not> is_revoked (fg_token_state c) tid" "\<not> is_device_revoked (fg_devices c) did"
    by (auto simp: token_or_device_revoked_def is_revoked_def split: bool.splits)
  with that [OF s _ _ _ _ x(1)] j ty role n x tid did sig show thesis by (simp split: option.splits)
qed

section \<open>What never changes\<close>

text \<open>A record stays, with its key, and a revocation stays; a revoked token stays revoked.\<close>

definition records_kept :: "device_store \<Rightarrow> device_store \<Rightarrow> bool" where
  "records_kept D D' \<longleftrightarrow> (\<forall>did rec. dict_get D did = Some rec \<longrightarrow>
     (\<exists>rec'. dict_get D' did = Some rec' \<and> dr_public_key rec' = dr_public_key rec \<and>
        (dr_status rec = REVOKED \<longrightarrow> dr_status rec' = REVOKED)))"

lemma records_kept_refl [simp]: "records_kept D D"
  by (simp add: records_kept_def)

lemma records_kept_trans: "records_kept D D' \<Longrightarrow> records_kept D' D'' \<Longrightarrow> records_kept D D''"
  unfolding records_kept_def by (metis (no_types, lifting))

lemma records_kept_upsert:
  assumes "\<And>rec. dict_get D (dr_did d) = Some rec \<Longrightarrow>
    dr_public_key d = dr_public_key rec \<and> (dr_status rec = REVOKED \<longrightarrow> dr_status d = REVOKED)"
  shows "records_kept D (device_upsert d D)"
  using assms by (auto simp: records_kept_def device_upsert_def dict_simps)

lemma records_kept_status:
  assumes "\<And>rec. dict_get D did = Some rec \<Longrightarrow> dr_status rec = REVOKED \<Longrightarrow> s = REVOKED"
  shows "records_kept D (set_status did s D)"
  using assms by (auto simp: records_kept_def device_get_status)

lemma records_kept_closed:
  assumes "epoch_closed P ms E D L r E' D' L'" "dict_dom ms = next_members ex E D"
  shows "records_kept D D'"
proof -
  have D': "dict_get D' k = (case dict_get (er_packages r) k of None \<Rightarrow> dict_get D k
      | Some pkg \<Rightarrow> map_option (\<lambda>rec. rec\<lparr>dr_status := REGISTERED, dr_leaf := Some (pp_leaf pkg),
                      dr_epoch_id := Some (em_current_epoch_id E)\<rparr>) (dict_get D k))" for k
    using assms(1) unfolding epoch_closed_def by (elim conjE) simp
  have dom: "dict_dom (er_packages r) = next_members ex E D" using assms by (simp add: epoch_closed_def)
  show ?thesis
    unfolding records_kept_def
  proof (intro allI impI)
    fix did rec assume rec: "dict_get D did = Some rec"
    show "\<exists>rec'. dict_get D' did = Some rec' \<and> dr_public_key rec' = dr_public_key rec \<and>
        (dr_status rec = REVOKED \<longrightarrow> dr_status rec' = REVOKED)"
    proof (cases "dict_get (er_packages r) did")
      case None
      with D' rec show ?thesis by simp
    next
      case (Some pkg)
      with dom have "did \<in> next_members ex E D" using dict_dom_iff by (metis option.distinct(1))
      with rec have "dr_status rec \<noteq> REVOKED" by (auto simp: next_members_def)
      with D' rec Some show ?thesis by simp
    qed
  qed
qed

lemma records_kept_finalize:
  assumes "ecdsa_ok P" "fog_inv P c"
    "finalize_epoch P ts n rnd ex (fg_epochs c) (fg_devices c) (fg_ledger c) = (res, E, D, L)"
  shows "records_kept (fg_devices c) D"
proof -
  note e = epochs_invD [OF fog_invD(2) [OF assms(2)]]
  show ?thesis
  proof (cases rule: finalize_epoch_cases [OF assms(1) e(1) e(5) [OF order.refl] e(2), of ex ts n rnd])
    case (2 pl r E' D' L')
    with records_kept_closed [OF 2(5,3)] assms(3) show ?thesis by simp
  qed (use assms(3) in auto)
qed

lemma register_pop_kept:
  assumes inv: "fog_inv P c" and h: "register_pop P now k sg c = (r, c')"
  shows "records_kept (fg_devices c) (fg_devices c')"
proof (cases "session_or_404 (now 0) k c")
  case (Pair x c1)
  from inv Pair show ?thesis
  proof (cases rule: session_or_404_cases)
    case 1
    with Pair h have "fg_devices c' = fg_devices c1" by (auto simp: register_pop_def)
    moreover have "fg_devices c1 = fg_devices c" using Pair by (auto simp: session_or_404_def split: prod.splits option.splits)
    ultimately show ?thesis by simp
  next
    case (2 s)
    note i = fog_invD(1) [OF inv]
    show ?thesis
    proof (cases "ss_state s = KEY_SUBMITTED")
      case True
      with sessions_invD(1) [OF i 2(3)] have key: "key_submitted_ok s" and no: "the (ss_did s) \<notin> dict_dom (fg_devices c)"
        by (simp_all add: session_ok_def onboarding_iff)
      obtain res s' where pop: "verify_pop P (now 1) sg s = (res, s')" by fastforce
      have did: "ss_did s' = ss_did s" using verify_pop_session [OF pop] by auto
      have "records_kept (fg_devices c) (device_upsert (new_device did hex PENDING) (fg_devices c))" if "ss_did s = Some did" for did hex
        using no that by (intro records_kept_upsert) (auto simp: new_device_def dict_dom_iff)
      with h 2 Pair True pop did show ?thesis
        by (auto simp: register_pop_def require_state_def Let_def split: sum.splits prod.splits bool.splits option.splits)
    qed (use h 2 Pair in \<open>auto simp: register_pop_def require_state_def\<close>)
  qed
qed

lemma register_metadata_kept:
  assumes inv: "fog_inv P c" and h: "register_metadata now body c = (r, c')"
  shows "records_kept (fg_devices c) (fg_devices c')"
proof (cases "session_or_404 (now 0) (md_session_id body) c")
  case (Pair x c1)
  then have dev: "fg_devices c1 = fg_devices c" by (auto simp: session_or_404_def split: prod.splits option.splits)
  have md: "records_kept D (device_upsert (with_metadata body rec) D)" (is ?one)
    and md2: "records_kept D (device_upsert ((with_metadata body rec)\<lparr>dr_leaf := l\<rparr>) (device_upsert (with_metadata body rec) D))" (is ?two)
    if "dict_get D did = Some rec" "devices_ok D" for D did rec l
  proof -
    have "dr_did rec = did" using that devices_ok_get by blast
    then show ?one ?two
      using that(1) by (auto simp: records_kept_def with_metadata_def device_upsert_def dict_simps)
  qed
  show ?thesis
    using h Pair dev md md2 fog_invD(6) [OF inv]
    by (auto simp: register_metadata_def session_record_def device_get_def Let_def
        split: sum.splits option.splits if_splits prod.splits exn.splits)
qed

lemma tokens_issue_kept:
  assumes "fog_inv P c" "tokens_issue P now rnd n k c = (r, c')"
  shows "records_kept (fg_devices c) (fg_devices c')"
  using assms(2) devices_ok_get [OF fog_invD(6) [OF assms(1)]]
  by (auto simp: tokens_issue_def device_get_def Let_def intro!: records_kept_status
      split: prod.splits option.splits if_splits)

lemma handle_kept:
  assumes "ecdsa_ok P" "fog_inv P c" "handle P v q c = (r, c')"
  shows "records_kept (fg_devices c) (fg_devices c')"
proof (cases q)
  case (Epoch_close ex k)
  then show ?thesis
    using assms(3) records_kept_finalize [OF assms(1,2)] by (auto simp: epoch_close_def split: if_splits prod.splits)
next
  case (Tokens_access token nonce rs op sg)
  with assms(3) tokens_access_state [of P "ev_now v" token nonce rs op sg c r c'] show ?thesis by auto
next
  case (Verify_access pkg rs op nonce sg)
  with assms(3) verify_state [of P "ev_now v" pkg rs op nonce sg c] show ?thesis by auto
next
  case (Register_pop k sg)
  with assms register_pop_kept show ?thesis by simp
next
  case (Register_metadata body)
  with assms register_metadata_kept show ?thesis by simp
next
  case (Tokens_issue k)
  with assms tokens_issue_kept show ?thesis by simp
next
  case (Revoke did tid only k)
  with assms(3) show ?thesis
    by (auto simp: revoke_def revoke_device_def revoke_token_def Let_def intro!: records_kept_status
        split: if_splits option.splits prod.splits bool.splits)
next
  case (Register_pubkey k did hex)
  with assms(3) show ?thesis
    by (auto simp: register_pubkey_def session_or_404_def issue_challenge_def Let_def
        split: prod.splits option.splits sum.splits if_splits)
next
  case (Register_start a)
  with assms(3) show ?thesis
    by (auto simp: register_start_def split: prod.splits option.splits sum.splits bool.splits)
qed (use assms(3) in \<open>auto simp: health_def epoch_current_def route_get_proof_def registry_root_def registry_verify_def
      revocation_status_def tokens_nonce_def verify_nonce_def Let_def split: if_splits option.splits sum.splits prod.splits\<close>)

lemma timer_kept:
  assumes "ecdsa_ok P" "fog_inv P c"
  shows "records_kept (fg_devices c) (fg_devices (timer_turn P v c))"
  using records_kept_finalize [OF assms]
  by (auto simp: timer_turn_def auto_close_turn_def split: prod.splits sum.splits exn.splits)

lemma step_kept: "ecdsa_ok P \<Longrightarrow> fog_inv P c \<Longrightarrow> fog_step P c e c' \<Longrightarrow> records_kept (fg_devices c) (fg_devices c')"
  by (erule fog_step_cases) (auto dest: handle_kept timer_kept)

lemma run_kept:
  "fog_run P c es c' \<Longrightarrow> ecdsa_ok P \<Longrightarrow> fog_inv P c \<Longrightarrow> records_kept (fg_devices c) (fg_devices c')"
proof (induction rule: fog_run.induct)
  case (move c e c' es c'')
  with step_kept step_inv show ?case by (metis records_kept_trans)
qed simp

lemma kept_revoked: "records_kept D D' \<Longrightarrow> is_device_revoked D did \<Longrightarrow> is_device_revoked D' did"
  unfolding records_kept_def is_device_revoked_iff by metis

definition book :: "'sk fog \<Rightarrow> nonce_book" where
  "book c = tk_nonces (fg_token_state c)"

text \<open>The event issues the nonce.\<close>

fun issues :: "event \<Rightarrow> string \<Rightarrow> bool" where
  "issues (Answered v (Tokens_nonce _) r) n \<longleftrightarrow> n = to_hex (ev_rnd v)"
| "issues (Answered v (Verify_nonce _) r) n \<longleftrightarrow> n = to_hex (ev_rnd v)"
| "issues _ n \<longleftrightarrow> False"

fun uses_book :: "call \<Rightarrow> bool" where
  "uses_book (Tokens_nonce _) = True"
| "uses_book (Verify_nonce _) = True"
| "uses_book (Tokens_access _ _ _ _ _) = True"
| "uses_book (Verify_access _ _ _ _ _) = True"
| "uses_book _ = False"

lemma revoke_tokens: "revoke did tid only k c = (r, c') \<Longrightarrow>
    tk_nonces (fg_token_state c') = tk_nonces (fg_token_state c) \<and> tk_revoked (fg_token_state c) \<subseteq> tk_revoked (fg_token_state c')"
  by (auto simp: revoke_def revoke_device_def revoke_token_def Let_def fold_revoke token_revoke_def
      split: if_splits option.splits prod.splits bool.splits)

lemma other_tokens:
  assumes "handle P v q c = (r, c')" "\<not> uses_book q"
  shows "book c' = book c \<and> tk_revoked (fg_token_state c) \<subseteq> tk_revoked (fg_token_state c')"
proof (cases q)
  case (Revoke did tid only k)
  with assms(1) revoke_tokens show ?thesis by (simp add: book_def)
next
  case (Tokens_issue k)
  with assms(1) show ?thesis
    by (auto simp: book_def tokens_issue_def record_issued_def Let_def split: prod.splits option.splits if_splits)
next
  case (Register_pubkey k did hex)
  with assms(1) show ?thesis
    by (auto simp: book_def register_pubkey_def session_or_404_def issue_challenge_def Let_def
        split: prod.splits option.splits sum.splits if_splits)
next
  case (Register_pop k sg)
  with assms(1) show ?thesis
    by (auto simp: book_def register_pop_def session_or_404_def require_state_def Let_def
        split: prod.splits option.splits sum.splits if_splits bool.splits)
next
  case (Register_metadata body)
  with assms(1) show ?thesis
    by (auto simp: book_def register_metadata_def session_or_404_def require_state_def Let_def
        split: prod.splits option.splits sum.splits if_splits exn.splits)
qed (use assms in \<open>auto simp: book_def health_def register_start_def epoch_current_def epoch_close_def route_get_proof_def
      registry_root_def registry_verify_def revocation_status_def Let_def
      split: if_splits option.splits sum.splits prod.splits bool.splits\<close>)

lemma handle_book:
  assumes "handle P v q c = (r, c')" "nonces_ok (book c)" "\<not> issues (Answered v q r) n" "spendable (book c') n"
  shows "spendable (book c) n"
proof (cases q)
  case (Tokens_nonce t)
  with assms issue_spendable [of "book c" "ev_rnd v" "ev_now v 0" token_nonce_purpose t _ _ n] show ?thesis
    by (auto simp: book_def tokens_nonce_def nonce_issue_def Let_def split: if_splits)
next
  case (Verify_nonce d)
  with assms issue_spendable [of "book c" "ev_rnd v" "ev_now v 0" verify_nonce_purpose d _ _ n] show ?thesis
    by (auto simp: book_def verify_nonce_def nonce_issue_def Let_def split: if_splits)
next
  case (Tokens_access token nonce rs op sg)
  with assms tokens_access_state [of P "ev_now v" token nonce rs op sg c r c'] consume_spendable show ?thesis
    by (auto simp: book_def)
next
  case (Verify_access pkg rs op nonce sg)
  with assms(1) verify_state [of P "ev_now v" pkg rs op nonce sg c] have
    "c' = put_nonces (snd (nonce_consume (ev_now v 0) verify_nonce_purpose (JStr (py_str P (json_field pkg ''did''))) nonce (book c))) c"
    by (simp add: book_def)
  with assms(4) consume_spendable show ?thesis by (auto simp: book_def)
qed (use assms other_tokens [OF assms(1)] in auto)

lemma handle_revoked:
  assumes "handle P v q c = (r, c')"
  shows "tk_revoked (fg_token_state c) \<subseteq> tk_revoked (fg_token_state c')"
proof (cases q)
  case (Tokens_access token nonce rs op sg)
  with assms tokens_access_state [of P "ev_now v" token nonce rs op sg c r c'] show ?thesis by auto
next
  case (Verify_access pkg rs op nonce sg)
  with assms verify_state [of P "ev_now v" pkg rs op nonce sg c] show ?thesis by auto
qed (use assms other_tokens [OF assms] in \<open>auto simp: tokens_nonce_def verify_nonce_def split: if_splits prod.splits\<close>)

lemma timer_tokens: "fg_token_state (timer_turn P v c) = fg_token_state c"
  by (simp add: timer_turn_def split: prod.split)

lemma step_book: "fog_step P c e c' \<Longrightarrow> fog_inv P c \<Longrightarrow> \<not> issues e n \<Longrightarrow> spendable (book c') n \<Longrightarrow> spendable (book c) n"
  using fog_invD(5) [of P c]
  by (auto elim!: fog_step_cases intro: handle_book simp: tokens_inv_def book_def [symmetric])
    (simp add: book_def timer_tokens)

lemma run_revoked: "fog_run P c es c' \<Longrightarrow> tk_revoked (fg_token_state c) \<subseteq> tk_revoked (fg_token_state c')"
proof (induction rule: fog_run.induct)
  case (move c e c' es c'')
  from move.hyps(1) have "tk_revoked (fg_token_state c) \<subseteq> tk_revoked (fg_token_state c')"
    by (auto elim!: fog_step_cases simp: timer_tokens dest!: handle_revoked)
  with move.IH show ?case by blast
qed simp

lemma run_book:
  "fog_run P c es c' \<Longrightarrow> ecdsa_ok P \<Longrightarrow> fog_inv P c \<Longrightarrow> \<not> spendable (book c) n \<Longrightarrow> list_all (\<lambda>e. \<not> issues e n) es \<Longrightarrow>
     \<not> spendable (book c') n"
proof (induction rule: fog_run.induct)
  case (move c e c' es c'')
  with step_book [OF move.hyps(1)] step_inv [OF _ move.hyps(1)] show ?case by auto
qed simp

text \<open>The request of an access call: whose it is, its nonce, and the token it presents.\<close>

fun nonce_of :: "call \<Rightarrow> string option" where
  "nonce_of (Tokens_access _ nonce _ _ _) = Some nonce"
| "nonce_of (Verify_access _ _ _ nonce _) = Some nonce"
| "nonce_of _ = None"

fun names_device :: "call \<Rightarrow> string \<Rightarrow> bool" where
  "names_device (Tokens_access token _ _ _ _) did \<longleftrightarrow> dict_get token ''did'' = Some (JStr did)"
| "names_device (Verify_access pkg _ _ _ _) did \<longleftrightarrow> dict_get pkg ''did'' = Some (JStr did)"
| "names_device _ did \<longleftrightarrow> False"

fun names_token :: "call \<Rightarrow> string \<Rightarrow> bool" where
  "names_token (Tokens_access token _ _ _ _) tid \<longleftrightarrow> dict_get token ''token_id'' = Some (JStr tid)"
| "names_token _ tid \<longleftrightarrow> False"

lemma allowed_spends:
  assumes "handle P v q c = (r, c')" "allowed r" "nonce_of q = Some n"
  shows "spendable (book c) n \<and> \<not> spendable (book c') n"
proof (cases q)
  case (Tokens_access token nonce rs op sg)
  with assms have "tokens_access P (ev_now v) token n rs op sg c = (r, c')" by simp
  then show ?thesis
    by (rule access_allowedD [OF _ assms(2)]) (use consume_ok_spends in \<open>fastforce simp: book_def\<close>)
next
  case (Verify_access pkg rs op nonce sg)
  with assms have "verify_and_authorize P (ev_now v) pkg rs op n sg c = (r, c')" by simp
  then show ?thesis
    by (rule verify_allowedD [OF _ assms(2)]) (use consume_ok_spends in \<open>fastforce simp: book_def\<close>)
qed (use assms in auto)

lemma revoked_denied:
  assumes "handle P v q c = (r, c')" "names_device q did \<and> is_device_revoked (fg_devices c) did \<or> names_token q tid \<and> is_revoked (fg_token_state c) tid"
  shows "\<not> allowed r"
proof
  assume a: "allowed r"
  show False
  proof (cases q)
    case (Tokens_access token nonce rs op sg)
    with assms(1) have "tokens_access P (ev_now v) token nonce rs op sg c = (r, c')" by simp
    then show False by (rule access_allowedD [OF _ a]) (use assms(2) Tokens_access in auto)
  next
    case (Verify_access pkg rs op nonce sg)
    with assms(1) have "verify_and_authorize P (ev_now v) pkg rs op nonce sg c = (r, c')" by simp
    then show False
      by (rule verify_allowedD [OF _ a]) (use assms(2) Verify_access parse_package_did in \<open>fastforce simp: is_device_revoked_iff\<close>)
  qed (use assms in auto)
qed

section \<open>Where a token comes from\<close>

lemma tokens_issue_okD:
  assumes "tokens_issue P now rnd n k c = (Reply v, c')"
  obtains s did rec t where "v = JObj t" "dict_get (st_sessions (fg_sessions c)) k = Some s"
    "ss_state s = METADATA_ACCEPTED" "ss_did s = Some did" "dict_get (fg_devices c) did = Some rec"
    "dr_status rec \<notin> {REVOKED, REGISTERED}" "role_valid_for_type (dr_device_type rec) (dr_role rec)"
    "t = issue_token P rnd n (now 1) (dr_did rec) (dr_public_key rec) (dr_device_type rec) (dr_role rec)
       (fg_signing_key c) token_ttl_seconds (Some (em_current_epoch_id (fg_epochs c)))"
proof -
  obtain a st where g: "session_get (now 0) k (fg_sessions c) = (a, st)" by fastforce
  with assms obtain s where s: "a = Some s" by (auto simp: tokens_issue_def split: option.splits)
  with g have sess: "dict_get (st_sessions (fg_sessions c)) k = Some s" by (simp add: session_get_Some_iff)
  from assms g s have st: "ss_state s = METADATA_ACCEPTED" by (auto simp: tokens_issue_def Let_def split: if_splits)
  from assms g s st obtain did rec where d: "ss_did s = Some did" "dict_get (fg_devices c) did = Some rec"
    by (auto simp: tokens_issue_def device_get_def Let_def split: option.splits)
  from assms g s st d have ok: "dr_status rec \<notin> {REVOKED, REGISTERED}" "role_valid_for_type (dr_device_type rec) (dr_role rec)"
    by (auto simp: tokens_issue_def device_get_def Let_def split: if_splits)
  with assms g s st d show thesis
    by (intro that [OF _ sess st d ok refl]) (auto simp: tokens_issue_def device_get_def Let_def)
qed

text \<open>The texts the fog signs in a run: tokens it issued, and packages and blocks, whatever their contents.\<close>

definition issued_in :: "event list \<Rightarrow> token \<Rightarrow> bool" where
  "issued_in es t \<longleftrightarrow> (\<exists>v k. Answered v (Tokens_issue k) (Reply (JObj t)) \<in> set es)"

definition fog_texts :: "'sk platform \<Rightarrow> event list \<Rightarrow> bytes set" where
  "fog_texts P es =
     {cjson P (JObj (signed_fields t)) | t. issued_in es t} \<union>
     {package_message P did leaf rt e fog | did leaf rt e fog. True} \<union>
     {cjson P (JObj b) | b. dict_ok b \<and> dict_dom b \<subseteq> set body_fields}"

text \<open>
  The fog's key verifies the signature of the token over a text that the fog has not signed in the run:
  a forgery, or a token from before the run.
\<close>

definition forged_in :: "'sk platform \<Rightarrow> event list \<Rightarrow> bytes \<Rightarrow> token \<Rightarrow> bool" where
  "forged_in P es fog_pk token \<longleftrightarrow>
     (\<exists>v s. dict_get token ''signature'' = Some v \<and> json_as_bytes v = Inr s \<and>
        verify P fog_pk (cjson P (JObj (signed_fields token))) s \<and> cjson P (JObj (signed_fields token)) \<notin> fog_texts P es)"

lemma signed_or_forged:
  assumes "token_signature_valid P token fog_key"
  obtains "forged_in P es (public_key_bytes P fog_key) token" | "cjson P (JObj (signed_fields token)) \<in> fog_texts P es"
  using assms that by (auto simp: token_signature_valid_def forged_in_def split: sum.splits option.splits)

lemma cjson_lookup:
  assumes "float_repr_ok (float_repr P)" "cjson P (JObj d) = cjson P (JObj d')" "dict_ok d" "dict_ok d'"
  shows "map_option sort_keys (dict_get d k) = map_option sort_keys (dict_get d' k)"
proof -
  have "sort_keys (JObj d) = sort_keys (JObj d')" using assms(2) canonical_json_inject [OF assms(1)] by blast
  from sort_keys_lookup [OF this assms(3,4)] show ?thesis .
qed

text \<open>A token-shaped object among these texts is an issued token: packages and blocks have no \<open>token_id\<close>.\<close>

lemma fog_text_token:
  assumes f: "float_repr_ok (float_repr P)" and ok: "dict_ok token" "dict_get token ''token_id'' \<noteq> None"
    and m: "cjson P (JObj (signed_fields token)) \<in> fog_texts P es"
  obtains t where "issued_in es t" "cjson P (JObj (signed_fields token)) = cjson P (JObj (signed_fields t))"
proof -
  have tid: "dict_get (signed_fields token) ''token_id'' \<noteq> None" using ok(2) by (simp add: signed_fields_get)
  note look = cjson_lookup [OF f _ signed_fields_ok [OF ok(1)], where k = "''token_id''"]
  have no_package: "cjson P (JObj (signed_fields token)) \<noteq> package_message P did leaf rt e fog" for did leaf rt e fog
    using look tid unfolding package_message_def by fastforce
  have no_block: "cjson P (JObj (signed_fields token)) \<noteq> cjson P (JObj b)" if "dict_ok b" "dict_dom b \<subseteq> set body_fields" for b
  proof
    assume "cjson P (JObj (signed_fields token)) = cjson P (JObj b)"
    from look [OF this that(1)] tid have "''token_id'' \<in> dict_dom b"
      by (cases "dict_get b ''token_id''") (auto simp: dict_dom_iff)
    with that(2) show False by (auto simp: body_fields_def)
  qed
  from m no_package no_block that show thesis unfolding fog_texts_def by blast
qed

text \<open>A token whose text the fog signed in the run is one it issued there, for the device of its record.\<close>

lemma token_origin:
  assumes P: "platform_ok P" and inv: "fog_inv P c0" and run: "fog_run P c0 es c" and ok: "dict_ok token"
    and signed: "cjson P (JObj (signed_fields token)) \<in> fog_texts P es"
    and t: "dict_get token ''token_id'' = Some (JStr tid)" "dict_get token ''did'' = Some (JStr did)"
      "dict_get token ''device_type'' = Some (JStr ty)" "dict_get token ''role'' = Some (JStr role)"
  shows "\<exists>xs v k zs t c1 rec. es = xs @ Answered v (Tokens_issue k) (Reply (JObj t)) # zs \<and> fog_run P c0 xs c1 \<and>
    (\<forall>f. f \<noteq> ''signature'' \<longrightarrow> map_option sort_keys (dict_get token f) = map_option sort_keys (dict_get t f)) \<and>
    (\<exists>s. dict_get (st_sessions (fg_sessions c1)) k = Some s \<and> ss_state s = METADATA_ACCEPTED \<and> ss_did s = Some did) \<and>
    dict_get (fg_devices c1) did = Some rec \<and> role_valid_for_type (dr_device_type rec) (dr_role rec) \<and>
    dr_device_type rec = Some ty \<and> dr_role rec = Some role \<and>
    dict_get token ''public_key'' = Some (JStr (dr_public_key rec))"
proof -
  have P': "ecdsa_ok P" "float_repr_ok (float_repr P)" using P by (simp_all add: platform_ok_def)
  from fog_text_token [OF P'(2) ok _ signed] t(1) obtain t0 where
    t0: "issued_in es t0" "cjson P (JObj (signed_fields token)) = cjson P (JObj (signed_fields t0))" by auto
  then obtain v k xs zs where es: "es = xs @ Answered v (Tokens_issue k) (Reply (JObj t0)) # zs"
    unfolding issued_in_def by (metis split_list)
  with run obtain c1 c2 where first: "fog_run P c0 xs c1" and h: "handle P v (Tokens_issue k) c1 = (Reply (JObj t0), c2)"
    by (auto simp: fog_run_append fog_run_Cons fog_step_answered)
  from h have "tokens_issue P (ev_now v) (ev_rnd v) (ev_seed v) k c1 = (Reply (JObj t0), c2)" by simp
  then obtain s did0 rec where s: "dict_get (st_sessions (fg_sessions c1)) k = Some s"
    "ss_state s = METADATA_ACCEPTED" "ss_did s = Some did0" "dict_get (fg_devices c1) did0 = Some rec"
    "role_valid_for_type (dr_device_type rec) (dr_role rec)"
    and tok: "t0 = issue_token P (ev_rnd v) (ev_seed v) (ev_now v 1) (dr_did rec) (dr_public_key rec) (dr_device_type rec)
       (dr_role rec) (fg_signing_key c1) token_ttl_seconds (Some (em_current_epoch_id (fg_epochs c1)))"
    by (rule tokens_issue_okD) simp
  have did0: "dr_did rec = did0"
    using devices_ok_get [OF fog_invD(6) [OF run_inv [OF P'(1) first inv]] s(4)] .
  note get = issue_token_get [of P "ev_rnd v" "ev_seed v" "ev_now v 1" "dr_did rec" "dr_public_key rec" "dr_device_type rec"
       "dr_role rec" "fg_signing_key c1" token_ttl_seconds "Some (em_current_epoch_id (fg_epochs c1))", folded tok]
  have same: "map_option sort_keys (dict_get token f) = map_option sort_keys (dict_get t0 f)" if "f \<noteq> ''signature''" for f
    using signed_text_determines [OF P'(2) ok get(7) t0(2) that] .
  have str: "dict_get token f = Some (JStr x)" if "dict_get t0 f = Some (JStr x)" "f \<noteq> ''signature''" for f x
  proof -
    from same [OF that(2)] that(1) obtain y where "dict_get token f = Some y" "sort_keys y = JStr x" by auto
    then show ?thesis by (cases y) auto
  qed
  from str [OF get(2)] t(2) did0 have did: "did0 = did" by simp
  from s(5) obtain ty0 role0 where r0: "dr_device_type rec = Some ty0" "dr_role rec = Some role0"
    by (auto simp: role_valid_for_type_def split: option.splits)
  with str [of "''device_type''" ty0] str [of "''role''" role0] get(4,5) t(3,4) have "ty0 = ty" "role0 = role" by simp_all
  with r0 have kind: "dr_device_type rec = Some ty" "dr_role rec = Some role" by simp_all
  have fields: "\<forall>f. f \<noteq> ''signature'' \<longrightarrow> map_option sort_keys (dict_get token f) = map_option sort_keys (dict_get t0 f)"
    using same by blast
  have session: "ss_did s = Some did" "dict_get (fg_devices c1) did = Some rec" using s(3,4) did by simp_all
  show ?thesis
    by (intro exI conjI) (fact es, fact first, fact fields, fact s(1), fact s(2), fact session(1), fact session(2),
      fact s(5), fact kind(1), fact kind(2), fact str [OF get(3), simplified])
qed

section \<open>A package is a token to the signature check\<close>

text \<open>The fields of a package under the names \<open>/tokens/access\<close> reads; the signature is the package's own.\<close>

definition package_token :: "proof_package \<Rightarrow> token" where
  "package_token p =
     [(''did'', JStr (pp_did p)), (''leaf'', JStr (pp_leaf p)), (''root'', JStr (pp_root p)),
      (''epoch_id'', JInt (pp_epoch_id p)), (''fog_id'', JStr (pp_fog_id p)), (''signature'', JStr (pp_fog_signature p))]"

lemma package_token_valid:
  assumes "accepts P p trusted (public_key_bytes P sk)"
  shows "token_signature_valid P (package_token p) sk"
  using assms unfolding accepts_iff
  by (auto simp: token_signature_valid_def package_token_def signed_fields_def package_message_def)

section \<open>Properties\<close>

text \<open>
  C1: what an ALLOW at \<open>/verify\<close> means, in every state the node can be in. The package's DID and key are a
  member of the tree that the registry anchored for the stated epoch (or the package's path exhibits a
  collision with that tree); the request, down to its nonce, resource and operation, is signed under that
  key; the nonce was issued for this DID and this purpose, was unused and fresh, and is now used; the
  device is registered at this moment, so not revoked; and the role the fog has on record fits its type
  and may do the operation on the resource.
\<close>

theorem verify_allow_sound:
  assumes "ecdsa_ok P" and "reachable P c"
    and "verify_and_authorize P now pkg rs op nonce sg c = (r, c')" and "allowed r"
  shows "\<exists>p root_hex mem t pk rec role e.
    parse_package P pkg = Inr p \<and>
    trusted_root_of (fg_ledger c) (json_field pkg ''epoch_id'') = Some root_hex \<and>
    merkle_init (member_leaves mem) True = Inr t \<and> root_hex = mt_root_hex t \<and> from_hex (pp_public_key p) = Inr pk \<and>
    ((pp_did p, pk) \<in> set mem \<and> pp_did p = derive_did pk \<or>
     path_collision (pp_did p) pk (map dump_step (pp_proof_path p)) (member_preimages mem) (mt_leaves t)) \<and>
    verify P pk (verify_message (pp_did p) (py_str P (json_field pkg ''epoch_id'')) nonce rs op) (signature_bytes sg) \<and>
    dict_get (nb_entries (book c)) nonce = Some e \<and> ne_purpose e = verify_nonce_purpose \<and>
    ne_subject e = py_str P (JStr (pp_did p)) \<and> \<not> ne_used e \<and> now 0 \<le> ne_expires_at e \<and> \<not> spendable (book c') nonce \<and>
    device_get (fg_devices c) (pp_did p) = Some rec \<and> dr_status rec = REGISTERED \<and> dr_role rec = Some role \<and>
    role_valid_for_type (dr_device_type rec) (Some role) \<and> check_policy rs op role \<and>
    r = Reply (verify_allow (json_field pkg ''epoch_id'') role)"
proof (rule verify_allowedD [OF assms(3,4)])
  fix p root_hex pk rec role b
  assume p: "parse_package P pkg = Inr p" "trusted_root_of (fg_ledger c) (json_field pkg ''epoch_id'') = Some root_hex"
    "accepts P p (Some root_hex) (public_key_bytes P (fg_signing_key c))" "from_hex (pp_public_key p) = Inr pk"
    and n: "nonce_consume (now 0) verify_nonce_purpose (JStr (py_str P (JStr (pp_did p)))) nonce (tk_nonces (fg_token_state c)) = (Nonce_ok, b)"
    and c': "c' = put_nonces b c"
    and rest: "verify P pk (verify_message (pp_did p) (py_str P (json_field pkg ''epoch_id'')) nonce rs op) (signature_bytes sg)"
      "dict_get (fg_devices c) (pp_did p) = Some rec" "dr_status rec = REGISTERED" "dr_role rec = Some role"
      "role_valid_for_type (dr_device_type rec) (Some role)" "check_policy rs op role"
      "r = Reply (verify_allow (json_field pkg ''epoch_id'') role)"
  obtain ep where "get_root (fg_ledger c) ep = Some root_hex"
    using p(2) by (cases "(fg_ledger c, json_field pkg ''epoch_id'')" rule: trusted_root_of.cases) auto
  with epochs_invD(6) [OF fog_invD(2) [OF reachable_inv [OF assms(2,1)]]] obtain mem where "commits_to root_hex mem" by blast
  then obtain t where keys: "\<forall>(d, k)\<in>set mem. length k = compressed_pk_len \<and> d = derive_did k"
    and t: "merkle_init (member_leaves mem) True = Inr t" "root_hex = mt_root_hex t" unfolding commits_to_def by blast
  from accepts_member [OF t(1) _ p(3) [unfolded t(2)]] keys p(4) have
    "(pp_did p, pk) \<in> set mem \<and> pp_did p = derive_did pk \<or>
     path_collision (pp_did p) pk (map dump_step (pp_proof_path p)) (member_preimages mem) (mt_leaves t)" by fastforce
  moreover have "\<not> spendable (book c') nonce" using consume_ok_spends [OF n] by (simp add: c' book_def)
  moreover from n obtain e where "dict_get (nb_entries (book c)) nonce = Some e" "ne_purpose e = verify_nonce_purpose"
     "ne_subject e = py_str P (JStr (pp_did p))" "\<not> ne_used e" "now 0 \<le> ne_expires_at e"
    unfolding consume_ok_iff book_def by auto
  ultimately show ?thesis using p t rest unfolding device_get_def by blast
qed

text \<open>
  C2: what an ALLOW at \<open>/tokens/access\<close> means. The token is alive, neither it nor its device is revoked,
  the request is signed under the key in the token, the nonce is fresh and now used, and the operation is a
  provisional one on the device's own type that the role in the token may do. And unless the fog's key
  verifies the token's signature over a text that the fog did not sign in the run (an explicit forgery, or a
  token from before the run), the token is one that the fog issued earlier in the run, field by field, to
  a session whose metadata it had accepted, for the device, key, type and role of the fog's own record.
\<close>

theorem access_allow_sound:
  assumes "platform_ok P" and "fog_inv P c0" and "fog_run P c0 es c"
    and "tokens_access P now token nonce rs op sg c = (r, c')" and "allowed r" and "dict_ok token"
  shows "\<exists>tid did ty role.
    dict_get token ''token_id'' = Some (JStr tid) \<and> dict_get token ''did'' = Some (JStr did) \<and>
    dict_get token ''device_type'' = Some (JStr ty) \<and> dict_get token ''role'' = Some (JStr role) \<and>
    \<not> token_expired P (now 0) token \<and> \<not> is_revoked (fg_token_state c) tid \<and> \<not> is_device_revoked (fg_devices c) did \<and>
    access_signature_valid P token nonce rs op sg \<and> provisional_allowed ty rs op \<and> check_policy rs op role \<and>
    spendable (book c) nonce \<and> \<not> spendable (book c') nonce \<and>
    (forged_in P es (public_key_bytes P (fg_signing_key c)) token \<or>
     (\<exists>xs v k zs t c1 rec. es = xs @ Answered v (Tokens_issue k) (Reply (JObj t)) # zs \<and> fog_run P c0 xs c1 \<and>
        (\<forall>f. f \<noteq> ''signature'' \<longrightarrow> map_option sort_keys (dict_get token f) = map_option sort_keys (dict_get t f)) \<and>
        (\<exists>s. dict_get (st_sessions (fg_sessions c1)) k = Some s \<and> ss_state s = METADATA_ACCEPTED \<and> ss_did s = Some did) \<and>
        dict_get (fg_devices c1) did = Some rec \<and> role_valid_for_type (dr_device_type rec) (dr_role rec) \<and>
        dr_device_type rec = Some ty \<and> dr_role rec = Some role \<and>
        dict_get token ''public_key'' = Some (JStr (dr_public_key rec))))"
proof (rule access_allowedD [OF assms(4,5)])
  fix tid did ty role b
  assume signed: "token_signature_valid P token (fg_signing_key c)"
    and t: "dict_get token ''token_id'' = Some (JStr tid)" "dict_get token ''did'' = Some (JStr did)"
    "dict_get token ''device_type'' = Some (JStr ty)" "dict_get token ''role'' = Some (JStr role)"
    and live: "\<not> token_expired P (now 0) token"
    and n: "nonce_consume (now 1) token_nonce_purpose (JStr tid) nonce (tk_nonces (fg_token_state c)) = (Nonce_ok, b)" "c' = put_nonces b c"
    and chk: "\<not> is_revoked (fg_token_state c) tid" "\<not> is_device_revoked (fg_devices c) did"
      "access_signature_valid P token nonce rs op sg" "provisional_allowed ty rs op" "check_policy rs op role"
  have spent: "spendable (book c) nonce" "\<not> spendable (book c') nonce"
    using consume_ok_spends [OF n(1)] by (simp_all add: n(2) book_def)
  from signed have origin: "forged_in P es (public_key_bytes P (fg_signing_key c)) token \<or>
     (\<exists>xs v k zs t c1 rec. es = xs @ Answered v (Tokens_issue k) (Reply (JObj t)) # zs \<and> fog_run P c0 xs c1 \<and>
        (\<forall>f. f \<noteq> ''signature'' \<longrightarrow> map_option sort_keys (dict_get token f) = map_option sort_keys (dict_get t f)) \<and>
        (\<exists>s. dict_get (st_sessions (fg_sessions c1)) k = Some s \<and> ss_state s = METADATA_ACCEPTED \<and> ss_did s = Some did) \<and>
        dict_get (fg_devices c1) did = Some rec \<and> role_valid_for_type (dr_device_type rec) (dr_role rec) \<and>
        dr_device_type rec = Some ty \<and> dr_role rec = Some role \<and>
        dict_get token ''public_key'' = Some (JStr (dr_public_key rec)))"
  proof (cases rule: signed_or_forged [where es = es])
    case 2
    from token_origin [OF assms(1-3,6) 2 t] show ?thesis by (rule disjI2)
  qed (rule disjI1)
  show ?thesis
    by (rule exI [of _ tid], rule exI [of _ did], rule exI [of _ ty], rule exI [of _ role], intro conjI)
      (fact t | fact live | fact chk | fact spent | fact origin)+
qed

text \<open>
  C3: revocation is final. Once a device is revoked, in whatever way, no request that names it is ever
  allowed again in the run of the node, at either endpoint, with any package, token, nonce or signature;
  and once a token is revoked, no request with that token is.
\<close>

theorem revocation_is_final:
  assumes "ecdsa_ok P" and "fog_inv P c" and "fog_run P c es c'"
    and "Answered v q r \<in> set es"
    and "is_device_revoked (fg_devices c) did \<and> names_device q did \<or> is_revoked (fg_token_state c) tid \<and> names_token q tid"
  shows "\<not> allowed r"
proof -
  obtain xs ys where es: "es = xs @ Answered v q r # ys" using assms(4) by (metis split_list)
  with assms(3) obtain c1 c2 where run: "fog_run P c xs c1" and h: "handle P v q c1 = (r, c2)"
    by (auto simp: fog_run_append fog_run_Cons fog_step_answered)
  have "is_device_revoked (fg_devices c) did \<Longrightarrow> is_device_revoked (fg_devices c1) did"
    by (rule kept_revoked [OF run_kept [OF run assms(1,2)]])
  moreover have "is_revoked (fg_token_state c) tid \<Longrightarrow> is_revoked (fg_token_state c1) tid"
    using run_revoked [OF run] by (auto simp: is_revoked_def)
  ultimately show ?thesis using revoked_denied [OF h, of did tid] assms(5) by blast
qed

text \<open>
  C4: an allowed request cannot be replayed. If two requests of a run, at either endpoint, were allowed
  with the same nonce, then between the two the node itself handed out that very nonce again, that is,
  its generator repeated 16 random bytes.
\<close>

theorem replay_denied:
  assumes "ecdsa_ok P" and "fog_inv P c"
    and "fog_run P c (xs @ Answered v q r # ys @ Answered v' q' r' # zs) c'"
    and "allowed r" and "allowed r'" and "nonce_of q = Some n" and "nonce_of q' = Some n"
  shows "list_ex (\<lambda>e. issues e n) ys"
proof (rule ccontr)
  assume no: "\<not> list_ex (\<lambda>e. issues e n) ys"
  from assms(3) obtain c1 c2 c3 c4 where runs: "fog_run P c xs c1" "handle P v q c1 = (r, c2)" "fog_run P c2 ys c3"
    "handle P v' q' c3 = (r', c4)"
    by (auto simp: fog_run_append fog_run_Cons fog_step_answered)
  have inv: "fog_inv P c2" using handle_inv [OF assms(1) run_inv [OF assms(1) runs(1) assms(2)] runs(2)] .
  have "\<not> spendable (book c2) n" using allowed_spends [OF runs(2) assms(4,6)] by blast
  from run_book [OF runs(3) assms(1) inv this] no have "\<not> spendable (book c3) n"
    by (simp add: list_all_iff list_ex_iff)
  with allowed_spends [OF runs(4) assms(5,7)] show False by blast
qed

text \<open>
  C26: an identity is taken once and for all. Once the node has a record for a DID, in the rest of the run
  the record stays with the same key, a revoked one stays revoked, and no submission of a key for that
  DID succeeds. In particular a revoked device cannot come back by registering again, and neither can one
  whose session ran out between its proof of possession and its metadata.
\<close>

theorem known_device_not_replaced:
  assumes "ecdsa_ok P" and "fog_inv P c" and "fog_run P c es c'" and "device_get (fg_devices c) did = Some rec"
  shows "(\<exists>rec'. device_get (fg_devices c') did = Some rec' \<and> dr_public_key rec' = dr_public_key rec \<and>
      (dr_status rec = REVOKED \<longrightarrow> dr_status rec' = REVOKED)) \<and>
    (\<forall>v k hex r. Answered v (Register_pubkey k did hex) r \<in> set es \<longrightarrow> \<not> (\<exists>body. r = Reply body))"
proof (intro conjI allI impI notI)
  show "\<exists>rec'. device_get (fg_devices c') did = Some rec' \<and> dr_public_key rec' = dr_public_key rec \<and>
      (dr_status rec = REVOKED \<longrightarrow> dr_status rec' = REVOKED)"
    using run_kept [OF assms(3,1,2)] assms(4) unfolding records_kept_def device_get_def by blast
next
  fix v k hex r assume "Answered v (Register_pubkey k did hex) r \<in> set es" "\<exists>body. r = Reply body"
  then obtain xs ys body where es: "es = xs @ Answered v (Register_pubkey k did hex) (Reply body) # ys" by (metis split_list)
  with assms(3) obtain c1 c2 where run: "fog_run P c xs c1" and h: "handle P v (Register_pubkey k did hex) c1 = (Reply body, c2)"
    by (auto simp: fog_run_append fog_run_Cons fog_step_answered)
  have "device_get (fg_devices c1) did \<noteq> None"
    using run_kept [OF run assms(1,2)] assms(4) unfolding records_kept_def device_get_def by fastforce
  with h show False
    by (auto simp: register_pubkey_def session_or_404_def require_state_def Let_def split: prod.splits option.splits sum.splits if_splits)
qed

text \<open>
  C40: the fog signs tokens and packages with one key and no tag that tells them apart. A proof package that
  the verifier accepts passes the token signature check when its signed fields are sent as a token, and the
  request then fails with an unhandled \<open>KeyError\<close>, an internal error, instead of a denial.
\<close>

theorem package_passes_as_token:
  assumes "accepts P p trusted (public_key_bytes P (fg_signing_key c))"
  shows "token_signature_valid P (package_token p) (fg_signing_key c) \<and>
    tokens_access P now (package_token p) nonce rs op sg c = (Server_error KeyError, c)"
  using package_token_valid [OF assms] by (simp add: tokens_access_def) (simp add: package_token_def)

end
