(* ===== verification/Device.thy ===== *)
theory Device
  imports System
begin

text \<open>
  The device side: devices/device.py (onboarding) and devices/runtime_client.py (tokens and access). A
  request is a call on the fog of the model, so a method is a function on the pair of the device and
  the fog: \<open>Inl\<close> is the exception it raises. Each call gets its own environment (clock and randomness of
  the fog), and the device's signatures their own randomness. TLS and the transport are left out, and so
  are the key store on disk and timings. An answer other than 200 is raised with its status and detail;
  the detail of an internal error is the framework's text. A device without a session sends null, which
  the schema of the fog refuses with status 422; the text of that refusal is left out.
\<close>

section \<open>The device and its answers\<close>

definition default_vendor :: string where "default_vendor = ''Acme''"
definition sim_device_type :: "string \<times> string" where "sim_device_type = (''temperature_sensor'', ''sensor'')"

record 'sk device =
  dv_name :: string
  dv_psk :: string
  dv_private_key :: 'sk
  dv_pk_bytes :: bytes
  dv_did :: string
  dv_session_id :: "string option"
  dv_leaf :: "string option"
  dv_proof_package :: "(string, json) dict option"

datatype client_error =
    Registration_error string nat json
  | Access_error string nat json
  | Client_exception exn

type_synonym ('sk, 'a) action = "'sk device \<times> 'sk fog \<Rightarrow> (client_error + 'a) \<times> 'sk device \<times> 'sk fog"

definition device_init :: "'sk platform \<Rightarrow> string \<Rightarrow> string \<Rightarrow> 'sk \<Rightarrow> 'sk device" where
  "device_init P name psk private_key =
     \<lparr>dv_name = name, dv_psk = psk, dv_private_key = private_key, dv_pk_bytes = public_key_bytes P private_key,
      dv_did = derive_did (public_key_bytes P private_key), dv_session_id = None, dv_leaf = None, dv_proof_package = None\<rparr>"

definition public_key_hex :: "'sk device \<Rightarrow> string" where
  "public_key_hex d = to_hex (dv_pk_bytes d)"

text \<open>The status and the detail of an answer.\<close>

fun status_detail :: "reply \<Rightarrow> nat \<times> json" where
  "status_detail (Reply v) = (200, JNull)"
| "status_detail (Http_error n detail) = (n, detail)"
| "status_detail (Server_error e) = (500, JStr ''Internal Server Error'')"

definition json_or_raise :: "(nat \<Rightarrow> json \<Rightarrow> client_error) \<Rightarrow> reply \<Rightarrow> client_error + json" where
  "json_or_raise err r = (case r of Reply v \<Rightarrow> Inr v | _ \<Rightarrow> Inl (case status_detail r of (n, detail) \<Rightarrow> err n detail))"

definition invoke :: "'sk platform \<Rightarrow> env \<Rightarrow> (nat \<Rightarrow> json \<Rightarrow> client_error) \<Rightarrow> call \<Rightarrow> ('sk, json) action" where
  "invoke P v err q s = (case s of (d, c) \<Rightarrow> (case handle P v q c of (r, c') \<Rightarrow> (json_or_raise err r, d, c')))"

definition and_then :: "('sk, 'a) action \<Rightarrow> ('a \<Rightarrow> ('sk, 'b) action) \<Rightarrow> ('sk, 'b) action" where
  "and_then m f s = (case m s of (Inl e, s') \<Rightarrow> (Inl e, s') | (Inr a, s') \<Rightarrow> f a s')"

text \<open>\<open>data[k]\<close>, where a text is needed.\<close>

definition text_at :: "json \<Rightarrow> string \<Rightarrow> client_error + string" where
  "text_at v k =
     (case json_item v k of
        Inl e \<Rightarrow> Inl (Client_exception e)
      | Inr (JStr s) \<Rightarrow> Inr s
      | Inr _ \<Rightarrow> Inl (Client_exception TypeError))"

definition post :: "'sk platform \<Rightarrow> env \<Rightarrow> string \<Rightarrow> call \<Rightarrow> ('sk, json) action" where
  "post P v stage q = invoke P v (Registration_error stage) q"

section \<open>Onboarding\<close>

definition dev_register_start :: "'sk platform \<Rightarrow> env \<Rightarrow> ('sk, string) action" where
  "dev_register_start P v s =
     (case s of (d, c) \<Rightarrow>
        and_then (post P v ''register_start'' (Register_start (Some (''PSK '' @ dv_name d @ '':'' @ dv_psk d))))
          (\<lambda>data (d, c). case text_at data ''session_id'' of
             Inl e \<Rightarrow> (Inl e, d, c)
           | Inr k \<Rightarrow> (Inr k, d\<lparr>dv_session_id := Some k\<rparr>, c)) s)"

definition submit_public_key :: "'sk platform \<Rightarrow> env \<Rightarrow> ('sk, string) action" where
  "submit_public_key P v s =
     (case s of (d, c) \<Rightarrow>
        case dv_session_id d of
          None \<Rightarrow> (Inl (Registration_error ''submit_public_key'' 422 JNull), s)
        | Some k \<Rightarrow>
            and_then (post P v ''submit_public_key'' (Register_pubkey k (dv_did d) (public_key_hex d)))
              (\<lambda>data s'. (text_at data ''challenge'', s')) s)"

definition sign_challenge :: "'sk platform \<Rightarrow> nat \<Rightarrow> 'sk device \<Rightarrow> string \<Rightarrow> client_error + string" where
  "sign_challenge P n d challenge_hex =
     (case from_hex challenge_hex of
        Inl e \<Rightarrow> Inl (Client_exception e)
      | Inr challenge \<Rightarrow> Inr (to_hex (sign P (dv_private_key d) n (pop_message challenge (dv_did d)))))"

definition prove_possession :: "'sk platform \<Rightarrow> env \<Rightarrow> nat \<Rightarrow> string \<Rightarrow> ('sk, json) action" where
  "prove_possession P v n challenge_hex s =
     (case s of (d, c) \<Rightarrow>
        case sign_challenge P n d challenge_hex of
          Inl e \<Rightarrow> (Inl e, s)
        | Inr signature \<Rightarrow>
            (case dv_session_id d of
               None \<Rightarrow> (Inl (Registration_error ''prove_possession'' 422 JNull), s)
             | Some k \<Rightarrow> post P v ''prove_possession'' (Register_pop k signature) s))"

definition or_default :: "string option \<Rightarrow> string \<Rightarrow> string" where
  "or_default x y = (case x of None \<Rightarrow> y | Some t \<Rightarrow> if t = [] then y else t)"

definition metadata_body ::
    "'sk device \<Rightarrow> string \<Rightarrow> string option \<Rightarrow> string option \<Rightarrow> string \<Rightarrow> string \<Rightarrow> metadata_request" where
  "metadata_body d k device_type role vendor zone =
     (let (default_type, default_role) =
        (case dict_get demo_devices (dv_name d) of None \<Rightarrow> sim_device_type | Some tr \<Rightarrow> tr)
      in \<lparr>md_session_id = k, md_device_name = dv_name d, md_device_type = or_default device_type default_type,
          md_zone = zone, md_vendor = vendor, md_role = or_default role default_role\<rparr>)"

definition submit_metadata ::
    "'sk platform \<Rightarrow> env \<Rightarrow> string option \<Rightarrow> string option \<Rightarrow> string \<Rightarrow> string \<Rightarrow> ('sk, json) action" where
  "submit_metadata P v device_type role vendor zone s =
     (case s of (d, c) \<Rightarrow>
        case dv_session_id d of
          None \<Rightarrow> (Inl (Registration_error ''submit_metadata'' 422 JNull), s)
        | Some k \<Rightarrow>
            and_then (post P v ''submit_metadata'' (Register_metadata (metadata_body d k device_type role vendor zone)))
              (\<lambda>data (d, c). case text_at data ''leaf'' of
                 Inl e \<Rightarrow> (Inl e, d, c)
               | Inr leaf \<Rightarrow> (Inr data, d\<lparr>dv_leaf := Some leaf\<rparr>, c)) s)"

definition fetch_proof :: "'sk platform \<Rightarrow> env \<Rightarrow> int option \<Rightarrow> ('sk, (string, json) dict) action" where
  "fetch_proof P v epoch_id s =
     (case s of (d, c) \<Rightarrow>
        and_then (post P v ''fetch_proof'' (Get_proof (dv_did d) epoch_id))
          (\<lambda>data (d, c). case data of
             JObj pkg \<Rightarrow> (Inr pkg, d\<lparr>dv_proof_package := Some pkg\<rparr>, c)
           | _ \<Rightarrow> (Inl (Client_exception TypeError), d, c)) s)"

text \<open>\<open>register\<close>: the whole of phase 1; \<open>onboard\<close> stops after the proof of possession.\<close>

definition dev_onboard :: "'sk platform \<Rightarrow> (nat \<Rightarrow> env) \<Rightarrow> nat \<Rightarrow> ('sk, json) action" where
  "dev_onboard P vs n =
     and_then (dev_register_start P (vs 0))
       (\<lambda>_. and_then (submit_public_key P (vs 1)) (prove_possession P (vs 2) n))"

definition dev_register :: "'sk platform \<Rightarrow> (nat \<Rightarrow> env) \<Rightarrow> nat \<Rightarrow> ('sk, json) action" where
  "dev_register P vs n =
     and_then (dev_onboard P vs n) (\<lambda>_. submit_metadata P (vs 3) None None default_vendor fog_zone)"

section \<open>Tokens and access\<close>

definition request_token :: "'sk platform \<Rightarrow> env \<Rightarrow> ('sk, token) action" where
  "request_token P v s =
     (case s of (d, c) \<Rightarrow>
        case dv_session_id d of
          None \<Rightarrow> (Inl (Access_error ''token issue'' 422 JNull), s)
        | Some k \<Rightarrow>
            and_then (invoke P v (Access_error ''token issue'') (Tokens_issue k))
              (\<lambda>data s'. case data of JObj token \<Rightarrow> (Inr token, s') | _ \<Rightarrow> (Inl (Client_exception TypeError), s')) s)"

definition get_token_nonce :: "'sk platform \<Rightarrow> env \<Rightarrow> string \<Rightarrow> ('sk, string) action" where
  "get_token_nonce P v token_id =
     and_then (invoke P v (Access_error ''token nonce'') (Tokens_nonce token_id)) (\<lambda>data s. (text_at data ''nonce'', s))"

definition build_token_request ::
    "'sk platform \<Rightarrow> nat \<Rightarrow> 'sk \<Rightarrow> token \<Rightarrow> string \<Rightarrow> string \<Rightarrow> string \<Rightarrow> client_error + call" where
  "build_token_request P n private_key token nonce resource operation =
     (case sign_access P n private_key token nonce resource operation of
        Inl e \<Rightarrow> Inl (Client_exception e)
      | Inr signature \<Rightarrow> Inr (Tokens_access token nonce resource operation signature))"

text \<open>The decision and the request, which can be sent again; an internal error has no JSON to decode.\<close>

definition decide :: "'sk platform \<Rightarrow> env \<Rightarrow> call \<Rightarrow> ('sk, json \<times> call) action" where
  "decide P v q s =
     (case s of (d, c) \<Rightarrow>
        (case handle P v q c of
           (Reply decision, c') \<Rightarrow> (Inr (decision, q), d, c')
         | (Http_error n detail, c') \<Rightarrow> (Inr (JObj [(''detail'', detail)], q), d, c')
         | (Server_error e, c') \<Rightarrow> (Inl (Client_exception ValueError), d, c')))"

definition token_access :: "'sk platform \<Rightarrow> (nat \<Rightarrow> env) \<Rightarrow> nat \<Rightarrow> token \<Rightarrow> string \<Rightarrow> string \<Rightarrow> ('sk, json \<times> call) action" where
  "token_access P vs n token resource operation s =
     (case text_at (JObj token) ''token_id'' of
        Inl e \<Rightarrow> (Inl e, s)
      | Inr tid \<Rightarrow>
          and_then (get_token_nonce P (vs 0) tid)
            (\<lambda>nonce (d, c). case build_token_request P n (dv_private_key d) token nonce resource operation of
               Inl e \<Rightarrow> (Inl e, d, c)
             | Inr q \<Rightarrow> decide P (vs 1) q (d, c)) s)"

definition get_verify_nonce :: "'sk platform \<Rightarrow> env \<Rightarrow> string \<Rightarrow> ('sk, string) action" where
  "get_verify_nonce P v did =
     and_then (invoke P v (Access_error ''verify nonce'') (Verify_nonce did)) (\<lambda>data s. (text_at data ''nonce'', s))"

definition build_verify_request ::
    "'sk platform \<Rightarrow> nat \<Rightarrow> 'sk \<Rightarrow> (string, json) dict \<Rightarrow> string \<Rightarrow> string \<Rightarrow> string \<Rightarrow> client_error + call" where
  "build_verify_request P n private_key pkg nonce resource operation =
     (case sign_verify_request P n private_key pkg nonce resource operation of
        Inl e \<Rightarrow> Inl (Client_exception e)
      | Inr signature \<Rightarrow> Inr (Verify_access pkg resource operation nonce signature))"

definition verify_access ::
    "'sk platform \<Rightarrow> (nat \<Rightarrow> env) \<Rightarrow> nat \<Rightarrow> string \<Rightarrow> string \<Rightarrow> (string, json) dict option \<Rightarrow> ('sk, json \<times> call) action" where
  "verify_access P vs n resource operation given s =
     (case s of (d, c) \<Rightarrow>
        case (case given of None \<Rightarrow> dv_proof_package d | Some pkg \<Rightarrow> if pkg = [] then dv_proof_package d else Some pkg) of
          None \<Rightarrow> (Inl (Client_exception TypeError), s)
        | Some pkg \<Rightarrow>
            (case text_at (JObj pkg) ''did'' of
               Inl e \<Rightarrow> (Inl e, s)
             | Inr did \<Rightarrow>
                 and_then (get_verify_nonce P (vs 0) did)
                   (\<lambda>nonce (d, c). case build_verify_request P n (dv_private_key d) pkg nonce resource operation of
                      Inl e \<Rightarrow> (Inl e, d, c)
                    | Inr q \<Rightarrow> decide P (vs 1) q (d, c)) s))"

end
