(* ===== verification/Honest_Run.thy ===== *)
theory Honest_Run
  imports Device Access Onboarding
begin

text \<open>
  Liveness: a provisioned device that follows the protocol of devices/device.py and
  devices/runtime_client.py gets its session, its place in the batch, its package and, within its
  role, access; nothing on the way may refuse it. The lemmas give the exact effect of each step on the
  fog when its conditions hold.
\<close>

section \<open>A device is a caller of the fog\<close>

definition drives :: "'sk platform \<Rightarrow> ('sk, 'a) action \<Rightarrow> bool" where
  "drives P m \<longleftrightarrow> (\<forall>s. \<exists>es. fog_run P (snd s) es (snd (snd (m s))))"

lemma drivesD: "drives P m \<Longrightarrow> m (d, c) = (x, d', c') \<Longrightarrow> \<exists>es. fog_run P c es c'"
  unfolding drives_def by (metis snd_conv)

lemma drives_bind:
  assumes m: "drives P m" and f: "\<And>a. drives P (f a)"
  shows "drives P (and_then m f)"
  unfolding drives_def
proof
  fix s
  obtain x d c where ms: "m s = (x, d, c)" by (metis surj_pair)
  from m obtain es where es: "fog_run P (snd s) es c" unfolding drives_def by (metis ms snd_conv)
  show "\<exists>es. fog_run P (snd s) es (snd (snd (and_then m f s)))"
  proof (cases x)
    case (Inl e)
    with es ms show ?thesis by (auto simp: and_then_def)
  next
    case (Inr a)
    from f [of a] obtain fs where "fog_run P c fs (snd (snd (f a (d, c))))" unfolding drives_def by (metis snd_conv)
    with es have "fog_run P (snd s) (es @ fs) (snd (snd (f a (d, c))))" by (auto simp: fog_run_append)
    with ms Inr show ?thesis by (auto simp: and_then_def)
  qed
qed

lemma drives_idle: "(\<And>s. snd (snd (m s)) = snd s) \<Longrightarrow> drives P m"
  unfolding drives_def using fog_run.stop by metis

lemma drives_read: "(\<And>d c. drives P (g d c)) \<Longrightarrow> drives P (\<lambda>s. case s of (d, c) \<Rightarrow> g d c s)"
  unfolding drives_def by (metis (no_types, lifting) case_prod_conv surj_pair)

lemma drives_invoke: "drives P (invoke P v err q)"
  unfolding drives_def
proof
  fix s :: "'a device \<times> 'a fog"
  obtain d c where s: "s = (d, c)" by (metis surj_pair)
  obtain r c' where h: "handle P v q c = (r, c')" by (metis surj_pair)
  then have "fog_run P c [Answered v q r] c'" by (simp add: fog_run_Cons fog_step_answered)
  then show "\<exists>es. fog_run P (snd s) es (snd (snd (invoke P v err q s)))" by (auto simp: s h invoke_def)
qed

lemma drives_session:
  "(\<And>k. drives P (g k)) \<Longrightarrow> drives P (\<lambda>s. case x of None \<Rightarrow> (Inl e, s) | Some k \<Rightarrow> g k s)"
  by (cases x) (simp_all add: drives_idle)

lemma drives_attempt: "(\<And>a. drives P (g a)) \<Longrightarrow> drives P (\<lambda>s. case x of Inl e \<Rightarrow> (Inl e, s) | Inr a \<Rightarrow> g a s)"
  by (cases x) (simp_all add: drives_idle)

lemmas drives_rules = drives_read drives_session drives_attempt drives_bind drives_invoke

lemma drives_onboarding:
  "drives P (dev_register_start P v)" "drives P (submit_public_key P v)" "drives P (prove_possession P v n a)"
  "drives P (submit_metadata P v t r ve z)"
proof -
  show "drives P (dev_register_start P v)"
    unfolding dev_register_start_def [abs_def] post_def
    by (rule drives_read, rule drives_bind [OF drives_invoke drives_idle]) (auto split: prod.split sum.split)
  show "drives P (submit_public_key P v)"
    unfolding submit_public_key_def [abs_def] post_def by (intro drives_rules, rule drives_idle) simp
  show "drives P (prove_possession P v n a)"
    unfolding prove_possession_def [abs_def] post_def by (intro drives_rules)
  show "drives P (submit_metadata P v t r ve z)"
    unfolding submit_metadata_def [abs_def] post_def
    by (rule drives_read, rule drives_session, rule drives_bind [OF drives_invoke drives_idle]) (auto split: prod.split sum.split)
qed

lemma drives_register: "drives P (dev_register P vs n)"
  unfolding dev_register_def dev_onboard_def by (intro drives_bind drives_onboarding)

section \<open>The steps of registration\<close>

lemma start_succeeds:
  assumes "authorised c a"
  obtains i where "register_start now rnd a c =
     (Reply (JObj [(''session_id'', JStr (to_hex rnd)), (''expires_in'', JInt (st_ttl (fg_sessions c)))]),
      put_session (new_session (to_hex rnd) i (now 0)) c)"
proof -
  from assms obtain i psk where "parse_authorization a = Some (i, psk)" "psk_check (fg_psk_store c) i psk = Inr True"
    unfolding authorised_def by blast
  then have "register_start now rnd a c =
     (Reply (JObj [(''session_id'', JStr (to_hex rnd)), (''expires_in'', JInt (st_ttl (fg_sessions c)))]),
      put_session (new_session (to_hex rnd) i (now 0)) c)"
    by (simp add: register_start_def session_create_def new_session_def put_session_def session_put_def Let_def)
  with that show thesis by blast
qed

lemma found_session:
  assumes "dict_get (st_sessions (fg_sessions c)) k = Some s" "t \<le> ss_created_at s + of_int (st_ttl (fg_sessions c))"
  shows "session_or_404 t k c = (Inr s, c)"
  using assms by (simp add: session_or_404_def session_get_def)

lemma session_put_get [simp]:
  "dict_get (st_sessions (session_put s st)) k = (if k = ss_session_id s then Some s else dict_get (st_sessions st) k)"
  "st_ttl (session_put s st) = st_ttl st"
  by (simp_all add: session_put_def dict_simps)

lemma pubkey_succeeds:
  assumes P: "ecdsa_ok P" and inv: "fog_inv P c"
    and s: "dict_get (st_sessions (fg_sessions c)) k = Some s" "now 0 \<le> ss_created_at s + of_int (st_ttl (fg_sessions c))"
      "ss_state s = AUTHENTICATED"
    and did: "did = derive_did (public_key_bytes P sk)" "device_get (fg_devices c) did = None"
    and free: "\<And>j u. dict_get (st_sessions (fg_sessions c)) j = Some u \<Longrightarrow> ss_did u = Some did \<Longrightarrow> ss_state u = AUTHENTICATED"
  shows "register_pubkey P now rnd k did (to_hex (public_key_bytes P sk)) c =
     (Reply (JObj [(''session_id'', JStr k), (''challenge'', JStr (to_hex rnd)), (''expires_in'', JInt (fg_challenge_ttl c))]),
      put_session (s\<lparr>ss_did := Some did, ss_public_key := Some (to_hex (public_key_bytes P sk)),
        ss_challenge := Some (to_hex rnd), ss_challenge_expires := now 1 + of_int (fg_challenge_ttl c),
        ss_challenge_used := False, ss_state := KEY_SUBMITTED\<rparr>) c)"
proof -
  have pk: "parse_public_key P (to_hex (public_key_bytes P sk)) = Inr (public_key_bytes P sk)"
    using P by (simp add: parse_public_key_def load_public_key_def public_key_bytes_def ecdsa_ok_def)
  have id: "ss_session_id s = k" using sessions_invD(2) [OF fog_invD(1) [OF inv] s(1)] .
  have "\<not> did_in_use (fg_sessions c) did k"
    using free unfolding did_in_use_iff [OF fog_invD(1) [OF inv]] onboarding_iff by blast
  with found_session [OF s(1,2)] s(3) pk did id show ?thesis
    by (simp add: register_pubkey_def require_state_def issue_challenge_def Let_def)
qed

lemma pop_succeeds:
  assumes P: "ecdsa_ok P"
    and s: "dict_get (st_sessions (fg_sessions c)) k = Some s" "now 0 \<le> ss_created_at s + of_int (st_ttl (fg_sessions c))"
      "ss_state s = KEY_SUBMITTED" "ss_session_id s = k"
    and f: "ss_did s = Some did" "ss_public_key s = Some (to_hex (public_key_bytes P sk))" "ss_challenge s = Some (to_hex ch)"
      "\<not> ss_challenge_used s" "now 1 \<le> ss_challenge_expires s"
  obtains s' where "register_pop P now k (to_hex (sign P sk n (pop_message ch did))) c =
     (Reply (JObj [(''session_id'', JStr k), (''did'', JStr did), (''status'', JStr ''POP_VERIFIED'')]),
      put_device (new_device did (to_hex (public_key_bytes P sk)) PENDING) (put_session s' c))"
    "ss_session_id s' = k" "ss_state s' = POP_VERIFIED" "ss_did s' = Some did" "ss_created_at s' = ss_created_at s"
    "ss_public_key s' = ss_public_key s"
proof -
  let ?s = "s\<lparr>ss_challenge_used := True, ss_state := POP_VERIFIED, ss_timings := dict_set ''pop_verified_at'' (now 2) (ss_timings s)\<rparr>"
  have "pop_fields s = Inr (public_key_bytes P sk, pop_message ch did)"
    unfolding pop_fields_ok_iff using f by simp
  then have "verify_pop P (now 1) (to_hex (sign P sk n (pop_message ch did))) s = (Inr (True, ''signature valid''), s\<lparr>ss_challenge_used := True\<rparr>)"
    using f verify_sign [OF P] by (simp add: verify_pop_def)
  with found_session [OF s(1,2)] s(3,4) f have
    "register_pop P now k (to_hex (sign P sk n (pop_message ch did))) c =
     (Reply (JObj [(''session_id'', JStr k), (''did'', JStr did), (''status'', JStr ''POP_VERIFIED'')]),
      put_device (new_device did (to_hex (public_key_bytes P sk)) PENDING) (put_session ?s c))"
    by (simp add: register_pop_def require_state_def Let_def)
  then show thesis by (rule that) (use s f in simp_all)
qed

lemma metadata_succeeds:
  assumes inv: "fog_inv P c"
    and s: "dict_get (st_sessions (fg_sessions c)) (md_session_id body) = Some s"
      "now 0 \<le> ss_created_at s + of_int (st_ttl (fg_sessions c))" "ss_state s = POP_VERIFIED" "ss_did s = Some did"
    and ok: "validate_metadata body (fg_zone c) (fg_allowed_types c) = []"
  obtains leaf fields E rec where "register_metadata now body c =
      (Reply (JObj ((''did'', JStr did) # (''leaf'', JStr leaf) # fields)),
       put_session (s\<lparr>ss_state := METADATA_ACCEPTED\<rparr>) (put_device ((with_metadata body rec)\<lparr>dr_leaf := Some leaf\<rparr>)
         ((put_device (with_metadata body rec) c)\<lparr>fg_epochs := E\<rparr>)))"
    "dict_dom (em_pending E) = insert did (queued c)" "em_current_epoch_id E = em_current_epoch_id (fg_epochs c)"
    "dict_get (fg_devices c) did = Some rec" "dr_did rec = did" "dr_status rec \<in> {PENDING, REVOKED}"
    "ss_public_key s = Some (dr_public_key rec)" "\<exists>pend. E = (fg_epochs c)\<lparr>em_pending := pend\<rparr>"
proof -
  note i = fog_invD [OF inv]
  from sessions_invD(1) [OF i(1) s(1)] s(3) have ok': "key_submitted_ok s" "the (ss_did s) \<notin> queued c"
    "\<exists>rec. own_record (fg_devices c) s rec \<and> dr_status rec \<in> {PENDING, REVOKED}"
    by (simp_all add: session_ok_def onboarding_iff)
  then obtain rec pk where r: "dict_get (fg_devices c) did = Some rec" "dr_status rec \<in> {PENDING, REVOKED}"
    "ss_public_key s = Some (dr_public_key rec)" "from_hex (dr_public_key rec) = Inr pk" "length pk = compressed_pk_len" "did = derive_did pk"
    using s(4) unfolding key_submitted_ok_def own_record_def by auto
  have did: "dr_did rec = did" using devices_ok_get [OF i(6) r(1)] .
  from add_leaf_fresh [of did "fg_epochs c" pk "now 1"] ok'(2) s(4) r(5,6) obtain leaf E where
    add: "add_leaf (now 1) did pk (fg_epochs c) = (Inr leaf, E)" by (auto simp: queued_def)
  then have E: "dict_dom (em_pending E) = insert did (queued c)" "em_current_epoch_id E = em_current_epoch_id (fg_epochs c)"
    "\<exists>pend. E = (fg_epochs c)\<lparr>em_pending := pend\<rparr>"
    by (auto simp: add_leaf_def queued_def Let_def split: if_splits sum.splits)
  have "register_metadata now body c =
      (Reply (JObj [(''did'', JStr did), (''leaf'', JStr leaf), (''epoch_id'', JInt (em_current_epoch_id E)),
          (''batch_size'', JInt (int (batch_size E))), (''status'', JStr ''QUEUED_FOR_BATCH'')]),
       put_session (s\<lparr>ss_state := METADATA_ACCEPTED\<rparr>) (put_device ((with_metadata body rec)\<lparr>dr_leaf := Some leaf\<rparr>)
         ((put_device (with_metadata body rec) c)\<lparr>fg_epochs := E\<rparr>)))"
    using found_session [OF s(1,2)] s(3,4) ok r(1,3,4) add
    by (simp add: register_metadata_def require_state_def session_record_def device_get_def Let_def put_device_def)
  with that E r did show thesis by blast
qed

section \<open>The device runs the protocol\<close>

definition default_kind :: "string \<Rightarrow> string \<times> string" where
  "default_kind name = (case dict_get demo_devices name of None \<Rightarrow> sim_device_type | Some tr \<Rightarrow> tr)"

lemma default_kind_ok:
  "fst (default_kind name) \<in> allowed_device_types" "snd (default_kind name) \<in> allowed_roles"
  "role_valid_for_type (Some (fst (default_kind name))) (Some (snd (default_kind name)))"
proof -
  have all: "\<forall>tr\<in>insert sim_device_type (snd ` set demo_devices).
      fst tr \<in> allowed_device_types \<and> snd tr \<in> allowed_roles \<and> (fst tr, snd tr) \<in> role_pairs"
    by (simp add: sim_device_type_def demo_devices_def allowed_device_types_def allowed_roles_def role_pairs_def)
  have "default_kind name \<in> insert sim_device_type (snd ` set demo_devices)"
    by (auto simp: default_kind_def image_iff split: option.split dest!: map_of_SomeD) force
  from bspec [OF all this] show "fst (default_kind name) \<in> allowed_device_types" "snd (default_kind name) \<in> allowed_roles"
    "role_valid_for_type (Some (fst (default_kind name))) (Some (snd (default_kind name)))"
    by (simp_all add: roles_cases)
qed

text \<open>A device that the fog has provisioned and never seen, under the fog's own configuration.\<close>

definition newcomer :: "'sk platform \<Rightarrow> 'sk fog \<Rightarrow> 'sk device \<Rightarrow> bool" where
  "newcomer P c d \<longleftrightarrow>
     authorised c (Some (''PSK '' @ dv_name d @ '':'' @ dv_psk d)) \<and> name_matches (dv_name d) \<and>
     fg_zone c = fog_zone \<and> fg_allowed_types c = allowed_device_types \<and>
     device_get (fg_devices c) (dv_did d) = None \<and>
     (\<forall>k st. view c k = Some (st, Some (dv_did d)) \<longrightarrow> st = AUTHENTICATED)"

text \<open>All clock readings fall into a window no longer than a session and a challenge live.\<close>

definition in_window :: "time \<Rightarrow> time \<Rightarrow> (nat \<Rightarrow> env) \<Rightarrow> bool" where
  "in_window t w vs \<longleftrightarrow> (\<forall>i k. t \<le> ev_now (vs i) k \<and> ev_now (vs i) k \<le> t + w)"

lemma in_windowD: "in_window t w vs \<Longrightarrow> w \<le> ttl \<Longrightarrow> ev_now (vs i) k \<le> ev_now (vs j) l + ttl"
  unfolding in_window_def by (metis (no_types, opaque_lifting) add_mono order.trans)

lemma register_step:
  assumes "handle P v q c = (Reply body, c')"
  shows "post P v stage q (d, c) = (Inr body, d, c')"
  using assms by (simp add: post_def invoke_def json_or_raise_def)

lemma dev_register_succeeds:
  assumes P: "ecdsa_ok P" and inv: "fog_inv P c" and d: "d = device_init P name psk sk" and new: "newcomer P c d"
    and time: "in_window t w vs" "w \<le> of_int (st_ttl (fg_sessions c))" "w \<le> of_int (fg_challenge_ttl c)"
  obtains data d' c' rec where "dev_register P vs n (d, c) = (Inr data, d', c')" "fog_inv P c'"
    "dv_did d' = dv_did d" "dv_private_key d' = sk" "dv_pk_bytes d' = public_key_bytes P sk" "config_of c' = config_of c" "fg_token_state c' = fg_token_state c"
    "queued c' = insert (dv_did d) (queued c)"
    "\<forall>j. dict_get (fg_devices c') j = (if j = dv_did d then Some rec else dict_get (fg_devices c) j)" "dr_status rec = PENDING"
    "dr_public_key rec = to_hex (public_key_bytes P sk)" "dr_device_type rec = Some (fst (default_kind name))"
    "dr_role rec = Some (snd (default_kind name))"
    "\<exists>k s. dv_session_id d' = Some k \<and> dict_get (st_sessions (fg_sessions c')) k = Some s \<and> ss_state s = METADATA_ACCEPTED \<and>
       ss_did s = Some (dv_did d) \<and> (\<forall>j l. ev_now (vs j) l \<le> ss_created_at s + of_int (st_ttl (fg_sessions c')))"
    "\<exists>k. \<forall>j. view c' j = (if j = k then Some (METADATA_ACCEPTED, Some (dv_did d)) else view c j)"
    "fg_ledger c' = fg_ledger c \<and> (\<exists>pend. fg_epochs c' = (fg_epochs c)\<lparr>em_pending := pend\<rparr>) \<and> st_ttl (fg_sessions c') = st_ttl (fg_sessions c)"
proof -
  define pk where "pk = public_key_bytes P sk"
  define did where "did = derive_did pk"
  have dv: "dv_name d = name" "dv_psk d = psk" "dv_private_key d = sk" "dv_pk_bytes d = pk" "dv_did d = did" "dv_session_id d = None"
    by (simp_all add: d device_init_def pk_def did_def)
  from new have n: "authorised c (Some (''PSK '' @ name @ '':'' @ psk))" "name_matches name" "fg_zone c = fog_zone"
    "fg_allowed_types c = allowed_device_types" "device_get (fg_devices c) did = None"
    "\<And>k st. view c k = Some (st, Some did) \<Longrightarrow> st = AUTHENTICATED"
    by (auto simp: newcomer_def dv)
  define k where "k = to_hex (ev_rnd (vs 0))"
  obtain i where h0: "register_start (ev_now (vs 0)) (ev_rnd (vs 0)) (Some (''PSK '' @ name @ '':'' @ psk)) c =
     (Reply (JObj [(''session_id'', JStr k), (''expires_in'', JInt (st_ttl (fg_sessions c)))]),
      put_session (new_session k i (ev_now (vs 0) 0)) c)"
    unfolding k_def by (rule start_succeeds [OF n(1)])
  define s0 where "s0 = new_session k i (ev_now (vs 0) 0)"
  define c1 where "c1 = put_session s0 c"
  have s0: "ss_session_id s0 = k" "ss_state s0 = AUTHENTICATED" "ss_did s0 = None" "ss_created_at s0 = ev_now (vs 0) 0"
    by (simp_all add: s0_def new_session_def)
  have inv1: "fog_inv P c1"
    using handle_inv [OF P inv, of "vs 0" "Register_start (Some (''PSK '' @ name @ '':'' @ psk))"] h0 by (simp add: c1_def s0_def)
  have get1: "dict_get (st_sessions (fg_sessions c1)) k = Some s0" by (simp add: c1_def s0)
  have ttl1: "ev_now (vs j) l \<le> ss_created_at s0 + of_int (st_ttl (fg_sessions c1))" for j l
    using in_windowD [OF time(1,2)] by (simp add: s0 c1_def)
  have dev1: "device_get (fg_devices c1) did = None" using n(5) by (simp add: c1_def)
  have free1: "ss_state u = AUTHENTICATED" if "dict_get (st_sessions (fg_sessions c1)) j = Some u" "ss_did u = Some did" for j u
    using that n(6) [of j] s0 by (auto simp: c1_def view_def split: if_splits)
  define ch where "ch = ev_rnd (vs 1)"
  define s1 where "s1 = s0\<lparr>ss_did := Some did, ss_public_key := Some (to_hex pk), ss_challenge := Some (to_hex ch),
    ss_challenge_expires := ev_now (vs 1) 1 + of_int (fg_challenge_ttl c1), ss_challenge_used := False, ss_state := KEY_SUBMITTED\<rparr>"
  define c2 where "c2 = put_session s1 c1"
  have h1: "register_pubkey P (ev_now (vs 1)) ch k did (to_hex pk) c1 =
     (Reply (JObj [(''session_id'', JStr k), (''challenge'', JStr (to_hex ch)), (''expires_in'', JInt (fg_challenge_ttl c1))]), c2)"
    unfolding c2_def s1_def pk_def
    by (rule pubkey_succeeds [OF P inv1 get1 ttl1 s0(2) _ dev1 free1]) (simp_all add: did_def pk_def)
  have inv2: "fog_inv P c2"
    using handle_inv [OF P inv1, of "vs 1" "Register_pubkey k did (to_hex pk)"] h1 by (simp add: ch_def)
  have s1: "ss_session_id s1 = k" "ss_state s1 = KEY_SUBMITTED" "ss_did s1 = Some did" "ss_public_key s1 = Some (to_hex pk)"
    "ss_challenge s1 = Some (to_hex ch)" "\<not> ss_challenge_used s1" "ss_created_at s1 = ss_created_at s0"
    by (simp_all add: s1_def s0)
  have "fg_challenge_ttl c1 = fg_challenge_ttl c" by (simp add: c1_def put_session_def)
  then have exp1: "ev_now (vs 2) 1 \<le> ss_challenge_expires s1"
    using in_windowD [OF time(1,3)] by (simp add: s1_def)
  have get2: "dict_get (st_sessions (fg_sessions c2)) k = Some s1" by (simp add: c2_def s1)
  have ttl2: "ev_now (vs j) l \<le> ss_created_at s1 + of_int (st_ttl (fg_sessions c2))" for j l
    using ttl1 [of j l] by (simp add: c2_def s1)
  let ?sg = "to_hex (sign P sk n (pop_message ch did))"
  obtain s2 where h2: "register_pop P (ev_now (vs 2)) k ?sg c2 =
     (Reply (JObj [(''session_id'', JStr k), (''did'', JStr did), (''status'', JStr ''POP_VERIFIED'')]),
      put_device (new_device did (to_hex pk) PENDING) (put_session s2 c2))"
    and s2: "ss_session_id s2 = k" "ss_state s2 = POP_VERIFIED" "ss_did s2 = Some did" "ss_created_at s2 = ss_created_at s1"
      "ss_public_key s2 = ss_public_key s1"
    using pop_succeeds [where now = "ev_now (vs 2)", OF P get2 ttl2 s1(2,1,3) s1(4) [unfolded pk_def] s1(5,6) exp1, of n]
    unfolding pk_def by blast
  define c3 where "c3 = put_device (new_device did (to_hex pk) PENDING) (put_session s2 c2)"
  have inv3: "fog_inv P c3"
    using handle_inv [OF P inv2, of "vs 2" "Register_pop k ?sg"] h2 by (simp add: c3_def)
  have get3: "dict_get (st_sessions (fg_sessions c3)) k = Some s2" by (simp add: c3_def s2)
  have ttl3: "ev_now (vs 3) 0 \<le> ss_created_at s2 + of_int (st_ttl (fg_sessions c3))"
    using ttl2 [of 3 0] by (simp add: c3_def s2)
  define body where "body = metadata_body d k None None default_vendor fog_zone"
  have body: "md_session_id body = k" "md_device_type body = fst (default_kind name)" "md_role body = snd (default_kind name)"
    "md_device_name body = name" "md_zone body = fog_zone" "md_vendor body = default_vendor"
    by (auto simp: body_def metadata_body_def default_kind_def or_default_def dv Let_def split: prod.splits)
  have conf3: "config_of c3 = config_of c" by (simp add: c3_def c2_def c1_def)
  then have valid: "validate_metadata body (fg_zone c3) (fg_allowed_types c3) = []"
    using n(2-4) default_kind_ok [of name]
    by (simp add: validate_metadata_ok_iff body config_of_def) (simp add: default_vendor_def allowed_vendors_def)
  obtain leaf fields E rec where h3: "register_metadata (ev_now (vs 3)) body c3 =
      (Reply (JObj ((''did'', JStr did) # (''leaf'', JStr leaf) # fields)),
       put_session (s2\<lparr>ss_state := METADATA_ACCEPTED\<rparr>) (put_device ((with_metadata body rec)\<lparr>dr_leaf := Some leaf\<rparr>)
         ((put_device (with_metadata body rec) c3)\<lparr>fg_epochs := E\<rparr>)))"
    and E: "dict_dom (em_pending E) = insert did (queued c3)" "dict_get (fg_devices c3) did = Some rec" "dr_did rec = did"
      "\<exists>pend. E = (fg_epochs c3)\<lparr>em_pending := pend\<rparr>"
    using metadata_succeeds [where now = "ev_now (vs 3)", OF inv3 get3 [folded body(1)] ttl3 s2(2,3) valid] by metis
  define c4 where "c4 = put_session (s2\<lparr>ss_state := METADATA_ACCEPTED\<rparr>) (put_device ((with_metadata body rec)\<lparr>dr_leaf := Some leaf\<rparr>)
         ((put_device (with_metadata body rec) c3)\<lparr>fg_epochs := E\<rparr>))"
  have rec: "rec = new_device did (to_hex pk) PENDING"
    using E(2) by (simp add: c3_def device_upsert_def new_device_def dict_simps)
  let ?rec = "(with_metadata body rec)\<lparr>dr_leaf := Some leaf\<rparr>"
  have inv4: "fog_inv P c4"
    using handle_inv [OF P inv3, of "vs 3" "Register_metadata body"] h3 by (simp add: c4_def)
  have fin: "config_of c4 = config_of c" "fg_token_state c4 = fg_token_state c" "queued c4 = insert did (queued c)"
    "\<And>j. dict_get (fg_devices c4) j = (if j = did then Some ?rec else dict_get (fg_devices c) j)"
    using E conf3 by (simp_all add: c4_def queued_def put_session_def put_device_def device_upsert_def dict_simps
        c3_def c2_def c1_def with_metadata_def) (simp_all add: new_device_def)
  have sess4: "dict_get (st_sessions (fg_sessions c4)) k = Some (s2\<lparr>ss_state := METADATA_ACCEPTED\<rparr>)"
    by (simp add: c4_def s2)
  have fold: "metadata_body (d\<lparr>dv_session_id := Some k\<rparr>) k None None default_vendor fog_zone = body"
    by (simp add: body_def metadata_body_def)
  have reg: "dev_register P vs n (d, c) =
      (Inr (JObj ((''did'', JStr did) # (''leaf'', JStr leaf) # fields)), d\<lparr>dv_session_id := Some k, dv_leaf := Some leaf\<rparr>, c4)"
    using h0 h1 h2 h3
    by (simp add: dev_register_def dev_onboard_def and_then_def dev_register_start_def submit_public_key_def prove_possession_def
        submit_metadata_def sign_challenge_def public_key_hex_def text_at_def register_step dv
        s0_def [symmetric] c1_def [symmetric] ch_def [symmetric] c3_def [symmetric] c4_def [symmetric] fold del: One_nat_def)
  have rec': "dr_status ?rec = PENDING" "dr_public_key ?rec = to_hex (public_key_bytes P sk)"
    "dr_device_type ?rec = Some (fst (default_kind name))" "dr_role ?rec = Some (snd (default_kind name))"
    using body by (simp_all add: rec with_metadata_def new_device_def pk_def)
  have ttl4: "ev_now (vs j) l \<le> ss_created_at s2 + of_int (st_ttl (fg_sessions c4))" for j l
    using ttl2 [of j l] by (simp add: c4_def c3_def s2)
  have "view c4 j = (if j = k then Some (METADATA_ACCEPTED, Some did) else view c j)" for j
    by (simp add: c4_def c3_def c2_def c1_def view_put_session view_put s2 s1 s0)
  then have view4: "\<exists>k. \<forall>j. view c4 j = (if j = k then Some (METADATA_ACCEPTED, Some (dv_did d)) else view c j)"
    unfolding dv by blast
  have world4: "fg_ledger c4 = fg_ledger c \<and> (\<exists>pend. fg_epochs c4 = (fg_epochs c)\<lparr>em_pending := pend\<rparr>) \<and>
      st_ttl (fg_sessions c4) = st_ttl (fg_sessions c)"
    using E(4) by (simp add: c4_def c3_def c2_def c1_def put_session_def put_device_def session_put_def)
  show thesis
    by (rule that [OF reg inv4 _ _ _ fin(1,2) _ _ rec' _ view4 world4]) (use fin(3,4) s2(3) sess4 ttl4 in \<open>simp_all add: dv pk_def\<close>)
qed

end
