(* ===== verification/Honest_Access.thy ===== *)
theory Honest_Access
  imports Honest_Run
begin

text \<open>
  The runtime half of liveness: the close of the epoch hands a queued device its package, the package or a
  token with a fresh nonce gets the device through every check, and the device methods of
  devices/runtime_client.py do just that. The lemmas on tokens also say how a request fails.
\<close>

section \<open>The close, the package and the access\<close>

lemma close_succeeds:
  assumes P: "ecdsa_ok P" and inv: "fog_inv P c" and admin: "k = Some (fg_admin_key c)"
    and did: "did \<in> queued c" "dict_get (fg_devices c) did = Some rec" "dr_status rec \<noteq> REVOKED"
    and nocoll: "\<not> close_collision None c"
  obtains body c' rec' pkg pk where "epoch_close P ts n rnd tm None k c = (Reply body, c')"
    "dict_get (fg_devices c') did = Some rec'" "dr_status rec' = REGISTERED" "dr_role rec' = dr_role rec"
    "dr_device_type rec' = dr_device_type rec"
    "dict_get (em_latest_package (fg_epochs c')) did = Some pkg" "pp_did pkg = did"
    "get_root (fg_ledger c') (pp_epoch_id pkg) = Some (pp_root pkg)"
    "accepts P pkg (Some (pp_root pkg)) (public_key_bytes P (fg_signing_key c'))"
    "from_hex (pp_public_key pkg) = from_hex (dr_public_key rec)" "fg_token_state c' = fg_token_state c"
proof -
  note i = fog_invD [OF inv]
  note e = epochs_invD [OF i(2)]
  let ?E = "fg_epochs c" and ?D = "fg_devices c" and ?L = "fg_ledger c"
  have mem: "did \<in> next_members [] ?E ?D" using did by (auto simp: next_members_def queued_def dict_dom_iff)
  show thesis
  proof (cases rule: finalize_epoch_cases [OF P e(1) e(5) [OF order.refl] e(2), of "[]" ts n rnd])
    case 1
    with mem show ?thesis by simp
  next
    case (3 pl)
    with nocoll show ?thesis by (simp add: close_collision_def)
  next
    case (2 pl r E' D' L')
    let ?c' = "c\<lparr>fg_epochs := E', fg_devices := D', fg_ledger := L'\<rparr>"
    note c' = 2(5)
    have step: "epoch_close P ts n rnd tm None k c = (Reply (close_reply tm r), ?c')"
      using admin 2(4) by (simp add: epoch_close_def admin_ok_def)
    have "did \<in> dict_dom (er_packages r)" using c' mem 2(3) by (simp add: epoch_closed_def)
    then obtain pkg where pkg: "dict_get (er_packages r) did = Some pkg" by (auto simp: dict_dom_iff)
    have facts: "pp_did pkg = did" "pp_public_key pkg = pe_public_key (the (dict_get (pl_members pl) did))"
      "pp_epoch_id pkg = em_current_epoch_id ?E" "accepts P pkg (Some (er_root r)) (public_key_bytes P (em_signing_key ?E))"
      "get_root L' (em_current_epoch_id ?E) = Some (er_root r)"
      using c' pkg unfolding epoch_closed_def by blast+
    have root: "pp_root pkg = er_root r" using facts(4) unfolding accepts_iff by auto
    have rec': "dict_get D' did = Some (rec\<lparr>dr_status := REGISTERED, dr_leaf := Some (pp_leaf pkg), dr_epoch_id := Some (em_current_epoch_id ?E)\<rparr>)"
      using c' pkg did(2) unfolding epoch_closed_def by simp
    have latest: "dict_get (em_latest_package E') did = Some pkg" using c' pkg unfolding epoch_closed_def by simp
    have "did \<in> dict_dom (pl_members pl)" using mem 2(3) by simp
    then obtain en where "dict_get (pl_members pl) did = Some en" by (auto simp: dict_dom_iff)
    with finalize_plan_backed [OF e(2,3) 2(1)] did(2) facts(2) have "from_hex (pp_public_key pkg) = from_hex (dr_public_key rec)"
      unfolding backed_def by fastforce
    with that [OF step] rec' latest facts root i(4) show ?thesis by simp
  qed
qed

text \<open>The package lets the holder of the key in, as far as the role goes.\<close>

definition active :: "'sk platform \<Rightarrow> 'sk fog \<Rightarrow> 'sk \<Rightarrow> proof_package \<Rightarrow> string \<Rightarrow> bool" where
  "active P c sk p role \<longleftrightarrow>
     get_root (fg_ledger c) (pp_epoch_id p) = Some (pp_root p) \<and>
     accepts P p (Some (pp_root p)) (public_key_bytes P (fg_signing_key c)) \<and>
     from_hex (pp_public_key p) = Inr (public_key_bytes P sk) \<and>
     (\<exists>rec. dict_get (fg_devices c) (pp_did p) = Some rec \<and> dr_status rec = REGISTERED \<and> dr_role rec = Some role \<and>
        role_valid_for_type (dr_device_type rec) (Some role))"

lemma active_put_nonces [simp]: "active P (put_nonces b c) sk p role = active P c sk p role"
  by (simp add: active_def)

lemma nonce_served:
  assumes "dict_get (fg_devices c) did = Some rec"
  shows "verify_nonce now rnd did c =
    (Reply (JObj [(''did'', JStr did), (''nonce'', JStr (to_hex rnd)), (''expires_in'', JInt (nb_ttl (book c)))]),
     put_nonces (snd (nonce_issue rnd (now 0) verify_nonce_purpose did (book c))) c)"
  using assms by (simp add: verify_nonce_def device_exists_def nonce_issue_def purge_def book_def Let_def)

lemma issued_entry:
  "dict_get (nb_entries (snd (nonce_issue rnd t p sj b))) (to_hex rnd) =
     Some \<lparr>ne_purpose = p, ne_subject = sj, ne_expires_at = t + of_int (nb_ttl b), ne_used = False\<rparr>"
  by (simp add: nonce_issue_def purge_def Let_def dict_simps)

lemma verify_succeeds:
  assumes P: "runtime_ok P" "ecdsa_ok P" and act: "active P c sk p role" and pol: "check_policy rs op role"
    and n: "dict_get (nb_entries (book c)) nonce = Some e" "ne_purpose e = verify_nonce_purpose" "ne_subject e = pp_did p"
      "\<not> ne_used e" "now 0 \<le> ne_expires_at e"
  obtains b where "verify_and_authorize P now (dump_package p) rs op nonce
      (to_hex (sign P sk m (verify_message (pp_did p) (str_int (pp_epoch_id p)) nonce rs op))) c =
    (Reply (verify_allow (JInt (pp_epoch_id p)) role), put_nonces b c)" "nb_ttl b = nb_ttl (book c)"
proof -
  let ?rt = "pp_root p"
  obtain rec where pkg: "get_root (fg_ledger c) (pp_epoch_id p) = Some ?rt"
      "accepts P p (Some ?rt) (public_key_bytes P (fg_signing_key c))" "from_hex (pp_public_key p) = Inr (public_key_bytes P sk)"
    and rec: "dict_get (fg_devices c) (pp_did p) = Some rec" "dr_status rec = REGISTERED" "dr_role rec = Some role"
      "role_valid_for_type (dr_device_type rec) (Some role)" using act unfolding active_def by blast
  have fields: "json_field (dump_package p) ''did'' = JStr (pp_did p)" "json_field (dump_package p) ''epoch_id'' = JInt (pp_epoch_id p)"
    "dict_get (dump_package p) ''public_key'' = Some (JStr (pp_public_key p))"
    by (simp_all add: json_field_def dump_package_def)
  obtain b where b: "nonce_consume (now 0) verify_nonce_purpose (JStr (pp_did p)) nonce (tk_nonces (fg_token_state c)) = (Nonce_ok, b)"
    and ttl: "nb_ttl b = nb_ttl (book c)"
    using n unfolding book_def by (auto simp: nonce_consume_def)
  obtain result where res: "verify_proof_package P p (Some ?rt) (public_key_bytes P (fg_signing_key c)) = Inr result" "vr_ok result"
    using accepts_result [OF pkg(2)] by blast
  have "possession_decision P (dump_package p) (JStr (pp_did p)) (JInt (pp_epoch_id p)) nonce rs op
      (to_hex (sign P sk m (verify_message (pp_did p) (str_int (pp_epoch_id p)) nonce rs op))) (put_nonces b c) =
    Reply (verify_allow (JInt (pp_epoch_id p)) role)"
    using P(1) pkg(3) fields(3) rec pol verify_sign [OF P(2)]
    by (simp add: possession_decision_def current_decision_def device_get_def runtime_ok_def Let_def)
  with P(1) b res pkg(1) have "verify_and_authorize P now (dump_package p) rs op nonce
      (to_hex (sign P sk m (verify_message (pp_did p) (str_int (pp_epoch_id p)) nonce rs op))) c =
    (Reply (verify_allow (JInt (pp_epoch_id p)) role), put_nonces b c)"
    by (simp add: verify_and_authorize_def fields parse_dump_package [OF P(1)] runtime_ok_def Let_def)
  with ttl that show thesis by blast
qed

text \<open>A nonce and the request with it, on the fog.\<close>

lemma access_round:
  fixes m
  assumes P: "runtime_ok P" "ecdsa_ok P" and act: "active P c sk p role" and pol: "check_policy rs op role"
    and fresh: "ev_now v' 0 \<le> ev_now v 0 + of_int (nb_ttl (book c))"
  defines "nonce \<equiv> to_hex (ev_rnd v)"
  defines "sg \<equiv> to_hex (sign P sk m (verify_message (pp_did p) (str_int (pp_epoch_id p)) nonce rs op))"
  obtains c1 c2 where "handle P v (Verify_nonce (pp_did p)) c =
     (Reply (JObj [(''did'', JStr (pp_did p)), (''nonce'', JStr nonce), (''expires_in'', JInt (nb_ttl (book c)))]), c1)"
    "handle P v' (Verify_access (dump_package p) rs op nonce sg) c1 = (Reply (verify_allow (JInt (pp_epoch_id p)) role), c2)"
    "active P c1 sk p role" "active P c2 sk p role" "nb_ttl (book c2) = nb_ttl (book c)"
proof -
  define c1 where "c1 = put_nonces (snd (nonce_issue (ev_rnd v) (ev_now v 0) verify_nonce_purpose (pp_did p) (book c))) c"
  obtain rec where "dict_get (fg_devices c) (pp_did p) = Some rec" using act unfolding active_def by blast
  then have n: "handle P v (Verify_nonce (pp_did p)) c =
     (Reply (JObj [(''did'', JStr (pp_did p)), (''nonce'', JStr nonce), (''expires_in'', JInt (nb_ttl (book c)))]), c1)"
    using nonce_served by (simp add: nonce_def c1_def)
  have act1: "active P c1 sk p role" and ttl1: "nb_ttl (book c1) = nb_ttl (book c)"
    using act by (simp_all add: c1_def book_def nonce_issue_def purge_def Let_def)
  obtain b where "verify_and_authorize P (ev_now v') (dump_package p) rs op nonce sg c1 =
      (Reply (verify_allow (JInt (pp_epoch_id p)) role), put_nonces b c1)" "nb_ttl b = nb_ttl (book c1)"
    unfolding sg_def
    by (rule verify_succeeds [where e = "\<lparr>ne_purpose = verify_nonce_purpose, ne_subject = pp_did p,
          ne_expires_at = ev_now v 0 + of_int (nb_ttl (book c)), ne_used = False\<rparr>" and nonce = nonce and now = "ev_now v'", OF P act1 pol])
      (use fresh in \<open>simp_all add: c1_def book_def nonce_def issued_entry\<close>)
  with n act1 ttl1 show thesis by (intro that [of c1 "put_nonces b c1"]) (simp_all add: book_def)
qed

lemma verify_access_succeeds:
  assumes P: "runtime_ok P" "ecdsa_ok P" and act: "active P c sk p role" and pol: "check_policy rs op role"
    and dev: "dv_private_key d = sk" "dv_proof_package d = Some (dump_package p)"
    and fresh: "ev_now (vs 1) 0 \<le> ev_now (vs 0) 0 + of_int (nb_ttl (book c))"
  obtains q c' where "verify_access P vs n rs op None (d, c) = (Inr (verify_allow (JInt (pp_epoch_id p)) role, q), d, c')"
proof -
  define nonce where "nonce = to_hex (ev_rnd (vs 0))"
  define sg where "sg = to_hex (sign P sk n (verify_message (pp_did p) (str_int (pp_epoch_id p)) nonce rs op))"
  obtain c1 c2 where h: "handle P (vs 0) (Verify_nonce (pp_did p)) c =
     (Reply (JObj [(''did'', JStr (pp_did p)), (''nonce'', JStr nonce), (''expires_in'', JInt (nb_ttl (book c)))]), c1)"
    "handle P (vs 1) (Verify_access (dump_package p) rs op nonce sg) c1 = (Reply (verify_allow (JInt (pp_epoch_id p)) role), c2)"
    using access_round [where v = "vs 0" and v' = "vs 1" and m = n, OF P act pol fresh] unfolding nonce_def sg_def by blast
  have fields: "text_at (JObj (dump_package p)) ''did'' = Inr (pp_did p)" "token_text (dump_package p) ''did'' = Inr (pp_did p)"
    "dict_get (dump_package p) ''epoch_id'' = Some (JInt (pp_epoch_id p))" "dump_package p \<noteq> []"
    by (simp_all add: text_at_def token_text_def dump_package_def)
  have "verify_access P vs n rs op None (d, c) =
      (Inr (verify_allow (JInt (pp_epoch_id p)) role, Verify_access (dump_package p) rs op nonce sg), d, c2)"
    using P(1) h(2) by (simp add: verify_access_def dev fields and_then_def get_verify_nonce_def invoke_def h(1) [simplified] json_or_raise_def
        text_at_def [of "JObj _" "''nonce''"] build_verify_request_def sign_verify_request_def runtime_ok_def sg_def decide_def del: One_nat_def)
  with that show thesis by blast
qed

section \<open>Tokens\<close>

lemma issue_succeeds:
  assumes s: "dict_get (st_sessions (fg_sessions c)) k = Some s" "now 0 \<le> ss_created_at s + of_int (st_ttl (fg_sessions c))"
      "ss_state s = METADATA_ACCEPTED" "ss_did s = Some did"
    and rec: "dict_get (fg_devices c) did = Some rec" "dr_status rec \<in> {PENDING, TOKENIZED}"
      "role_valid_for_type (dr_device_type rec) (dr_role rec)"
  shows "tokens_issue P now rnd n k c =
     (Reply (JObj (issue_token P rnd n (now 1) (dr_did rec) (dr_public_key rec) (dr_device_type rec) (dr_role rec)
        (fg_signing_key c) token_ttl_seconds (Some (em_current_epoch_id (fg_epochs c))))),
      c\<lparr>fg_token_state := record_issued (to_hex rnd) (dr_did rec) (fg_token_state c),
        fg_devices := set_status (dr_did rec) TOKENIZED (fg_devices c)\<rparr>)"
  using assms by (auto simp: tokens_issue_def session_get_def device_get_def Let_def)

text \<open>The state after a nonce for a token was handed out.\<close>

definition with_token_nonce :: "env \<Rightarrow> string \<Rightarrow> 'sk fog \<Rightarrow> 'sk fog" where
  "with_token_nonce v tid c = put_nonces (snd (nonce_issue (ev_rnd v) (ev_now v 0) token_nonce_purpose tid (book c))) c"

lemma with_token_nonce_parts [simp]:
  "fg_devices (with_token_nonce v tid c) = fg_devices c" "fg_signing_key (with_token_nonce v tid c) = fg_signing_key c"
  "fg_admin_key (with_token_nonce v tid c) = fg_admin_key c"
  "is_revoked (fg_token_state (with_token_nonce v tid c)) t = is_revoked (fg_token_state c) t"
  "nb_ttl (book (with_token_nonce v tid c)) = nb_ttl (book c)"
  by (simp_all add: with_token_nonce_def is_revoked_def book_def nonce_issue_def purge_def Let_def)

lemma token_nonce_served:
  assumes "was_issued (fg_token_state c) tid"
  shows "handle P v (Tokens_nonce tid) c = (Reply (JObj [(''token_id'', JStr tid), (''nonce'', JStr (to_hex (ev_rnd v))),
     (''expires_in'', JInt (nb_ttl (book c)))]), with_token_nonce v tid c)"
  using assms by (simp add: tokens_nonce_def with_token_nonce_def nonce_issue_def purge_def book_def Let_def)

text \<open>A live token of the fog with its fresh nonce gets to the decision, and uses the nonce up.\<close>

lemma decision_reached:
  assumes tok: "token_signature_valid P t (fg_signing_key c)" "\<not> token_expired P (ev_now v' 0) t"
      "dict_get t ''token_id'' = Some (JStr tid)" "dict_get t ''did'' = Some (JStr did)"
    and fresh: "ev_now v' 1 \<le> ev_now v 0 + of_int (nb_ttl (book c))"
  obtains b where "tokens_access P (ev_now v') t (to_hex (ev_rnd v)) rs op sg (with_token_nonce v tid c) =
      (provisional_decision P t (JStr tid) (JStr did) (to_hex (ev_rnd v)) rs op sg (put_nonces b c), put_nonces b c)"
    "\<exists>e. dict_get (nb_entries b) (to_hex (ev_rnd v)) = Some e \<and> ne_purpose e = token_nonce_purpose \<and> ne_subject e = tid \<and> ne_used e"
    "nb_ttl b = nb_ttl (book c)"
proof -
  let ?n = "to_hex (ev_rnd v)" and ?b = "snd (nonce_issue (ev_rnd v) (ev_now v 0) token_nonce_purpose tid (book c))"
  let ?e = "\<lparr>ne_purpose = token_nonce_purpose, ne_subject = tid, ne_expires_at = ev_now v 0 + of_int (nb_ttl (book c)), ne_used = False\<rparr>"
  let ?b' = "?b\<lparr>nb_entries := dict_set ?n (?e\<lparr>ne_used := True\<rparr>) (nb_entries ?b)\<rparr>"
  have "nonce_consume (ev_now v' 1) token_nonce_purpose (JStr tid) ?n ?b = (Nonce_ok, ?b')"
    using fresh by (simp add: nonce_consume_def issued_entry)
  with tok have "tokens_access P (ev_now v') t ?n rs op sg (with_token_nonce v tid c) =
      (provisional_decision P t (JStr tid) (JStr did) ?n rs op sg (put_nonces ?b' c), put_nonces ?b' c)"
    by (simp add: tokens_access_def) (simp add: with_token_nonce_def put_nonces_def)
  then show thesis by (rule that) (simp_all add: dict_simps nonce_issue_def purge_def Let_def)
qed

lemma used_nonce_denied:
  assumes "token_signature_valid P t (fg_signing_key c)" "\<not> token_expired P (now 0) t"
    and "dict_get t ''token_id'' = Some (JStr tid)" "dict_get t ''did'' = Some (JStr did)"
    and "\<exists>e. dict_get (nb_entries (book c)) nonce = Some e \<and> ne_purpose e = token_nonce_purpose \<and> ne_subject e = tid \<and> ne_used e"
  shows "tokens_access P now t nonce rs op sg c = (Reply (token_deny ''nonce_reused'' ''nonce validator''), c)"
proof -
  from assms(5) have "nonce_consume (now 1) token_nonce_purpose (JStr tid) nonce (tk_nonces (fg_token_state c)) =
      (Nonce_reused, tk_nonces (fg_token_state c))" by (auto simp: nonce_consume_def book_def)
  with assms(1-4) show ?thesis by (simp add: tokens_access_def) (simp add: put_nonces_def)
qed

text \<open>\<open>token_access\<close> of the device is the nonce and the request.\<close>

lemma token_access_eq:
  fixes P :: "'sk platform" and vs :: "nat \<Rightarrow> env" and rs op n
  assumes t: "dict_get t ''token_id'' = Some (JStr tid)" "dict_get t ''did'' = Some (JStr did)"
    and issued: "was_issued (fg_token_state c) tid"
  defines "q \<equiv> \<lambda>sk. Tokens_access t (to_hex (ev_rnd (vs 0))) rs op
     (to_hex (sign P sk n (access_message tid did (to_hex (ev_rnd (vs 0))) rs op)))"
  assumes h: "handle P (vs 1) (q (dv_private_key d)) (with_token_nonce (vs 0) tid c) = (Reply body, c')"
  shows "token_access P vs n t rs op (d, c) = (Inr (body, q (dv_private_key d)), d, c')"
proof -
  have fields: "text_at (JObj t) ''token_id'' = Inr tid" "token_text t ''token_id'' = Inr tid" "token_text t ''did'' = Inr did"
    using t by (simp_all add: text_at_def token_text_def)
  show ?thesis
    using h by (simp add: token_access_def fields and_then_def get_token_nonce_def invoke_def
        token_nonce_served [OF issued, simplified] json_or_raise_def text_at_def [of "JObj _" "''nonce''"] build_token_request_def
        sign_access_def q_def decide_def del: One_nat_def)
qed

text \<open>The token that the fog hands to a device, and what it lets the device do.\<close>

definition holds_token :: "'sk platform \<Rightarrow> 'sk fog \<Rightarrow> 'sk \<Rightarrow> token \<Rightarrow> string \<Rightarrow> string \<Rightarrow> string \<Rightarrow> string \<Rightarrow> time \<Rightarrow> bool" where
  "holds_token P c sk t tid did ty role expires \<longleftrightarrow>
     token_signature_valid P t (fg_signing_key c) \<and> dict_get t ''token_id'' = Some (JStr tid) \<and> dict_get t ''did'' = Some (JStr did) \<and>
     dict_get t ''public_key'' = Some (JStr (to_hex (public_key_bytes P sk))) \<and> dict_get t ''device_type'' = Some (JStr ty) \<and>
     dict_get t ''role'' = Some (JStr role) \<and> dict_get t ''expires_at'' = Some (JFloat expires) \<and>
     was_issued (fg_token_state c) tid"

definition unrevoked :: "'sk fog \<Rightarrow> string \<Rightarrow> string \<Rightarrow> bool" where
  "unrevoked c tid did \<longleftrightarrow> \<not> is_revoked (fg_token_state c) tid \<and> \<not> is_device_revoked (fg_devices c) did"

lemma holds_token_put_nonces [simp]:
  "holds_token P (put_nonces b c) sk t tid did ty role expires = holds_token P c sk t tid did ty role expires"
  "unrevoked (put_nonces b c) tid did = unrevoked c tid did"
  by (simp_all add: holds_token_def unrevoked_def was_issued_def is_revoked_def)

lemma holds_token_live: "holds_token P c sk t tid did ty role expires \<Longrightarrow> token_expired P now t \<longleftrightarrow> now > expires"
  by (simp add: holds_token_def token_expired_def)

lemma signed_by_holder:
  assumes "ecdsa_ok P" "holds_token P c sk t tid did ty role expires"
  shows "access_signature_valid P t nonce rs op (to_hex (sign P sk m (access_message tid did nonce rs op)))"
  using assms(2) verify_sign [OF assms(1)] by (simp add: holds_token_def access_signature_valid_def token_text_def)

lemma decision_allow:
  assumes "ecdsa_ok P" "holds_token P c sk t tid did ty role expires" "unrevoked c tid did"
    and "provisional_allowed ty rs op" "check_policy rs op role"
  shows "provisional_decision P t (JStr tid) (JStr did) nonce rs op (to_hex (sign P sk m (access_message tid did nonce rs op))) c = Reply token_allow"
  using assms(2-5) signed_by_holder [OF assms(1,2)]
  by (simp add: provisional_decision_def token_or_device_revoked_def holds_token_def unrevoked_def)

lemma token_round:
  fixes m
  assumes P: "ecdsa_ok P" and t: "holds_token P c sk t tid did ty role expires" "unrevoked c tid did"
    and ok: "provisional_allowed ty rs op" "check_policy rs op role"
    and fresh: "ev_now v' 0 \<le> expires" "ev_now v' 1 \<le> ev_now v 0 + of_int (nb_ttl (book c))"
  defines "nonce \<equiv> to_hex (ev_rnd v)"
  defines "sg \<equiv> to_hex (sign P sk m (access_message tid did nonce rs op))"
  obtains b where "handle P v' (Tokens_access t nonce rs op sg) (with_token_nonce v tid c) = (Reply token_allow, put_nonces b c)"
    "\<exists>e. dict_get (nb_entries b) nonce = Some e \<and> ne_purpose e = token_nonce_purpose \<and> ne_subject e = tid \<and> ne_used e"
    "nb_ttl b = nb_ttl (book c)"
proof -
  have "\<not> token_expired P (ev_now v' 0) t" using fresh(1) by (simp add: holds_token_live [OF t(1)])
  from decision_reached [where v = v and v' = v', OF _ this _ _ fresh(2)] t(1) obtain b where
    b: "tokens_access P (ev_now v') t nonce rs op sg (with_token_nonce v tid c) =
      (provisional_decision P t (JStr tid) (JStr did) nonce rs op sg (put_nonces b c), put_nonces b c)"
    "\<exists>e. dict_get (nb_entries b) nonce = Some e \<and> ne_purpose e = token_nonce_purpose \<and> ne_subject e = tid \<and> ne_used e"
    "nb_ttl b = nb_ttl (book c)"
    unfolding nonce_def holds_token_def by metis
  have "provisional_decision P t (JStr tid) (JStr did) nonce rs op sg (put_nonces b c) = Reply token_allow"
    unfolding sg_def by (rule decision_allow [OF P _ _ ok]) (use t in simp_all)
  with b that show thesis by simp
qed

lemma token_access_succeeds:
  assumes P: "ecdsa_ok P" and t: "holds_token P c (dv_private_key d) t tid did ty role expires" "unrevoked c tid did"
    and ok: "provisional_allowed ty rs op" "check_policy rs op role"
    and fresh: "ev_now (vs 1) 0 \<le> expires" "ev_now (vs 1) 1 \<le> ev_now (vs 0) 0 + of_int (nb_ttl (book c))"
  obtains q b where "token_access P vs n t rs op (d, c) = (Inr (token_allow, q), d, put_nonces b c)"
    "q = Tokens_access t (to_hex (ev_rnd (vs 0))) rs op
       (to_hex (sign P (dv_private_key d) n (access_message tid did (to_hex (ev_rnd (vs 0))) rs op)))"
    "\<exists>e. dict_get (nb_entries b) (to_hex (ev_rnd (vs 0))) = Some e \<and> ne_purpose e = token_nonce_purpose \<and> ne_subject e = tid \<and> ne_used e"
    "nb_ttl b = nb_ttl (book c)"
proof -
  obtain b where h: "handle P (vs 1) (Tokens_access t (to_hex (ev_rnd (vs 0))) rs op
       (to_hex (sign P (dv_private_key d) n (access_message tid did (to_hex (ev_rnd (vs 0))) rs op)))) (with_token_nonce (vs 0) tid c) =
       (Reply token_allow, put_nonces b c)"
    and b: "\<exists>e. dict_get (nb_entries b) (to_hex (ev_rnd (vs 0))) = Some e \<and> ne_purpose e = token_nonce_purpose \<and> ne_subject e = tid \<and> ne_used e"
    "nb_ttl b = nb_ttl (book c)"
    by (rule token_round [where v = "vs 0" and v' = "vs 1" and m = n, OF P t ok fresh])
  from t(1) have "dict_get t ''token_id'' = Some (JStr tid)" "dict_get t ''did'' = Some (JStr did)" "was_issued (fg_token_state c) tid"
    by (simp_all add: holds_token_def)
  from token_access_eq [where P = P and vs = vs and rs = rs and op = op and n = n, OF this h] b that show thesis by blast
qed

section \<open>From the first request to access\<close>

lemma package_served:
  assumes P: "ecdsa_ok P" and inv: "fog_inv P c" and key: "dv_private_key d = sk"
    and queued: "dv_did d \<in> queued c" and rec: "dict_get (fg_devices c) (dv_did d) = Some rec" "dr_status rec = PENDING"
      "dr_public_key rec = to_hex (public_key_bytes P sk)" "dr_role rec = Some role" "role_valid_for_type (dr_device_type rec) (Some role)"
    and nocoll: "\<not> close_collision None c"
  obtains body c' p d' where "handle P v (Epoch_close None (Some (fg_admin_key c))) c = (Reply body, c')"
    "fetch_proof P v' None (d, c') = (Inr (dump_package p), d', c')" "active P c' sk p role" "pp_did p = dv_did d"
    "dv_private_key d' = sk" "dv_proof_package d' = Some (dump_package p)" "book c' = book c"
proof -
  have st: "dr_status rec \<noteq> REVOKED" using rec(2) by simp
  obtain body c' rec' p where step: "epoch_close P (ev_timestamp v) (ev_seed v) (ev_leaf_seed v) (ev_timings v) None
      (Some (fg_admin_key c)) c = (Reply body, c')"
    and rec': "dict_get (fg_devices c') (dv_did d) = Some rec'" "dr_status rec' = REGISTERED" "dr_role rec' = dr_role rec"
      "dr_device_type rec' = dr_device_type rec"
    and p: "dict_get (em_latest_package (fg_epochs c')) (dv_did d) = Some p" "pp_did p = dv_did d"
      "get_root (fg_ledger c') (pp_epoch_id p) = Some (pp_root p)"
      "accepts P p (Some (pp_root p)) (public_key_bytes P (fg_signing_key c'))"
      "from_hex (pp_public_key p) = from_hex (dr_public_key rec)" and ts: "fg_token_state c' = fg_token_state c"
    by (rule close_succeeds [where ts = "ev_timestamp v" and n = "ev_seed v" and rnd = "ev_leaf_seed v" and tm = "ev_timings v",
          OF P inv refl queued rec(1) st nocoll])
  have "fetch_proof P v' None (d, c') = (Inr (dump_package p), d\<lparr>dv_proof_package := Some (dump_package p)\<rparr>, c')"
    using rec'(1,2) p(1) by (simp add: fetch_proof_def and_then_def register_step route_get_proof_def device_get_def get_package_def)
  moreover have "active P c' sk p role" using rec' rec p(2-5) by (simp add: active_def)
  ultimately show thesis using step p(2) ts key
    by (intro that [of body c' p "d\<lparr>dv_proof_package := Some (dump_package p)\<rparr>"]) (simp_all add: book_def)
qed

text \<open>The admin revokes a known device.\<close>

lemma revoke_succeeds:
  assumes "device_get (fg_devices c) did \<noteq> None"
  obtains body c' where "handle P v (Revoke did None False (Some (fg_admin_key c))) c = (Reply body, c')"
    "is_device_revoked (fg_devices c') did" "book c' = book c" "fg_signing_key c' = fg_signing_key c"
    "tk_issued (fg_token_state c') = tk_issued (fg_token_state c)"
    "\<exists>ts. c' = c\<lparr>fg_devices := set_status did REVOKED (fg_devices c), fg_token_state := ts\<rparr>"
proof -
  define ts where "ts = fold token_revoke (tokens_of (fg_token_state c) did) (fg_token_state c)"
  define c' where "c' = c\<lparr>fg_devices := set_status did REVOKED (fg_devices c), fg_token_state := ts\<rparr>"
  have "\<exists>body. handle P v (Revoke did None False (Some (fg_admin_key c))) c = (Reply body, c')"
    using assms by (auto simp: revoke_def admin_ok_def revoke_device_def c'_def ts_def Let_def)
  moreover have "is_device_revoked (fg_devices c') did"
    using assms by (auto simp: c'_def is_device_revoked_iff device_get_status device_get_def)
  moreover have "book c' = book c" "fg_signing_key c' = fg_signing_key c" "tk_issued (fg_token_state c') = tk_issued (fg_token_state c)"
    by (simp_all add: c'_def ts_def book_def fold_revoke)
  moreover have "\<exists>ts. c' = c\<lparr>fg_devices := set_status did REVOKED (fg_devices c), fg_token_state := ts\<rparr>" by (auto simp: c'_def)
  ultimately show thesis using that by blast
qed

lemma holds_issued:
  assumes "ecdsa_ok P" "was_issued (fg_token_state c) (to_hex rnd)"
  shows "holds_token P c sk (issue_token P rnd n now did (to_hex (public_key_bytes P sk)) (Some ty) (Some role) (fg_signing_key c) ttl ep)
    (to_hex rnd) did ty role (now + ttl)"
  using issue_token_get [of P rnd n now did "to_hex (public_key_bytes P sk)" "Some ty" "Some role" "fg_signing_key c" ttl ep]
    issued_signature_valid [OF assms(1)] assms(2)
  by (simp add: holds_token_def)

lemma token_served:
  assumes P: "ecdsa_ok P" and inv: "fog_inv P c" and k: "dv_session_id d = Some k"
    and s: "dict_get (st_sessions (fg_sessions c)) k = Some s" "ss_state s = METADATA_ACCEPTED" "ss_did s = Some did"
      "ev_now v 0 \<le> ss_created_at s + of_int (st_ttl (fg_sessions c))"
    and rec: "dict_get (fg_devices c) did = Some rec" "dr_status rec = PENDING" "dr_public_key rec = to_hex (public_key_bytes P sk)"
      "dr_device_type rec = Some ty" "dr_role rec = Some role" "role_valid_for_type (Some ty) (Some role)"
    and fresh: "\<not> is_revoked (fg_token_state c) (to_hex (ev_rnd v))"
  obtains t c' where "request_token P v (d, c) = (Inr t, d, c')" "handle P v (Tokens_issue k) c = (Reply (JObj t), c')"
    "dict_ok t" "holds_token P c' sk t (to_hex (ev_rnd v)) did ty role (ev_now v 1 + token_ttl_seconds)"
    "unrevoked c' (to_hex (ev_rnd v)) did" "device_get (fg_devices c') did \<noteq> None" "book c' = book c" "config_of c' = config_of c"
    "c' = c\<lparr>fg_token_state := record_issued (to_hex (ev_rnd v)) did (fg_token_state c), fg_devices := set_status did TOKENIZED (fg_devices c)\<rparr>"
    "dict_get t ''allowed_operations'' \<noteq> None"
proof -
  have did: "dr_did rec = did" using devices_ok_get [OF fog_invD(6) [OF inv] rec(1)] .
  have st: "dr_status rec \<in> {PENDING, TOKENIZED}" and role: "role_valid_for_type (dr_device_type rec) (dr_role rec)"
    using rec by simp_all
  define c' where "c' = c\<lparr>fg_token_state := record_issued (to_hex (ev_rnd v)) did (fg_token_state c),
        fg_devices := set_status did TOKENIZED (fg_devices c)\<rparr>"
  define t where "t = issue_token P (ev_rnd v) (ev_seed v) (ev_now v 1) did (to_hex (public_key_bytes P sk)) (Some ty) (Some role)
       (fg_signing_key c') token_ttl_seconds (Some (em_current_epoch_id (fg_epochs c)))"
  have h: "handle P v (Tokens_issue k) c = (Reply (JObj t), c')"
    using issue_succeeds [where now = "ev_now v" and rnd = "ev_rnd v" and n = "ev_seed v", OF s(1,4,2,3) rec(1) st role] rec(3-5) did
    by (simp add: t_def c'_def)
  then have req: "request_token P v (d, c) = (Inr t, d, c')"
    by (simp add: request_token_def and_then_def invoke_def k json_or_raise_def)
  have "was_issued (fg_token_state c') (to_hex (ev_rnd v))"
    by (simp add: c'_def record_issued_def was_issued_def dict_simps)
  from holds_issued [OF P this] have holds: "holds_token P c' sk t (to_hex (ev_rnd v)) did ty role (ev_now v 1 + token_ttl_seconds)"
    unfolding t_def by blast
  have "unrevoked c' (to_hex (ev_rnd v)) did" "device_get (fg_devices c') did \<noteq> None" "book c' = book c" "config_of c' = config_of c"
    using fresh rec(1) by (simp_all add: unrevoked_def c'_def book_def record_issued_def is_revoked_def is_device_revoked_iff
        device_get_status device_get_def)
  moreover have "dict_ok t" unfolding t_def by (rule issue_token_get)
  moreover have "dict_get t ''allowed_operations'' \<noteq> None" unfolding t_def by (simp add: issue_token_def Let_def)
  ultimately show thesis using that req h holds c'_def by blast
qed

section \<open>Properties\<close>

text \<open>
  C6: liveness. A newcomer whose requests fall into the lifetimes of its session, challenge and nonce is
  registered whatever else the node holds; then the admin's close of the epoch answers and the device
  obtains its package, unless two members of the batch have colliding leaves; and with the package every
  operation that the policy grants the device's role is allowed.
\<close>

theorem honest_device_gets_access:
  assumes "ecdsa_ok P" and "runtime_ok P" and "reachable P c"
    and "d = device_init P name psk sk" and "newcomer P c d"
    and "in_window t w vs" and "w \<le> of_int (st_ttl (fg_sessions c))" and "w \<le> of_int (fg_challenge_ttl c)"
    and "w \<le> of_int (nb_ttl (book c))"
  shows "\<exists>data d1 c1. dev_register P vs n (d, c) = (Inr data, d1, c1) \<and>
    (close_collision None c1 \<or>
     (\<exists>body c2 pkg d2. handle P (vs 4) (Epoch_close None (Some (fg_admin_key c))) c1 = (Reply body, c2) \<and>
        fetch_proof P (vs 5) None (d1, c2) = (Inr pkg, d2, c2) \<and>
        (\<forall>rs op. check_policy rs op (snd (default_kind name)) \<longrightarrow>
           (\<exists>e q c3. verify_access P (\<lambda>i. vs (6 + i)) m rs op None (d2, c2) =
              (Inr (verify_allow (JInt e) (snd (default_kind name)), q), d2, c3)))))"
proof -
  have inv: "fog_inv P c" using reachable_inv [OF assms(3,1)] .
  obtain data d1 c1 rec where reg: "dev_register P vs n (d, c) = (Inr data, d1, c1)" and inv1: "fog_inv P c1"
    and d1: "dv_did d1 = dv_did d" "dv_private_key d1 = sk" "config_of c1 = config_of c" "fg_token_state c1 = fg_token_state c"
      "queued c1 = insert (dv_did d) (queued c)"
    and get: "\<forall>j. dict_get (fg_devices c1) j = (if j = dv_did d then Some rec else dict_get (fg_devices c) j)"
    and rec: "dr_status rec = PENDING" "dr_public_key rec = to_hex (public_key_bytes P sk)"
      "dr_device_type rec = Some (fst (default_kind name))" "dr_role rec = Some (snd (default_kind name))"
    using dev_register_succeeds [OF assms(1) inv assms(4,5,6,7,8), of n] by metis
  have "fg_admin_key c = fg_admin_key c1" using d1(3) by (simp add: config_of_def)
  note admin = this
  have q: "dv_did d1 \<in> queued c1" and r: "dict_get (fg_devices c1) (dv_did d1) = Some rec"
    and role: "role_valid_for_type (dr_device_type rec) (Some (snd (default_kind name)))"
    using d1(1,5) get rec(3) default_kind_ok(3) by simp_all
  show ?thesis
  proof (cases "close_collision None c1")
    case True
    with reg show ?thesis by blast
  next
    case False
    obtain body c2 p d2 where step: "handle P (vs 4) (Epoch_close None (Some (fg_admin_key c))) c1 = (Reply body, c2)"
      "fetch_proof P (vs 5) None (d1, c2) = (Inr (dump_package p), d2, c2)"
      and act: "active P c2 sk p (snd (default_kind name))" "dv_private_key d2 = sk" "dv_proof_package d2 = Some (dump_package p)"
      and "book c2 = book c1"
      unfolding admin by (rule package_served [OF assms(1) inv1 d1(2) q r rec(1,2,4) role False])
    then have "book c2 = book c" using d1(4) by (simp add: book_def)
    then have fresh: "ev_now (vs (6 + 1)) 0 \<le> ev_now (vs (6 + 0)) 0 + of_int (nb_ttl (book c2))"
      using in_windowD [OF assms(6,9)] by simp
    have "\<exists>q c3. verify_access P (\<lambda>i. vs (6 + i)) m rs op None (d2, c2) =
        (Inr (verify_allow (JInt (pp_epoch_id p)) (snd (default_kind name)), q), d2, c3)"
      if "check_policy rs op (snd (default_kind name))" for rs op
      using verify_access_succeeds [where vs = "\<lambda>i. vs (6 + i)" and n = m, OF assms(2,1) act(1) that act(2,3) fresh] by metis
    with reg step show ?thesis by fastforce
  qed
qed

text \<open>
  Liveness before the close. A newcomer that has just registered is issued a token, and while the
  token lives, every operation that the provisional scope and the policy grant its type and role is
  allowed with it, unless the random token id is one that was revoked before.
\<close>

theorem newcomer_gets_provisional_access:
  assumes "ecdsa_ok P" and "reachable P c"
    and "d = device_init P name psk sk" and "newcomer P c d"
    and "in_window t w vs" and "w \<le> of_int (st_ttl (fg_sessions c))" and "w \<le> of_int (fg_challenge_ttl c)"
    and "w \<le> of_int (nb_ttl (book c))" and "w \<le> token_ttl_seconds"
    and "\<not> is_revoked (fg_token_state c) (to_hex (ev_rnd (vs 4)))"
  shows "\<exists>data d1 c1 token c2. dev_register P vs n (d, c) = (Inr data, d1, c1) \<and>
    request_token P (vs 4) (d1, c1) = (Inr token, d1, c2) \<and>
    (\<forall>rs op. provisional_allowed (fst (default_kind name)) rs op \<and> check_policy rs op (snd (default_kind name)) \<longrightarrow>
       (\<exists>q c3. token_access P (\<lambda>i. vs (5 + i)) m token rs op (d1, c2) = (Inr (token_allow, q), d1, c3)))"
proof -
  have inv: "fog_inv P c" using reachable_inv [OF assms(2,1)] .
  obtain data d1 c1 rec where reg: "dev_register P vs n (d, c) = (Inr data, d1, c1)" and inv1: "fog_inv P c1"
    and d1: "dv_private_key d1 = sk" "fg_token_state c1 = fg_token_state c"
    and get: "\<forall>j. dict_get (fg_devices c1) j = (if j = dv_did d then Some rec else dict_get (fg_devices c) j)"
    and rec: "dr_status rec = PENDING" "dr_public_key rec = to_hex (public_key_bytes P sk)"
      "dr_device_type rec = Some (fst (default_kind name))" "dr_role rec = Some (snd (default_kind name))"
    and sess: "\<exists>k s. dv_session_id d1 = Some k \<and> dict_get (st_sessions (fg_sessions c1)) k = Some s \<and> ss_state s = METADATA_ACCEPTED \<and>
       ss_did s = Some (dv_did d) \<and> (\<forall>j l. ev_now (vs j) l \<le> ss_created_at s + of_int (st_ttl (fg_sessions c1)))"
    using dev_register_succeeds [OF assms(1) inv assms(3-7), of n] by metis
  from sess obtain k s where k: "dv_session_id d1 = Some k" and s: "dict_get (st_sessions (fg_sessions c1)) k = Some s"
    "ss_state s = METADATA_ACCEPTED" "ss_did s = Some (dv_did d)" "ev_now (vs 4) 0 \<le> ss_created_at s + of_int (st_ttl (fg_sessions c1))"
    by blast
  have r: "dict_get (fg_devices c1) (dv_did d) = Some rec" and fresh: "\<not> is_revoked (fg_token_state c1) (to_hex (ev_rnd (vs 4)))"
    using get assms(10) d1(2) by simp_all
  obtain token c2 where req: "request_token P (vs 4) (d1, c1) = (Inr token, d1, c2)"
    and tok: "holds_token P c2 sk token (to_hex (ev_rnd (vs 4))) (dv_did d) (fst (default_kind name)) (snd (default_kind name))
      (ev_now (vs 4) 1 + token_ttl_seconds)" "unrevoked c2 (to_hex (ev_rnd (vs 4))) (dv_did d)" and "book c2 = book c1"
    using token_served [OF assms(1) inv1 k s r rec(1-4) default_kind_ok(3) fresh] by metis
  then have "book c2 = book c" using d1(2) by (simp add: book_def)
  then have "ev_now (vs (5 + 1)) 0 \<le> ev_now (vs 4) 1 + token_ttl_seconds"
    "ev_now (vs (5 + 1)) 1 \<le> ev_now (vs (5 + 0)) 0 + of_int (nb_ttl (book c2))"
    using in_windowD [OF assms(5,9)] in_windowD [OF assms(5,8)] by simp_all
  then have "\<exists>q c3. token_access P (\<lambda>i. vs (5 + i)) m token rs op (d1, c2) = (Inr (token_allow, q), d1, c3)"
    if "provisional_allowed (fst (default_kind name)) rs op \<and> check_policy rs op (snd (default_kind name))" for rs op
    using token_access_succeeds [where vs = "\<lambda>i. vs (5 + i)" and n = m, OF assms(1) tok [folded d1(1)]] that by metis
  with reg req show ?thesis by blast
qed

end
