(* ===== verification/Sample_Run.thy ===== *)
theory Sample_Run
  imports Honest_Access Instances
begin

text \<open>
  One concrete node on \<open>toy_platform\<close>, with one provisioned key, and the device temp01 that registers with
  it, obtains a token, its package after the close, and access: the states of this run are the instances at
  which the properties of the whole node are applied.
\<close>

section \<open>The node and the device\<close>

definition sample_node :: "byte fog" where
  "sample_node =
     \<lparr>fg_fog_id = config_fog_id, fg_zone = fog_zone, fg_signing_key = 7,
      fg_psk_store = [(''temp01'', to_hex (sha256 [10]))],
      fg_sessions = session_store_init session_ttl_seconds, fg_devices = [],
      fg_ledger = \<lparr>lg_key = 7, lg_fog_id = config_fog_id, lg_blocks = [], lg_cache = [], lg_file = No_file\<rparr>,
      fg_epochs = \<lparr>em_signing_key = 7, em_fog_id = config_fog_id, em_carry_forward = carry_forward_active,
         em_current_epoch_id = 1, em_pending = [], em_packages = [], em_latest_package = [], em_active_dids = {}\<rparr>,
      fg_challenge_ttl = challenge_ttl_seconds, fg_admin_key = admin_key_default,
      fg_allowed_types = allowed_device_types, fg_token_state = token_state_init nonce_ttl_seconds\<rparr>"

definition sample_env :: "nat \<Rightarrow> env" where
  "sample_env i = \<lparr>ev_now = (\<lambda>_. 0), ev_rnd = [of_nat i], ev_seed = i, ev_leaf_seed = (\<lambda>_. i),
     ev_timestamp = ''2026-01-01T00:00:00+00:00'', ev_timings = JNull\<rparr>"

lemma sample_env_simps [simp]: "ev_now (sample_env i) k = 0" "ev_rnd (sample_env i) = [of_nat i]"
  by (simp_all add: sample_env_def)

definition sample_dev :: "byte device" where
  "sample_dev = device_init toy_platform ''temp01'' ''0a'' 1"

lemma sample_dev_simps: "dv_did sample_dev = did1" "dv_private_key sample_dev = 1"
  by (simp_all add: sample_dev_def device_init_def did1_def sample_pk)

lemma sample_node_start:
  "create_app None (Some [(''temp01'', to_hex (sha256 [10]))]) 7 No_file challenge_ttl_seconds session_ttl_seconds
     carry_forward_active admin_key_default = Inr sample_node"
  by (simp add: create_app_def sample_node_def ledger_init_def epoch_manager_init_def latest_epoch_def psk_store_init_def)

lemmas sample_reachable = reachable.start [OF sample_node_start, of toy_platform]
lemmas sample_inv = first_start_inv [OF sample_node_start, of toy_platform]

lemma sample_authorised: "authorised sample_node (Some (''PSK '' @ dv_name sample_dev @ '':'' @ dv_psk sample_dev))"
proof -
  have "parse_authorization (Some ''PSK temp01:0a'') = Some (''temp01'', ''0a'')" by code_simp
  moreover have "from_hex ''0a'' = Inr [10]" by (simp add: ascii_space_def hex_value_def)
  ultimately show ?thesis
    by (auto simp: authorised_def sample_dev_def device_init_def psk_check_True_iff sample_node_def)
qed

lemma sample_newcomer: "newcomer toy_platform sample_node sample_dev"
proof -
  have "name_matches ''temp01''" by code_simp
  with sample_authorised show ?thesis
    by (simp add: newcomer_def sample_node_def view_def session_store_init_def device_get_def)
      (simp add: sample_dev_def device_init_def)
qed

lemma sample_window: "in_window 0 0 sample_env"
  by (simp add: in_window_def)

lemma sample_ttl: "(0::rat) \<le> of_int (st_ttl (fg_sessions sample_node))" "(0::rat) \<le> of_int (fg_challenge_ttl sample_node)"
    "(0::rat) \<le> of_int (nb_ttl (book sample_node))" "0 \<le> token_ttl_seconds"
  by (simp_all add: sample_node_def session_store_init_def session_ttl_seconds_def challenge_ttl_seconds_def book_def
      token_state_init_def nonce_ttl_seconds_def token_ttl_seconds_def nonce_book_init_def)

lemma sample_kind: "default_kind ''temp01'' = (''temperature_sensor'', ''sensor'')"
  by (simp add: default_kind_def demo_devices_def)

section \<open>Its run\<close>

lemma no_collision_alone:
  assumes "devices_ok (fg_devices c)" "batch_ok (fg_epochs c) (fg_devices c)" "next_members [] (fg_epochs c) (fg_devices c) \<subseteq> {k}"
  shows "\<not> close_collision None c"
proof
  assume "close_collision None c"
  then obtain pl where "finalize_plan [] (fg_epochs c) (fg_devices c) = Inr pl" "did_collision (pl_members pl)"
    by (auto simp: close_collision_def)
  with finalize_plan_cases [OF assms(2), of "[]"] assms(3) have "dict_dom (pl_members pl) \<subseteq> {k}" by auto
  moreover from \<open>did_collision (pl_members pl)\<close> obtain x y where "x \<in> set (pl_members pl)" "y \<in> set (pl_members pl)" "fst x \<noteq> fst y"
    unfolding did_collision_def by fastforce
  ultimately show False unfolding dict_dom_keys by (metis image_eqI set_map singletonD subsetD)
qed

lemma sample_registered:
  obtains data d1 c1 rec k s es where "dev_register toy_platform sample_env 0 (sample_dev, sample_node) = (Inr data, d1, c1)"
    "fog_run toy_platform sample_node es c1" "fog_inv toy_platform c1"
    "dv_did d1 = did1" "dv_private_key d1 = 1" "config_of c1 = config_of sample_node" "fg_token_state c1 = fg_token_state sample_node"
    "queued c1 = {did1}" "dict_get (fg_devices c1) did1 = Some rec" "dr_status rec = PENDING"
    "dr_public_key rec = to_hex (public_key_bytes toy_platform 1)" "dr_device_type rec = Some ''temperature_sensor''"
    "dr_role rec = Some ''sensor''" "\<not> close_collision None c1" "dv_session_id d1 = Some k"
    "dict_get (st_sessions (fg_sessions c1)) k = Some s" "ss_state s = METADATA_ACCEPTED" "ss_did s = Some did1"
    "0 \<le> ss_created_at s + of_int (st_ttl (fg_sessions c1))"
proof -
  obtain data d1 c1 rec where reg: "dev_register toy_platform sample_env 0 (sample_dev, sample_node) = (Inr data, d1, c1)"
    and inv1: "fog_inv toy_platform c1"
    and d1: "dv_did d1 = dv_did sample_dev" "dv_private_key d1 = 1" "config_of c1 = config_of sample_node"
      "fg_token_state c1 = fg_token_state sample_node" "queued c1 = insert (dv_did sample_dev) (queued sample_node)"
    and get: "\<forall>j. dict_get (fg_devices c1) j = (if j = dv_did sample_dev then Some rec else dict_get (fg_devices sample_node) j)"
    and rec: "dr_status rec = PENDING" "dr_public_key rec = to_hex (public_key_bytes toy_platform 1)"
      "dr_device_type rec = Some (fst (default_kind ''temp01''))" "dr_role rec = Some (snd (default_kind ''temp01''))"
    and sess: "\<exists>k s. dv_session_id d1 = Some k \<and> dict_get (st_sessions (fg_sessions c1)) k = Some s \<and> ss_state s = METADATA_ACCEPTED \<and>
       ss_did s = Some (dv_did sample_dev) \<and>
       (\<forall>j l. ev_now (sample_env j) l \<le> ss_created_at s + of_int (st_ttl (fg_sessions c1)))"
    using dev_register_succeeds [OF toy_ecdsa sample_inv sample_dev_def sample_newcomer sample_window sample_ttl(1,2), of 0] by metis
  have q: "queued c1 = {did1}" using d1(5) by (simp add: sample_dev_simps queued_def sample_node_def)
  have get1: "dict_get (fg_devices c1) j = (if j = did1 then Some rec else None)" for j
    using get by (simp add: sample_dev_simps sample_node_def)
  have "next_members [] (fg_epochs c1) (fg_devices c1) \<subseteq> {did1}"
    using q get1 by (auto simp: next_members_def queued_def dict_dom_iff split: if_splits)
  then have nocoll: "\<not> close_collision None c1"
    by (rule no_collision_alone [OF fog_invD(6) [OF inv1] epochs_invD(2) [OF fog_invD(2) [OF inv1]]])
  obtain es where es: "fog_run toy_platform sample_node es c1" using drivesD [OF drives_register reg] by blast
  from sess obtain k s where "dv_session_id d1 = Some k" "dict_get (st_sessions (fg_sessions c1)) k = Some s"
    "ss_state s = METADATA_ACCEPTED" "ss_did s = Some did1" "0 \<le> ss_created_at s + of_int (st_ttl (fg_sessions c1))"
    by (auto simp: sample_dev_simps)
  with reg es inv1 d1(1-4) q get1 rec nocoll that show thesis
    by (simp add: sample_dev_simps sample_kind)
qed

lemma run_reachable: "fog_run P c es c' \<Longrightarrow> reachable P c \<Longrightarrow> reachable P c'"
  by (induction rule: fog_run.induct) (auto intro: reachable.step)

text \<open>After the close: the package lets the device in, and stays reachable.\<close>

lemma sample_active:
  obtains c p es where "fog_run toy_platform sample_node es c" "active toy_platform c 1 p ''sensor''" "pp_did p = did1"
    "0 \<le> nb_ttl (book c)" "config_of c = config_of sample_node"
proof -
  obtain data d1 c1 rec k s es where "dev_register toy_platform sample_env 0 (sample_dev, sample_node) = (Inr data, d1, c1)"
    and es: "fog_run toy_platform sample_node es c1" and inv1: "fog_inv toy_platform c1"
    and d1: "dv_did d1 = did1" "dv_private_key d1 = 1" "config_of c1 = config_of sample_node" "fg_token_state c1 = fg_token_state sample_node"
    "queued c1 = {did1}" "dict_get (fg_devices c1) did1 = Some rec" "dr_status rec = PENDING"
    "dr_public_key rec = to_hex (public_key_bytes toy_platform 1)" "dr_device_type rec = Some ''temperature_sensor''"
    "dr_role rec = Some ''sensor''" and nocoll: "\<not> close_collision None c1"
    by (rule sample_registered)
  obtain body c2 p d2 where close: "handle toy_platform (sample_env 4) (Epoch_close None (Some (fg_admin_key c1))) c1 = (Reply body, c2)"
    and p: "active toy_platform c2 1 p ''sensor''" "pp_did p = did1" "book c2 = book c1"
  proof (rule package_served [where d = d1 and c = c1 and rec = rec and v = "sample_env 4" and v' = "sample_env 5" and role = "''sensor''",
        OF toy_ecdsa inv1 d1(2) _ _ d1(7,8,10) _ nocoll])
    show "role_valid_for_type (dr_device_type rec) (Some ''sensor'')"
      using default_kind_ok(3) [of "''temp01''"] by (simp add: sample_kind d1(9))
  qed (use d1 in simp_all)
  have run: "fog_run toy_platform sample_node (es @ [Answered (sample_env 4) (Epoch_close None (Some (fg_admin_key c1))) (Reply body)]) c2"
    using es close by (auto simp: fog_run_append fog_run_Cons fog_step_answered)
  have "book c1 = book sample_node" using d1(4) by (simp add: book_def)
  with sample_ttl(3) p(3) have "0 \<le> nb_ttl (book c2)" by simp
  with run p run_config [OF run] that show thesis by blast
qed

lemma sample_package_use:
  assumes "active toy_platform c 1 p ''sensor''" "0 \<le> nb_ttl (book c)"
  obtains n c1 sg c2 where "handle toy_platform (sample_env 7) (Verify_nonce (pp_did p)) c = (Reply n, c1)"
    "handle toy_platform (sample_env 8) (Verify_access (dump_package p) ''temperature_sensor'' ''read'' (to_hex [7]) sg) c1 =
       (Reply (verify_allow (JInt (pp_epoch_id p)) ''sensor''), c2)"
    "active toy_platform c1 1 p ''sensor''" "active toy_platform c2 1 p ''sensor''" "0 \<le> nb_ttl (book c2)"
proof -
  have pol: "check_policy ''temperature_sensor'' ''read'' ''sensor''" by (simp add: check_policy_def policy_table_def)
  have "ev_now (sample_env 8) 0 \<le> ev_now (sample_env 7) 0 + of_int (nb_ttl (book c))" using assms(2) by simp
  from access_round [OF toy_runtime_ok toy_ecdsa assms(1) pol this, of 0] assms(2) that show thesis
    by (metis (no_types, lifting) of_nat_numeral sample_env_simps(2))
qed

lemma sample_revoked:
  obtains c es where "fog_run toy_platform sample_node es c" "is_device_revoked (fg_devices c) did1"
proof -
  obtain c p es where run: "fog_run toy_platform sample_node es c" and act: "active toy_platform c 1 p ''sensor''" "pp_did p = did1"
    by (rule sample_active)
  then have "device_get (fg_devices c) did1 \<noteq> None" unfolding active_def device_get_def by auto
  then obtain body c' where h: "handle toy_platform (sample_env 0) (Revoke did1 None False (Some (fg_admin_key c))) c = (Reply body, c')"
    and "is_device_revoked (fg_devices c') did1" by (rule revoke_succeeds)
  moreover have "fog_run toy_platform sample_node (es @ [Answered (sample_env 0) (Revoke did1 None False (Some (fg_admin_key c))) (Reply body)]) c'"
    using run h by (auto simp: fog_run_append fog_run_Cons fog_step_answered)
  ultimately show thesis using that by blast
qed

section \<open>Witnesses\<close>

theorem reachable_state_consistent_witness:
  "\<exists>c p. active toy_platform c 1 p ''sensor'' \<and> verify_chain toy_platform None (fg_ledger c) = Inr (Chain_valid (ledger_len (fg_ledger c))) \<and>
     pp_epoch_id p < em_current_epoch_id (fg_epochs c) \<and> (\<exists>mem. commits_to (pp_root p) mem)"
proof -
  obtain c p es where run: "fog_run toy_platform sample_node es c" and act: "active toy_platform c 1 p ''sensor''"
    by (rule sample_active)
  from reachable_state_consistent [OF toy_ecdsa run_reachable [OF run sample_reachable]] act show ?thesis
    unfolding active_def by blast
qed

theorem unhandled_exceptions_witness:
  "\<exists>c p. handle toy_platform (sample_env 0) (Tokens_access (package_token p) ''n'' ''temperature_sensor'' ''read'' ''00'') c = (Server_error KeyError, c) \<and>
     \<not> well_shaped (package_token p)"
proof -
  obtain c p es where run: "fog_run toy_platform sample_node es c" and act: "active toy_platform c 1 p ''sensor''"
    by (rule sample_active)
  from act have "accepts toy_platform p (Some (pp_root p)) (public_key_bytes toy_platform (fg_signing_key c))" by (simp add: active_def)
  then have "token_signature_valid toy_platform (package_token p) (fg_signing_key c)" by (rule package_token_valid)
  then have h: "handle toy_platform (sample_env 0) (Tokens_access (package_token p) ''n'' ''temperature_sensor'' ''read'' ''00'') c = (Server_error KeyError, c)"
    by (simp add: tokens_access_def) (simp add: package_token_def)
  with unhandled_exceptions_are_these [OF toy_ecdsa run_reachable [OF run sample_reachable] h] show ?thesis by auto
qed

theorem package_passes_as_token_witness:
  "\<exists>c p. active toy_platform c 1 p ''sensor'' \<and>
     tokens_access toy_platform (\<lambda>_. 0) (package_token p) ''n'' ''temperature_sensor'' ''read'' ''00'' c = (Server_error KeyError, c)"
proof -
  obtain c p es where act: "active toy_platform c 1 p ''sensor''" by (rule sample_active)
  then show ?thesis using package_passes_as_token unfolding active_def by blast
qed

theorem restart_forgets_revocation_witness:
  "\<exists>(c :: byte fog) (c' :: byte fog). is_device_revoked (fg_devices c) did1 \<and>
     create_app None None 7 (lg_file (fg_ledger c)) 30 300 True ''k'' = Inr c' \<and> \<not> is_device_revoked (fg_devices c') did1"
proof -
  obtain c es where run: "fog_run toy_platform sample_node es c" and rev: "is_device_revoked (fg_devices c) did1"
    by (rule sample_revoked)
  have key: "fg_signing_key c = 7" using run_config [OF run] by (simp add: config_of_def sample_node_def)
  note reach = run_reachable [OF run sample_reachable]
  obtain c' where "create_app None None (fg_signing_key c) (lg_file (fg_ledger c)) 30 300 True ''k'' = Inr c'"
    using restart_succeeds [OF reachable_inv [OF reach toy_ecdsa]] by blast
  from restart_forgets_revocation [OF toy_ecdsa reach this] rev this key show ?thesis by auto
qed

theorem registration_implements_machine_witness:
  "\<exists>c' :: byte fog. onboard (authorised sample_node) (Register_start (Some ''PSK temp01:0a'')) True (view sample_node) (view c')"
proof -
  from sample_authorised have "authorised sample_node (Some ''PSK temp01:0a'')" by (simp add: sample_dev_def device_init_def)
  then obtain i c' r where "handle toy_platform (sample_env 0) (Register_start (Some ''PSK temp01:0a'')) sample_node = (Reply r, c')"
    by (rule start_succeeds [where now = "ev_now (sample_env 0)" and rnd = "ev_rnd (sample_env 0)"]) simp
  from registration_implements_machine [OF toy_ecdsa sample_reachable this] show ?thesis by auto
qed

theorem registration_in_order_witness:
  "\<exists>es c k a hex sg body. fog_run toy_platform sample_node es c \<and> view c k = Some (METADATA_ACCEPTED, Some did1) \<and> authorised sample_node a \<and>
     subseq [Register_start a, Register_pubkey k did1 hex, Register_pop k sg, Register_metadata body] (successes es)"
proof -
  obtain data d1 c1 rec k s es where run: "fog_run toy_platform sample_node es c1"
    and "dict_get (st_sessions (fg_sessions c1)) k = Some s" "ss_state s = METADATA_ACCEPTED" "ss_did s = Some did1"
    by (rule sample_registered)
  then have v: "view c1 k = Some (METADATA_ACCEPTED, Some did1)" by (simp add: view_def)
  from registration_in_order [OF toy_ecdsa sample_node_start run v] run v show ?thesis by blast
qed

theorem verify_allow_sound_witness:
  "\<exists>c p sg r c' rec. verify_and_authorize toy_platform (\<lambda>_. 0) (dump_package p) ''temperature_sensor'' ''read'' (to_hex [7]) sg c = (r, c') \<and>
     allowed r \<and> device_get (fg_devices c) (pp_did p) = Some rec \<and> dr_status rec = REGISTERED \<and> \<not> spendable (book c') (to_hex [7])"
proof -
  obtain c p es where run: "fog_run toy_platform sample_node es c" and act: "active toy_platform c 1 p ''sensor''" "0 \<le> nb_ttl (book c)"
    by (rule sample_active)
  obtain n c1 sg c2 where h: "handle toy_platform (sample_env 7) (Verify_nonce (pp_did p)) c = (Reply n, c1)"
    "handle toy_platform (sample_env 8) (Verify_access (dump_package p) ''temperature_sensor'' ''read'' (to_hex [7]) sg) c1 =
       (Reply (verify_allow (JInt (pp_epoch_id p)) ''sensor''), c2)"
    by (rule sample_package_use [OF act])
  have r: "reachable toy_platform c1"
    using reachable.step [OF run_reachable [OF run sample_reachable] fog_step.answered [OF h(1)]] .
  from h(2) have v: "verify_and_authorize toy_platform (\<lambda>_. 0) (dump_package p) ''temperature_sensor'' ''read'' (to_hex [7]) sg c1 =
     (Reply (verify_allow (JInt (pp_epoch_id p)) ''sensor''), c2)" by (simp add: sample_env_def)
  obtain p' where p': "parse_package toy_platform (dump_package p) = Inr p'"
    "\<exists>rec. device_get (fg_devices c1) (pp_did p') = Some rec \<and> dr_status rec = REGISTERED" "\<not> spendable (book c2) (to_hex [7])"
    using verify_allow_sound [OF toy_ecdsa r v] by auto
  moreover have "p' = p" using p'(1) parse_dump_package [OF toy_runtime_ok, of p] by simp
  ultimately show ?thesis using v allowed_decisions(4) by blast
qed

theorem revocation_is_final_witness:
  "\<exists>c p r c'. is_device_revoked (fg_devices c) did1 \<and> pp_did p = did1 \<and>
     handle toy_platform (sample_env 0) (Verify_access (dump_package p) ''temperature_sensor'' ''read'' ''00'' ''00'') c = (r, c') \<and> \<not> allowed r"
proof -
  obtain c es where run: "fog_run toy_platform sample_node es c" and rev: "is_device_revoked (fg_devices c) did1"
    by (rule sample_revoked)
  obtain c0 p es0 where "active toy_platform c0 1 p ''sensor''" and p: "pp_did p = did1"
    by (rule sample_active)
  let ?q = "Verify_access (dump_package p) ''temperature_sensor'' ''read'' ''00'' ''00''"
  obtain r c' where h: "handle toy_platform (sample_env 0) ?q c = (r, c')" by fastforce
  then have step: "fog_run toy_platform c [Answered (sample_env 0) ?q r] c'" by (simp add: fog_run_Cons fog_step_answered)
  have "names_device ?q did1" using p by (simp add: dump_package_def)
  then have "\<not> allowed r"
    using revocation_is_final [OF toy_ecdsa run_inv [OF toy_ecdsa run sample_inv] step, of "sample_env 0" ?q r did1 "[]"] rev by simp
  with rev p h show ?thesis by blast
qed

theorem replay_denied_witness:
  "\<exists>c q q' r r' ys c'. fog_run toy_platform c (Answered (sample_env 8) q r # ys @ [Answered (sample_env 8) q' r']) c' \<and>
     allowed r \<and> allowed r' \<and> nonce_of q = Some (to_hex [7]) \<and> nonce_of q' = Some (to_hex [7]) \<and> list_ex (\<lambda>e. issues e (to_hex [7])) ys"
proof -
  obtain c p es where run: "fog_run toy_platform sample_node es c" and act: "active toy_platform c 1 p ''sensor''" "0 \<le> nb_ttl (book c)"
    by (rule sample_active)
  let ?q = "\<lambda>sg. Verify_access (dump_package p) ''temperature_sensor'' ''read'' (to_hex [7]) sg"
  let ?r = "Reply (verify_allow (JInt (pp_epoch_id p)) ''sensor'')"
  obtain n c1 sg c2 where h: "handle toy_platform (sample_env 7) (Verify_nonce (pp_did p)) c = (Reply n, c1)"
    "handle toy_platform (sample_env 8) (?q sg) c1 = (?r, c2)" and act2: "active toy_platform c2 1 p ''sensor''" "0 \<le> nb_ttl (book c2)"
    by (rule sample_package_use [OF act])
  obtain n' c3 sg' c4 where h': "handle toy_platform (sample_env 7) (Verify_nonce (pp_did p)) c2 = (Reply n', c3)"
    "handle toy_platform (sample_env 8) (?q sg') c3 = (?r, c4)"
    by (rule sample_package_use [OF act2])
  let ?ys = "[Answered (sample_env 7) (Verify_nonce (pp_did p)) (Reply n')]"
  have run': "fog_run toy_platform c1 ([] @ Answered (sample_env 8) (?q sg) ?r # ?ys @ Answered (sample_env 8) (?q sg') ?r # []) c4"
    using h h' unfolding append_Nil append_Cons by (simp only: fog_run_Cons fog_run_Nil fog_step_answered) blast
  have inv: "fog_inv toy_platform c1"
    using run_inv [OF toy_ecdsa run sample_inv] handle_inv [OF toy_ecdsa _ h(1)] by blast
  from replay_denied [OF toy_ecdsa inv run'] have "list_ex (\<lambda>e. issues e (to_hex [7])) ?ys" by simp
  moreover have "nonce_of (?q sg) = Some (to_hex [7])" "nonce_of (?q sg') = Some (to_hex [7])" by simp_all
  moreover have "allowed ?r" by (rule allowed_decisions)
  ultimately show ?thesis using run' unfolding append_Nil by blast
qed

theorem known_device_not_replaced_witness:
  "\<exists>c rec r c'. device_get (fg_devices c) did1 = Some rec \<and>
     handle toy_platform (sample_env 0) (Register_pubkey ''00'' did1 (to_hex pk1)) c = (r, c') \<and> r \<noteq> Reply JNull \<and>
     map_option dr_public_key (device_get (fg_devices c') did1) = Some (dr_public_key rec)"
proof -
  obtain c p es where run: "fog_run toy_platform sample_node es c" and act: "active toy_platform c 1 p ''sensor''" "pp_did p = did1"
    by (rule sample_active)
  then obtain rec where rec: "device_get (fg_devices c) did1 = Some rec" unfolding active_def device_get_def by auto
  let ?q = "Register_pubkey ''00'' did1 (to_hex pk1)"
  obtain r c' where h: "handle toy_platform (sample_env 0) ?q c = (r, c')" by fastforce
  then have step: "fog_run toy_platform c [Answered (sample_env 0) ?q r] c'" by (simp add: fog_run_Cons fog_step_answered)
  from known_device_not_replaced [OF toy_ecdsa run_inv [OF toy_ecdsa run sample_inv] step rec] rec h show ?thesis by fastforce
qed

theorem honest_device_gets_access_witness:
  "\<exists>data d1 c1 body c2 pkg d2 e q c3. dev_register toy_platform sample_env 0 (sample_dev, sample_node) = (Inr data, d1, c1) \<and>
     handle toy_platform (sample_env 4) (Epoch_close None (Some admin_key_default)) c1 = (Reply body, c2) \<and>
     fetch_proof toy_platform (sample_env 5) None (d1, c2) = (Inr pkg, d2, c2) \<and>
     verify_access toy_platform (\<lambda>i. sample_env (6 + i)) 0 ''temperature_sensor'' ''read'' None (d2, c2) =
       (Inr (verify_allow (JInt e) ''sensor'', q), d2, c3)"
proof -
  obtain data d1 c1 where reg: "dev_register toy_platform sample_env 0 (sample_dev, sample_node) = (Inr data, d1, c1)"
    and nocoll: "\<not> close_collision None c1" by (rule sample_registered)
  have admin: "fg_admin_key sample_node = admin_key_default" by (simp add: sample_node_def)
  have pol: "check_policy ''temperature_sensor'' ''read'' (snd (default_kind ''temp01''))"
    by (simp add: sample_kind check_policy_def policy_table_def)
  obtain data' d1' c1' where reg': "dev_register toy_platform sample_env 0 (sample_dev, sample_node) = (Inr data', d1', c1')"
    and rest: "close_collision None c1' \<or>
     (\<exists>body c2 pkg d2. handle toy_platform (sample_env 4) (Epoch_close None (Some admin_key_default)) c1' = (Reply body, c2) \<and>
        fetch_proof toy_platform (sample_env 5) None (d1', c2) = (Inr pkg, d2, c2) \<and>
        (\<forall>rs op. check_policy rs op (snd (default_kind ''temp01'')) \<longrightarrow>
           (\<exists>e q c3. verify_access toy_platform (\<lambda>i. sample_env (6 + i)) 0 rs op None (d2, c2) =
              (Inr (verify_allow (JInt e) (snd (default_kind ''temp01'')), q), d2, c3))))"
    using honest_device_gets_access [OF toy_ecdsa toy_runtime_ok sample_reachable sample_dev_def sample_newcomer sample_window sample_ttl(1-3), of 0 0]
    unfolding admin by blast
  have "d1' = d1" "c1' = c1" using reg reg' by simp_all
  with rest nocoll obtain body c2 pkg d2 where
    "handle toy_platform (sample_env 4) (Epoch_close None (Some admin_key_default)) c1 = (Reply body, c2)"
    "fetch_proof toy_platform (sample_env 5) None (d1, c2) = (Inr pkg, d2, c2)"
    "\<And>rs op. check_policy rs op (snd (default_kind ''temp01'')) \<Longrightarrow>
       \<exists>e q c3. verify_access toy_platform (\<lambda>i. sample_env (6 + i)) 0 rs op None (d2, c2) =
         (Inr (verify_allow (JInt e) (snd (default_kind ''temp01'')), q), d2, c3)"
    by blast
  with reg pol show ?thesis by (simp add: sample_kind)
qed

theorem newcomer_gets_provisional_access_witness:
  "\<exists>d1 token c2 q c3. token_access toy_platform (\<lambda>i. sample_env (5 + i)) 0 token ''temperature_sensor'' ''write'' (d1, c2) =
     (Inr (token_allow, q), d1, c3)"
proof -
  have "\<not> is_revoked (fg_token_state sample_node) (to_hex (ev_rnd (sample_env 4)))"
    by (simp add: sample_node_def is_revoked_def token_state_init_def del: to_hex_simps)
  from newcomer_gets_provisional_access [OF toy_ecdsa sample_reachable sample_dev_def sample_newcomer sample_window sample_ttl this, of 0 0]
  obtain d1 token c2 where served: "\<And>rs op. provisional_allowed ''temperature_sensor'' rs op \<Longrightarrow> check_policy rs op ''sensor'' \<Longrightarrow>
     \<exists>q c3. token_access toy_platform (\<lambda>i. sample_env (5 + i)) 0 token rs op (d1, c2) = (Inr (token_allow, q), d1, c3)"
    unfolding sample_kind fst_conv snd_conv by blast
  have "provisional_allowed ''temperature_sensor'' ''temperature_sensor'' ''write''" "check_policy ''temperature_sensor'' ''write'' ''sensor''"
    by (simp_all add: provisional_allowed_def provisional_operations_def check_policy_def policy_table_def)
  from served [OF this] show ?thesis by blast
qed

text \<open>A token issued to the device, and the request with it.\<close>

lemma sample_token_use:
  obtains es c t xs v k zs nonce sg c2 where "fog_run toy_platform sample_node es c" "es = xs @ Answered v (Tokens_issue k) (Reply (JObj t)) # zs"
    "dict_ok t" "tokens_access toy_platform (\<lambda>_. 0) t nonce ''temperature_sensor'' ''write'' sg c = (Reply token_allow, c2)"
proof -
  obtain data d1 c1 rec k s es where "dev_register toy_platform sample_env 0 (sample_dev, sample_node) = (Inr data, d1, c1)"
    and run: "fog_run toy_platform sample_node es c1" and inv1: "fog_inv toy_platform c1" and d1: "dv_private_key d1 = 1" "fg_token_state c1 = fg_token_state sample_node"
    and rec: "dict_get (fg_devices c1) did1 = Some rec" "dr_status rec = PENDING"
      "dr_public_key rec = to_hex (public_key_bytes toy_platform 1)" "dr_device_type rec = Some ''temperature_sensor''"
      "dr_role rec = Some ''sensor''"
    and s: "dv_session_id d1 = Some k"
      "dict_get (st_sessions (fg_sessions c1)) k = Some s" "ss_state s = METADATA_ACCEPTED" "ss_did s = Some did1"
      "0 \<le> ss_created_at s + of_int (st_ttl (fg_sessions c1))"
    by (rule sample_registered)
  have role: "role_valid_for_type (Some ''temperature_sensor'') (Some ''sensor'')"
    using default_kind_ok(3) [of "''temp01''"] by (simp add: sample_kind)
  have fresh: "\<not> is_revoked (fg_token_state c1) (to_hex (ev_rnd (sample_env 4)))"
    by (simp add: d1(2) sample_node_def is_revoked_def token_state_init_def del: to_hex_simps)
  have live: "ev_now (sample_env 4) 0 \<le> ss_created_at s + of_int (st_ttl (fg_sessions c1))" using s(5) by simp
  obtain t c2 where issue: "handle toy_platform (sample_env 4) (Tokens_issue k) c1 = (Reply (JObj t), c2)" and ok: "dict_ok t"
    and t: "holds_token toy_platform c2 1 t (to_hex (ev_rnd (sample_env 4))) did1 ''temperature_sensor'' ''sensor''
       (ev_now (sample_env 4) 1 + token_ttl_seconds)" "unrevoked c2 (to_hex (ev_rnd (sample_env 4))) did1" and "book c2 = book c1"
    using token_served [where v = "sample_env 4", OF toy_ecdsa inv1 s(1-4) live rec role fresh] by metis
  have pol: "provisional_allowed ''temperature_sensor'' ''temperature_sensor'' ''write''" "check_policy ''temperature_sensor'' ''write'' ''sensor''"
    by (simp_all add: provisional_allowed_def provisional_operations_def check_policy_def policy_table_def)
  have "book c2 = book sample_node" using \<open>book c2 = book c1\<close> d1(2) by (simp add: book_def)
  with sample_ttl(3,4) have times: "ev_now (sample_env 6) 0 \<le> ev_now (sample_env 4) 1 + token_ttl_seconds"
    "ev_now (sample_env 6) 1 \<le> ev_now (sample_env 5) 0 + of_int (nb_ttl (book c2))" by simp_all
  let ?tid = "to_hex (ev_rnd (sample_env 4))"
  have "was_issued (fg_token_state c2) ?tid" using t(1) by (simp add: holds_token_def)
  from token_nonce_served [OF this] obtain n where
    n: "handle toy_platform (sample_env 5) (Tokens_nonce ?tid) c2 = (Reply n, with_token_nonce (sample_env 5) ?tid c2)" by blast
  obtain nonce sg c4 where acc: "handle toy_platform (sample_env 6) (Tokens_access t nonce ''temperature_sensor'' ''write'' sg)
      (with_token_nonce (sample_env 5) ?tid c2) = (Reply token_allow, c4)"
    using token_round [where m = 0, OF toy_ecdsa t pol times] by metis
  have "fog_run toy_platform sample_node (es @ Answered (sample_env 4) (Tokens_issue k) (Reply (JObj t)) #
     [Answered (sample_env 5) (Tokens_nonce ?tid) (Reply n)]) (with_token_nonce (sample_env 5) ?tid c2)"
    unfolding fog_run_append using run issue n by (metis fog_run.move fog_run.stop fog_step.answered)
  with that acc ok show thesis by (simp add: sample_env_def)
qed

theorem access_allow_sound_witness:
  "\<exists>es c t nonce sg c' tid did. fog_run toy_platform sample_node es c \<and>
     tokens_access toy_platform (\<lambda>_. 0) t nonce ''temperature_sensor'' ''write'' sg c = (Reply token_allow, c') \<and>
     \<not> forged_in toy_platform es (public_key_bytes toy_platform (fg_signing_key c)) t \<and>
     dict_get t ''token_id'' = Some (JStr tid) \<and> dict_get t ''did'' = Some (JStr did) \<and> \<not> is_revoked (fg_token_state c) tid \<and>
     \<not> spendable (book c') nonce \<and>
     (\<exists>xs v k zs t0 c1 rec. es = xs @ Answered v (Tokens_issue k) (Reply (JObj t0)) # zs \<and> fog_run toy_platform sample_node xs c1 \<and>
        dict_get (fg_devices c1) did = Some rec \<and> dict_get t ''public_key'' = Some (JStr (dr_public_key rec)))"
proof -
  obtain es c t xs v k zs nonce sg c2 where run: "fog_run toy_platform sample_node es c"
    and es: "es = xs @ Answered v (Tokens_issue k) (Reply (JObj t)) # zs" and ok: "dict_ok t"
    and acc: "tokens_access toy_platform (\<lambda>_. 0) t nonce ''temperature_sensor'' ''write'' sg c = (Reply token_allow, c2)"
    by (rule sample_token_use)
  have "issued_in es t" unfolding issued_in_def es by auto
  then have "cjson toy_platform (JObj (signed_fields t)) \<in> fog_texts toy_platform es" unfolding fog_texts_def by blast
  then have genuine: "\<not> forged_in toy_platform es (public_key_bytes toy_platform (fg_signing_key c)) t" by (simp add: forged_in_def)
  have "allowed (Reply token_allow)" by simp
  note sound = access_allow_sound [OF toy_platform_ok sample_inv run acc this ok]
  from sound obtain tid did where facts: "dict_get t ''token_id'' = Some (JStr tid)" "dict_get t ''did'' = Some (JStr did)"
      "\<not> is_revoked (fg_token_state c) tid" "\<not> spendable (book c2) nonce"
    and origin: "\<exists>xs v k zs t0 c1 rec. es = xs @ Answered v (Tokens_issue k) (Reply (JObj t0)) # zs \<and> fog_run toy_platform sample_node xs c1 \<and>
      dict_get (fg_devices c1) did = Some rec \<and> dict_get t ''public_key'' = Some (JStr (dr_public_key rec))"
    using genuine by (elim exE conjE disjE) metis+
  show ?thesis
    by (rule exI [of _ es], rule exI [of _ c], rule exI [of _ t], rule exI [of _ nonce], rule exI [of _ sg], rule exI [of _ c2],
        rule exI [of _ tid], rule exI [of _ did], intro conjI)
      (fact run, fact acc, fact genuine, fact facts(1), fact facts(2), fact facts(3), fact facts(4), fact origin)
qed

end
