(* ===== verification/Provisioning.thy ===== *)
theory Provisioning
  imports Honest_Run
begin

text \<open>
  scripts/gen_certs.py: the factory provisioning of pre-shared keys, and how a device loads its own
  (devices/device.py). The two files are dictionaries here; the files, the keys and the certificates of TLS are in Key_Files and Setup_Files.
  Lemmas: the two sides agree, and every provisioned name is one that the fog accepts.
\<close>

definition sim_device_count :: nat where "sim_device_count = 1000"

text \<open>\<open>f"{i:04d}"\<close>\<close>

definition format_04d :: "nat \<Rightarrow> string" where
  "format_04d i = replicate (4 - length (str_int (int i))) (CHR ''0'') @ str_int (int i)"

definition provisioned_names :: "string list" where
  "provisioned_names = dict_keys demo_devices @ map (\<lambda>i. ''sim'' @ format_04d i) [1..<sim_device_count + 1]"

text \<open>\<open>rnd k\<close> is what the k-th call of \<open>secrets.token_hex\<close> draws; the hash is that of \<open>hash_psk\<close>, written out in the code.\<close>

fun provision_loop ::
    "(nat \<Rightarrow> bytes) \<Rightarrow> nat \<Rightarrow> string list \<Rightarrow> (string, string) dict \<times> (string, string) dict \<Rightarrow>
     ((string, string) dict \<times> (string, string) dict) res" where
  "provision_loop rnd k [] sides = Inr sides"
| "provision_loop rnd k (name # names) (device_side, fog_side) =
     (let psk = to_hex (rnd k)
      in case hash_psk psk of
           Inl e \<Rightarrow> Inl e
         | Inr h \<Rightarrow> provision_loop rnd (Suc k) names (dict_set name psk device_side, dict_set name h fog_side))"

definition provision_psks :: "(nat \<Rightarrow> bytes) \<Rightarrow> ((string, string) dict \<times> (string, string) dict) res" where
  "provision_psks rnd = provision_loop rnd 0 provisioned_names ([], [])"

definition load_psk :: "(string, string) dict \<Rightarrow> string \<Rightarrow> string res" where
  "load_psk data name = (case dict_get data name of None \<Rightarrow> Inl KeyError | Some psk \<Rightarrow> Inr psk)"

section \<open>Names\<close>

lemma length_dec_nat_le: "n < 10 ^ Suc k \<Longrightarrow> length (dec_nat n) \<le> Suc k"
proof (induction k arbitrary: n)
  case 0
  then show ?case by (simp add: dec_nat_small)
next
  case (Suc k)
  then have "n div 10 < 10 ^ Suc k" by (simp add: less_mult_imp_div_less mult.commute)
  from Suc.IH [OF this] show ?case
    by (cases "n < 10") (simp_all add: dec_nat_small dec_nat_large)
qed

lemma dec_digit_name_char: "c \<in> dec_digits \<Longrightarrow> name_char c"
  by (auto simp: dec_digits_def name_char_def)

lemma name_matches_plain:
  assumes "list_all name_char s" "2 \<le> length s" "length s \<le> 32"
  shows "name_matches s"
proof -
  have "last s \<noteq> line_feed" if "s \<noteq> []"
  proof
    assume "last s = line_feed"
    moreover have "name_char (last s)" using assms(1) that by (simp add: list_all_iff)
    ultimately show False by (simp add: line_feed_def name_char_def)
  qed
  with assms show ?thesis by (auto simp: name_matches_def)
qed

lemma sim_name:
  assumes "i \<le> sim_device_count"
  shows "name_matches (''sim'' @ format_04d i)" "CHR '':'' \<notin> set (''sim'' @ format_04d i)"
proof -
  have i: "str_int (int i) = dec_nat i" by (simp add: str_int_def)
  have "length (dec_nat i) \<le> Suc 3" using assms by (intro length_dec_nat_le) (simp add: sim_device_count_def)
  then have len: "length (format_04d i) = 4" by (simp add: format_04d_def i)
  have digits: "set (format_04d i) \<subseteq> dec_digits" using dec_nat_digits [of i] by (auto simp: format_04d_def i dec_digits_def)
  have "list_all name_char (''sim'' @ format_04d i)"
    using digits dec_digit_name_char by (auto simp: list_all_iff name_char_def)
  then show "name_matches (''sim'' @ format_04d i)" by (rule name_matches_plain) (simp_all add: len)
  show "CHR '':'' \<notin> set (''sim'' @ format_04d i)" using digits by (auto simp: dec_digits_def)
qed

lemma provisioned_name:
  assumes "name \<in> set provisioned_names"
  shows "name_matches name" "CHR '':'' \<notin> set name" "name \<noteq> []"
proof -
  have demo: "list_all (\<lambda>n. name_matches n \<and> CHR '':'' \<notin> set n) (dict_keys demo_devices)" by code_simp
  from assms have ok: "name_matches name \<and> CHR '':'' \<notin> set name"
    unfolding provisioned_names_def using demo sim_name by (auto simp: list_all_iff)
  then show "name_matches name" "CHR '':'' \<notin> set name" by simp_all
  from ok show "name \<noteq> []" by (auto simp: name_matches_def)
qed

section \<open>The two sides\<close>

text \<open>The fog's side holds, for the same names, the hashes of keys of the device side.\<close>

definition sides_agree :: "(nat \<Rightarrow> bytes) \<Rightarrow> (string, string) dict \<times> (string, string) dict \<Rightarrow> bool" where
  "sides_agree rnd sides \<longleftrightarrow>
     (\<forall>name. (\<exists>k. dict_get (fst sides) name = Some (to_hex (rnd k)) \<and> dict_get (snd sides) name = Some (to_hex (sha256 (rnd k)))) \<or>
        dict_get (fst sides) name = None \<and> dict_get (snd sides) name = None)"

lemma provision_loop_ok:
  assumes "sides_agree rnd sides"
  obtains result where "provision_loop rnd k names sides = Inr result" "sides_agree rnd result"
    "dict_dom (fst result) = dict_dom (fst sides) \<union> set names"
  using assms
proof (induction rnd k names sides arbitrary: thesis rule: provision_loop.induct)
  case (1 rnd k sides)
  then show ?case by simp
next
  case (2 rnd k name names device_side fog_side)
  let ?next = "(dict_set name (to_hex (rnd k)) device_side, dict_set name (to_hex (sha256 (rnd k))) fog_side)"
  have h: "hash_psk (to_hex (rnd k)) = Inr (to_hex (sha256 (rnd k)))" by (simp add: hash_psk_def)
  have "sides_agree rnd ?next" using 2(3) by (auto simp: sides_agree_def dict_simps)
  with 2(1) [OF refl h] obtain result where "provision_loop rnd (Suc k) names ?next = Inr result" "sides_agree rnd result"
    "dict_dom (fst result) = dict_dom (fst ?next) \<union> set names" by blast
  with 2(2) h show ?case by simp
qed

lemma provision_psks_ok:
  obtains device_side fog_side where "provision_psks rnd = Inr (device_side, fog_side)"
    "\<And>name. name \<in> set provisioned_names \<longleftrightarrow> dict_get device_side name \<noteq> None"
    "sides_agree rnd (device_side, fog_side)"
proof -
  have "sides_agree rnd ([], [])" by (simp add: sides_agree_def)
  from provision_loop_ok [OF this, of 0 provisioned_names] that show thesis
    unfolding provision_psks_def by (metis Un_empty_left dict_dom_iff dict_dom_simps(1) fst_conv surj_pair)
qed

lemma strip_plain:
  assumes "\<not> py_space x" "b \<noteq> []" "\<not> py_space (last b)"
  shows "py_strip (x # b) = x # b"
proof -
  obtain ys y where "b = ys @ [y]" using assms(2) by (metis rev_exhaust)
  with assms(1,3) show ?thesis by (simp add: py_strip_def)
qed

lemma hex_no_space: "c \<in> set (to_hex b) \<Longrightarrow> \<not> py_space c"
proof -
  have "list_all (\<lambda>c. \<not> py_space c) hex_digits" by code_simp
  then show "c \<in> set (to_hex b) \<Longrightarrow> \<not> py_space c" using hex_chars [of b] by (auto simp: list_all_iff)
qed

lemma header_parsed:
  assumes "name \<noteq> []" "CHR '':'' \<notin> set name" "b \<noteq> []"
  shows "parse_authorization (Some (''PSK '' @ name @ '':'' @ to_hex b)) = Some (name, to_hex b)"
proof -
  have hex: "to_hex b \<noteq> []" using assms(3) by (cases b) (simp_all add: hex_byte_def)
  then have "\<not> py_space (last (''SK '' @ name @ '':'' @ to_hex b))" using hex_no_space [of "last (to_hex b)" b] by simp
  moreover have "\<not> py_space (CHR ''P'')" by (simp add: py_space_def)
  ultimately have "py_strip (CHR ''P'' # ''SK '' @ name @ '':'' @ to_hex b) = CHR ''P'' # ''SK '' @ name @ '':'' @ to_hex b"
    by (intro strip_plain) simp_all
  with assms hex show ?thesis by (simp add: parse_authorization_iff)
qed

text \<open>A fog that starts knows nobody, so a device whose key it holds the hash of is a newcomer.\<close>

lemma newcomer_on_start:
  assumes app: "create_app psk_file entries sk No_file challenge_ttl session_ttl carry admin = Inr c"
    and key: "dict_get (psk_store_init psk_file entries) name = Some (to_hex (sha256 b))" "b \<noteq> []"
    and name: "name_matches name" "CHR '':'' \<notin> set name"
  shows "newcomer P c (device_init P name (to_hex b) sk')"
proof -
  from app have c: "fg_psk_store c = psk_store_init psk_file entries" "fg_zone c = fog_zone" "fg_allowed_types c = allowed_device_types"
    "fg_devices c = []" "fg_sessions c = session_store_init session_ttl"
    by (auto simp: create_app_def Let_def split: sum.splits)
  have "name \<noteq> []" using name(1) by (auto simp: name_matches_def)
  from header_parsed [OF this name(2) key(2)] have "parse_authorization (Some (''PSK '' @ name @ '':'' @ to_hex b)) = Some (name, to_hex b)" .
  moreover have "psk_check (psk_store_init psk_file entries) name (to_hex b) = Inr True" unfolding psk_check_True_iff using key(1) by simp
  ultimately have "authorised c (Some (''PSK '' @ name @ '':'' @ to_hex b))" unfolding authorised_def c by blast
  with name(1) show ?thesis
    by (simp add: newcomer_def device_init_def c device_get_def view_def session_store_init_def)
qed

section \<open>Properties\<close>

text \<open>
  C17: provisioning round trip. The script never fails, and a fog that starts on the file it writes and
  the devices that load their keys from the other file fit together: every provisioned device is a
  newcomer whose header is accepted; a device that was not provisioned has no key to load; and whoever
  the fog lets start holds the key that was drawn for a provisioned name, or bytes that collide with it.
\<close>

theorem provisioning_round_trip:
  assumes "\<forall>k. rnd k \<noteq> []"
    and "create_app (Some (snd sides)) None sk No_file challenge_ttl session_ttl carry admin = Inr c"
    and "provision_psks rnd = Inr sides"
  shows "(\<forall>name\<in>set provisioned_names. \<exists>psk. load_psk (fst sides) name = Inr psk \<and> newcomer P c (device_init P name psk key)) \<and>
    (\<forall>name. name \<notin> set provisioned_names \<longrightarrow> load_psk (fst sides) name = Inl KeyError) \<and>
    (\<forall>header. authorised c header \<longrightarrow>
       (\<exists>name psk_hex presented k. parse_authorization header = Some (name, psk_hex) \<and> from_hex psk_hex = Inr presented \<and>
          name \<in> set provisioned_names \<and> load_psk (fst sides) name = Inr (to_hex (rnd k)) \<and>
          (presented = rnd k \<or> collides presented (rnd k))))"
proof -
  obtain dev fog_side where sides: "sides = (dev, fog_side)"
    and names: "\<And>name. name \<in> set provisioned_names \<longleftrightarrow> dict_get dev name \<noteq> None" and agree: "sides_agree rnd (dev, fog_side)"
    using provision_psks_ok [of rnd] assms(3) by (metis Inr_inject)
  from assms(2) have c: "fg_psk_store c = fog_side" by (auto simp: create_app_def psk_store_init_def sides Let_def split: sum.splits)
  have key: "\<exists>k. dict_get dev name = Some (to_hex (rnd k)) \<and> dict_get fog_side name = Some (to_hex (sha256 (rnd k)))"
    if "dict_get dev name \<noteq> None \<or> dict_get fog_side name \<noteq> None" for name
    using agree that unfolding sides_agree_def fst_conv snd_conv by (metis option.distinct(1))
  have fits: "\<exists>psk. load_psk dev name = Inr psk \<and> newcomer P c (device_init P name psk key)" if n: "name \<in> set provisioned_names" for name
  proof -
    from key [of name] n names obtain k where k: "dict_get dev name = Some (to_hex (rnd k))"
      "dict_get fog_side name = Some (to_hex (sha256 (rnd k)))" by blast
    have "newcomer P c (device_init P name (to_hex (rnd k)) key)"
      using newcomer_on_start [OF assms(2) _ _ provisioned_name(1,2) [OF n], of "rnd k"] k(2) assms(1)
      by (simp add: psk_store_init_def sides)
    with k(1) show ?thesis by (auto simp: load_psk_def)
  qed
  have other: "load_psk dev name = Inl KeyError" if "name \<notin> set provisioned_names" for name
    using that names [of name] by (simp add: load_psk_def)
  have holder: "\<exists>name psk_hex presented k. parse_authorization header = Some (name, psk_hex) \<and> from_hex psk_hex = Inr presented \<and>
      name \<in> set provisioned_names \<and> load_psk dev name = Inr (to_hex (rnd k)) \<and> (presented = rnd k \<or> collides presented (rnd k))"
    if "authorised c header" for header
  proof -
    from that obtain name psk_hex presented where p: "parse_authorization header = Some (name, psk_hex)" "from_hex psk_hex = Inr presented"
      "dict_get fog_side name = Some (to_hex (sha256 presented))"
      unfolding authorised_def c psk_check_True_iff by blast
    with key [of name] obtain k where "dict_get dev name = Some (to_hex (rnd k))" "to_hex (sha256 (rnd k)) = to_hex (sha256 presented)" by auto
    with p names [of name] show ?thesis by (auto simp: load_psk_def collides_def)
  qed
  from fits other holder show ?thesis unfolding sides fst_conv by blast
qed

theorem provisioning_round_trip_witness:
  "\<exists>sides psk c. provision_psks (\<lambda>_. [10]) = Inr sides \<and> load_psk (fst sides) ''temp01'' = Inr psk \<and>
     newcomer toy_platform c (device_init toy_platform ''temp01'' psk 1)"
proof -
  obtain sides where sides: "provision_psks (\<lambda>_. [10]) = Inr sides" using provision_psks_ok by metis
  obtain c where c: "create_app (Some (snd sides)) None 7 No_file challenge_ttl_seconds session_ttl_seconds
      carry_forward_active admin_key_default = Inr (c :: byte fog)"
    by (simp add: create_app_def ledger_init_def epoch_manager_init_def latest_epoch_def)
  have "''temp01'' \<in> set provisioned_names" by (simp add: provisioned_names_def demo_devices_def)
  with provisioning_round_trip [OF _ c sides, of toy_platform 1] sides show ?thesis by fast
qed

end
