(* ===== verification/Token_Attacks.thy ===== *)
theory Token_Attacks
  imports Provisioning Honest_Access
begin

text \<open>
  attacks/token_attacks.py: the replayed, the stolen, the expired and the revoked token, each against a
  fresh fog and a device that has gone through the real protocol. \<open>vs i\<close> is the environment of the i-th
  request of an attack, \<open>n i\<close> the randomness of the i-th signature of a device, \<open>rnd\<close> the drawn pre-shared
  keys. The test client passes an unhandled exception of the fog on to the script, as \<open>decide\<close> does.
  Console output and the CSV file are left out.
\<close>

section \<open>The script\<close>

definition attack_resource :: string where "attack_resource = ''temperature_sensor''"
definition attack_operation :: string where "attack_operation = ''write''"

record attack_row =
  at_attack :: string
  at_expected :: string
  at_decision :: json
  at_reason :: json
  at_detected_by :: json
  at_as_expected :: bool

text \<open>\<open>v.get(k)\<close> of a response that is an object.\<close>

definition response_get :: "json \<Rightarrow> string \<Rightarrow> json" where
  "response_get v k = (case v of JObj d \<Rightarrow> json_field d k | _ \<Rightarrow> JNull)"

definition record_attack :: "string \<Rightarrow> string \<Rightarrow> json \<Rightarrow> bool \<Rightarrow> client_error + attack_row" where
  "record_attack attack expected response passed =
     (case response of
        JObj _ \<Rightarrow> Inr \<lparr>at_attack = attack, at_expected = expected, at_decision = response_get response ''decision'',
            at_reason = response_get response ''reason'', at_detected_by = response_get response ''detected_by'',
            at_as_expected = passed\<rparr>
      | _ \<Rightarrow> Inl (Client_exception AttributeError))"

definition make_env :: "(nat \<Rightarrow> bytes) \<Rightarrow> 'sk \<Rightarrow> client_error + 'sk fog \<times> (string, string) dict" where
  "make_env rnd signing_key =
     (let psks = [(''temp01'', to_hex (rnd 0)), (''attacker01'', to_hex (rnd 1))]
      in case (hash_psk (to_hex (rnd 0)), hash_psk (to_hex (rnd 1))) of
           (Inl e, _) \<Rightarrow> Inl (Client_exception e)
         | (_, Inl e) \<Rightarrow> Inl (Client_exception e)
         | (Inr h0, Inr h1) \<Rightarrow>
             (case create_app None (Some [(''temp01'', h0), (''attacker01'', h1)]) signing_key No_file challenge_ttl_seconds
                     session_ttl_seconds carry_forward_active admin_key_default of
                Inl e \<Rightarrow> Inl (Client_exception e)
              | Inr c \<Rightarrow> Inr (c, psks)))"

text \<open>The device object and the fog after it; the challenge goes from one call to the next.\<close>

definition queued_device ::
    "'sk platform \<Rightarrow> (nat \<Rightarrow> env) \<Rightarrow> nat \<Rightarrow> (string, string) dict \<Rightarrow> string \<Rightarrow> 'sk \<Rightarrow> 'sk fog \<Rightarrow> client_error + 'sk device \<times> 'sk fog" where
  "queued_device P vs n psks name private_key c =
     (case dict_get psks name of
        None \<Rightarrow> Inl (Client_exception KeyError)
      | Some psk \<Rightarrow>
          (case and_then (dev_register_start P (vs 0))
                  (\<lambda>_. and_then (submit_public_key P (vs 1))
                     (\<lambda>challenge. and_then (prove_possession P (vs 2) n challenge)
                        (\<lambda>_. submit_metadata P (vs 3) None None default_vendor fog_zone)))
                  (device_init P name psk private_key, c) of
             (Inl e, _) \<Rightarrow> Inl e
           | (Inr _, s) \<Rightarrow> Inr s))"

definition give :: "(client_error + 'a) \<Rightarrow> ('sk, 'a) action" where
  "give x s = (x, s)"

text \<open>\<open>d["decision"]\<close> of a response.\<close>

definition is_allow :: "json \<Rightarrow> bool res" where
  "is_allow v = (case json_item v ''decision'' of Inl e \<Rightarrow> Inl e | Inr x \<Rightarrow> Inr (x = JStr ''ALLOW''))"

definition attack_replay ::
    "'sk platform \<Rightarrow> (nat \<Rightarrow> env) \<Rightarrow> (nat \<Rightarrow> nat) \<Rightarrow> (nat \<Rightarrow> bytes) \<Rightarrow> 'sk \<Rightarrow> 'sk \<Rightarrow> client_error + attack_row" where
  "attack_replay P vs n rnd signing_key private_key =
     (case make_env rnd signing_key of
        Inl e \<Rightarrow> Inl e
      | Inr (c, psks) \<Rightarrow>
          (case queued_device P vs (n 0) psks ''temp01'' private_key c of
             Inl e \<Rightarrow> Inl e
           | Inr s \<Rightarrow>
               fst (and_then (request_token P (vs 4))
                 (\<lambda>token. and_then (token_access P (\<lambda>i. vs (5 + i)) (n 1) token attack_resource attack_operation)
                    (\<lambda>(first, captured). and_then (decide P (vs 7) captured)
                       (\<lambda>(replayed, _). give
                          (case is_allow first of
                             Inl e \<Rightarrow> Inl (Client_exception e)
                           | Inr genuine \<Rightarrow>
                               record_attack ''1 replay of exact request'' ''DENY nonce_reused'' replayed
                                 (genuine \<and> response_get replayed ''reason'' = JStr ''nonce_reused''))))) s)))"

definition attack_stolen_token ::
    "'sk platform \<Rightarrow> (nat \<Rightarrow> env) \<Rightarrow> (nat \<Rightarrow> nat) \<Rightarrow> (nat \<Rightarrow> bytes) \<Rightarrow> 'sk \<Rightarrow> 'sk \<Rightarrow> 'sk \<Rightarrow> client_error + attack_row" where
  "attack_stolen_token P vs n rnd signing_key private_key attacker_key =
     (case make_env rnd signing_key of
        Inl e \<Rightarrow> Inl e
      | Inr (c, psks) \<Rightarrow>
          (case queued_device P vs (n 0) psks ''temp01'' private_key c of
             Inl e \<Rightarrow> Inl e
           | Inr s \<Rightarrow>
               fst (and_then (request_token P (vs 4))
                 (\<lambda>token. case dict_get psks ''attacker01'' of
                    None \<Rightarrow> give (Inl (Client_exception KeyError))
                  | Some psk \<Rightarrow>
                      (let attacker = device_init P ''attacker01'' psk attacker_key
                       in and_then (give (text_at (JObj token) ''token_id''))
                            (\<lambda>tid. and_then (get_token_nonce P (vs 5) tid)
                               (\<lambda>nonce. and_then (give (build_token_request P (n 1) (dv_private_key attacker) token nonce
                                                          attack_resource attack_operation))
                                  (\<lambda>body. and_then (decide P (vs 6) body)
                                     (\<lambda>(r, _). give (record_attack ''2 stolen valid token'' ''DENY proof_of_possession_failed'' r
                                        (response_get r ''reason'' = JStr ''proof_of_possession_failed'')))))))) s)))"

text \<open>The token is issued by the fog's own issuer with a lifetime of 0.3 seconds; the sleep is the later clock.\<close>

definition attack_expired_token ::
    "'sk platform \<Rightarrow> (nat \<Rightarrow> env) \<Rightarrow> (nat \<Rightarrow> nat) \<Rightarrow> (nat \<Rightarrow> bytes) \<Rightarrow> 'sk \<Rightarrow> 'sk \<Rightarrow> client_error + attack_row" where
  "attack_expired_token P vs n rnd signing_key private_key =
     (case make_env rnd signing_key of
        Inl e \<Rightarrow> Inl e
      | Inr (c, psks) \<Rightarrow>
          (case queued_device P vs (n 0) psks ''temp01'' private_key c of
             Inl e \<Rightarrow> Inl e
           | Inr (d, c1) \<Rightarrow>
               (let token = issue_token P (ev_rnd (vs 4)) (ev_seed (vs 4)) (ev_now (vs 4) 0) (dv_did d) (public_key_hex d)
                      (Some ''temperature_sensor'') (Some ''sensor'') (fg_signing_key c1) (3 / 10) None
                in case text_at (JObj token) ''token_id'' of
                     Inl e \<Rightarrow> Inl e
                   | Inr tid \<Rightarrow>
                       (let c2 = c1\<lparr>fg_token_state := record_issued tid (dv_did d) (fg_token_state c1)\<rparr>
                        in fst (and_then (token_access P (\<lambda>i. vs (5 + i)) (n 1) token attack_resource attack_operation)
                             (\<lambda>(r, _). give (record_attack ''3a expired token'' ''DENY expired'' r
                                (response_get r ''reason'' = JStr ''expired''))) (d, c2))))))"

definition attack_revoked_token ::
    "'sk platform \<Rightarrow> (nat \<Rightarrow> env) \<Rightarrow> (nat \<Rightarrow> nat) \<Rightarrow> (nat \<Rightarrow> bytes) \<Rightarrow> 'sk \<Rightarrow> 'sk \<Rightarrow> client_error + attack_row" where
  "attack_revoked_token P vs n rnd signing_key private_key =
     (case make_env rnd signing_key of
        Inl e \<Rightarrow> Inl e
      | Inr (c, psks) \<Rightarrow>
          (case queued_device P vs (n 0) psks ''temp01'' private_key c of
             Inl e \<Rightarrow> Inl e
           | Inr (d, c1) \<Rightarrow>
               fst (and_then (request_token P (vs 4))
                 (\<lambda>token. and_then (token_access P (\<lambda>i. vs (5 + i)) (n 1) token attack_resource attack_operation)
                    (\<lambda>(before, _). and_then (decide P (vs 7) (Revoke (dv_did d) None False (Some admin_key_default)))
                       (\<lambda>_. and_then (token_access P (\<lambda>i. vs (8 + i)) (n 2) token attack_resource attack_operation)
                          (\<lambda>(after, _). give
                             (case is_allow before of
                                Inl e \<Rightarrow> Inl (Client_exception e)
                              | Inr genuine \<Rightarrow>
                                  record_attack ''3b revoked token'' ''DENY revoked'' after
                                    (genuine \<and> response_get after ''reason'' = JStr ''revoked'')))))) (d, c1))))"

fun collect :: "(client_error + 'a) list \<Rightarrow> client_error + 'a list" where
  "collect [] = Inr []"
| "collect (Inl e # xs) = Inl e"
| "collect (Inr x # xs) = (case collect xs of Inl e \<Rightarrow> Inl e | Inr ys \<Rightarrow> Inr (x # ys))"

text \<open>\<open>main\<close>: each attack has its own environments, signatures, keys and fog; the result is the rows and the verdict.\<close>

definition token_attacks_main ::
    "'sk platform \<Rightarrow> (nat \<Rightarrow> nat \<Rightarrow> env) \<Rightarrow> (nat \<Rightarrow> nat \<Rightarrow> nat) \<Rightarrow> (nat \<Rightarrow> nat \<Rightarrow> bytes) \<Rightarrow> (nat \<Rightarrow> 'sk) \<Rightarrow> (nat \<Rightarrow> 'sk) \<Rightarrow> 'sk \<Rightarrow>
     client_error + attack_row list \<times> bool" where
  "token_attacks_main P vs n rnd signing_key private_key attacker_key =
     (case collect
        [attack_replay P (vs 0) (n 0) (rnd 0) (signing_key 0) (private_key 0),
         attack_stolen_token P (vs 1) (n 1) (rnd 1) (signing_key 1) (private_key 1) attacker_key,
         attack_expired_token P (vs 2) (n 2) (rnd 2) (signing_key 2) (private_key 2),
         attack_revoked_token P (vs 3) (n 3) (rnd 3) (signing_key 3) (private_key 3)] of
        Inl e \<Rightarrow> Inl e
      | Inr rows \<Rightarrow> Inr (rows, list_all at_as_expected rows))"

section \<open>Every attack is detected\<close>

lemma and_then_assoc: "and_then (and_then m f) g = and_then m (\<lambda>a. and_then (f a) g)"
  by (rule ext) (simp add: and_then_def split: prod.split sum.split)

lemma queued_device_registers:
  assumes "dict_get psks name = Some psk" "dev_register P vs n (device_init P name psk sk, c) = (Inr data, d, c')"
  shows "queued_device P vs n psks name sk c = Inr (d, c')"
  using assms by (simp add: queued_device_def dev_register_def dev_onboard_def and_then_assoc)

lemma make_env_ok:
  obtains c where "make_env rnd fsk = Inr (c, [(''temp01'', to_hex (rnd 0)), (''attacker01'', to_hex (rnd 1))])"
    "create_app None (Some [(''temp01'', to_hex (sha256 (rnd 0))), (''attacker01'', to_hex (sha256 (rnd 1)))]) fsk No_file
       challenge_ttl_seconds session_ttl_seconds carry_forward_active admin_key_default = Inr c"
proof -
  obtain c where c: "create_app None (Some [(''temp01'', to_hex (sha256 (rnd 0))), (''attacker01'', to_hex (sha256 (rnd 1)))]) fsk No_file
       challenge_ttl_seconds session_ttl_seconds carry_forward_active admin_key_default = Inr c"
    by (simp add: create_app_def ledger_init_def epoch_manager_init_def latest_epoch_def)
  then have "make_env rnd fsk = Inr (c, [(''temp01'', to_hex (rnd 0)), (''attacker01'', to_hex (rnd 1))])"
    by (simp add: make_env_def hash_psk_def)
  with c that show thesis by blast
qed

text \<open>What all four attacks start with: the victim is queued, at a fog with these keys and an empty token state.\<close>

lemma victim_queued:
  assumes P: "ecdsa_ok P" and rnd: "rnd 0 \<noteq> []" and time: "in_window t w vs" "w \<le> 30"
  obtains c d c1 rec k s did where "make_env rnd fsk = Inr (c, [(''temp01'', to_hex (rnd 0)), (''attacker01'', to_hex (rnd 1))])"
    "queued_device P vs n [(''temp01'', to_hex (rnd 0)), (''attacker01'', to_hex (rnd 1))] ''temp01'' sk c = Inr (d, c1)"
    "fog_inv P c1" "dv_did d = did" "dv_private_key d = sk" "dv_pk_bytes d = public_key_bytes P sk"
    "fg_signing_key c1 = fsk" "fg_admin_key c1 = admin_key_default" "fg_token_state c1 = token_state_init nonce_ttl_seconds"
    "dict_get (fg_devices c1) did = Some rec" "dr_status rec = PENDING" "dr_public_key rec = to_hex (public_key_bytes P sk)"
    "dr_device_type rec = Some ''temperature_sensor''" "dr_role rec = Some ''sensor''" "dv_session_id d = Some k"
    "dict_get (st_sessions (fg_sessions c1)) k = Some s" "ss_state s = METADATA_ACCEPTED" "ss_did s = Some did"
    "ev_now (vs 4) 0 \<le> ss_created_at s + of_int (st_ttl (fg_sessions c1))"
proof -
  obtain c where env: "make_env rnd fsk = Inr (c, [(''temp01'', to_hex (rnd 0)), (''attacker01'', to_hex (rnd 1))])"
    and app: "create_app None (Some [(''temp01'', to_hex (sha256 (rnd 0))), (''attacker01'', to_hex (sha256 (rnd 1)))]) fsk No_file
       challenge_ttl_seconds session_ttl_seconds carry_forward_active admin_key_default = Inr c"
    by (rule make_env_ok)
  have name: "name_matches ''temp01''" "CHR '':'' \<notin> set ''temp01''" by code_simp+
  define dev where "dev = device_init P ''temp01'' (to_hex (rnd 0)) sk"
  have new: "newcomer P c dev"
    unfolding dev_def by (rule newcomer_on_start [OF app _ rnd name]) (simp add: psk_store_init_def)
  from app have c: "st_ttl (fg_sessions c) = session_ttl_seconds" "fg_challenge_ttl c = challenge_ttl_seconds"
    "fg_signing_key c = fsk" "fg_admin_key c = admin_key_default" "fg_token_state c = token_state_init nonce_ttl_seconds"
    by (auto simp: create_app_def Let_def session_store_init_def split: sum.splits)
  then have ttl: "w \<le> of_int (st_ttl (fg_sessions c))" "w \<le> of_int (fg_challenge_ttl c)"
    using time(2) by (simp_all add: session_ttl_seconds_def challenge_ttl_seconds_def)
  have kind: "default_kind ''temp01'' = (''temperature_sensor'', ''sensor'')" by (simp add: default_kind_def demo_devices_def)
  obtain data d c1 rec where reg: "dev_register P vs n (dev, c) = (Inr data, d, c1)"
    and inv1: "fog_inv P c1" and d: "dv_did d = dv_did dev" "dv_private_key d = sk" "dv_pk_bytes d = public_key_bytes P sk"
      "config_of c1 = config_of c" "fg_token_state c1 = fg_token_state c"
    and "queued c1 = insert (dv_did dev) (queued c)"
    and get: "\<forall>j. dict_get (fg_devices c1) j = (if j = dv_did dev then Some rec else dict_get (fg_devices c) j)"
    and rec: "dr_status rec = PENDING" "dr_public_key rec = to_hex (public_key_bytes P sk)"
      "dr_device_type rec = Some (fst (default_kind ''temp01''))" "dr_role rec = Some (snd (default_kind ''temp01''))"
    and sess: "\<exists>k s. dv_session_id d = Some k \<and> dict_get (st_sessions (fg_sessions c1)) k = Some s \<and> ss_state s = METADATA_ACCEPTED \<and>
       ss_did s = Some (dv_did dev) \<and> (\<forall>j l. ev_now (vs j) l \<le> ss_created_at s + of_int (st_ttl (fg_sessions c1)))"
    and "\<exists>k. \<forall>j. view c1 j = (if j = k then Some (METADATA_ACCEPTED, Some (dv_did dev)) else view c j)"
    and "fg_ledger c1 = fg_ledger c \<and> (\<exists>pend. fg_epochs c1 = (fg_epochs c)\<lparr>em_pending := pend\<rparr>) \<and> st_ttl (fg_sessions c1) = st_ttl (fg_sessions c)"
    by (rule dev_register_succeeds [where n = n, OF P first_start_inv [OF app] dev_def new time(1) ttl])
  have keys: "fg_signing_key c1 = fsk" "fg_admin_key c1 = admin_key_default" "fg_token_state c1 = token_state_init nonce_ttl_seconds"
    using d(4,5) c by (simp_all add: config_of_def)
  have "queued_device P vs n [(''temp01'', to_hex (rnd 0)), (''attacker01'', to_hex (rnd 1))] ''temp01'' sk c = Inr (d, c1)"
    by (rule queued_device_registers [OF _ reg [unfolded dev_def]]) simp
  moreover from sess obtain k s where "dv_session_id d = Some k" "dict_get (st_sessions (fg_sessions c1)) k = Some s"
    "ss_state s = METADATA_ACCEPTED" "ss_did s = Some (dv_did dev)" "ev_now (vs 4) 0 \<le> ss_created_at s + of_int (st_ttl (fg_sessions c1))"
    by blast
  moreover have "dict_get (fg_devices c1) (dv_did dev) = Some rec" using get by simp
  ultimately show thesis
    by (intro that [OF env _ inv1 d(1-3) keys]) (use rec in \<open>simp_all add: kind\<close>)
qed

lemma attack_request_granted:
  "provisional_allowed ''temperature_sensor'' attack_resource attack_operation" "check_policy attack_resource attack_operation ''sensor''"
  by (simp_all add: attack_resource_def attack_operation_def provisional_allowed_def provisional_operations_def check_policy_def policy_table_def)

lemma victim_holds_token:
  assumes P: "ecdsa_ok P" and rnd: "rnd 0 \<noteq> []" and time: "in_window t w vs" "w \<le> 30"
  obtains c d c1 tok c2 did where "make_env rnd fsk = Inr (c, [(''temp01'', to_hex (rnd 0)), (''attacker01'', to_hex (rnd 1))])"
    "queued_device P vs n [(''temp01'', to_hex (rnd 0)), (''attacker01'', to_hex (rnd 1))] ''temp01'' sk c = Inr (d, c1)"
    "request_token P (vs 4) (d, c1) = (Inr tok, d, c2)" "dv_did d = did" "dv_private_key d = sk"
    "holds_token P c2 sk tok (to_hex (ev_rnd (vs 4))) did ''temperature_sensor'' ''sensor'' (ev_now (vs 4) 1 + token_ttl_seconds)"
    "unrevoked c2 (to_hex (ev_rnd (vs 4))) did" "device_get (fg_devices c2) did \<noteq> None" "fg_admin_key c2 = admin_key_default"
    "\<forall>i k. ev_now (vs i) k \<le> ev_now (vs 4) 1 + token_ttl_seconds"
    "\<forall>i j k l. ev_now (vs i) k \<le> ev_now (vs j) l + of_int (nb_ttl (book c2))"
proof (rule victim_queued [where n = n and sk = sk and fsk = fsk and rnd = rnd, OF P rnd time])
  fix c d c1 rec k s did
  assume start: "make_env rnd fsk = Inr (c, [(''temp01'', to_hex (rnd 0)), (''attacker01'', to_hex (rnd 1))])"
    "queued_device P vs n [(''temp01'', to_hex (rnd 0)), (''attacker01'', to_hex (rnd 1))] ''temp01'' sk c = Inr (d, c1)"
    and inv1: "fog_inv P c1" and d: "dv_did d = did" "dv_private_key d = sk"
    and keys: "fg_signing_key c1 = fsk" "fg_admin_key c1 = admin_key_default" "fg_token_state c1 = token_state_init nonce_ttl_seconds"
    and rec: "dict_get (fg_devices c1) did = Some rec" "dr_status rec = PENDING" "dr_public_key rec = to_hex (public_key_bytes P sk)"
    "dr_device_type rec = Some ''temperature_sensor''" "dr_role rec = Some ''sensor''" and k: "dv_session_id d = Some k"
    and s: "dict_get (st_sessions (fg_sessions c1)) k = Some s" "ss_state s = METADATA_ACCEPTED" "ss_did s = Some did"
    "ev_now (vs 4) 0 \<le> ss_created_at s + of_int (st_ttl (fg_sessions c1))"
  have role: "role_valid_for_type (Some ''temperature_sensor'') (Some ''sensor'')"
    using default_kind_ok(3) [of "''temp01''"] by (simp add: default_kind_def demo_devices_def)
  have fresh: "\<not> is_revoked (fg_token_state c1) (to_hex (ev_rnd (vs 4)))"
    by (simp add: keys(3) is_revoked_def token_state_init_def)
  obtain tok c2 where req: "request_token P (vs 4) (d, c1) = (Inr tok, d, c2)"
    and tok: "holds_token P c2 sk tok (to_hex (ev_rnd (vs 4))) did ''temperature_sensor'' ''sensor'' (ev_now (vs 4) 1 + token_ttl_seconds)"
      "unrevoked c2 (to_hex (ev_rnd (vs 4))) did" "device_get (fg_devices c2) did \<noteq> None" and same: "book c2 = book c1" "config_of c2 = config_of c1"
    using token_served [where v = "vs 4", OF P inv1 k s rec role fresh] by metis
  have admin: "fg_admin_key c2 = admin_key_default" using same(2) keys(2) by (simp add: config_of_def)
  have "nb_ttl (book c2) = 30" using same(1) by (simp add: book_def keys(3) token_state_init_def nonce_book_init_def nonce_ttl_seconds_def)
  then have nonces: "\<forall>i j k l. ev_now (vs i) k \<le> ev_now (vs j) l + of_int (nb_ttl (book c2))"
    using in_windowD [OF time(1), of 30] time(2) by simp
  have "w \<le> token_ttl_seconds" using time(2) by (simp add: token_ttl_seconds_def)
  then have "\<forall>i k. ev_now (vs i) k \<le> ev_now (vs 4) 1 + token_ttl_seconds"
    using in_windowD [OF time(1)] by blast
  from that [OF start req d tok admin this nonces] show thesis .
qed

lemma decide_eq: "handle P v q c = (Reply body, c') \<Longrightarrow> decide P v q (d, c) = (Inr (body, q), d, c')"
  by (simp add: decide_def)

lemma response_denied [simp]:
  "response_get (token_deny r b) ''reason'' = JStr r" "response_get (token_deny r b) ''detected_by'' = JStr b"
  "response_get (token_deny r b) ''decision'' = JStr ''DENY''"
  by (simp_all add: response_get_def token_deny_def json_field_def)

lemma is_allow_simps [simp]: "is_allow token_allow = Inr True" "is_allow (token_deny r b) = Inr False"
  by (simp_all add: is_allow_def token_allow_def token_deny_def)

text \<open>The row of a request that was denied as expected.\<close>

definition detected :: "string \<Rightarrow> string \<Rightarrow> string \<Rightarrow> string \<Rightarrow> attack_row" where
  "detected attack expected reason detected_by =
     \<lparr>at_attack = attack, at_expected = expected, at_decision = JStr ''DENY'', at_reason = JStr reason,
      at_detected_by = JStr detected_by, at_as_expected = True\<rparr>"

lemma record_detected [simp]: "record_attack attack expected (token_deny r b) True = Inr (detected attack expected r b)"
  by (simp add: record_attack_def detected_def response_get_def json_field_def token_deny_def)

lemma replay_detected:
  assumes P: "ecdsa_ok P" and rnd: "rnd 0 \<noteq> []" and time: "in_window t w vs" "w \<le> 30"
  shows "attack_replay P vs n rnd fsk sk = Inr (detected ''1 replay of exact request'' ''DENY nonce_reused'' ''nonce_reused'' ''nonce validator'')"
proof (rule victim_holds_token [where n = "n 0" and sk = sk and fsk = fsk and rnd = rnd, OF P rnd time])
  fix c d c1 tok c2 did
  let ?tid = "to_hex (ev_rnd (vs 4))" and ?n = "to_hex (ev_rnd (vs (5 + 0)))"
  assume start: "make_env rnd fsk = Inr (c, [(''temp01'', to_hex (rnd 0)), (''attacker01'', to_hex (rnd 1))])"
    "queued_device P vs (n 0) [(''temp01'', to_hex (rnd 0)), (''attacker01'', to_hex (rnd 1))] ''temp01'' sk c = Inr (d, c1)"
    "request_token P (vs 4) (d, c1) = (Inr tok, d, c2)" and d: "dv_did d = did" "dv_private_key d = sk"
    and tok: "holds_token P c2 sk tok ?tid did ''temperature_sensor'' ''sensor'' (ev_now (vs 4) 1 + token_ttl_seconds)" "unrevoked c2 ?tid did"
    and live: "\<forall>i k. ev_now (vs i) k \<le> ev_now (vs 4) 1 + token_ttl_seconds"
    and fresh: "\<forall>i j k l. ev_now (vs i) k \<le> ev_now (vs j) l + of_int (nb_ttl (book c2))"
  have lf: "ev_now (vs (5 + 1)) 0 \<le> ev_now (vs 4) 1 + token_ttl_seconds" using live by blast
  have fr: "ev_now (vs (5 + 1)) 1 \<le> ev_now (vs (5 + 0)) 0 + of_int (nb_ttl (book c2))" using fresh by blast
  obtain q b where acc: "token_access P (\<lambda>i. vs (5 + i)) (n 1) tok attack_resource attack_operation (d, c2) = (Inr (token_allow, q), d, put_nonces b c2)"
    and q: "q = Tokens_access tok ?n attack_resource attack_operation
      (to_hex (sign P (dv_private_key d) (n 1) (access_message ?tid did ?n attack_resource attack_operation)))"
    and used: "\<exists>e. dict_get (nb_entries b) ?n = Some e \<and> ne_purpose e = token_nonce_purpose \<and> ne_subject e = ?tid \<and> ne_used e"
    and "nb_ttl b = nb_ttl (book c2)"
    by (rule token_access_succeeds [where vs = "\<lambda>i. vs (5 + i)" and n = "n 1" and d = d, OF P tok(1) [folded d(2)] tok(2) attack_request_granted lf fr])
  have "token_signature_valid P tok (fg_signing_key (put_nonces b c2))" "\<not> token_expired P (ev_now (vs 7) 0) tok"
    "dict_get tok ''token_id'' = Some (JStr ?tid)" "dict_get tok ''did'' = Some (JStr did)"
    using tok(1) live by (simp_all add: holds_token_live [OF tok(1)] not_less) (simp_all add: holds_token_def)
  from used_nonce_denied [where now = "ev_now (vs 7)", OF this, of ?n] used have
    "handle P (vs 7) q (put_nonces b c2) = (Reply (token_deny ''nonce_reused'' ''nonce validator''), put_nonces b c2)"
    by (simp add: q book_def)
  from decide_eq [OF this, of d] start acc show ?thesis
    by (simp add: attack_replay_def and_then_def give_def)
qed

lemma get_token_nonce_eq:
  "was_issued (fg_token_state c) tid \<Longrightarrow> get_token_nonce P v tid (d, c) = (Inr (to_hex (ev_rnd v)), d, with_token_nonce v tid c)"
  by (simp add: get_token_nonce_def and_then_def invoke_def token_nonce_served [simplified] json_or_raise_def text_at_def)

lemma decision_foreign:
  assumes "holds_token P c sk t tid did ty role expires" "unrevoked c tid did"
    and "\<not> verify P (public_key_bytes P sk) (access_message tid did nonce rs op) sig"
  shows "provisional_decision P t (JStr tid) (JStr did) nonce rs op (to_hex sig) c =
    Reply (token_deny ''proof_of_possession_failed'' ''proof of possession check'')"
  using assms
  by (simp add: provisional_decision_def token_or_device_revoked_def holds_token_def unrevoked_def access_signature_valid_def token_text_def)

lemma decision_revoked:
  assumes "is_device_revoked (fg_devices c) did"
  shows "provisional_decision P t (JStr tid) (JStr did) nonce rs op sg c = Reply (token_deny ''revoked'' ''revocation checker'')"
  using assms by (simp add: provisional_decision_def token_or_device_revoked_def split: bool.split)

lemma stolen_detected:
  assumes P: "ecdsa_ok P" and rnd: "rnd 0 \<noteq> []" and time: "in_window t w vs" "w \<le> 30"
    and foreign: "\<forall>m j. \<not> verify P (public_key_bytes P sk) m (sign P sk' j m)"
  shows "attack_stolen_token P vs n rnd fsk sk sk' =
    Inr (detected ''2 stolen valid token'' ''DENY proof_of_possession_failed'' ''proof_of_possession_failed'' ''proof of possession check'')"
proof (rule victim_holds_token [where n = "n 0" and sk = sk and fsk = fsk and rnd = rnd, OF P rnd time])
  fix c d c1 tok c2 did
  let ?tid = "to_hex (ev_rnd (vs 4))" and ?n = "to_hex (ev_rnd (vs 5))"
  assume start: "make_env rnd fsk = Inr (c, [(''temp01'', to_hex (rnd 0)), (''attacker01'', to_hex (rnd 1))])"
    "queued_device P vs (n 0) [(''temp01'', to_hex (rnd 0)), (''attacker01'', to_hex (rnd 1))] ''temp01'' sk c = Inr (d, c1)"
    "request_token P (vs 4) (d, c1) = (Inr tok, d, c2)" and d: "dv_did d = did" "dv_private_key d = sk"
    and tok: "holds_token P c2 sk tok ?tid did ''temperature_sensor'' ''sensor'' (ev_now (vs 4) 1 + token_ttl_seconds)" "unrevoked c2 ?tid did"
    and live: "\<forall>i k. ev_now (vs i) k \<le> ev_now (vs 4) 1 + token_ttl_seconds"
    and fresh: "\<forall>i j k l. ev_now (vs i) k \<le> ev_now (vs j) l + of_int (nb_ttl (book c2))"
  let ?sg = "sign P sk' (n 1) (access_message ?tid did ?n attack_resource attack_operation)"
  let ?q = "Tokens_access tok ?n attack_resource attack_operation (to_hex ?sg)"
  have f: "token_signature_valid P tok (fg_signing_key c2)" "\<not> token_expired P (ev_now (vs 6) 0) tok"
    "dict_get tok ''token_id'' = Some (JStr ?tid)" "dict_get tok ''did'' = Some (JStr did)" "was_issued (fg_token_state c2) ?tid"
    using tok(1) live by (simp_all add: holds_token_live [OF tok(1)] not_less) (simp_all add: holds_token_def)
  have fr: "ev_now (vs 6) 1 \<le> ev_now (vs 5) 0 + of_int (nb_ttl (book c2))" using fresh by blast
  obtain b where "tokens_access P (ev_now (vs 6)) tok ?n attack_resource attack_operation (to_hex ?sg) (with_token_nonce (vs 5) ?tid c2) =
      (provisional_decision P tok (JStr ?tid) (JStr did) ?n attack_resource attack_operation (to_hex ?sg) (put_nonces b c2), put_nonces b c2)"
    by (rule decision_reached [where v = "vs 5" and v' = "vs 6", OF f(1-4) fr])
  moreover have "provisional_decision P tok (JStr ?tid) (JStr did) ?n attack_resource attack_operation (to_hex ?sg) (put_nonces b c2) =
      Reply (token_deny ''proof_of_possession_failed'' ''proof of possession check'')"
    by (rule decision_foreign [OF _ _ foreign [rule_format]]) (use tok in simp_all)
  ultimately have "handle P (vs 6) ?q (with_token_nonce (vs 5) ?tid c2) =
      (Reply (token_deny ''proof_of_possession_failed'' ''proof of possession check''), put_nonces b c2)" by simp
  note r = decide_eq [OF this, of d]
  have "text_at (JObj tok) ''token_id'' = Inr ?tid" using f(3) by (simp add: text_at_def)
  moreover have "build_token_request P (n 1) sk' tok ?n attack_resource attack_operation = Inr ?q"
    using f(3,4) by (simp add: build_token_request_def sign_access_def token_text_def)
  ultimately show ?thesis
    using start r get_token_nonce_eq [OF f(5)]
    by (simp add: attack_stolen_token_def and_then_def give_def device_init_def Let_def)
qed

lemma expired_detected:
  assumes P: "ecdsa_ok P" and rnd: "rnd 0 \<noteq> []" and time: "in_window t w vs" "w \<le> 30"
    and later: "ev_now (vs 6) 0 > ev_now (vs 4) 0 + 3 / 10"
  shows "attack_expired_token P vs n rnd fsk sk = Inr (detected ''3a expired token'' ''DENY expired'' ''expired'' ''token expiry check'')"
proof (rule victim_queued [where n = "n 0" and sk = sk and fsk = fsk and rnd = rnd, OF P rnd time])
  fix c d c1 rec k s did
  let ?tid = "to_hex (ev_rnd (vs 4))"
  assume start: "make_env rnd fsk = Inr (c, [(''temp01'', to_hex (rnd 0)), (''attacker01'', to_hex (rnd 1))])"
    "queued_device P vs (n 0) [(''temp01'', to_hex (rnd 0)), (''attacker01'', to_hex (rnd 1))] ''temp01'' sk c = Inr (d, c1)"
    and d: "dv_did d = did" "dv_private_key d = sk" "dv_pk_bytes d = public_key_bytes P sk"
  define c2 where "c2 = c1\<lparr>fg_token_state := record_issued ?tid did (fg_token_state c1)\<rparr>"
  define tok where "tok = issue_token P (ev_rnd (vs 4)) (ev_seed (vs 4)) (ev_now (vs 4) 0) did (to_hex (public_key_bytes P sk))
      (Some ''temperature_sensor'') (Some ''sensor'') (fg_signing_key c2) (3 / 10) None"
  have issued: "was_issued (fg_token_state c2) ?tid" by (simp add: c2_def was_issued_def record_issued_def dict_simps)
  have h: "holds_token P c2 sk tok ?tid did ''temperature_sensor'' ''sensor'' (ev_now (vs 4) 0 + 3 / 10)"
    unfolding tok_def by (rule holds_issued [OF P issued])
  then have f: "token_signature_valid P tok (fg_signing_key c2)" "dict_get tok ''token_id'' = Some (JStr ?tid)"
    "dict_get tok ''did'' = Some (JStr did)" by (simp_all add: holds_token_def)
  have "token_expired P (ev_now (vs (5 + 1)) 0) tok" using later by (simp add: holds_token_live [OF h])
  with f have "handle P (vs (5 + 1)) (Tokens_access tok (to_hex (ev_rnd (vs (5 + 0)))) attack_resource attack_operation
      (to_hex (sign P (dv_private_key d) (n 1) (access_message ?tid did (to_hex (ev_rnd (vs (5 + 0)))) attack_resource attack_operation))))
      (with_token_nonce (vs (5 + 0)) ?tid c2) =
      (Reply (token_deny ''expired'' ''token expiry check''), with_token_nonce (vs (5 + 0)) ?tid c2)"
    by (simp add: tokens_access_def)
  from token_access_eq [where P = P and vs = "\<lambda>i. vs (5 + i)", OF f(2,3) issued this] obtain q where
    acc: "token_access P (\<lambda>i. vs (5 + i)) (n 1) tok attack_resource attack_operation (d, c2) =
      (Inr (token_deny ''expired'' ''token expiry check'', q), d, with_token_nonce (vs (5 + 0)) ?tid c2)" by blast
  have "text_at (JObj tok) ''token_id'' = Inr ?tid" using f(2) by (simp add: text_at_def)
  with start acc show ?thesis
    by (simp add: attack_expired_token_def d public_key_hex_def tok_def [symmetric, unfolded c2_def, simplified] c2_def [symmetric] Let_def and_then_def give_def)
qed

lemma revoked_detected:
  assumes P: "ecdsa_ok P" and rnd: "rnd 0 \<noteq> []" and time: "in_window t w vs" "w \<le> 30"
  shows "attack_revoked_token P vs n rnd fsk sk = Inr (detected ''3b revoked token'' ''DENY revoked'' ''revoked'' ''revocation checker'')"
proof (rule victim_holds_token [where n = "n 0" and sk = sk and fsk = fsk and rnd = rnd, OF P rnd time])
  fix c d c1 tok c2 did
  let ?tid = "to_hex (ev_rnd (vs 4))" and ?n = "to_hex (ev_rnd (vs (8 + 0)))"
  assume start: "make_env rnd fsk = Inr (c, [(''temp01'', to_hex (rnd 0)), (''attacker01'', to_hex (rnd 1))])"
    "queued_device P vs (n 0) [(''temp01'', to_hex (rnd 0)), (''attacker01'', to_hex (rnd 1))] ''temp01'' sk c = Inr (d, c1)"
    "request_token P (vs 4) (d, c1) = (Inr tok, d, c2)" and d: "dv_did d = did" "dv_private_key d = sk"
    and tok: "holds_token P c2 sk tok ?tid did ''temperature_sensor'' ''sensor'' (ev_now (vs 4) 1 + token_ttl_seconds)" "unrevoked c2 ?tid did"
    and known: "device_get (fg_devices c2) did \<noteq> None" and admin: "fg_admin_key c2 = admin_key_default"
    and live: "\<forall>i k. ev_now (vs i) k \<le> ev_now (vs 4) 1 + token_ttl_seconds"
    and fresh: "\<forall>i j k l. ev_now (vs i) k \<le> ev_now (vs j) l + of_int (nb_ttl (book c2))"
  let ?sg = "to_hex (sign P (dv_private_key d) (n 2) (access_message ?tid did ?n attack_resource attack_operation))"
  have lf: "ev_now (vs (5 + 1)) 0 \<le> ev_now (vs 4) 1 + token_ttl_seconds" using live by blast
  have fr: "ev_now (vs (5 + 1)) 1 \<le> ev_now (vs (5 + 0)) 0 + of_int (nb_ttl (book c2))" using fresh by blast
  obtain q b where acc: "token_access P (\<lambda>i. vs (5 + i)) (n 1) tok attack_resource attack_operation (d, c2) = (Inr (token_allow, q), d, put_nonces b c2)"
    and "q = Tokens_access tok (to_hex (ev_rnd (vs (5 + 0)))) attack_resource attack_operation
      (to_hex (sign P (dv_private_key d) (n 1) (access_message ?tid did (to_hex (ev_rnd (vs (5 + 0)))) attack_resource attack_operation)))"
    and "\<exists>e. dict_get (nb_entries b) (to_hex (ev_rnd (vs (5 + 0)))) = Some e \<and> ne_purpose e = token_nonce_purpose \<and> ne_subject e = ?tid \<and> ne_used e"
    and ttl: "nb_ttl b = nb_ttl (book c2)"
    by (rule token_access_succeeds [where vs = "\<lambda>i. vs (5 + i)" and n = "n 1" and d = d, OF P tok(1) [folded d(2)] tok(2) attack_request_granted lf fr])
  have "device_get (fg_devices (put_nonces b c2)) did \<noteq> None" using known by simp
  then obtain body c3 where "handle P (vs 7) (Revoke did None False (Some (fg_admin_key (put_nonces b c2)))) (put_nonces b c2) = (Reply body, c3)"
    and rev: "is_device_revoked (fg_devices c3) did" and c3: "book c3 = book (put_nonces b c2)" "fg_signing_key c3 = fg_signing_key (put_nonces b c2)"
    "tk_issued (fg_token_state c3) = tk_issued (fg_token_state (put_nonces b c2))"
    and "\<exists>ts. c3 = (put_nonces b c2)\<lparr>fg_devices := set_status did REVOKED (fg_devices (put_nonces b c2)), fg_token_state := ts\<rparr>"
    by (rule revoke_succeeds)
  then have revoke: "decide P (vs 7) (Revoke did None False (Some admin_key_default)) (d, put_nonces b c2) =
      (Inr (body, Revoke did None False (Some admin_key_default)), d, c3)"
    using admin by (intro decide_eq) simp
  from tok(1) c3(2,3) have f: "token_signature_valid P tok (fg_signing_key c3)" "dict_get tok ''token_id'' = Some (JStr ?tid)"
    "dict_get tok ''did'' = Some (JStr did)" "was_issued (fg_token_state c3) ?tid"
    by (simp_all add: holds_token_def was_issued_def)
  have live3: "\<not> token_expired P (ev_now (vs (8 + 1)) 0) tok" using live by (simp add: holds_token_live [OF tok(1)] not_less)
  have fr3: "ev_now (vs (8 + 1)) 1 \<le> ev_now (vs (8 + 0)) 0 + of_int (nb_ttl (book c3))"
    using fresh ttl c3(1) by (simp add: book_def)
  obtain b' where "tokens_access P (ev_now (vs (8 + 1))) tok ?n attack_resource attack_operation ?sg (with_token_nonce (vs (8 + 0)) ?tid c3) =
      (provisional_decision P tok (JStr ?tid) (JStr did) ?n attack_resource attack_operation ?sg (put_nonces b' c3), put_nonces b' c3)"
    by (rule decision_reached [where v = "vs (8 + 0)" and v' = "vs (8 + 1)", OF f(1) live3 f(2,3) fr3])
  moreover have "provisional_decision P tok (JStr ?tid) (JStr did) ?n attack_resource attack_operation ?sg (put_nonces b' c3) =
      Reply (token_deny ''revoked'' ''revocation checker'')"
    by (rule decision_revoked) (use rev in simp)
  ultimately have "handle P (vs (8 + 1)) (Tokens_access tok ?n attack_resource attack_operation ?sg) (with_token_nonce (vs (8 + 0)) ?tid c3) =
      (Reply (token_deny ''revoked'' ''revocation checker''), put_nonces b' c3)" by simp
  from token_access_eq [where P = P and vs = "\<lambda>i. vs (8 + i)", OF f(2-4) this] obtain q' where
    "token_access P (\<lambda>i. vs (8 + i)) (n 2) tok attack_resource attack_operation (d, c3) =
      (Inr (token_deny ''revoked'' ''revocation checker'', q'), d, put_nonces b' c3)" by blast
  with start acc revoke show ?thesis
    by (simp add: attack_revoked_token_def and_then_def give_def d)
qed

section \<open>Properties\<close>

text \<open>
  C13: the attack script always ends with every attack detected, whatever the random keys, nonces, ids
  and signatures, if its requests take no more than thirty seconds each run, the expired token is used
  after its lifetime, and a signature under the attacker's key does not pass under the victim's. The
  four requests are denied by the component, and for the reason, that the script expects.
\<close>

theorem token_attacks_detected:
  assumes "ecdsa_ok P" and "\<forall>a. rnd a 0 \<noteq> []" and "\<forall>a. in_window (t a) 30 (vs a)"
    and "ev_now (vs 2 6) 0 > ev_now (vs 2 4) 0 + 3 / 10"
    and "\<forall>m j. \<not> verify P (public_key_bytes P (private_key 1)) m (sign P attacker_key j m)"
  shows "token_attacks_main P vs n rnd signing_key private_key attacker_key = Inr
    ([detected ''1 replay of exact request'' ''DENY nonce_reused'' ''nonce_reused'' ''nonce validator'',
      detected ''2 stolen valid token'' ''DENY proof_of_possession_failed'' ''proof_of_possession_failed'' ''proof of possession check'',
      detected ''3a expired token'' ''DENY expired'' ''expired'' ''token expiry check'',
      detected ''3b revoked token'' ''DENY revoked'' ''revoked'' ''revocation checker''], True)"
proof -
  note r = assms(2) [rule_format] and time = assms(3) [rule_format]
  show ?thesis
    unfolding token_attacks_main_def
      replay_detected [where vs = "vs 0" and rnd = "rnd 0", OF assms(1) r time [of 0] order.refl]
      stolen_detected [where vs = "vs 1" and rnd = "rnd 1", OF assms(1) r time [of 1] order.refl assms(5)]
      expired_detected [where vs = "vs 2" and rnd = "rnd 2", OF assms(1) r time [of 2] order.refl assms(4)]
      revoked_detected [where vs = "vs 3" and rnd = "rnd 3", OF assms(1) r time [of 3] order.refl]
    by (simp add: detected_def)
qed

definition attack_env :: "nat \<Rightarrow> env" where
  "attack_env i = \<lparr>ev_now = (\<lambda>_. if i < 5 then 0 else 1), ev_rnd = [of_nat i], ev_seed = i, ev_leaf_seed = (\<lambda>_. i),
     ev_timestamp = ''2026-01-01T00:00:00+00:00'', ev_timings = JNull\<rparr>"

theorem token_attacks_detected_witness:
  "\<exists>rows. token_attacks_main toy_platform (\<lambda>_. attack_env) (\<lambda>_ i. i) (\<lambda>_ i. [of_nat i]) (\<lambda>_. 7) (\<lambda>_. 1) 2 = Inr (rows, True)"
proof -
  have "in_window 0 30 attack_env" by (simp add: in_window_def attack_env_def)
  moreover have "\<not> verify toy_platform (public_key_bytes toy_platform 1) m (sign toy_platform 2 j m)" for m j
    by (simp add: verify_iff public_key_bytes_def sign_def toy_platform_def)
  moreover have "ev_now (attack_env 6) 0 > ev_now (attack_env 4) 0 + 3 / 10" by (simp add: attack_env_def)
  ultimately show ?thesis
    using token_attacks_detected [OF toy_ecdsa, of "\<lambda>_ i. [of_nat i]" "\<lambda>_. 0" "\<lambda>_. attack_env" "\<lambda>_. 1" 2] by simp
qed

end
