(* ===== verification/Tampering.thy ===== *)
theory Tampering
  imports Proof_Package
begin

text \<open>
  What an attacker reaches by editing a genuine proof package, for fog/proofs/proof_package.py and
  fog/merkle/merkle_tree.py. The lemmas say which verdict the verifier gives on a package whose path is
  well formed, and that two different ways up to the same root exhibit a collision of SHA-256: a
  changed sibling, a swapped side, a path without its last step, a proof shown against the root of
  another tree.
\<close>

section \<open>Collisions among the inputs of a run\<close>

definition collision_among :: "bytes list \<Rightarrow> bool" where
  "collision_among xs \<longleftrightarrow> (\<exists>x\<in>set xs. \<exists>y\<in>set xs. collides x y)"

lemma collision_amongI: "x \<in> set xs \<Longrightarrow> y \<in> set xs \<Longrightarrow> collides x y \<Longrightarrow> collision_among xs"
  unfolding collision_among_def by blast

lemma collision_among_mono: "collision_among xs \<Longrightarrow> set xs \<subseteq> set ys \<Longrightarrow> collision_among ys"
  unfolding collision_among_def by blast

text \<open>What the verifier hashes when a package with this identity and path is shown to it.\<close>

definition presented_inputs :: "proof_package \<Rightarrow> bytes list" where
  "presented_inputs pkg =
     (case from_hex (pp_public_key pkg) of
        Inl _ \<Rightarrow> []
      | Inr pk \<Rightarrow> leaf_preimage (pp_did pkg) pk #
          climb_inputs (sha256 (leaf_preimage (pp_did pkg) pk)) (map dump_step (pp_proof_path pkg)))"

section \<open>One step of a path\<close>

fun side_preimage :: "side \<Rightarrow> bytes \<Rightarrow> bytes \<Rightarrow> bytes" where
  "side_preimage Side_L sibling current = node_preimage sibling current"
| "side_preimage Side_R sibling current = node_preimage current sibling"

lemma side_preimage_inject:
  "length s = hash_len \<Longrightarrow> length s' = hash_len \<Longrightarrow> length c = hash_len \<Longrightarrow> length c' = hash_len \<Longrightarrow>
     side_preimage sd s c = side_preimage sd s' c' \<longleftrightarrow> s = s' \<and> c = c'"
  by (cases sd) (auto simp: node_preimage_inject)

lemma side_preimage_node: "\<exists>a b. side_preimage sd s c = node_preimage a b"
  by (cases sd) auto

lemma climb_dump_step:
  assumes "from_hex (ps_sibling s) = Inr sib" "length sib = hash_len" "length cur = hash_len"
  shows "climb cur (dump_step s # steps) = climb (sha256 (side_preimage (ps_side s) sib cur)) steps"
    and "climb_inputs cur (dump_step s # steps) =
      side_preimage (ps_side s) sib cur # climb_inputs (sha256 (side_preimage (ps_side s) sib cur)) steps"
  using assms by (cases "ps_side s"; simp add: dump_step_def node_hash_node node_def)+

definition step_ok :: "path_step \<Rightarrow> bool" where
  "step_ok s \<longleftrightarrow> (\<exists>sib. from_hex (ps_sibling s) = Inr sib \<and> length sib = hash_len)"

lemma climb_steps_ok:
  "\<forall>s\<in>set ss. step_ok s \<Longrightarrow> length cur = hash_len \<Longrightarrow> \<exists>r. climb cur (map dump_step ss) = Inr (Some r) \<and> length r = hash_len"
proof (induction ss arbitrary: cur)
  case (Cons s ss)
  then obtain sib where "from_hex (ps_sibling s) = Inr sib" "length sib = hash_len" by (auto simp: step_ok_def)
  from climb_dump_step(1) [OF this Cons.prems(2)] Cons show ?case by (simp del: climb.simps add: hash_len_def)
qed simp

section \<open>Two ways up to the same root\<close>

lemma climb_merge:
  "\<forall>s\<in>set ss. step_ok s \<Longrightarrow> length c = hash_len \<Longrightarrow> length c' = hash_len \<Longrightarrow> c \<noteq> c' \<Longrightarrow>
     climb c (map dump_step ss) = climb c' (map dump_step ss) \<Longrightarrow>
     collision_among (climb_inputs c (map dump_step ss) @ climb_inputs c' (map dump_step ss))"
proof (induction ss arbitrary: c c')
  case (Cons s ss)
  then obtain sib where sib: "from_hex (ps_sibling s) = Inr sib" "length sib = hash_len" by (auto simp: step_ok_def)
  let ?x = "side_preimage (ps_side s) sib c" and ?y = "side_preimage (ps_side s) sib c'"
  note c = climb_dump_step [OF sib Cons.prems(2)] and c' = climb_dump_step [OF sib Cons.prems(3)]
  have "?x \<noteq> ?y" using side_preimage_inject [OF sib(2) sib(2) Cons.prems(2,3)] Cons.prems(4) by blast
  show ?case
  proof (cases "sha256 ?x = sha256 ?y")
    case True
    with \<open>?x \<noteq> ?y\<close> have "collides ?x ?y" by (simp add: collides_def)
    then show ?thesis unfolding list.map c(2) c'(2) by (rule collision_amongI [rotated 2]) simp_all
  next
    case False
    have "climb (sha256 ?x) (map dump_step ss) = climb (sha256 ?y) (map dump_step ss)"
      using Cons.prems(5) by (simp only: list.map c(1) c'(1))
    from Cons.IH [OF _ _ _ False this] Cons.prems(1) show ?thesis
      unfolding list.map c(2) c'(2) by (auto simp: hash_len_def intro: collision_among_mono)
  qed
qed simp

text \<open>The first step was edited, the rest kept: what is hashed there differs, and both ways end in the same root.\<close>

lemma edited_first_step:
  assumes s: "from_hex (ps_sibling s) = Inr sib" "length sib = hash_len"
    and s': "from_hex (ps_sibling s') = Inr sib'" "length sib' = hash_len"
    and ss: "\<forall>s\<in>set ss. step_ok s" and cur: "length cur = hash_len"
    and differ: "side_preimage (ps_side s) sib cur \<noteq> side_preimage (ps_side s') sib' cur"
    and same: "climb cur (map dump_step (s # ss)) = climb cur (map dump_step (s' # ss))"
  shows "collision_among (climb_inputs cur (map dump_step (s # ss)) @ climb_inputs cur (map dump_step (s' # ss)))"
proof -
  let ?x = "side_preimage (ps_side s) sib cur" and ?y = "side_preimage (ps_side s') sib' cur"
  note c = climb_dump_step [OF s cur] and c' = climb_dump_step [OF s' cur]
  show ?thesis
  proof (cases "sha256 ?x = sha256 ?y")
    case True
    with differ have "collides ?x ?y" by (simp add: collides_def)
    then show ?thesis unfolding list.map c(2) c'(2) by (rule collision_amongI [rotated 2]) simp_all
  next
    case False
    have "climb (sha256 ?x) (map dump_step ss) = climb (sha256 ?y) (map dump_step ss)"
      using same by (simp only: list.map c(1) c'(1))
    from climb_merge [OF ss _ _ False this] show ?thesis
      unfolding list.map c(2) c'(2) by (auto simp: hash_len_def intro: collision_among_mono)
  qed
qed

text \<open>An honest path hashes nothing that the build of the tree did not hash.\<close>

lemma pair_input:
  "i < length xs \<Longrightarrow> i XOR 1 < length xs \<Longrightarrow>
     (if even i then node_preimage (xs ! i) (xs ! (i XOR 1)) else node_preimage (xs ! (i XOR 1)) (xs ! i)) \<in> set (pair_inputs xs)"
proof (induction xs arbitrary: i rule: pair_inputs.induct)
  case (1 x y xs)
  consider "i = 0" | "i = 1" | j where "i = Suc (Suc j)" by (metis One_nat_def not0_implies_Suc)
  then show ?case
  proof cases
    case (3 j)
    with 1(1) [of j] 1(2,3) show ?thesis by (cases "even j") (auto simp: xor_Suc_0 elim!: oddE)
  qed (auto simp: xor_Suc_0)
qed (auto simp: xor_Suc_0 split: if_splits)

lemma honest_climb_inputs:
  "hashes xs \<Longrightarrow> i < length xs \<Longrightarrow>
     set (climb_inputs (xs ! i) (proof_steps i (butlast (levels_of xs)))) \<subseteq> set (tree_inputs xs)"
proof (induction xs arbitrary: i rule: levels_of.induct)
  case (1 xs)
  show ?case
  proof (cases "length xs > 1")
    case False
    with 1(3) show ?thesis by (simp add: levels_of_small)
  next
    case True
    have half: "i div 2 < length (pairs xs)" using 1(3) by (simp add: length_pairs)
    note IH = 1(1) [OF True hashes_pairs [OF 1(2)] half]
    have len: "length (xs ! j) = hash_len" if "j < length xs" for j using 1(2) that by simp
    define j where "j = i XOR 1"
    have side: "(if j < i then ''L'' else ''R'') = (if even i then ''R'' else ''L'')"
      unfolding j_def by (cases "even i") (auto simp: xor_Suc_0 dest: odd_pos)
    have steps: "proof_steps i (butlast (levels_of xs)) =
        (if j < length xs then [proof_step (xs ! j) (if even i then ''R'' else ''L'')] else []) @
        proof_steps (i div 2) (butlast (levels_of (pairs xs)))"
      unfolding levels_of_large [OF True] side [symmetric] j_def by (simp add: Let_def)
    note parent = pairs_nth [OF 1(3), folded j_def]
    show ?thesis
    proof (cases "j < length xs")
      case False
      with IH steps parent show ?thesis by (auto simp: tree_inputs_large [OF True])
    next
      case j: True
      have input: "(if even i then node_preimage (xs ! i) (xs ! j) else node_preimage (xs ! j) (xs ! i)) \<in> set (pair_inputs xs)"
        using pair_input [OF 1(3)] j unfolding j_def by blast
      show ?thesis
        using IH parent j input unfolding steps
        by (cases "even i") (auto simp: proof_step_def tree_inputs_large [OF True])
    qed
  qed
qed

section \<open>A tree of four leaves\<close>

text \<open>The proof of a leaf has two siblings, the first of which is another leaf.\<close>

lemma four_leaf_levels: "levels_of [a, b, c, d] = [[a, b, c, d], [node a b, node c d], [node (node a b) (node c d)]]"
  by (simp add: levels_of_large levels_of_small)

lemma four_leaf_path:
  assumes "hashes xs" "distinct xs" "length xs = 4" "i < 4"
  obtains s0 sib0 s1 sib1 where
    "proof_steps i (butlast (levels_of xs)) = map dump_step [s0, s1]"
    "ps_sibling s0 = to_hex sib0" "length sib0 = hash_len" "sib0 \<in> set xs" "sib0 \<noteq> xs ! i"
    "ps_sibling s1 = to_hex sib1" "length sib1 = hash_len"
proof -
  obtain a b c d where xs: "xs = [a, b, c, d]" using assms(3) by (auto simp: numeral_eq_Suc length_Suc_conv)
  let ?ab = "node a b" and ?cd = "node c d"
  have step: "dump_step \<lparr>ps_sibling = to_hex h, ps_side = sd\<rparr> = proof_step h (side_text sd)" for h sd
    by (simp add: dump_step_def proof_step_def)
  consider "i = 0" | "i = 1" | "i = 2" | "i = 3" using assms(4) by linarith
  then show thesis
  proof cases
    case 1
    show ?thesis
      by (rule that [of "\<lparr>ps_sibling = to_hex b, ps_side = Side_R\<rparr>" "\<lparr>ps_sibling = to_hex ?cd, ps_side = Side_R\<rparr>" b ?cd])
        (use 1 assms xs in \<open>auto simp: four_leaf_levels step Let_def\<close>)
  next
    case 2
    show ?thesis
      by (rule that [of "\<lparr>ps_sibling = to_hex a, ps_side = Side_L\<rparr>" "\<lparr>ps_sibling = to_hex ?cd, ps_side = Side_R\<rparr>" a ?cd])
        (use 2 assms xs in \<open>auto simp: four_leaf_levels step Let_def\<close>)
  next
    case 3
    show ?thesis
      by (rule that [of "\<lparr>ps_sibling = to_hex d, ps_side = Side_R\<rparr>" "\<lparr>ps_sibling = to_hex ?ab, ps_side = Side_L\<rparr>" d ?ab])
        (use 3 assms xs in \<open>auto simp: four_leaf_levels step Let_def xor_one\<close>)
  next
    case 4
    show ?thesis
      by (rule that [of "\<lparr>ps_sibling = to_hex c, ps_side = Side_L\<rparr>" "\<lparr>ps_sibling = to_hex ?ab, ps_side = Side_L\<rparr>" c ?ab])
        (use 4 assms xs in \<open>auto simp: four_leaf_levels step Let_def xor_one\<close>)
  qed
qed

text \<open>A proof without its last step: two of the values on the way are hashes of different things.\<close>

lemma side_preimage_child:
  "length s = hash_len \<Longrightarrow> length s' = hash_len \<Longrightarrow> length c = hash_len \<Longrightarrow> length c' = hash_len \<Longrightarrow>
     side_preimage sd s c = side_preimage sd' s' c' \<Longrightarrow> c' = c \<or> c' = s"
  by (cases sd; cases sd') (auto simp: node_preimage_inject)

lemma shortened_path:
  assumes s0: "from_hex (ps_sibling s0) = Inr (sha256 (leaf_preimage d' k'))"
    and s1: "from_hex (ps_sibling s1) = Inr sib1" "length sib1 = hash_len"
    and same: "climb (sha256 (leaf_preimage d k)) (map dump_step [s0]) = climb (sha256 (leaf_preimage d k)) (map dump_step [s0, s1])"
  shows "collision_among (leaf_preimage d k # leaf_preimage d' k' #
    climb_inputs (sha256 (leaf_preimage d k)) (map dump_step [s0, s1]))"
proof -
  let ?cur = "sha256 (leaf_preimage d k)" and ?sib = "sha256 (leaf_preimage d' k')"
  let ?x0 = "side_preimage (ps_side s0) ?sib ?cur"
  let ?x1 = "side_preimage (ps_side s1) sib1 (sha256 ?x0)"
  have len: "length (sha256 b) = hash_len" for b by (simp add: hash_len_def)
  note c0 = climb_dump_step [OF s0 len len] and c1 = climb_dump_step [OF s1 len]
  have inputs: "climb_inputs ?cur (map dump_step [s0, s1]) = [?x0, ?x1]" by (simp only: list.map c0 c1 climb_inputs.simps(1))
  from same have eq: "sha256 ?x0 = sha256 ?x1"
    by (simp only: list.map c0(1) c1(1) climb.simps(1) sum.inject option.inject)
  show ?thesis
  proof (cases "?x0 = ?x1")
    case False
    with eq have "collides ?x0 ?x1" by (simp add: collides_def)
    then show ?thesis unfolding inputs by (rule collision_amongI [rotated 2]) simp_all
  next
    case True
    obtain a b where node: "?x0 = node_preimage a b" using side_preimage_node by metis
    from side_preimage_child [OF len s1(2) len len True] consider "sha256 ?x0 = ?cur" | "sha256 ?x0 = ?sib" by blast
    then show ?thesis
    proof cases
      case 1
      then have "collides ?x0 (leaf_preimage d k)" by (simp add: collides_def node del: leaf_node_preimage_disjoint)
          (metis leaf_node_preimage_disjoint)
      then show ?thesis unfolding inputs by (rule collision_amongI [rotated 2]) simp_all
    next
      case 2
      then have "collides ?x0 (leaf_preimage d' k')" by (simp add: collides_def node del: leaf_node_preimage_disjoint)
          (metis leaf_node_preimage_disjoint)
      then show ?thesis unfolding inputs by (rule collision_amongI [rotated 2]) simp_all
    qed
  qed
qed

section \<open>The verdict on a well-formed package\<close>

lemma recompute_leaf_key:
  "from_hex (pp_public_key pkg) = Inr pk \<Longrightarrow> starts_with ''did:iiot:'' (pp_did pkg) \<Longrightarrow> length pk = compressed_pk_len \<Longrightarrow>
     recompute_leaf pkg = Inr (sha256 (leaf_preimage (pp_did pkg) pk))"
  by (simp add: recompute_leaf_def leaf_hash_ok_iff)

lemma verdict_wrong_leaf:
  assumes "recompute_leaf pkg = Inr leaf" "pp_leaf pkg \<noteq> to_hex leaf"
  shows "\<exists>v. verify_proof_package P pkg trusted fog_pk = Inr v \<and> \<not> vr_ok v \<and> vr_detected_by v = ''identity check''"
  using assms by (auto simp: verify_proof_package_def Let_def)

lemma verdict_no_root:
  assumes "recompute_leaf pkg = Inr leaf" "pp_leaf pkg = to_hex leaf"
  shows "\<exists>v. verify_proof_package P pkg None fog_pk = Inr v \<and> \<not> vr_ok v \<and> vr_detected_by v = ''root registry''"
  using assms by (simp add: verify_proof_package_def Let_def)

lemma verdict_wrong_root:
  assumes "recompute_leaf pkg = Inr leaf" "pp_leaf pkg = to_hex leaf" "length leaf = hash_len"
    and "climb leaf (map dump_step (pp_proof_path pkg)) = Inr (Some r)" "r \<noteq> anchored"
  shows "\<exists>v. verify_proof_package P pkg (Some (to_hex anchored)) fog_pk = Inr v \<and> \<not> vr_ok v \<and> vr_detected_by v = ''Merkle verifier''"
  using assms by (simp add: verify_proof_package_def Let_def reconstruct_root_hex reconstruct_root_hash)

text \<open>
  A changed identity with the path of a member: it climbs to another root, or it is a member itself, or
  it shows a collision with what was hashed to build the tree.
\<close>

lemma foreign_identity:
  assumes t: "merkle_init (member_leaves ms) do_sort = Inr t"
    and keys: "\<forall>(d, k)\<in>set ms. length k = compressed_pk_len" and len: "length pk = compressed_pk_len"
    and climb: "climb (sha256 (leaf_preimage did pk)) path = Inr (Some (mt_root t))"
  shows "(did, pk) \<in> set ms \<or> collision_among (leaf_preimage did pk # climb_inputs (sha256 (leaf_preimage did pk)) path @
    member_preimages ms @ tree_inputs (mt_leaves t))"
proof -
  note f = merkle_init_fields [OF t]
  have "leaf_preimage did pk \<in> set (member_preimages ms) \<or> path_collision did pk path (member_preimages ms) (mt_leaves t)"
    using climb f(1,4,8)
    by (intro climb_leaf_sound [where leaves = "member_leaves ms"]) (auto simp: member_leaves_def member_preimages_def)
  then show ?thesis
  proof
    assume "leaf_preimage did pk \<in> set (member_preimages ms)"
    from preimage_member [OF this len keys] show ?thesis ..
  next
    assume "path_collision did pk path (member_preimages ms) (mt_leaves t)"
    then obtain x y where "x \<in> insert (leaf_preimage did pk) (set (climb_inputs (sha256 (leaf_preimage did pk)) path))"
      "y \<in> set (member_preimages ms) \<union> set (tree_inputs (mt_leaves t))" "collides x y" unfolding path_collision_def by blast
    then show ?thesis by (intro disjI2 collision_amongI [of x _ y]) auto
  qed
qed

text \<open>Two trees with the same root and a member that only the first one has.\<close>

lemma same_root_other_members:
  assumes t: "merkle_init (member_leaves ms) do_sort = Inr t" and t': "merkle_init (member_leaves ms') do_sort' = Inr t'"
    and keys: "\<forall>(d, k)\<in>set ms \<union> set ms'. length k = compressed_pk_len"
    and same: "mt_root t = mt_root t'" and extra: "(d, k) \<in> set ms" "(d, k) \<notin> set ms'"
  shows "collision_among (member_preimages ms @ tree_inputs (mt_leaves t) @ member_preimages ms' @ tree_inputs (mt_leaves t'))"
proof -
  let ?leaf = "sha256 (leaf_preimage d k)"
  note f = merkle_init_fields [OF t]
  have leaf: "?leaf \<in> set (member_leaves ms)" using extra(1) by (force simp: member_leaves_def member_preimages_def)
  from get_proof_member [OF t leaf] obtain i where i: "i < length (mt_leaves t)" "mt_leaves t ! i = ?leaf" by blast
  let ?path = "proof_steps i (butlast (levels_of (mt_leaves t)))"
  have "climb ?leaf ?path = Inr (Some (mt_root t'))"
    using climb_proof_steps [OF f(3) i(1)] i(2) f(8) same by simp
  moreover have "length k = compressed_pk_len" using keys extra(1) by blast
  moreover have "\<forall>(d, k)\<in>set ms'. length k = compressed_pk_len" using keys by blast
  ultimately have "collision_among (leaf_preimage d k # climb_inputs ?leaf ?path @ member_preimages ms' @ tree_inputs (mt_leaves t'))"
    using foreign_identity [OF t'] extra(2) by blast
  moreover have "set (climb_inputs ?leaf ?path) \<subseteq> set (tree_inputs (mt_leaves t))"
    using honest_climb_inputs [OF f(3) i(1)] i(2) by simp
  moreover have "leaf_preimage d k \<in> set (member_preimages ms)" using extra(1) by (force simp: member_preimages_def)
  ultimately show ?thesis by (elim collision_among_mono) auto
qed

end
