(* ===== verification/Epoch_Trees.thy ===== *)
theory Epoch_Trees
  imports Tampering Epochs
begin

text \<open>
  The tree behind a closed epoch of fog/batch/epoch_manager.py, for known members: the root is the one
  of the tree over their leaves, every package carries the inclusion proof of its own leaf, and the
  sorted view that \<open>finalize_epoch\<close> returns lists the same members in the order of the tree.
\<close>

section \<open>Lists of members\<close>

abbreviation keys_ok :: "(string \<times> bytes) list \<Rightarrow> bool" where
  "keys_ok ms \<equiv> \<forall>(d, k)\<in>set ms. length k = compressed_pk_len"

lemma member_leaves_distinct:
  assumes "distinct ms" "keys_ok ms"
  shows "distinct (member_leaves ms) \<or> collision_among (member_preimages ms)"
proof (rule disjCI)
  assume no: "\<not> collision_among (member_preimages ms)"
  have "inj_on (\<lambda>(d, k). sha256 (leaf_preimage d k)) (set ms)"
  proof (rule inj_onI)
    fix x y assume xy: "x \<in> set ms" "y \<in> set ms"
      "(\<lambda>(d, k). sha256 (leaf_preimage d k)) x = (\<lambda>(d, k). sha256 (leaf_preimage d k)) y"
    obtain d k d' k' where p: "x = (d, k)" "y = (d', k')" by (metis surj_pair)
    have "leaf_preimage d k = leaf_preimage d' k'"
    proof (rule ccontr)
      assume "leaf_preimage d k \<noteq> leaf_preimage d' k'"
      with xy(3) p have "collides (leaf_preimage d k) (leaf_preimage d' k')" by (simp add: collides_def)
      moreover have "leaf_preimage d k \<in> set (member_preimages ms)" "leaf_preimage d' k' \<in> set (member_preimages ms)"
        using xy(1,2) p by (force simp: member_preimages_def)+
      ultimately show False using no collision_amongI by blast
    qed
    then show "x = y" using leaf_preimage_inject [of k k' d d'] assms(2) xy(1,2) p by auto
  qed
  moreover have "member_leaves ms = map (\<lambda>(d, k). sha256 (leaf_preimage d k)) ms"
    by (auto simp: member_leaves_def member_preimages_def)
  ultimately show "distinct (member_leaves ms)" using assms(1) by (simp add: distinct_map)
qed

lemma hashes_member_leaves: "hashes (member_leaves ms)"
  by (auto simp: member_leaves_def hash_len_def)

lemma member_leaves_well_formed: "ms \<noteq> [] \<Longrightarrow> distinct (member_leaves ms) \<Longrightarrow> well_formed_leaves (member_leaves ms)"
  using hashes_member_leaves by (auto simp: well_formed_leaves_def member_leaves_def member_preimages_def)

lemma mset_member_leaves: "mset ms = mset ms' \<Longrightarrow> mset (member_leaves ms) = mset (member_leaves ms')"
  by (simp add: member_leaves_def member_preimages_def)

lemma member_leaves_simps [simp]:
  "length (member_leaves ms) = length ms" "length (member_preimages ms) = length ms"
  "member_leaves [] = []" "member_leaves ((d, k) # ms) = sha256 (leaf_preimage d k) # member_leaves ms"
  by (simp_all add: member_leaves_def member_preimages_def)

lemma in_member_leaves: "(d, k) \<in> set ms \<Longrightarrow> sha256 (leaf_preimage d k) \<in> set (member_leaves ms)"
  by (force simp: member_leaves_def member_preimages_def)

lemma in_member_preimages: "(d, k) \<in> set ms \<Longrightarrow> leaf_preimage d k \<in> set (member_preimages ms)"
  by (force simp: member_preimages_def)

section \<open>The members that were picked\<close>

lemma decoded_known:
  assumes ok: "members_ok es" and b: "backed D es" and dom: "dict_dom es = fst ` set ms" and dist: "distinct (map fst ms)"
    and rec: "\<forall>(d, k)\<in>set ms. \<exists>rec. dict_get D d = Some rec \<and> from_hex (dr_public_key rec) = Inr k"
  shows "mset (decoded_members es) = mset ms"
proof -
  have get: "from_hex (pe_public_key e) = Inr k" if "dict_get es d = Some e" "(d, k) \<in> set ms" for d e k
  proof -
    from b that(1) obtain r where "dict_get D d = Some r" "from_hex (dr_public_key r) = from_hex (pe_public_key e)"
      unfolding backed_def by blast
    with rec that(2) show ?thesis by fastforce
  qed
  have dict: "dict_ok es" using ok by (simp add: members_ok_def)
  have sub: "(d, k) \<in> set (decoded_members es)" if "(d, k) \<in> set ms" for d k
  proof -
    have "d \<in> dict_dom es" using that unfolding dom by force
    then obtain e where e: "dict_get es d = Some e" by (auto simp: dict_dom_iff)
    from dict_get_SomeD [OF e] get [OF e that] show ?thesis by (force simp: decoded_members_def)
  qed
  moreover have "(d, k) \<in> set ms" if dk: "(d, k) \<in> set (decoded_members es)" for d k
  proof -
    from dk obtain e where e: "(d, e) \<in> set es" "k = projr (from_hex (pe_public_key e))"
      by (auto simp: decoded_members_def)
    then have g: "dict_get es d = Some e" using dict by simp
    then have "d \<in> fst ` set ms" unfolding dom [symmetric] by (simp add: dict_dom_iff)
    then obtain k' where k': "(d, k') \<in> set ms" by auto
    with get [OF g k'] e(2) show ?thesis by simp
  qed
  ultimately have "set (decoded_members es) = set ms" by auto
  moreover have "map fst (decoded_members es) = map fst es" by (induction es) (auto simp: decoded_members_def)
  with dict have "distinct (decoded_members es)" by (metis distinct_map)
  moreover have "distinct ms" using dist by (simp add: distinct_map)
  ultimately show ?thesis by (simp add: set_eq_iff_mset_eq_distinct)
qed

lemma did_collision_inputs:
  assumes "did_collision es"
  shows "collision_among (member_preimages (decoded_members es))"
proof -
  from assms obtain k e k' e' pk pk' where *: "(k, e) \<in> set es" "(k', e') \<in> set es"
    "from_hex (pe_public_key e) = Inr pk" "from_hex (pe_public_key e') = Inr pk'"
    "collides (leaf_preimage k pk) (leaf_preimage k' pk')"
    unfolding did_collision_def by blast
  then have "(k, pk) \<in> set (decoded_members es)" "(k', pk') \<in> set (decoded_members es)"
    by (force simp: decoded_members_def)+
  with *(5) show ?thesis by (blast intro: collision_amongI in_member_preimages)
qed

section \<open>What a successful close was computed from\<close>

lemma finalize_commit_tree:
  assumes "finalize_commit P ts n rnd pl E D L = (Inr r, E', D', L')"
  obtains tree where "merkle_init (sort (map (\<lambda>(_, e). pe_leaf e) (pl_members pl))) False = Inr tree"
    "er_root r = mt_root_hex tree"
    "anchor_root P ts n (em_current_epoch_id E) (mt_root_hex tree) (int (mt_size tree)) L = Inr (er_block r, L')"
    "package_loop P rnd tree (em_current_epoch_id E) (em_fog_id E) (em_signing_key E) (by_leaf_of (pl_members pl))
       (mt_leaves tree) [] = Inr (er_packages r)"
    "er_sorted_leaves r = map (\<lambda>(i, l). (i, to_hex l, pe_did (the (dict_get (by_leaf_of (pl_members pl)) l))))
       (enumerate 0 (mt_leaves tree))"
  using assms by (auto simp: finalize_commit_def Let_def split: sum.splits prod.splits)

lemma package_loop_built:
  "package_loop P rnd tree ep fog sk by_leaf leaves ps = Inr ps' \<Longrightarrow> dict_ok ps \<Longrightarrow> (k, pkg) \<in> set ps' \<Longrightarrow>
     (k, pkg) \<in> set ps \<or> (\<exists>n did pk_hex leaf. build_proof_package P n did pk_hex leaf tree ep fog sk = Inr pkg)"
proof (induction leaves arbitrary: ps)
  case (Cons leaf leaves)
  then obtain e pkg' where e: "dict_get by_leaf leaf = Some e"
    "build_proof_package P (rnd leaf) (pe_did e) (pe_public_key e) leaf tree ep fog sk = Inr pkg'"
    "package_loop P rnd tree ep fog sk by_leaf leaves (dict_set (pe_did e) pkg' ps) = Inr ps'"
    by (auto split: option.splits sum.splits)
  from Cons.IH [OF e(3) dict_ok_set [OF Cons.prems(2)] Cons.prems(3)] e(2) show ?case
    by (auto simp: set_update [OF Cons.prems(2)])
qed simp

text \<open>The package of a member: its identity, and the inclusion proof of its leaf in the tree.\<close>

definition package_of :: "'sk platform \<Rightarrow> merkle_tree \<Rightarrow> int \<Rightarrow> 'sk \<Rightarrow> string \<Rightarrow> bytes \<Rightarrow> proof_package \<Rightarrow> bool" where
  "package_of P tree epoch sk d k pkg \<longleftrightarrow>
     pp_did pkg = d \<and> from_hex (pp_public_key pkg) = Inr k \<and> pp_leaf pkg = to_hex (sha256 (leaf_preimage d k)) \<and>
     pp_epoch_id pkg = epoch \<and>
     get_proof tree (Raw (sha256 (leaf_preimage d k))) = Inr (map dump_step (pp_proof_path pkg)) \<and>
     accepts P pkg (Some (mt_root_hex tree)) (public_key_bytes P sk)"

lemma closed_package_of:
  assumes c: "epoch_closed P es E D L r E' D' L'" and root: "er_root r = mt_root_hex tree"
    and loop: "package_loop P rnd tree ep fog sk by_leaf leaves [] = Inr (er_packages r)"
    and es: "members_ok es" and mem: "(d, k) \<in> set (decoded_members es)"
  shows "\<exists>pkg. dict_get (er_packages r) d = Some pkg \<and> package_of P tree (em_current_epoch_id E) (em_signing_key E) d k pkg"
proof -
  from mem obtain e where e: "(d, e) \<in> set es" "k = projr (from_hex (pe_public_key e))" by (auto simp: decoded_members_def)
  then have g: "dict_get es d = Some e" using es by (simp add: members_ok_def)
  from e es obtain pk where "from_hex (pe_public_key e) = Inr pk" "leaf_hash d pk = Inr (pe_leaf e)"
    by (auto simp: members_ok_def entry_ok_def)
  with e(2) have k: "from_hex (pe_public_key e) = Inr k" "leaf_hash d k = Inr (pe_leaf e)" by simp_all
  have "d \<in> dict_dom (er_packages r)" using c g by (simp add: epoch_closed_def dict_dom_iff)
  then obtain pkg where pkg: "dict_get (er_packages r) d = Some pkg" by (auto simp: dict_dom_iff)
  with c g have p: "pp_did pkg = d" "pp_public_key pkg = pe_public_key e" "pp_epoch_id pkg = em_current_epoch_id E"
    "accepts P pkg (Some (mt_root_hex tree)) (public_key_bytes P (em_signing_key E))"
    by (simp_all add: epoch_closed_def root)
  from p(4) k p(1,2) have leaf: "pp_leaf pkg = to_hex (sha256 (leaf_preimage d k))"
    by (auto simp: accepts_iff recompute_leaf_ok_iff leaf_hash_ok_iff)
  obtain n did pk_hex l where "build_proof_package P n did pk_hex l tree ep fog sk = Inr pkg"
    using package_loop_built [OF loop _ dict_get_SomeD [OF pkg]] by auto
  then have "get_proof tree (Raw l) = Inr (map dump_step (pp_proof_path pkg))" "pp_leaf pkg = to_hex l"
    by (auto simp: build_proof_package_ok_iff)
  with leaf have "get_proof tree (Raw (sha256 (leaf_preimage d k))) = Inr (map dump_step (pp_proof_path pkg))" by simp
  with p k leaf pkg show ?thesis by (auto simp: package_of_def)
qed

text \<open>The sorted view: the members in the order of the leaves.\<close>

definition view_of :: "(string \<times> bytes) list \<Rightarrow> (nat \<times> string \<times> string) list \<Rightarrow> bool" where
  "view_of ms view \<longleftrightarrow> map snd view = map (\<lambda>(d, k). (to_hex (sha256 (leaf_preimage d k)), d)) ms"

lemma map_enumerate_snd: "map (\<lambda>p. f (snd p)) (enumerate n xs) = map f xs"
  by (induction xs arbitrary: n) simp_all

lemma sorted_view:
  assumes es: "members_ok es" "distinct (map (\<lambda>(_, e). pe_leaf e) es)"
    and tree: "mset (mt_leaves tree) = mset (map (\<lambda>(_, e). pe_leaf e) es)"
  shows "\<exists>ms. mset ms = mset (decoded_members es) \<and>
    view_of ms (map (\<lambda>(i, l). (i, to_hex l, pe_did (the (dict_get (by_leaf_of es) l)))) (enumerate 0 (mt_leaves tree)))"
proof -
  let ?e = "\<lambda>l. the (dict_get (by_leaf_of es) l)"
  let ?g = "\<lambda>l. (pe_did (?e l), ?e l)"
  have g: "?g (pe_leaf e) = (k, e)" "pe_did e = k" "leaf_hash k (projr (from_hex (pe_public_key e))) = Inr (pe_leaf e)" if "(k, e) \<in> set es" for k e
    using es that by_leaf_get [OF es(2) that] by (auto simp: members_ok_def entry_ok_def)
  have "mset (map ?g (mt_leaves tree)) = image_mset ?g (mset (map (\<lambda>(_, e). pe_leaf e) es))"
    unfolding tree [symmetric] by simp
  also have "\<dots> = mset (map (\<lambda>p. ?g (case p of (_, e) \<Rightarrow> pe_leaf e)) es)" by (simp add: image_mset.compositionality comp_def)
  also have "map (\<lambda>p. ?g (case p of (_, e) \<Rightarrow> pe_leaf e)) es = es"
    using g(1) by (intro map_idI) (auto split: prod.split)
  finally have same: "mset (map ?g (mt_leaves tree)) = mset es" .
  let ?ms = "decoded_members (map ?g (mt_leaves tree))"
  have "mset ?ms = mset (decoded_members es)"
    using same unfolding decoded_members_def mset_map by simp
  moreover have "to_hex (sha256 (leaf_preimage (pe_did (?e l)) (projr (from_hex (pe_public_key (?e l)))))) = to_hex l"
    if "l \<in> set (mt_leaves tree)" for l
  proof -
    have "l \<in> set (map (\<lambda>(_, e). pe_leaf e) es)" using that tree by (metis set_mset_mset)
    then obtain k e where "(k, e) \<in> set es" "l = pe_leaf e" by auto
    with g [of k e] show ?thesis by (simp add: leaf_hash_ok_iff)
  qed
  then have "view_of ?ms (map (\<lambda>(i, l). (i, to_hex l, pe_did (?e l))) (enumerate 0 (mt_leaves tree)))"
    using map_enumerate_snd [of "\<lambda>l. (to_hex l, pe_did (?e l))" 0 "mt_leaves tree"]
    by (simp add: view_of_def decoded_members_def comp_def case_prod_unfold)
  ultimately show ?thesis by blast
qed

section \<open>Closing an epoch whose members are known\<close>

lemma close_known:
  assumes P: "ecdsa_ok P" and inv: "epochs_inv P E D L"
    and members: "next_members ex E D = fst ` set ms" "ms \<noteq> []" "distinct (map fst ms)"
    and rec: "\<forall>(d, k)\<in>set ms. \<exists>rec. dict_get D d = Some rec \<and> from_hex (dr_public_key rec) = Inr k"
  obtains (closed) es r E' D' L' tree where
      "finalize_epoch P ts n rnd ex E D L = (Inr r, E', D', L')" "epoch_closed P es E D L r E' D' L'"
      "epochs_inv P E' D' L'" "dict_dom es = fst ` set ms"
      "merkle_init (member_leaves ms) True = Inr tree" "er_root r = mt_root_hex tree"
      "anchor_root P ts n (em_current_epoch_id E) (mt_root_hex tree) (int (mt_size tree)) L = Inr (er_block r, L')"
      "\<forall>(d, k)\<in>set ms. \<exists>pkg. dict_get (er_packages r) d = Some pkg \<and>
         package_of P tree (em_current_epoch_id E) (em_signing_key E) d k pkg"
      "\<exists>ms'. mset ms' = mset ms \<and> view_of ms' (er_sorted_leaves r)"
  | (collision) "finalize_epoch P ts n rnd ex E D L = (Inl ValueError, E, D, L)" "collision_among (member_preimages ms)"
proof -
  note i = epochs_invD [OF inv]
  have known: "mset (decoded_members (pl_members pl)) = mset ms"
    if "finalize_plan ex E D = Inr pl" for pl
  proof -
    from that finalize_plan_cases [OF i(2), of ex] have "members_ok (pl_members pl)"
      "dict_dom (pl_members pl) = fst ` set ms" by (auto simp: members(1))
    from decoded_known [OF this(1) finalize_plan_backed [OF i(2,3) that] this(2) members(3) rec] show ?thesis .
  qed
  show thesis
  proof (cases rule: finalize_epoch_cases [OF P i(1) i(5) [OF order.refl] i(2), of ex ts n rnd])
    case 1
    with members(1,2) show ?thesis by auto
  next
    case (3 pl)
    have "collision_among (member_preimages ms)"
      using did_collision_inputs [OF 3(3)] known [OF 3(2)] mset_eq_setD
      by (elim collision_among_mono) (force simp: member_preimages_def)
    then show ?thesis by (rule collision [OF 3(1)])
  next
    case (2 pl r E' D' L')
    let ?es = "pl_members pl"
    note ms = known [OF 2(1)]
    have commit: "finalize_commit P ts n rnd pl E D L = (Inr r, E', D', L')" using 2(1,4) by (simp add: finalize_epoch_def)
    then obtain tree where tree: "merkle_init (sort (map (\<lambda>(_, e). pe_leaf e) ?es)) False = Inr tree"
      "er_root r = mt_root_hex tree"
      "anchor_root P ts n (em_current_epoch_id E) (mt_root_hex tree) (int (mt_size tree)) L = Inr (er_block r, L')"
      "package_loop P rnd tree (em_current_epoch_id E) (em_fog_id E) (em_signing_key E) (by_leaf_of ?es)
         (mt_leaves tree) [] = Inr (er_packages r)"
      "er_sorted_leaves r = map (\<lambda>(i, l). (i, to_hex l, pe_did (the (dict_get (by_leaf_of ?es) l)))) (enumerate 0 (mt_leaves tree))"
      by (rule finalize_commit_tree)
    note leaves = decoded_members(1) [OF 2(2), symmetric]
    have t: "merkle_init (member_leaves ms) True = Inr tree"
      using tree(1) unfolding merkle_init_presorted leaves merkle_init_sorted_perm [OF mset_member_leaves [OF ms]] .
    note f = merkle_init_fields [OF tree(1)]
    have "distinct (map (\<lambda>(_, e). pe_leaf e) ?es)"
      using tree(1) unfolding merkle_init_presorted merkle_init_ok_iff by (simp add: well_formed_leaves_def)
    from sorted_view [OF 2(2) this, of tree] f(5) tree(5) ms
    have view: "\<exists>ms'. mset ms' = mset ms \<and> view_of ms' (er_sorted_leaves r)" by simp
    have pkgs: "\<forall>(d, k)\<in>set ms. \<exists>pkg. dict_get (er_packages r) d = Some pkg \<and>
         package_of P tree (em_current_epoch_id E) (em_signing_key E) d k pkg"
      using closed_package_of [OF 2(5) tree(2,4) 2(2)] mset_eq_setD [OF ms] by blast
    show ?thesis
      by (rule closed [OF 2(4,5) finalize_epoch_inv [OF P inv 2(4)] _ t tree(2,3) pkgs view]) (simp add: 2(3) members(1))
  qed
qed

end
