(* ===== verification/Tamper_Proof.thy ===== *)
theory Tamper_Proof
  imports Epoch_Trees Fog_Invariant
begin

text \<open>
  attacks/tamper_proof.py: a fog registers four devices into epoch 1 and three more into epoch 2; the
  attacker edits the first device's genuine proof package in nine ways and shows it to the verifier,
  changes a key after the root was anchored, and edits the anchored root in the registry file.
  \<open>keys name\<close> is the key pair drawn for a device, \<open>clock name\<close> the reading of the clock when its leaf
  is queued. \<open>model_dump\<close> gives a dictionary with the fields of the package, so an edit of the
  dictionary is an edit of the record; \<open>present\<close> parses the edited dictionary again.
  Console output and the CSV file are left out.
\<close>

section \<open>The script\<close>

definition new_identity :: "'sk platform \<Rightarrow> 'sk \<Rightarrow> string \<times> bytes" where
  "new_identity P key = (let pk = public_key_bytes P key in (derive_did pk, pk))"

record tamper_row =
  tp_title :: string
  tp_result :: string
  tp_detected_by :: string
  tp_as_expected :: bool

definition present ::
    "'sk platform \<Rightarrow> string \<Rightarrow> proof_package \<Rightarrow> 'sk ledger \<Rightarrow> bytes \<Rightarrow> int option \<Rightarrow> bool \<Rightarrow> tamper_row res" where
  "present P title pkg ledger fog_pk epoch_override expect_ok =
     (let epoch = (case epoch_override of Some e \<Rightarrow> e | None \<Rightarrow> pp_epoch_id pkg);
          trusted = get_root ledger epoch
      in case parse_package P (dump_package pkg) of
           Inl e \<Rightarrow> Inl e
         | Inr p \<Rightarrow>
             (case verify_proof_package P p trusted fog_pk of
                Inl e \<Rightarrow> Inl e
              | Inr r \<Rightarrow> Inr \<lparr>tp_title = title, tp_result = (if vr_ok r then ''ACCEPTED'' else ''REJECTED''),
                                tp_detected_by = vr_detected_by r, tp_as_expected = (vr_ok r = expect_ok)\<rparr>))"

subsection \<open>Setup\<close>

definition first_devices :: "string list" where
  "first_devices = [''temp01'', ''pressure01'', ''camera01'', ''plc01'']"

definition second_devices :: "string list" where
  "second_devices = [''motor01'', ''valve01'', ''meter01'']"

text \<open>The body of the two registration loops, and the loops.\<close>

definition enrol ::
    "'sk platform \<Rightarrow> (string \<Rightarrow> time) \<Rightarrow> (string \<Rightarrow> 'sk) \<Rightarrow> string \<Rightarrow> 'sk epoch_manager \<times> device_store \<Rightarrow>
     ('sk epoch_manager \<times> device_store) res" where
  "enrol P clock keys name s =
     (case (new_identity P (keys name), s) of
        ((did, pk), (mgr, store)) \<Rightarrow>
          let record = (new_device did (to_hex pk) PENDING)\<lparr>dr_device_name := Some name\<rparr>;
              store' = device_upsert record store
          in case add_leaf (clock name) did pk mgr of
               (Inl e, _) \<Rightarrow> Inl e
             | (Inr _, mgr') \<Rightarrow> Inr (mgr', store'))"

fun enrol_all ::
    "'sk platform \<Rightarrow> (string \<Rightarrow> time) \<Rightarrow> (string \<Rightarrow> 'sk) \<Rightarrow> string list \<Rightarrow> 'sk epoch_manager \<times> device_store \<Rightarrow>
     ('sk epoch_manager \<times> device_store) res" where
  "enrol_all P clock keys [] s = Inr s"
| "enrol_all P clock keys (name # names) s =
     (case enrol P clock keys name s of Inl e \<Rightarrow> Inl e | Inr s' \<Rightarrow> enrol_all P clock keys names s')"

text \<open>What the two calls of \<open>finalize_epoch\<close> read and draw: the clock's text and the signatures' randomness.\<close>

record close_env =
  ce_timestamp :: string
  ce_seed :: nat
  ce_leaf_seed :: "bytes \<Rightarrow> nat"

definition close_batch ::
    "'sk platform \<Rightarrow> close_env \<Rightarrow> 'sk epoch_manager \<times> device_store \<Rightarrow> 'sk ledger \<Rightarrow>
     (epoch_result \<times> ('sk epoch_manager \<times> device_store) \<times> 'sk ledger) res" where
  "close_batch P v s ledger =
     (case s of (mgr, store) \<Rightarrow>
        (case finalize_epoch P (ce_timestamp v) (ce_seed v) (ce_leaf_seed v) [] mgr store ledger of
           (Inl e, _) \<Rightarrow> Inl e
         | (Inr r, mgr', store', ledger') \<Rightarrow> Inr (r, (mgr', store'), ledger')))"

definition tamper_setup ::
    "'sk platform \<Rightarrow> (string \<Rightarrow> time) \<Rightarrow> close_env \<Rightarrow> close_env \<Rightarrow> 'sk \<Rightarrow> (string \<Rightarrow> 'sk) \<Rightarrow>
     (epoch_result \<times> epoch_result \<times> 'sk ledger) res" where
  "tamper_setup P clock v1 v2 fog_key keys =
     (case ledger_init fog_key ''fog_A'' No_file of
        Inl e \<Rightarrow> Inl e
      | Inr ledger \<Rightarrow>
          (case epoch_manager_init ledger fog_key ''fog_A'' True of
             Inl e \<Rightarrow> Inl e
           | Inr mgr \<Rightarrow>
               (case enrol_all P clock keys first_devices (mgr, []) of
                  Inl e \<Rightarrow> Inl e
                | Inr s \<Rightarrow>
                    (case close_batch P v1 s ledger of
                       Inl e \<Rightarrow> Inl e
                     | Inr (e1, s1, ledger1) \<Rightarrow>
                         (case enrol_all P clock keys second_devices s1 of
                            Inl e \<Rightarrow> Inl e
                          | Inr s2 \<Rightarrow>
                              (case close_batch P v2 s2 ledger1 of
                                 Inl e \<Rightarrow> Inl e
                               | Inr (e2, _, ledger2) \<Rightarrow> Inr (e1, e2, ledger2)))))))"

subsection \<open>The edited packages\<close>

definition with_identity :: "string \<Rightarrow> bytes \<Rightarrow> proof_package \<Rightarrow> proof_package res" where
  "with_identity did pk p =
     (case leaf_hash did pk of
        Inl e \<Rightarrow> Inl e
      | Inr leaf \<Rightarrow> Inr (p\<lparr>pp_did := did, pp_public_key := to_hex pk, pp_leaf := to_hex leaf\<rparr>))"

definition modified_did :: "proof_package \<Rightarrow> proof_package res" where
  "modified_did p =
     (if pp_did p = [] then Inl IndexError
      else let did = butlast (pp_did p) @ (if last (pp_did p) \<noteq> CHR ''0'' then ''0'' else ''1'')
           in case from_hex (pp_public_key p) of
                Inl e \<Rightarrow> Inl e
              | Inr pk \<Rightarrow>
                  (case leaf_hash did pk of
                     Inl e \<Rightarrow> Inl e
                   | Inr leaf \<Rightarrow> Inr (p\<lparr>pp_did := did, pp_leaf := to_hex leaf\<rparr>)))"

definition edit_first_step :: "(path_step \<Rightarrow> path_step res) \<Rightarrow> proof_package \<Rightarrow> proof_package res" where
  "edit_first_step f p =
     (case pp_proof_path p of
        [] \<Rightarrow> Inl IndexError
      | s # ss \<Rightarrow> (case f s of Inl e \<Rightarrow> Inl e | Inr s' \<Rightarrow> Inr (p\<lparr>pp_proof_path := s' # ss\<rparr>)))"

definition flip_bit :: "path_step \<Rightarrow> path_step res" where
  "flip_bit s =
     (case from_hex (ps_sibling s) of
        Inl e \<Rightarrow> Inl e
      | Inr [] \<Rightarrow> Inl IndexError
      | Inr (b # bs) \<Rightarrow> Inr (s\<lparr>ps_sibling := to_hex ((b XOR 1) # bs)\<rparr>))"

definition swap_side :: "path_step \<Rightarrow> path_step res" where
  "swap_side s = Inr (s\<lparr>ps_side := (if ps_side s = Side_R then Side_L else Side_R)\<rparr>)"

text \<open>The packages presented, in order, with what the script expects; \<open>camera\<close> is camera01's package.\<close>

definition presentations ::
    "proof_package \<Rightarrow> proof_package res \<Rightarrow> string \<times> bytes \<Rightarrow> (string \<times> proof_package res \<times> bool) list" where
  "presentations genuine camera evil =
     [(''0. unmodified proof package'', Inr genuine, True),
      (''1. modified DID (leaf recomputed to match)'', modified_did genuine, False),
      (''2. temp01'' @ [CHR 0x27] @ ''s DID with the attacker'' @ [CHR 0x27] @ ''s public key'', with_identity (pp_did genuine) (snd evil) genuine, False),
      (''3. attacker'' @ [CHR 0x27] @ ''s own DID+PK with temp01'' @ [CHR 0x27] @ ''s proof path'', with_identity (fst evil) (snd evil) genuine, False),
      (''3b. only the leaf field swapped for camera01'' @ [CHR 0x27] @ ''s leaf'',
         (case camera of Inl e \<Rightarrow> Inl e | Inr c \<Rightarrow> Inr (genuine\<lparr>pp_leaf := pp_leaf c\<rparr>)), False),
      (''4. one bit flipped in sibling hash 0'', edit_first_step flip_bit genuine, False),
      (''5. left/right order of sibling 0 swapped'', edit_first_step swap_side genuine, False),
      (''6. last sibling removed from the path'', Inr (genuine\<lparr>pp_proof_path := butlast (pp_proof_path genuine)\<rparr>), False),
      (''7. epoch 1 proof presented as epoch 2 (wrong root)'', Inr (genuine\<lparr>pp_epoch_id := 2\<rparr>), False),
      (''8. claims an epoch that was never anchored'', Inr (genuine\<lparr>pp_epoch_id := 99\<rparr>), False)]"

fun present_all ::
    "'sk platform \<Rightarrow> 'sk ledger \<Rightarrow> bytes \<Rightarrow> (string \<times> proof_package res \<times> bool) list \<Rightarrow> tamper_row list res" where
  "present_all P ledger fog_pk [] = Inr []"
| "present_all P ledger fog_pk ((title, edited, expect_ok) # rest) =
     (case edited of
        Inl e \<Rightarrow> Inl e
      | Inr pkg \<Rightarrow>
          (case present P title pkg ledger fog_pk None expect_ok of
             Inl e \<Rightarrow> Inl e
           | Inr row \<Rightarrow>
               (case present_all P ledger fog_pk rest of Inl e \<Rightarrow> Inl e | Inr rows \<Rightarrow> Inr (row # rows))))"

subsection \<open>Tampering after the root was anchored\<close>

fun tampered_leaves :: "string \<Rightarrow> bytes \<Rightarrow> (nat \<times> string \<times> string) list \<Rightarrow> bytes list res" where
  "tampered_leaves did forged_pk [] = Inr []"
| "tampered_leaves did forged_pk ((index, leaf, item_did) # items) =
     (case (if item_did = did then leaf_hash did forged_pk else from_hex leaf) of
        Inl e \<Rightarrow> Inl e
      | Inr l \<Rightarrow> (case tampered_leaves did forged_pk items of Inl e \<Rightarrow> Inl e | Inr ls \<Rightarrow> Inr (l # ls)))"

definition commit_tamper :: "string \<Rightarrow> bytes \<Rightarrow> epoch_result \<Rightarrow> 'sk ledger \<Rightarrow> tamper_row res" where
  "commit_tamper camera_did forged_pk e1 ledger =
     (case tampered_leaves camera_did forged_pk (er_sorted_leaves e1) of
        Inl e \<Rightarrow> Inl e
      | Inr leaves \<Rightarrow>
          (case compute_root leaves of
             Inl e \<Rightarrow> Inl e
           | Inr recomputed \<Rightarrow>
               let detected = (Some (to_hex recomputed) \<noteq> get_root ledger 1)
               in Inr \<lparr>tp_title = ''9. camera01 key changed after anchoring'',
                       tp_result = (if detected then ''REJECTED'' else ''ACCEPTED''),
                       tp_detected_by = ''root comparison'', tp_as_expected = detected\<rparr>))"

definition all_ff :: string where
  "all_ff = concat (replicate 32 ''ff'')"

text \<open>\<open>blocks[0]["root"] = "ff" * 32\<close>, written back. After two epochs the file holds blocks.\<close>

definition edited_file :: "registry_file \<Rightarrow> registry_file res" where
  "edited_file f =
     (case f of
        Blocks (b # bs) \<Rightarrow> Inr (Blocks (dict_set ''root'' (JStr all_ff) b # bs))
      | Blocks [] \<Rightarrow> Inl IndexError
      | _ \<Rightarrow> Inl ValueError)"

definition ledger_tamper :: "'sk platform \<Rightarrow> 'sk ledger \<Rightarrow> tamper_row res" where
  "ledger_tamper P ledger =
     (case edited_file (lg_file ledger) of
        Inl e \<Rightarrow> Inl e
      | Inr f \<Rightarrow>
          (case verify_chain P None (ledger\<lparr>lg_file := f\<rparr>) of
             Inl e \<Rightarrow> Inl e
           | Inr v \<Rightarrow> Inr \<lparr>tp_title = ''10. anchored root edited in ledger file'',
                           tp_result = (if \<not> verdict_ok v then ''REJECTED'' else ''ACCEPTED''),
                           tp_detected_by = ''ledger verify_chain'', tp_as_expected = (\<not> verdict_ok v)\<rparr>))"

text \<open>\<open>main\<close>: the rows, and whether every tampering attempt was detected.\<close>

definition tamper_main ::
    "'sk platform \<Rightarrow> (string \<Rightarrow> time) \<Rightarrow> close_env \<Rightarrow> close_env \<Rightarrow> 'sk \<Rightarrow> (string \<Rightarrow> 'sk) \<Rightarrow> 'sk \<Rightarrow> 'sk \<Rightarrow>
     (tamper_row list \<times> bool) res" where
  "tamper_main P clock v1 v2 fog_key keys evil_key forged_key =
     (let fog_pk = public_key_bytes P fog_key;
          ids = (\<lambda>name. new_identity P (keys name))
      in case tamper_setup P clock v1 v2 fog_key keys of
           Inl e \<Rightarrow> Inl e
         | Inr (e1, e2, ledger) \<Rightarrow>
             (case dict_get (er_packages e1) (fst (ids ''temp01'')) of
                None \<Rightarrow> Inl KeyError
              | Some genuine \<Rightarrow>
                  let camera = (case dict_get (er_packages e1) (fst (ids ''camera01'')) of None \<Rightarrow> Inl KeyError | Some c \<Rightarrow> Inr c)
                  in case present_all P ledger fog_pk (presentations genuine camera (new_identity P evil_key)) of
                       Inl e \<Rightarrow> Inl e
                     | Inr rows \<Rightarrow>
                         (case commit_tamper (fst (ids ''camera01'')) (snd (new_identity P forged_key)) e1 ledger of
                            Inl e \<Rightarrow> Inl e
                          | Inr row9 \<Rightarrow>
                              (case ledger_tamper P ledger of
                                 Inl e \<Rightarrow> Inl e
                               | Inr row10 \<Rightarrow>
                                   let results = rows @ [row9, row10]
                                   in Inr (results, list_all tp_as_expected results)))))"

section \<open>Registering the devices\<close>

definition identities :: "'sk platform \<Rightarrow> (string \<Rightarrow> 'sk) \<Rightarrow> string list \<Rightarrow> (string \<times> bytes) list" where
  "identities P keys names = map (\<lambda>name. new_identity P (keys name)) names"

lemma new_identity_simps [simp]:
  "fst (new_identity P key) = derive_did (public_key_bytes P key)" "snd (new_identity P key) = public_key_bytes P key"
  by (simp_all add: new_identity_def Let_def)

lemma keys_ok_identities: "ecdsa_ok P \<Longrightarrow> keys_ok (identities P keys names)"
  by (auto simp: identities_def new_identity_def Let_def length_public_key)

lemma in_identities: "name \<in> set names \<Longrightarrow> new_identity P (keys name) \<in> set (identities P keys names)"
  by (simp add: identities_def)

text \<open>What one registration does to the manager and the store, and all of them.\<close>

definition enrolled ::
    "'sk platform \<Rightarrow> (string \<times> bytes) list \<Rightarrow> 'sk epoch_manager \<Rightarrow> device_store \<Rightarrow> 'sk epoch_manager \<Rightarrow> device_store \<Rightarrow> bool" where
  "enrolled P ms E D E' D' \<longleftrightarrow>
     dict_dom (em_pending E') = fst ` set ms \<union> dict_dom (em_pending E) \<and>
     em_carry_forward E' = em_carry_forward E \<and> em_signing_key E' = em_signing_key E \<and>
     em_current_epoch_id E' = em_current_epoch_id E \<and>
     (\<forall>(d, k)\<in>set ms. \<exists>rec. dict_get D' d = Some rec \<and> dr_public_key rec = to_hex k \<and> dr_status rec = PENDING) \<and>
     (\<forall>d. d \<notin> fst ` set ms \<longrightarrow> dict_get D' d = dict_get D d)"

lemma enrol_ok:
  assumes P: "ecdsa_ok P" and inv: "epochs_inv P E D L" and fresh: "dict_get D (fst (new_identity P (keys name))) = None"
  obtains E' D' where "enrol P clock keys name (E, D) = Inr (E', D')" "epochs_inv P E' D' L"
    "enrolled P [new_identity P (keys name)] E D E' D'"
proof -
  define pk where "pk = public_key_bytes P (keys name)"
  define did where "did = derive_did pk"
  let ?rec = "(new_device did (to_hex pk) PENDING)\<lparr>dr_device_name := Some name\<rparr>"
  have id: "new_identity P (keys name) = (did, pk)" by (simp add: new_identity_def pk_def did_def Let_def)
  have len: "length pk = compressed_pk_len" using P by (simp add: pk_def length_public_key)
  have new: "dict_get D did = None" using fresh id by simp
  with epochs_invD(3) [OF inv] have pend: "dict_get (em_pending E) did = None"
    unfolding backed_def by (metis not_None_eq)
  from leaf_hash_derived [OF len] pend obtain leaf E' where
    add: "add_leaf (clock name) did pk E = (Inr leaf, E')" and
    E': "E' = E\<lparr>em_pending := em_pending E'\<rparr>" "dict_dom (em_pending E') = insert did (dict_dom (em_pending E))"
    by (auto simp: add_leaf_def did_def Let_def)
  have rec: "dict_get (device_upsert ?rec D) did = Some ?rec" by (simp add: device_upsert_def new_device_def dict_simps)
  have "device_ok ?rec" using len by (simp add: device_ok_def new_device_def did_def)
  then have inv1: "epochs_inv P E (device_upsert ?rec D) L"
    using new by (intro epochs_inv_put [OF inv]) (simp_all add: new_device_def)
  have inv': "epochs_inv P E' (device_upsert ?rec D) L"
    using epochs_inv_queue [OF inv1 rec _ add] by (simp add: new_device_def)
  have fields: "em_carry_forward E' = em_carry_forward E" "em_signing_key E' = em_signing_key E"
    "em_current_epoch_id E' = em_current_epoch_id E" by (subst E'(1), simp)+
  show thesis
  proof (rule that [OF _ inv'])
    show "enrol P clock keys name (E, D) = Inr (E', device_upsert ?rec D)"
      by (simp add: enrol_def id add Let_def)
    show "enrolled P [new_identity P (keys name)] E D E' (device_upsert ?rec D)"
      using fields E'(2) rec by (simp add: enrolled_def id) (simp add: new_device_def device_upsert_def dict_simps)
  qed
qed

lemma enrol_all_ok:
  assumes P: "ecdsa_ok P"
  shows "epochs_inv P E D L \<Longrightarrow> distinct (map fst (identities P keys names)) \<Longrightarrow>
    \<forall>m\<in>set (identities P keys names). dict_get D (fst m) = None \<Longrightarrow>
    \<exists>E' D'. enrol_all P clock keys names (E, D) = Inr (E', D') \<and> epochs_inv P E' D' L \<and>
      enrolled P (identities P keys names) E D E' D'"
proof (induction names arbitrary: E D)
  case Nil
  then show ?case by (simp add: enrolled_def identities_def)
next
  case (Cons name names)
  let ?m = "new_identity P (keys name)" and ?ms = "identities P keys names"
  have ids: "identities P keys (name # names) = ?m # ?ms" by (simp add: identities_def)
  have fresh: "dict_get D (fst ?m) = None" using Cons.prems(3) by (simp add: ids del: new_identity_simps)
  obtain E1 D1 where one: "enrol P clock keys name (E, D) = Inr (E1, D1)" "epochs_inv P E1 D1 L" "enrolled P [?m] E D E1 D1"
    by (rule enrol_ok [where keys = keys and name = name, OF P Cons.prems(1) fresh])
  have dist: "distinct (map fst ?ms)" "fst ?m \<notin> fst ` set ?ms" using Cons.prems(2) by (simp_all add: ids del: new_identity_simps)
  have "\<forall>m\<in>set ?ms. dict_get D1 (fst m) = None"
  proof
    fix m assume m: "m \<in> set ?ms"
    with dist(2) have "fst m \<noteq> fst ?m" by (metis image_eqI)
    with one(3) have "dict_get D1 (fst m) = dict_get D (fst m)" by (simp add: enrolled_def del: new_identity_simps)
    with Cons.prems(3) m show "dict_get D1 (fst m) = None" by (simp add: ids)
  qed
  from Cons.IH [OF one(2) dist(1) this] obtain E' D' where rest: "enrol_all P clock keys names (E1, D1) = Inr (E', D')"
    "epochs_inv P E' D' L" "enrolled P ?ms E1 D1 E' D'" by blast
  have "enrolled P (?m # ?ms) E D E' D'"
    using one(3) rest(3) dist(2) unfolding enrolled_def by (cases ?m) auto
  with one(1) rest show ?case by (simp add: ids)
qed

section \<open>The two epochs\<close>

definition first_ledger :: "'sk \<Rightarrow> 'sk ledger" where
  "first_ledger fog_key = \<lparr>lg_key = fog_key, lg_fog_id = ''fog_A'', lg_blocks = [], lg_cache = [], lg_file = No_file\<rparr>"

definition first_manager :: "'sk \<Rightarrow> 'sk epoch_manager" where
  "first_manager fog_key = \<lparr>em_signing_key = fog_key, em_fog_id = ''fog_A'', em_carry_forward = True,
     em_current_epoch_id = 1, em_pending = [], em_packages = [], em_latest_package = [], em_active_dids = {}\<rparr>"

lemma first_init:
  "ledger_init fog_key ''fog_A'' No_file = Inr (first_ledger fog_key)"
  "epoch_manager_init (first_ledger fog_key) fog_key ''fog_A'' True = Inr (first_manager fog_key)"
  by (simp_all add: ledger_init_def first_ledger_def epoch_manager_init_def latest_epoch_def first_manager_def)

lemma first_epochs_inv: "epochs_inv P (first_manager fog_key) [] (first_ledger fog_key)"
  using ledger_init_new [OF first_init(1)]
  by (simp add: epochs_inv_def first_manager_def batch_ok_def members_ok_Nil backed_def devices_ok_def by_status_def
      get_root_def first_ledger_def get_package_def)

lemma enrolled_keys:
  "enrolled P ms E D E' D' \<Longrightarrow> \<forall>(d, k)\<in>set ms. \<exists>rec. dict_get D' d = Some rec \<and> from_hex (dr_public_key rec) = Inr k"
  unfolding enrolled_def by fastforce

text \<open>After an epoch is closed its members are registered with the keys they had.\<close>

lemma closed_members:
  assumes c: "epoch_closed P es E D L r E' D' L'" and dom: "dict_dom es = fst ` set ms"
    and rec: "\<forall>(d, k)\<in>set ms. \<exists>rec. dict_get D d = Some rec \<and> from_hex (dr_public_key rec) = Inr k"
    and only: "\<forall>d. d \<notin> fst ` set ms \<longrightarrow> dict_get D d = None"
  shows "\<forall>(d, k)\<in>set ms. \<exists>rec. dict_get D' d = Some rec \<and> from_hex (dr_public_key rec) = Inr k \<and> dr_status rec = REGISTERED"
    and "\<forall>d. d \<notin> fst ` set ms \<longrightarrow> dict_get D' d = None"
proof -
  have D': "dict_get D' d = (case dict_get (er_packages r) d of None \<Rightarrow> dict_get D d
      | Some pkg \<Rightarrow> map_option (\<lambda>rec. rec\<lparr>dr_status := REGISTERED, dr_leaf := Some (pp_leaf pkg),
                      dr_epoch_id := Some (em_current_epoch_id E)\<rparr>) (dict_get D d))" for d
    using c unfolding epoch_closed_def by (elim conjE) simp
  have dom': "dict_get (er_packages r) d \<noteq> None \<longleftrightarrow> d \<in> fst ` set ms" for d
    using c dom unfolding dict_dom_iff [symmetric] by (simp add: epoch_closed_def)
  show "\<forall>(d, k)\<in>set ms. \<exists>rec. dict_get D' d = Some rec \<and> from_hex (dr_public_key rec) = Inr k \<and> dr_status rec = REGISTERED"
  proof (clarify)
    fix d k assume dk: "(d, k) \<in> set ms"
    with rec obtain r0 where "dict_get D d = Some r0" "from_hex (dr_public_key r0) = Inr k" by blast
    moreover have "dict_get (er_packages r) d \<noteq> None" using dk unfolding dom' by force
    ultimately show "\<exists>rec. dict_get D' d = Some rec \<and> from_hex (dr_public_key rec) = Inr k \<and> dr_status rec = REGISTERED"
      using D' [of d] by auto
  qed
  show "\<forall>d. d \<notin> fst ` set ms \<longrightarrow> dict_get D' d = None"
    using D' only dom' by (auto split: option.split)
qed

lemma next_members_second:
  assumes reg: "\<forall>(d, k)\<in>set ms. \<exists>rec. dict_get D d = Some rec \<and> from_hex (dr_public_key rec) = Inr k \<and> dr_status rec = REGISTERED"
    and only: "\<forall>d. d \<notin> fst ` set ms \<longrightarrow> dict_get D d = None"
    and enr: "enrolled P ms' E D E' D'" and E: "em_pending E = []" "em_carry_forward E"
    and disj: "fst ` set ms \<inter> fst ` set ms' = {}"
  shows "next_members [] E' D' = fst ` set (ms @ ms')"
    and "\<forall>(d, k)\<in>set (ms @ ms'). \<exists>rec. dict_get D' d = Some rec \<and> from_hex (dr_public_key rec) = Inr k"
proof -
  have old: "dict_get D' d = dict_get D d" if "d \<in> fst ` set ms" for d
    using enr that disj unfolding enrolled_def by blast
  have new: "\<exists>rec. dict_get D' d = Some rec \<and> dr_status rec = PENDING" if "d \<in> fst ` set ms'" for d
    using enr that unfolding enrolled_def by fastforce
  have out: "dict_get D' d = None" if "d \<notin> fst ` set ms" "d \<notin> fst ` set ms'" for d
    using enr only that unfolding enrolled_def by metis
  have reg': "\<exists>rec. dict_get D' d = Some rec \<and> dr_status rec = REGISTERED" if "d \<in> fst ` set ms" for d
    using reg old [OF that] that by fastforce
  have pend: "dict_get (em_pending E') d \<noteq> None \<longleftrightarrow> d \<in> fst ` set ms'" for d
    using enr E(1) unfolding dict_dom_iff [symmetric] by (simp add: enrolled_def)
  have carry: "em_carry_forward E'" using enr E(2) by (simp add: enrolled_def)
  show "next_members [] E' D' = fst ` set (ms @ ms')"
  proof (rule set_eqI)
    fix d
    consider "d \<in> fst ` set ms" | "d \<in> fst ` set ms'" | "d \<notin> fst ` set ms" "d \<notin> fst ` set ms'" by blast
    then show "d \<in> next_members [] E' D' \<longleftrightarrow> d \<in> fst ` set (ms @ ms')"
    proof cases
      case 1
      with reg' [OF 1] carry show ?thesis by (auto simp: next_members_def)
    next
      case 2
      moreover from this pend have "dict_get (em_pending E') d \<noteq> None" by blast
      moreover from new [OF 2] have "\<not> (\<exists>rec. dict_get D' d = Some rec \<and> dr_status rec = REVOKED)" by force
      ultimately show ?thesis by (simp add: next_members_def image_Un)
    next
      case 3
      then have "dict_get (em_pending E') d = None" using pend by blast
      with 3 out [OF 3] show ?thesis by (simp add: next_members_def image_Un)
    qed
  qed
  show "\<forall>(d, k)\<in>set (ms @ ms'). \<exists>rec. dict_get D' d = Some rec \<and> from_hex (dr_public_key rec) = Inr k"
  proof (clarify)
    fix d k assume "(d, k) \<in> set (ms @ ms')"
    then consider "(d, k) \<in> set ms" | "(d, k) \<in> set ms'" by auto
    then show "\<exists>rec. dict_get D' d = Some rec \<and> from_hex (dr_public_key rec) = Inr k"
    proof cases
      case 1
      with old [of d] reg show ?thesis by force
    next
      case 2
      with enrolled_keys [OF enr] show ?thesis by blast
    qed
  qed
qed

text \<open>What the attacker and the verifier find after the setup.\<close>

definition setup_done ::
    "'sk platform \<Rightarrow> 'sk \<Rightarrow> (string \<times> bytes) list \<Rightarrow> (string \<times> bytes) list \<Rightarrow> epoch_result \<Rightarrow> 'sk ledger \<Rightarrow>
     merkle_tree \<Rightarrow> merkle_tree \<Rightarrow> bool" where
  "setup_done P fog_key m1 m2 e1 L t1 t2 \<longleftrightarrow>
     merkle_init (member_leaves m1) True = Inr t1 \<and> merkle_init (member_leaves (m1 @ m2)) True = Inr t2 \<and>
     er_root e1 = mt_root_hex t1 \<and> lg_key L = fog_key \<and>
     get_root L 1 = Some (mt_root_hex t1) \<and> get_root L 2 = Some (mt_root_hex t2) \<and> get_root L 99 = None \<and>
     (\<forall>(d, k)\<in>set m1. \<exists>pkg. dict_get (er_packages e1) d = Some pkg \<and> package_of P t1 1 fog_key d k pkg) \<and>
     (\<exists>ms. mset ms = mset m1 \<and> view_of ms (er_sorted_leaves e1)) \<and>
     (\<exists>ts n c bs. lg_file L = Blocks (new_block P (first_ledger fog_key) n
        (new_body (first_ledger fog_key) ts 1 (er_root e1) c (JStr genesis_prev_hash)) # bs))"

lemma close_batch_result:
  "finalize_epoch P (ce_timestamp v) (ce_seed v) (ce_leaf_seed v) [] E D L = (Inr r, E', D', L') \<Longrightarrow>
     close_batch P v (E, D) L = Inr (r, (E', D'), L')"
  "finalize_epoch P (ce_timestamp v) (ce_seed v) (ce_leaf_seed v) [] E D L = (Inl e, E', D', L') \<Longrightarrow>
     close_batch P v (E, D) L = Inl e"
  by (simp_all add: close_batch_def)

lemma anchored_blocks:
  assumes "anchor_root P ts n e r c L = Inr (b, L')"
  shows "lg_file L' = Blocks (lg_blocks L @ [b])" "lg_key L' = lg_key L" "lg_blocks L' = lg_blocks L @ [b]"
  using assms by (auto simp: anchor_root_ok_iff)

lemma setup_outcome:
  fixes P clock keys v1 v2 fog_key
  defines "m1 \<equiv> identities P keys first_devices" and "m2 \<equiv> identities P keys second_devices"
  assumes P: "ecdsa_ok P" and dist: "distinct (map fst (m1 @ m2))"
  obtains (closed) e1 e2 L t1 t2 where "tamper_setup P clock v1 v2 fog_key keys = Inr (e1, e2, L)"
      "setup_done P fog_key m1 m2 e1 L t1 t2"
  | (collision) "tamper_setup P clock v1 v2 fog_key keys = Inl ValueError"
      "collision_among (member_preimages (m1 @ m2))"
proof -
  let ?E0 = "first_manager fog_key" and ?L0 = "first_ledger fog_key"
  have dist1: "distinct (map fst m1)" "distinct (map fst m2)" "fst ` set m1 \<inter> fst ` set m2 = {}"
    using dist by simp_all
  have E0: "em_pending ?E0 = []" "em_carry_forward ?E0" "em_current_epoch_id ?E0 = 1" "em_signing_key ?E0 = fog_key"
    by (simp_all add: first_manager_def)
  obtain E1 D1 where en1: "enrol_all P clock keys first_devices (?E0, []) = Inr (E1, D1)" "epochs_inv P E1 D1 ?L0"
    "enrolled P m1 ?E0 [] E1 D1"
    using enrol_all_ok [OF P first_epochs_inv, of keys first_devices clock fog_key] dist1(1) unfolding m1_def by auto
  note mem1 = next_members_second [where ms = "[]" and D = "[]", OF _ _ en1(3) E0(1,2), simplified]
  have only1: "\<forall>d. d \<notin> fst ` set m1 \<longrightarrow> dict_get D1 d = None" using en1(3) by (simp add: enrolled_def)
  have ne: "m1 \<noteq> []" "m1 @ m2 \<noteq> []" by (simp_all add: m1_def identities_def first_devices_def)
  have f1: "em_current_epoch_id E1 = 1" "em_signing_key E1 = fog_key" "em_carry_forward E1"
    using en1(3) E0 by (simp_all add: enrolled_def)
  show thesis
  proof (cases rule: close_known [where ts = "ce_timestamp v1" and n = "ce_seed v1" and rnd = "ce_leaf_seed v1",
        OF P en1(2) mem1(1) ne(1) dist1(1) mem1(2)])
    case 2
    have "tamper_setup P clock v1 v2 fog_key keys = Inl ValueError"
      by (simp add: tamper_setup_def first_init en1(1) close_batch_result(2) [OF 2(1)])
    moreover have "collision_among (member_preimages (m1 @ m2))"
      using 2(2) by (rule collision_among_mono) (simp add: member_preimages_def)
    ultimately show ?thesis by (rule collision)
  next
    case (1 es r1 E2 D2 L1 t1)
    note cl = closed_members [OF 1(2,4) mem1(2) only1]
    have f2: "em_pending E2 = []" "em_carry_forward E2" "em_current_epoch_id E2 = 2" "em_signing_key E2 = fog_key"
      using 1(2) f1 by (simp_all add: epoch_closed_def)
    have fresh: "\<forall>m\<in>set m2. dict_get D2 (fst m) = None" using cl(2) dist1(3) by blast
    obtain E3 D3 where en2: "enrol_all P clock keys second_devices (E2, D2) = Inr (E3, D3)" "epochs_inv P E3 D3 L1"
      "enrolled P m2 E2 D2 E3 D3"
      using enrol_all_ok [OF P 1(3), of keys second_devices clock] dist1(2) fresh unfolding m2_def by auto
    note mem2 = next_members_second [OF cl en2(3) f2(1,2) dist1(3)]
    have f3: "em_current_epoch_id E3 = 2" "em_signing_key E3 = fog_key"
      using en2(3) f2 by (simp_all add: enrolled_def)
    show ?thesis
    proof (cases rule: close_known [where ts = "ce_timestamp v2" and n = "ce_seed v2" and rnd = "ce_leaf_seed v2",
          OF P en2(2) mem2(1) ne(2) dist mem2(2)])
      case 2
      have "tamper_setup P clock v1 v2 fog_key keys = Inl ValueError"
        by (simp add: tamper_setup_def first_init en1(1) close_batch_result(1) [OF 1(1)] en2(1) close_batch_result(2) [OF 2(1)])
      then show ?thesis using 2(2) by (rule collision)
    next
      case second: (1 es' r2 E4 D4 L2 t2)
      have run: "tamper_setup P clock v1 v2 fog_key keys = Inr (r1, r2, L2)"
        by (simp add: tamper_setup_def first_init en1(1) close_batch_result(1) [OF 1(1)] en2(1)
            close_batch_result(1) [OF second(1)])
      note a1 = 1(7) [unfolded f1] and a2 = second(7) [unfolded f3]
      have "get_root L1 1 = Some (mt_root_hex t1)" using a1 reg.stored unfolding anchors_def by blast
      then have g1: "get_root L2 1 = Some (mt_root_hex t1)"
        using reg.others [of P L1 2 "mt_root_hex t2" L2 1] a2 unfolding anchors_def by auto
      have g2: "get_root L2 2 = Some (mt_root_hex t2)" using a2 reg.stored unfolding anchors_def by blast
      have "em_current_epoch_id E4 = 3" using second(2) f3 by (simp add: epoch_closed_def)
      then have g99: "get_root L2 99 = None" using epochs_invD(5) [OF second(3), of 99] by simp
      have "er_block r1 = new_block P ?L0 (ce_seed v1) (new_body ?L0 (ce_timestamp v1) 1 (mt_root_hex t1) (int (mt_size t1)) (JStr genesis_prev_hash))"
        using a1 by (auto simp: anchor_root_ok_iff head_hash_def first_ledger_def)
      moreover have "lg_blocks ?L0 = []" by (simp add: first_ledger_def)
      then have "lg_file L2 = Blocks [er_block r1, er_block r2]"
        using anchored_blocks [OF a1] anchored_blocks [OF a2] by simp
      moreover have "lg_key L2 = fog_key"
        using anchored_blocks(2) [OF a1] anchored_blocks(2) [OF a2] by (simp add: first_ledger_def)
      ultimately have "setup_done P fog_key m1 m2 r1 L2 t1 t2"
        using 1(5,6,8,9) second(5) g1 g2 g99 f1 unfolding setup_done_def by auto
      with run show ?thesis by (rule closed)
    qed
  qed
qed

end
