(* ===== verification/Sample_Keys.thy ===== *)
theory Sample_Keys
  imports Samples
begin

text \<open>
  Nine keys of \<open>toy_platform\<close> with nine different DIDs, for the witness of the tampering script: the first
  word of each digest is evaluated by the kernel.
\<close>

definition digest_head :: "byte \<Rightarrow> u32" where
  "digest_head b = fst (compress initial_state (sample_block_of b))"

lemma sha256_key_head: "hd (sha256 (replicate 33 b)) = ucast (drop_bit 24 (digest_head b))"
  by (cases "compress initial_state (sample_block_of b)" rule: digest_bytes.cases)
    (simp add: sha256_def pad_message_key digest_head_def word_bytes_def)

lemma digest_head_3: "digest_head 3 = 0xc2055e4b"
  unfolding digest_head_def by code_simp

lemma digest_head_4: "digest_head 4 = 0xcf96d76e"
  unfolding digest_head_def by code_simp

lemma digest_head_5: "digest_head 5 = 0x76e5cbc8"
  unfolding digest_head_def by code_simp

lemma digest_head_6: "digest_head 6 = 0xf88acd16"
  unfolding digest_head_def by code_simp

lemma digest_head_7: "digest_head 7 = 0x09028462"
  unfolding digest_head_def by code_simp

lemma digest_head_8: "digest_head 8 = 0x9f19b47f"
  unfolding digest_head_def by code_simp

lemma digest_head_9: "digest_head 9 = 0x3d6f7441"
  unfolding digest_head_def by code_simp

lemma derive_did_head: "derive_did pk = derive_did pk' \<Longrightarrow> hd (sha256 pk) = hd (sha256 pk')"
proof -
  assume eq: "derive_did pk = derive_did pk'"
  obtain h t h' t' where h: "sha256 pk = h # t" "sha256 pk' = h' # t'"
    using length_sha256 by (metis length_0_conv list.exhaust zero_neq_numeral)
  have "take 2 (take 16 (to_hex (sha256 pk))) = take 2 (take 16 (to_hex (sha256 pk')))" using eq by (simp add: derive_did_def)
  then have "hex_byte h @ [] = hex_byte h' @ []" by (simp add: h hex_byte_def)
  then show ?thesis using hexb.prefix_free [of h "[]" h' "[]"] h by simp
qed

lemma digest_head_1: "digest_head 1 = 0xce041765" and digest_head_2: "digest_head 2 = 0x7f2f54ff"
  by (simp_all add: digest_head_def compress_key1 compress_key2)

lemmas digest_heads = digest_head_1 digest_head_2 digest_head_3 digest_head_4 digest_head_5 digest_head_6
  digest_head_7 digest_head_8 digest_head_9

definition nine_keys :: "byte list" where
  "nine_keys = [1, 2, 3, 4, 5, 6, 7, 8, 9]"

lemma nine_dids: "distinct (map (\<lambda>b. derive_did (public_key_bytes toy_platform b)) nine_keys)"
proof -
  have "distinct (map (\<lambda>b. ucast (drop_bit 24 (digest_head b)) :: byte) nine_keys)"
    unfolding nine_keys_def list.map digest_heads by code_simp
  then have "distinct (map (\<lambda>b. hd (sha256 (replicate 33 b))) nine_keys)" by (simp only: sha256_key_head)
  then have "inj_on (\<lambda>b. hd (sha256 (replicate 33 b))) (set nine_keys)" "distinct nine_keys" by (simp_all add: distinct_map)
  moreover have "public_key_bytes toy_platform b = replicate 33 b" for b by (simp add: public_key_bytes_def toy_platform_def)
  ultimately show ?thesis unfolding distinct_map by (auto intro!: inj_onI dest!: derive_did_head dest: inj_onD)
qed

end
