(* ===== verification/Tamper_Detected.thy ===== *)
theory Tamper_Detected
  imports Tamper_Proof Sample_Keys
begin

text \<open>
  attacks/tamper_proof.py detects what it sets out to detect: the rows of the run, for every choice of
  keys and randomness that gives the devices different DIDs, unless SHA-256 collides on two of the
  texts hashed in this very run.
\<close>

section \<open>One presentation\<close>

type_synonym presentation = "string \<times> proof_package res \<times> bool"

definition rejected :: "string \<Rightarrow> string \<Rightarrow> tamper_row" where
  "rejected title by_check = \<lparr>tp_title = title, tp_result = ''REJECTED'', tp_detected_by = by_check, tp_as_expected = True\<rparr>"

definition shown :: "'sk platform \<Rightarrow> 'sk ledger \<Rightarrow> bytes \<Rightarrow> presentation \<Rightarrow> tamper_row \<Rightarrow> bool" where
  "shown P L fog_pk a row \<longleftrightarrow>
     (case a of (title, edited, expect_ok) \<Rightarrow> \<exists>pkg. edited = Inr pkg \<and> present P title pkg L fog_pk None expect_ok = Inr row)"

definition attack_inputs :: "presentation \<Rightarrow> bytes list" where
  "attack_inputs a = (case fst (snd a) of Inl _ \<Rightarrow> [] | Inr pkg \<Rightarrow> presented_inputs pkg)"

lemma present_all_shown: "list_all2 (shown P L fog_pk) as rows \<Longrightarrow> present_all P L fog_pk as = Inr rows"
  by (induction as rows rule: list_all2_induct) (auto simp: shown_def)

lemma shown_rejected:
  assumes "runtime_ok P"
    and "\<exists>v. verify_proof_package P pkg (get_root L (pp_epoch_id pkg)) fog_pk = Inr v \<and> \<not> vr_ok v \<and> vr_detected_by v = by_check"
  shows "shown P L fog_pk (title, Inr pkg, False) (rejected title by_check)"
  using assms by (auto simp: shown_def present_def Let_def parse_dump_package rejected_def)

lemma accepts_verdict:
  "accepts P pkg trusted fog_pk \<Longrightarrow>
     \<exists>v. verify_proof_package P pkg trusted fog_pk = Inr v \<and> vr_ok v \<and> vr_detected_by v = ''all checks passed''"
  by (auto simp: accepts_def verify_proof_package_def Let_def split: sum.splits if_splits option.splits)

lemma shown_accepted:
  assumes "runtime_ok P" "accepts P pkg (get_root L (pp_epoch_id pkg)) fog_pk"
  shows "shown P L fog_pk (title, Inr pkg, True)
    \<lparr>tp_title = title, tp_result = ''ACCEPTED'', tp_detected_by = ''all checks passed'', tp_as_expected = True\<rparr>"
  using accepts_verdict [OF assms(2)] assms(1) by (auto simp: shown_def present_def Let_def parse_dump_package)

text \<open>A package whose identity and path are well formed climbs to the anchored root, or it is rejected for that.\<close>

definition identity_ok :: "proof_package \<Rightarrow> bytes \<Rightarrow> bool" where
  "identity_ok p k \<longleftrightarrow> from_hex (pp_public_key p) = Inr k \<and> length k = compressed_pk_len \<and>
     starts_with ''did:iiot:'' (pp_did p) \<and> pp_leaf p = to_hex (sha256 (leaf_preimage (pp_did p) k)) \<and>
     (\<forall>s\<in>set (pp_proof_path p). step_ok s)"

definition package_climbs :: "proof_package \<Rightarrow> bytes \<Rightarrow> bytes \<Rightarrow> bool" where
  "package_climbs p k r \<longleftrightarrow>
     climb (sha256 (leaf_preimage (pp_did p) k)) (map dump_step (pp_proof_path p)) = Inr (Some r)"

lemma identity_inputs:
  "identity_ok p k \<Longrightarrow> attack_inputs (title, Inr p, e) =
     leaf_preimage (pp_did p) k # climb_inputs (sha256 (leaf_preimage (pp_did p) k)) (map dump_step (pp_proof_path p))"
  by (simp add: identity_ok_def attack_inputs_def presented_inputs_def)

lemma edited_rejected:
  assumes R: "runtime_ok P" and id: "identity_ok p k" and trusted: "get_root L (pp_epoch_id p) = Some (to_hex anchored)"
  shows "shown P L fog_pk (title, Inr p, False) (rejected title ''Merkle verifier'') \<or> package_climbs p k anchored"
proof (rule disjCI)
  assume no: "\<not> package_climbs p k anchored"
  let ?leaf = "sha256 (leaf_preimage (pp_did p) k)"
  have len: "length ?leaf = hash_len" by (simp add: hash_len_def)
  obtain r where r: "climb ?leaf (map dump_step (pp_proof_path p)) = Inr (Some r)"
    using climb_steps_ok [OF _ len, of "pp_proof_path p"] id by (auto simp: identity_ok_def)
  with no have other: "r \<noteq> anchored" by (auto simp: package_climbs_def)
  have leaf: "recompute_leaf p = Inr ?leaf" "pp_leaf p = to_hex ?leaf"
    using id recompute_leaf_key by (simp_all add: identity_ok_def)
  show "shown P L fog_pk (title, Inr p, False) (rejected title ''Merkle verifier'')"
    by (rule shown_rejected [OF R]) (unfold trusted, rule verdict_wrong_root [OF leaf len r other])
qed

section \<open>The genuine package\<close>

text \<open>Of one of four members: its path has two steps, the first of which shows another member's leaf.\<close>

definition genuine_package ::
    "(string \<times> bytes) list \<Rightarrow> merkle_tree \<Rightarrow> string \<Rightarrow> bytes \<Rightarrow> proof_package \<Rightarrow> path_step \<Rightarrow> path_step \<Rightarrow> string \<Rightarrow> bytes \<Rightarrow> bool" where
  "genuine_package ms t d k p s0 s1 d' k' \<longleftrightarrow>
     pp_did p = d \<and> pp_epoch_id p = 1 \<and> identity_ok p k \<and> package_climbs p k (mt_root t) \<and> pp_proof_path p = [s0, s1] \<and>
     (d', k') \<in> set ms \<and> from_hex (ps_sibling s0) = Inr (sha256 (leaf_preimage d' k')) \<and>
     sha256 (leaf_preimage d' k') \<noteq> sha256 (leaf_preimage d k)"

lemma dump_steps_inject: "map dump_step ss = map dump_step ss' \<longleftrightarrow> ss = ss'"
  by (metis parse_dump_steps sum.inject(2))

lemma genuine_package:
  assumes t: "merkle_init (member_leaves ms) True = Inr t" and four: "length ms = 4"
    and mem: "(d, k) \<in> set ms" "length k = compressed_pk_len" "d = derive_did k"
    and p: "package_of P t 1 sk d k p"
  obtains s0 s1 d' k' where "genuine_package ms t d k p s0 s1 d' k'"
proof -
  let ?leaf = "sha256 (leaf_preimage d k)"
  note f = merkle_init_fields [OF t]
  obtain i where i: "i < length (mt_leaves t)" "mt_leaves t ! i = ?leaf"
    "get_proof t (Raw ?leaf) = Inr (proof_steps i (butlast (levels_of (mt_leaves t))))"
    by (rule get_proof_member [OF t in_member_leaves [OF mem(1)]])
  have len: "length (mt_leaves t) = 4" using f(5) four by (metis mset_eq_length member_leaves_simps(1))
  obtain s0 sib0 s1 sib1 where s: "proof_steps i (butlast (levels_of (mt_leaves t))) = map dump_step [s0, s1]"
    "ps_sibling s0 = to_hex sib0" "length sib0 = hash_len" "sib0 \<in> set (mt_leaves t)" "sib0 \<noteq> mt_leaves t ! i"
    "ps_sibling s1 = to_hex sib1" "length sib1 = hash_len"
    by (rule four_leaf_path [OF f(3,2) len]) (use i(1) len in simp)
  have path: "pp_proof_path p = [s0, s1]"
    using p i(3) s(1) by (simp add: package_of_def dump_steps_inject [symmetric])
  obtain d' k' where m: "(d', k') \<in> set ms" "sib0 = sha256 (leaf_preimage d' k')"
    using s(4) f(1) by (auto simp: member_leaves_def member_preimages_def)
  have id: "identity_ok p k"
    using p mem s path by (simp add: identity_ok_def package_of_def step_ok_def)
  have "package_climbs p k (mt_root t)"
    using climb_proof_steps [OF f(3) i(1)] i(2) f(8) s(1) path p by (simp add: package_climbs_def package_of_def del: climb.simps)
  with id path p s m i(2) have "genuine_package ms t d k p s0 s1 d' k'"
    by (simp add: genuine_package_def package_of_def)
  then show thesis by (rule that)
qed

section \<open>The nine edits\<close>

text \<open>What an attack comes to: its row, or a collision among what it, the genuine package and the trees hash.\<close>

definition detected_or_collides ::
    "'sk platform \<Rightarrow> 'sk ledger \<Rightarrow> bytes \<Rightarrow> presentation \<Rightarrow> string \<Rightarrow> bytes list \<Rightarrow> bool" where
  "detected_or_collides P L fog_pk a by_check inputs \<longleftrightarrow>
     shown P L fog_pk a (rejected (fst a) by_check) \<or> collision_among (inputs @ attack_inputs a)"

lemma detected_or_collidesI:
  assumes "runtime_ok P" "identity_ok p k" "get_root L (pp_epoch_id p) = Some (to_hex anchored)"
    and "package_climbs p k anchored \<Longrightarrow> collision_among (inputs @ attack_inputs (title, Inr p, False))"
  shows "detected_or_collides P L fog_pk (title, Inr p, False) ''Merkle verifier'' inputs"
  using edited_rejected [OF assms(1-3)] assms(4) unfolding detected_or_collides_def fst_conv by blast

text \<open>The three changes of identity.\<close>

lemma identity_detected:
  assumes R: "runtime_ok P" and t: "merkle_init (member_leaves ms) True = Inr t" and keys: "keys_ok ms"
    and root: "get_root L (pp_epoch_id p) = Some (to_hex (mt_root t))" and id: "identity_ok p k"
    and foreign: "(pp_did p, k) \<notin> set ms"
  shows "detected_or_collides P L fog_pk (title, Inr p, False) ''Merkle verifier'' (member_preimages ms @ tree_inputs (mt_leaves t))"
proof (rule detected_or_collidesI [OF R id root])
  assume "package_climbs p k (mt_root t)"
  then have "climb (sha256 (leaf_preimage (pp_did p) k)) (map dump_step (pp_proof_path p)) = Inr (Some (mt_root t))"
    by (simp add: package_climbs_def)
  moreover have "length k = compressed_pk_len" using id by (simp add: identity_ok_def)
  ultimately have "collision_among (leaf_preimage (pp_did p) k # climb_inputs (sha256 (leaf_preimage (pp_did p) k))
      (map dump_step (pp_proof_path p)) @ member_preimages ms @ tree_inputs (mt_leaves t))"
    using foreign_identity [OF t keys] foreign by blast
  then show "collision_among ((member_preimages ms @ tree_inputs (mt_leaves t)) @ attack_inputs (title, Inr p, False))"
    unfolding identity_inputs [OF id] by (rule collision_among_mono) auto
qed

lemma starts_with_butlast: "starts_with p s \<Longrightarrow> length p < length s \<Longrightarrow> starts_with p (butlast s @ c)"
  by (auto simp: starts_with_def butlast_conv_take min_def)

lemma modified_did_result:
  assumes "identity_ok p k" "pp_did p = derive_did k"
  obtains p' where "modified_did p = Inr p'" "identity_ok p' k" "pp_epoch_id p' = pp_epoch_id p" "pp_did p' \<noteq> derive_did k"
proof -
  define did where "did = butlast (pp_did p) @ (if last (pp_did p) \<noteq> CHR ''0'' then ''0'' else ''1'')"
  have ne: "pp_did p \<noteq> []" using length_derive_did [of k] assms(2) by auto
  have start: "starts_with ''did:iiot:'' did"
    using assms length_derive_did [of k] unfolding did_def by (intro starts_with_butlast) (simp_all add: identity_ok_def)
  have "last did \<noteq> last (pp_did p)" by (simp add: did_def)
  then have other: "did \<noteq> derive_did k" using assms(2) by metis
  have key: "from_hex (pp_public_key p) = Inr k" "length k = compressed_pk_len" using assms(1) by (simp_all add: identity_ok_def)
  have "modified_did p = Inr (p\<lparr>pp_did := did, pp_leaf := to_hex (sha256 (leaf_preimage did k))\<rparr>)"
    using ne key start unfolding modified_did_def did_def [symmetric] by (simp add: Let_def leaf_hash_def)
  then show thesis by (rule that) (use start assms(1) other in \<open>simp_all add: identity_ok_def\<close>)
qed

lemma with_identity_result:
  assumes "identity_ok p k" "length k' = compressed_pk_len" "starts_with ''did:iiot:'' did"
  obtains p' where "with_identity did k' p = Inr p'" "identity_ok p' k'" "pp_epoch_id p' = pp_epoch_id p" "pp_did p' = did"
proof -
  have "with_identity did k' p =
      Inr (p\<lparr>pp_did := did, pp_public_key := to_hex k', pp_leaf := to_hex (sha256 (leaf_preimage did k'))\<rparr>)"
    using assms(2,3) by (simp add: with_identity_def leaf_hash_def)
  then show thesis by (rule that) (use assms in \<open>simp_all add: identity_ok_def\<close>)
qed

text \<open>The edits of the path.\<close>

lemma first_step_detected:
  assumes R: "runtime_ok P" and g: "genuine_package ms t d k p s0 s1 d' k'"
    and root: "get_root L 1 = Some (to_hex (mt_root t))"
    and s': "from_hex (ps_sibling s') = Inr sib'" "length sib' = hash_len"
    and differ: "side_preimage (ps_side s0) (sha256 (leaf_preimage d' k')) (sha256 (leaf_preimage d k)) \<noteq>
      side_preimage (ps_side s') sib' (sha256 (leaf_preimage d k))"
  shows "detected_or_collides P L fog_pk (title, Inr (p\<lparr>pp_proof_path := [s', s1]\<rparr>), False) ''Merkle verifier'' (presented_inputs p)"
proof -
  let ?p = "p\<lparr>pp_proof_path := [s', s1]\<rparr>" and ?leaf = "sha256 (leaf_preimage d k)"
  have gp: "pp_did p = d" "pp_epoch_id p = 1" "identity_ok p k" "package_climbs p k (mt_root t)" "pp_proof_path p = [s0, s1]"
    "from_hex (ps_sibling s0) = Inr (sha256 (leaf_preimage d' k'))"
    using g by (simp_all add: genuine_package_def)
  have id: "identity_ok ?p k" using gp s' by (auto simp: identity_ok_def step_ok_def)
  have len: "length (sha256 b) = hash_len" for b by (simp add: hash_len_def)
  have s1: "\<forall>s\<in>set [s1]. step_ok s" using gp(3,5) by (simp add: identity_ok_def)
  show ?thesis
  proof (rule detected_or_collidesI [OF R id])
    show "get_root L (pp_epoch_id ?p) = Some (to_hex (mt_root t))" using root gp(2) by simp
    assume "package_climbs ?p k (mt_root t)"
    with gp(1,4,5) have "climb ?leaf (map dump_step (s0 # [s1])) = climb ?leaf (map dump_step (s' # [s1]))"
      unfolding package_climbs_def by simp
    from edited_first_step [OF gp(6) len s' s1 len differ this]
    show "collision_among (presented_inputs p @ attack_inputs (title, Inr ?p, False))"
      using gp(1,3,5) unfolding identity_inputs [OF id]
      by (elim collision_among_mono) (auto simp: presented_inputs_def identity_ok_def simp del: climb_inputs.simps)
  qed
qed

lemma flip_detected:
  assumes R: "runtime_ok P" and g: "genuine_package ms t d k p s0 s1 d' k'"
    and root: "get_root L 1 = Some (to_hex (mt_root t))"
  shows "detected_or_collides P L fog_pk (title, edit_first_step flip_bit p, False) ''Merkle verifier'' (presented_inputs p)"
proof -
  let ?sib = "sha256 (leaf_preimage d' k')"
  have gp: "pp_proof_path p = [s0, s1]" "from_hex (ps_sibling s0) = Inr ?sib"
    using g by (simp_all add: genuine_package_def)
  obtain b bs where sib: "?sib = b # bs" by (metis length_sha256 length_0_conv list.exhaust zero_neq_numeral)
  let ?s = "s0\<lparr>ps_sibling := to_hex ((b XOR 1) # bs)\<rparr>"
  have edit: "edit_first_step flip_bit p = Inr (p\<lparr>pp_proof_path := [?s, s1]\<rparr>)"
    using gp by (simp add: edit_first_step_def flip_bit_def sib del: to_hex_simps)
  have len: "length (sha256 x) = hash_len" for x by (simp add: hash_len_def)
  have len': "length ((b XOR 1) # bs) = hash_len" using len [of "leaf_preimage d' k'"] unfolding sib by simp
  have "b XOR 1 \<noteq> b"
  proof
    assume "b XOR 1 = b"
    then have "b XOR (b XOR 1) = 0" by simp
    then show False by (simp add: xor.assoc [symmetric])
  qed
  then have "?sib \<noteq> (b XOR 1) # bs" unfolding sib by simp
  then have differ: "side_preimage (ps_side s0) ?sib (sha256 (leaf_preimage d k)) \<noteq>
      side_preimage (ps_side ?s) ((b XOR 1) # bs) (sha256 (leaf_preimage d k))"
    using side_preimage_inject [OF len len' len len] by simp
  have "from_hex (ps_sibling ?s) = Inr ((b XOR 1) # bs)" by (simp del: to_hex_simps)
  from first_step_detected [OF R g root this len' differ] show ?thesis unfolding edit .
qed

lemma swap_detected:
  assumes R: "runtime_ok P" and g: "genuine_package ms t d k p s0 s1 d' k'"
    and root: "get_root L 1 = Some (to_hex (mt_root t))"
  shows "detected_or_collides P L fog_pk (title, edit_first_step swap_side p, False) ''Merkle verifier'' (presented_inputs p)"
proof -
  let ?sib = "sha256 (leaf_preimage d' k')" and ?leaf = "sha256 (leaf_preimage d k)"
  let ?s = "s0\<lparr>ps_side := (if ps_side s0 = Side_R then Side_L else Side_R)\<rparr>"
  have gp: "pp_proof_path p = [s0, s1]" "from_hex (ps_sibling s0) = Inr ?sib" "?sib \<noteq> ?leaf"
    using g by (simp_all add: genuine_package_def)
  have edit: "edit_first_step swap_side p = Inr (p\<lparr>pp_proof_path := [?s, s1]\<rparr>)"
    using gp by (simp add: edit_first_step_def swap_side_def)
  have len: "length (sha256 x) = hash_len" for x by (simp add: hash_len_def)
  have differ: "side_preimage (ps_side s0) ?sib ?leaf \<noteq> side_preimage (ps_side ?s) ?sib ?leaf"
  proof -
    have "node_preimage ?sib ?leaf \<noteq> node_preimage ?leaf ?sib"
      using gp(3) unfolding node_preimage_inject [OF len len] by blast
    then show ?thesis by (cases "ps_side s0") (simp_all add: not_sym)
  qed
  have "from_hex (ps_sibling ?s) = Inr ?sib" using gp(2) by simp
  from first_step_detected [OF R g root this len differ] show ?thesis unfolding edit .
qed

lemma shortened_detected:
  assumes R: "runtime_ok P" and g: "genuine_package ms t d k p s0 s1 d' k'"
    and root: "get_root L 1 = Some (to_hex (mt_root t))"
  shows "detected_or_collides P L fog_pk (title, Inr (p\<lparr>pp_proof_path := butlast (pp_proof_path p)\<rparr>), False) ''Merkle verifier''
    (member_preimages ms @ presented_inputs p)"
proof -
  let ?p = "p\<lparr>pp_proof_path := butlast (pp_proof_path p)\<rparr>" and ?leaf = "sha256 (leaf_preimage d k)"
  have gp: "pp_did p = d" "pp_epoch_id p = 1" "identity_ok p k" "package_climbs p k (mt_root t)" "pp_proof_path p = [s0, s1]"
    "(d', k') \<in> set ms" "from_hex (ps_sibling s0) = Inr (sha256 (leaf_preimage d' k'))"
    using g by (simp_all add: genuine_package_def)
  have id: "identity_ok ?p k" using gp(3,5) by (auto simp: identity_ok_def)
  from gp(3,5) obtain sib1 where s1: "from_hex (ps_sibling s1) = Inr sib1" "length sib1 = hash_len"
    by (auto simp: identity_ok_def step_ok_def)
  show ?thesis
  proof (rule detected_or_collidesI [OF R id])
    show "get_root L (pp_epoch_id ?p) = Some (to_hex (mt_root t))" using root gp(2) by simp
    assume "package_climbs ?p k (mt_root t)"
    with gp(1,4,5) have "climb ?leaf (map dump_step [s0]) = climb ?leaf (map dump_step [s0, s1])"
      unfolding package_climbs_def by simp
    from shortened_path [OF gp(7) s1 this]
    show "collision_among ((member_preimages ms @ presented_inputs p) @ attack_inputs (title, Inr ?p, False))"
      using gp(1,3,5) in_member_preimages [OF gp(6)]
      by (elim collision_among_mono) (auto simp: presented_inputs_def identity_ok_def simp del: climb_inputs.simps)
  qed
qed

lemma other_epoch_detected:
  assumes R: "runtime_ok P" and g: "genuine_package ms t d k p s0 s1 d' k'"
    and root: "get_root L e = Some (to_hex (mt_root t'))"
    and t: "merkle_init (member_leaves ms) True = Inr t" and t': "merkle_init (member_leaves ms') True = Inr t'"
    and keys: "keys_ok ms" "keys_ok ms'" and extra: "(x, y) \<in> set ms'" "(x, y) \<notin> set ms"
  shows "detected_or_collides P L fog_pk (title, Inr (p\<lparr>pp_epoch_id := e\<rparr>), False) ''Merkle verifier''
    (member_preimages ms' @ tree_inputs (mt_leaves t') @ member_preimages ms @ tree_inputs (mt_leaves t))"
proof -
  let ?p = "p\<lparr>pp_epoch_id := e\<rparr>"
  have gp: "identity_ok p k" "package_climbs p k (mt_root t)" using g by (simp_all add: genuine_package_def)
  have id: "identity_ok ?p k" using gp(1) by (simp add: identity_ok_def)
  show ?thesis
  proof (rule detected_or_collidesI [OF R id])
    show "get_root L (pp_epoch_id ?p) = Some (to_hex (mt_root t'))" using root by simp
    assume "package_climbs ?p k (mt_root t')"
    with gp(2) have "mt_root t' = mt_root t" unfolding package_climbs_def by simp
    moreover have "keys_ok (ms' @ ms)" using keys by auto
    then have "\<forall>(d, k)\<in>set ms' \<union> set ms. length k = compressed_pk_len" by simp
    ultimately have "collision_among (member_preimages ms' @ tree_inputs (mt_leaves t') @ member_preimages ms @ tree_inputs (mt_leaves t))"
      using same_root_other_members [OF t' t _ _ extra] by blast
    then show "collision_among ((member_preimages ms' @ tree_inputs (mt_leaves t') @ member_preimages ms @ tree_inputs (mt_leaves t)) @
        attack_inputs (title, Inr ?p, False))"
      by (rule collision_among_mono) auto
  qed
qed

text \<open>The swapped leaf field and the epoch that does not exist are rejected without any excuse.\<close>

lemma swapped_leaf_shown:
  assumes R: "runtime_ok P" and id: "identity_ok p k" and leaf: "pp_leaf c \<noteq> pp_leaf p"
  shows "shown P L fog_pk (title, Inr (p\<lparr>pp_leaf := pp_leaf c\<rparr>), False) (rejected title ''identity check'')"
proof -
  have "recompute_leaf (p\<lparr>pp_leaf := pp_leaf c\<rparr>) = Inr (sha256 (leaf_preimage (pp_did p) k))"
    using id recompute_leaf_key [of "p\<lparr>pp_leaf := pp_leaf c\<rparr>" k] by (simp add: identity_ok_def)
  from verdict_wrong_leaf [OF this] leaf id show ?thesis
    by (intro shown_rejected [OF R]) (simp add: identity_ok_def)
qed

lemma unknown_epoch_shown:
  assumes R: "runtime_ok P" and id: "identity_ok p k" and none: "get_root L e = None"
  shows "shown P L fog_pk (title, Inr (p\<lparr>pp_epoch_id := e\<rparr>), False) (rejected title ''root registry'')"
proof -
  have "recompute_leaf (p\<lparr>pp_epoch_id := e\<rparr>) = Inr (sha256 (leaf_preimage (pp_did p) k))"
    using id recompute_leaf_key [of "p\<lparr>pp_epoch_id := e\<rparr>" k] by (simp add: identity_ok_def)
  from verdict_no_root [OF this] none id show ?thesis
    by (intro shown_rejected [OF R]) (simp add: identity_ok_def)
qed

section \<open>After anchoring\<close>

definition forge :: "string \<Rightarrow> bytes \<Rightarrow> (string \<times> bytes) list \<Rightarrow> (string \<times> bytes) list" where
  "forge did forged_pk ms = map (\<lambda>(d, k). if d = did then (did, forged_pk) else (d, k)) ms"

lemma tampered_leaves_forge:
  assumes "starts_with ''did:iiot:'' did" "length forged_pk = compressed_pk_len" "view_of ms view"
  shows "tampered_leaves did forged_pk view = Inr (member_leaves (forge did forged_pk ms))"
  using assms(3)
proof (induction view arbitrary: ms)
  case Nil
  then show ?case by (simp add: view_of_def forge_def)
next
  case (Cons item view)
  obtain i l d0 where item: "item = (i, l, d0)" by (metis surj_pair)
  with Cons.prems obtain d k ms' where ms: "ms = (d, k) # ms'" "l = to_hex (sha256 (leaf_preimage d k))" "d0 = d" "view_of ms' view"
    by (auto simp: view_of_def map_eq_Cons_conv)
  from Cons.IH [OF ms(4)] ms item assms(1,2) show ?case by (simp add: forge_def leaf_hash_def)
qed

lemma forge_simps:
  "mset ms = mset ms' \<Longrightarrow> mset (forge d k ms) = mset (forge d k ms')"
  "map fst (forge d k ms) = map fst ms" "(forge d k ms = []) = (ms = [])"
  by (auto simp: forge_def case_prod_unfold comp_def)

lemma commit_tamper_detected:
  assumes t: "merkle_init (member_leaves ms) True = Inr t" and keys: "keys_ok ms" and dist: "distinct (map fst ms)"
    and root: "get_root L 1 = Some (mt_root_hex t)" and view: "mset ms' = mset ms" "view_of ms' (er_sorted_leaves e1)"
    and did: "(did, k) \<in> set ms" "starts_with ''did:iiot:'' did" and forged: "length forged_pk = compressed_pk_len" "forged_pk \<noteq> k"
  shows "commit_tamper did forged_pk e1 L = Inr (rejected ''9. camera01 key changed after anchoring'' ''root comparison'') \<or>
    collision_among (member_preimages ms @ tree_inputs (mt_leaves t) @ member_preimages (forge did forged_pk ms) @
      tree_inputs (sort (member_leaves (forge did forged_pk ms))))"
proof -
  let ?f = "forge did forged_pk ms"
  let ?inputs = "member_preimages ms @ tree_inputs (mt_leaves t) @ member_preimages ?f @ tree_inputs (sort (member_leaves ?f))"
  note leaves = tampered_leaves_forge [OF did(2) forged(1) view(2)]
  have fkeys: "keys_ok ?f" using keys forged(1) by (auto simp: forge_def split: if_splits)
  have fdist: "distinct ?f" using dist forge_simps(2) [of did forged_pk ms] by (metis distinct_map)
  have same: "compute_root (member_leaves (forge did forged_pk ms')) = compute_root (member_leaves ?f)"
    by (simp add: compute_root_def merkle_init_sorted_perm [OF mset_member_leaves [OF forge_simps(1) [OF view(1)]]])
  from member_leaves_distinct [OF fdist fkeys] show ?thesis
  proof
    assume "collision_among (member_preimages ?f)"
    then have "collision_among ?inputs" by (rule collision_among_mono) auto
    then show ?thesis ..
  next
    assume "distinct (member_leaves ?f)"
    moreover have "?f \<noteq> []" using did(1) by (auto simp: forge_simps)
    ultimately have wf: "well_formed_leaves (member_leaves ?f)" using member_leaves_well_formed by blast
    then obtain tf where tf: "merkle_init (member_leaves ?f) True = Inr tf" "mt_leaves tf = sort (member_leaves ?f)"
      unfolding merkle_init_ok_iff by (auto simp: Let_def)
    show ?thesis
    proof (cases "mt_root tf = mt_root t")
      case False
      have "compute_root (member_leaves (forge did forged_pk ms')) = Inr (mt_root tf)"
        unfolding same by (simp add: compute_root_def tf(1))
      with False have "commit_tamper did forged_pk e1 L = Inr (rejected ''9. camera01 key changed after anchoring'' ''root comparison'')"
        using root by (simp add: commit_tamper_def leaves mt_root_hex_def rejected_def Let_def)
      then show ?thesis ..
    next
      case True
      have "(did, k) \<notin> set ?f" using forged(2) by (auto simp: forge_def split: if_splits)
      moreover have "\<forall>(d, k)\<in>set ms \<union> set ?f. length k = compressed_pk_len" using keys fkeys by blast
      ultimately have "collision_among ?inputs"
        using same_root_other_members [OF t tf(1) _ True [symmetric] did(1)] unfolding tf(2) by blast
      then show ?thesis ..
    qed
  qed
qed

text \<open>The texts of the first block that the check of the edited file hashes, before and after the edit.\<close>

definition block_inputs :: "'sk platform \<Rightarrow> registry_file \<Rightarrow> bytes list" where
  "block_inputs P f =
     (case f of
        Blocks (b # bs) \<Rightarrow> [hashed_text P b, hashed_text P (dict_set ''root'' (JStr all_ff) b)]
      | _ \<Rightarrow> [])"

lemma edited_block:
  fixes P L n ts e r c prev
  defines "b \<equiv> new_block P L n (new_body L ts e r c prev)" and "body' \<equiv> new_body L ts e all_ff c prev"
    and "s \<equiv> JStr (to_hex (sign P (lg_key L) n (cjson P (JObj (new_body L ts e r c prev)))))"
  shows "body_of (dict_set ''root'' (JStr all_ff) b) = Inr body'"
    "hashed_text P (dict_set ''root'' (JStr all_ff) b) = block_text P body' s"
    "hashed_text P b = block_text P (new_body L ts e r c prev) s"
    "dict_get (dict_set ''root'' (JStr all_ff) b) ''block_hash'' = Some (JStr (to_hex (sha256 (hashed_text P b))))"
    "dict_get (dict_set ''root'' (JStr all_ff) b) ''signature'' = Some s"
proof -
  show body: "body_of (dict_set ''root'' (JStr all_ff) b) = Inr body'"
    by (simp add: body_of_def body_fields_def b_def body'_def new_block_def new_body_def Let_def)
  show sig: "dict_get (dict_set ''root'' (JStr all_ff) b) ''signature'' = Some s"
    by (simp add: b_def s_def new_block_get dict_simps)
  show whole: "hashed_text P b = block_text P (new_body L ts e r c prev) s"
    by (simp add: hashed_text_def b_def body_of_new_block new_block_get s_def)
  show "hashed_text P (dict_set ''root'' (JStr all_ff) b) = block_text P body' s"
    by (simp add: hashed_text_def body sig)
  show "dict_get (dict_set ''root'' (JStr all_ff) b) ''block_hash'' = Some (JStr (to_hex (sha256 (hashed_text P b))))"
    unfolding whole by (simp add: b_def new_block_get block_hash_def s_def dict_simps)
qed

lemma check_block_wrong_hash:
  "body_of b = Inr body \<Longrightarrow> dict_get b ''block_index'' = Some (JInt (int i)) \<Longrightarrow> dict_get b ''prev_hash'' = Some prev \<Longrightarrow>
     block_signature b = Inr (s, sig) \<Longrightarrow> dict_get b ''block_hash'' = Some h \<Longrightarrow> JStr (block_hash P body s) \<noteq> h \<Longrightarrow>
     \<exists>v. check_block P pk i prev b = Inr (Inl v) \<and> \<not> verdict_ok v"
  by (auto simp: check_block_def verdict_ok_def)

lemma ledger_tamper_detected:
  assumes P: "float_repr_ok (float_repr P)"
    and disk: "lg_file L = Blocks (new_block P L0 n (new_body L0 ts 1 r c prev) # bs)" and empty: "lg_blocks L0 = []"
    and prev: "prev = JStr genesis_prev_hash" and root: "r \<noteq> all_ff"
  shows "ledger_tamper P L = Inr (rejected ''10. anchored root edited in ledger file'' ''ledger verify_chain'') \<or>
    collision_among (block_inputs P (lg_file L))"
proof (rule disjCI)
  let ?b = "new_block P L0 n (new_body L0 ts 1 r c prev)" and ?body = "new_body L0 ts 1 r c prev"
  let ?b' = "dict_set ''root'' (JStr all_ff) ?b" and ?body' = "new_body L0 ts 1 all_ff c prev"
  let ?s = "JStr (to_hex (sign P (lg_key L0) n (cjson P (JObj ?body))))"
  note e = edited_block [where P = P and L = L0 and n = n and ts = ts and e = 1 and r = r and c = c and prev = prev]
  assume no: "\<not> collision_among (block_inputs P (lg_file L))"
  have inputs: "block_inputs P (lg_file L) = [hashed_text P ?b, hashed_text P ?b']" by (simp add: disk block_inputs_def)
  have "hashed_text P ?b \<noteq> hashed_text P ?b'"
  proof
    assume "hashed_text P ?b = hashed_text P ?b'"
    then have "block_text P ?body ?s = block_text P ?body' ?s" by (simp add: e(2,3))
    moreover have sig: "dict_get ?b ''signature'' = Some ?s" by (simp add: new_block_get)
    ultimately have "same_contents ?b ?b'"
      using hashed_text_inject [OF P body_of_new_block sig e(1) e(5)] by blast
    then have "map_option sort_keys (dict_get ?b ''root'') = map_option sort_keys (dict_get ?b' ''root'')"
      by (simp add: same_contents_def body_fields_def)
    then show False using root by (simp add: new_block_get dict_simps)
  qed
  with no have differ: "sha256 (hashed_text P ?b) \<noteq> sha256 (hashed_text P ?b')"
    unfolding inputs by (auto simp: collision_among_def collides_def)
  obtain sig where sig: "block_signature ?b' = Inr (?s, sig)" by (simp add: block_signature_def e(5))
  have hash: "JStr (block_hash P ?body' ?s) \<noteq> JStr (to_hex (sha256 (hashed_text P ?b)))"
    using differ by (simp add: block_hash_def e(2))
  have idx: "dict_get ?b' ''block_index'' = Some (JInt (int 0))" "dict_get ?b' ''prev_hash'' = Some (JStr genesis_prev_hash)"
    by (simp_all add: dict_simps new_block_get empty prev)
  obtain v where v: "check_block P (public_key_bytes P (lg_key L)) 0 (JStr genesis_prev_hash) ?b' = Inr (Inl v)" "\<not> verdict_ok v"
    using check_block_wrong_hash [OF e(1) idx sig e(4) hash, of "public_key_bytes P (lg_key L)"] by blast
  have "check_blocks P (public_key_bytes P (lg_key L)) 0 (JStr genesis_prev_hash) (?b' # bs) = Inr v"
    unfolding check_blocks.simps(2) v(1) by simp
  then have "verify_chain P None (L\<lparr>lg_file := Blocks (?b' # bs)\<rparr>) = Inr v" by (simp add: verify_chain_def del: check_blocks.simps)
  with v(2) show "ledger_tamper P L = Inr (rejected ''10. anchored root edited in ledger file'' ''ledger verify_chain'')"
    unfolding ledger_tamper_def disk edited_file_def registry_file.case list.case sum.case
    by (simp add: rejected_def)
qed

section \<open>The whole run\<close>

text \<open>
  What the run hashes with SHA-256 besides the DIDs and messages to be signed: the leaves and inner nodes
  of the two trees and of the tree rebuilt with the forged key, what the verifier recomputes for each
  package shown to it, and the first block of the registry file before and after the edit.
\<close>

definition hashed_by_script ::
    "'sk platform \<Rightarrow> (string \<Rightarrow> time) \<Rightarrow> close_env \<Rightarrow> close_env \<Rightarrow> 'sk \<Rightarrow> (string \<Rightarrow> 'sk) \<Rightarrow> 'sk \<Rightarrow> 'sk \<Rightarrow> bytes list" where
  "hashed_by_script P clock v1 v2 fog_key keys evil_key forged_key =
     (let m1 = identities P keys first_devices; m2 = m1 @ identities P keys second_devices;
          mf = forge (fst (new_identity P (keys ''camera01''))) (snd (new_identity P forged_key)) m1;
          trees = concat (map (\<lambda>ms. member_preimages ms @ tree_inputs (sort (member_leaves ms))) [m1, m2, mf])
      in trees @
         (case tamper_setup P clock v1 v2 fog_key keys of
            Inl _ \<Rightarrow> []
          | Inr (e1, e2, ledger) \<Rightarrow>
              let package = (\<lambda>name. the (dict_get (er_packages e1) (fst (new_identity P (keys name)))))
              in concat (map attack_inputs
                   (presentations (package ''temp01'') (Inr (package ''camera01'')) (new_identity P evil_key))) @
                 block_inputs P (lg_file ledger)))"

definition tamper_rows :: "tamper_row list" where
  "tamper_rows =
     [\<lparr>tp_title = ''0. unmodified proof package'', tp_result = ''ACCEPTED'', tp_detected_by = ''all checks passed'', tp_as_expected = True\<rparr>,
      rejected ''1. modified DID (leaf recomputed to match)'' ''Merkle verifier'',
      rejected (''2. temp01'' @ [CHR 0x27] @ ''s DID with the attacker'' @ [CHR 0x27] @ ''s public key'') ''Merkle verifier'',
      rejected (''3. attacker'' @ [CHR 0x27] @ ''s own DID+PK with temp01'' @ [CHR 0x27] @ ''s proof path'') ''Merkle verifier'',
      rejected (''3b. only the leaf field swapped for camera01'' @ [CHR 0x27] @ ''s leaf'') ''identity check'',
      rejected ''4. one bit flipped in sibling hash 0'' ''Merkle verifier'',
      rejected ''5. left/right order of sibling 0 swapped'' ''Merkle verifier'',
      rejected ''6. last sibling removed from the path'' ''Merkle verifier'',
      rejected ''7. epoch 1 proof presented as epoch 2 (wrong root)'' ''Merkle verifier'',
      rejected ''8. claims an epoch that was never anchored'' ''root registry'']"

lemma shown_unless_collision:
  assumes "detected_or_collides P L fog_pk (title, edited, e) c inputs" "\<not> collision_among H"
    and "set inputs \<subseteq> set H" "set (attack_inputs (title, edited, e)) \<subseteq> set H"
  shows "shown P L fog_pk (title, edited, e) (rejected title c)"
  using assms collision_among_mono [of "inputs @ attack_inputs (title, edited, e)" H]
  unfolding detected_or_collides_def fst_conv by auto

lemma presentations_shown:
  assumes R: "runtime_ok P" and t: "merkle_init (member_leaves m1) True = Inr t1" and t2: "merkle_init (member_leaves m2) True = Inr t2"
    and keys: "keys_ok m1" "keys_ok m2" and derived: "\<forall>(d, k)\<in>set m1. d = derive_did k"
    and roots: "get_root L 1 = Some (mt_root_hex t1)" "get_root L 2 = Some (mt_root_hex t2)" "get_root L 99 = None"
    and g: "genuine_package m1 t1 d k p s0 s1 d' k'" and mem: "(d, k) \<in> set m1"
    and acc: "accepts P p (Some (mt_root_hex t1)) fog_pk"
    and camera: "pp_leaf c \<noteq> pp_leaf p" and extra: "(x, y) \<in> set m2" "(x, y) \<notin> set m1"
    and evil: "evil = new_identity P evil_key" "ecdsa_ok P" "fst evil \<notin> fst ` set m1"
    and no: "\<not> collision_among H"
    and H: "set (member_preimages m1) \<subseteq> set H" "set (tree_inputs (mt_leaves t1)) \<subseteq> set H"
      "set (member_preimages m2) \<subseteq> set H" "set (tree_inputs (mt_leaves t2)) \<subseteq> set H"
      "set (concat (map attack_inputs (presentations p (Inr c) evil))) \<subseteq> set H"
  shows "list_all2 (shown P L fog_pk) (presentations p (Inr c) evil) tamper_rows"
proof -
  note root1 = roots(1) [unfolded mt_root_hex_def] and root2 = roots(2) [unfolded mt_root_hex_def]
  have gp: "pp_did p = d" "pp_epoch_id p = 1" "identity_ok p k" using g by (simp_all add: genuine_package_def)
  have did: "pp_did p = derive_did k" using derived mem gp(1) by auto
  have evil_key: "length (snd evil) = compressed_pk_len" "fst evil = derive_did (snd evil)"
    using evil(1,2) by (simp_all add: length_public_key)
  have starts: "starts_with ''did:iiot:'' (fst evil)" "starts_with ''did:iiot:'' d"
    using evil_key(2) did gp(1) by simp_all
  have inputs: "set (attack_inputs a) \<subseteq> set H" if "a \<in> set (presentations p (Inr c) evil)" for a
    using that H(5) by auto
  have gen: "set (presented_inputs p) \<subseteq> set H"
    using inputs [of "(''0. unmodified proof package'', Inr p, True)"] by (simp add: presentations_def attack_inputs_def)
  have foreign: "(d'', k'') \<notin> set m1" if "d'' \<noteq> derive_did k''" for d'' k'' using derived that by auto
  have id_shown: "shown P L fog_pk (title, Inr q, False) (rejected title ''Merkle verifier'')"
    if "identity_ok q kq" "(pp_did q, kq) \<notin> set m1" "pp_epoch_id q = 1" "(title, Inr q, False) \<in> set (presentations p (Inr c) evil)"
    for q kq title
  proof (rule shown_unless_collision [OF _ no _ inputs [OF that(4)]])
    show "detected_or_collides P L fog_pk (title, Inr q, False) ''Merkle verifier'' (member_preimages m1 @ tree_inputs (mt_leaves t1))"
      using identity_detected [OF R t keys(1) _ that(1,2)] root1 that(3) by simp
  qed (use H in auto)
  obtain q1 where q1: "modified_did p = Inr q1" "identity_ok q1 k" "pp_epoch_id q1 = 1" "(pp_did q1, k) \<notin> set m1"
    by (rule modified_did_result [OF gp(3) did]) (use gp(2) foreign in auto)
  have "d \<noteq> derive_did (snd evil)" using evil(3) evil_key(2) mem by force
  then obtain q2 where q2: "with_identity (pp_did p) (snd evil) p = Inr q2" "identity_ok q2 (snd evil)" "pp_epoch_id q2 = 1"
    "(pp_did q2, snd evil) \<notin> set m1"
    using with_identity_result [OF gp(3) evil_key(1) starts(2)] gp(1,2) foreign by metis
  obtain q3 where q3: "with_identity (fst evil) (snd evil) p = Inr q3" "identity_ok q3 (snd evil)" "pp_epoch_id q3 = 1"
    "(pp_did q3, snd evil) \<notin> set m1"
    using with_identity_result [OF gp(3) evil_key(1) starts(1)] gp(2) evil(3) by (metis fst_conv image_eqI)
  note path = shown_unless_collision [OF _ no _ inputs]
  note all = presentations_def
  have mem7: "set (member_preimages m2 @ tree_inputs (mt_leaves t2) @ member_preimages m1 @ tree_inputs (mt_leaves t1)) \<subseteq> set H"
    and mem6: "set (member_preimages m1 @ presented_inputs p) \<subseteq> set H" using H gen by auto
  show ?thesis
    unfolding presentations_def tamper_rows_def list_all2_Cons list_all2_Nil
  proof (intro conjI)
    show "shown P L fog_pk (''0. unmodified proof package'', Inr p, True)
        \<lparr>tp_title = ''0. unmodified proof package'', tp_result = ''ACCEPTED'', tp_detected_by = ''all checks passed'', tp_as_expected = True\<rparr>"
      using acc roots(1) gp(2) by (intro shown_accepted [OF R]) simp
    show "shown P L fog_pk (''1. modified DID (leaf recomputed to match)'', modified_did p, False) (rejected ''1. modified DID (leaf recomputed to match)'' ''Merkle verifier'')"
      unfolding q1(1) by (rule id_shown [OF q1(2,4,3)]) (simp add: all q1(1))
    show "shown P L fog_pk (''2. temp01'' @ [CHR 0x27] @ ''s DID with the attacker'' @ [CHR 0x27] @ ''s public key'', with_identity (pp_did p) (snd evil) p, False) (rejected (''2. temp01'' @ [CHR 0x27] @ ''s DID with the attacker'' @ [CHR 0x27] @ ''s public key'') ''Merkle verifier'')"
      unfolding q2(1) by (rule id_shown [OF q2(2,4,3)]) (simp add: all q2(1))
    show "shown P L fog_pk (''3. attacker'' @ [CHR 0x27] @ ''s own DID+PK with temp01'' @ [CHR 0x27] @ ''s proof path'', with_identity (fst evil) (snd evil) p, False) (rejected (''3. attacker'' @ [CHR 0x27] @ ''s own DID+PK with temp01'' @ [CHR 0x27] @ ''s proof path'') ''Merkle verifier'')"
      unfolding q3(1) by (rule id_shown [OF q3(2,4,3)]) (simp add: all q3(1))
    show "shown P L fog_pk (''3b. only the leaf field swapped for camera01'' @ [CHR 0x27] @ ''s leaf'', case Inr c of Inl e \<Rightarrow> Inl e | Inr c \<Rightarrow> Inr (p\<lparr>pp_leaf := pp_leaf c\<rparr>), False)
        (rejected (''3b. only the leaf field swapped for camera01'' @ [CHR 0x27] @ ''s leaf'') ''identity check'')"
      unfolding sum.case by (rule swapped_leaf_shown [OF R gp(3) camera])
    show "shown P L fog_pk (''4. one bit flipped in sibling hash 0'', edit_first_step flip_bit p, False) (rejected ''4. one bit flipped in sibling hash 0'' ''Merkle verifier'')"
      by (rule path [OF flip_detected [OF R g root1] gen]) (simp add: all)
    show "shown P L fog_pk (''5. left/right order of sibling 0 swapped'', edit_first_step swap_side p, False) (rejected ''5. left/right order of sibling 0 swapped'' ''Merkle verifier'')"
      by (rule path [OF swap_detected [OF R g root1] gen]) (simp add: all)
    show "shown P L fog_pk (''6. last sibling removed from the path'', Inr (p\<lparr>pp_proof_path := butlast (pp_proof_path p)\<rparr>), False) (rejected ''6. last sibling removed from the path'' ''Merkle verifier'')"
      by (rule path [OF shortened_detected [OF R g root1] mem6]) (simp add: all)
    show "shown P L fog_pk (''7. epoch 1 proof presented as epoch 2 (wrong root)'', Inr (p\<lparr>pp_epoch_id := 2\<rparr>), False) (rejected ''7. epoch 1 proof presented as epoch 2 (wrong root)'' ''Merkle verifier'')"
      by (rule path [OF other_epoch_detected [OF R g root2 t t2 keys extra] mem7]) (simp add: all)
    show "shown P L fog_pk (''8. claims an epoch that was never anchored'', Inr (p\<lparr>pp_epoch_id := 99\<rparr>), False) (rejected ''8. claims an epoch that was never anchored'' ''root registry'')"
      by (rule unknown_epoch_shown [OF R gp(3) roots(3)])
  qed simp_all
qed

lemma distinct_leaves_differ:
  assumes "merkle_init (member_leaves ms) True = Inr t" "x \<in> set ms" "y \<in> set ms" "fst x \<noteq> fst y"
  shows "sha256 (leaf_preimage (fst x) (snd x)) \<noteq> sha256 (leaf_preimage (fst y) (snd y))"
proof -
  have "distinct (map (\<lambda>p. sha256 (leaf_preimage (fst p) (snd p))) ms)"
    using assms(1) unfolding merkle_init_ok_iff
    by (simp add: well_formed_leaves_def member_leaves_def member_preimages_def comp_def case_prod_unfold)
  then have "inj_on (\<lambda>p. sha256 (leaf_preimage (fst p) (snd p))) (set ms)" by (simp add: distinct_map)
  with assms(2-4) show ?thesis by (metis (no_types, lifting) inj_onD)
qed

text \<open>The keys of the run give everybody another DID.\<close>

definition distinct_dids :: "'sk platform \<Rightarrow> (string \<Rightarrow> 'sk) \<Rightarrow> 'sk \<Rightarrow> 'sk \<Rightarrow> bool" where
  "distinct_dids P keys evil_key forged_key \<longleftrightarrow>
     distinct (map (\<lambda>key. derive_did (public_key_bytes P key)) (map keys (first_devices @ second_devices) @ [evil_key, forged_key]))"

lemma distinct_didsD:
  fixes P keys
  defines "m1 \<equiv> identities P keys first_devices" and "m2 \<equiv> identities P keys second_devices"
    and "ident \<equiv> \<lambda>name. new_identity P (keys name)"
  assumes P: "ecdsa_ok P" and dd: "distinct_dids P keys evil_key forged_key"
  shows "distinct (map fst (m1 @ m2))" "keys_ok m1" "keys_ok (m1 @ m2)" "\<forall>(d, k)\<in>set m1. d = derive_did k"
    "ident ''temp01'' \<in> set m1" "ident ''camera01'' \<in> set m1" "fst (ident ''temp01'') \<noteq> fst (ident ''camera01'')"
    "ident ''motor01'' \<in> set (m1 @ m2)" "ident ''motor01'' \<notin> set m1"
    "fst (new_identity P evil_key) \<notin> fst ` set m1"
    "snd (new_identity P forged_key) \<noteq> snd (ident ''camera01'')"
    "length (snd (new_identity P forged_key)) = compressed_pk_len"
proof -
  have fst_ids: "map fst (identities P keys names) = map (\<lambda>key. derive_did (public_key_bytes P key)) (map keys names)" for names
    by (simp add: identities_def)
  show dist: "distinct (map fst (m1 @ m2))" using dd by (simp add: distinct_dids_def m1_def m2_def fst_ids)
  show "keys_ok m1" "keys_ok (m1 @ m2)"
    using keys_ok_identities [OF P, of keys first_devices] keys_ok_identities [OF P, of keys second_devices]
    by (auto simp: m1_def m2_def)
  show "\<forall>(d, k)\<in>set m1. d = derive_did k" by (auto simp: m1_def identities_def new_identity_def Let_def)
  show "ident ''temp01'' \<in> set m1" "ident ''camera01'' \<in> set m1"
    by (simp_all add: m1_def ident_def in_identities first_devices_def)
  have motor: "ident ''motor01'' \<in> set m2" by (simp add: m2_def ident_def in_identities second_devices_def)
  then show "ident ''motor01'' \<in> set (m1 @ m2)" by simp
  show "ident ''motor01'' \<notin> set m1"
    using motor dist by auto
  show "fst (ident ''temp01'') \<noteq> fst (ident ''camera01'')" "fst (new_identity P evil_key) \<notin> fst ` set m1"
    "snd (new_identity P forged_key) \<noteq> snd (ident ''camera01'')"
    using dd by (auto simp: distinct_dids_def m1_def ident_def identities_def first_devices_def second_devices_def)
  show "length (snd (new_identity P forged_key)) = compressed_pk_len" using P by (simp add: length_public_key)
qed

text \<open>The rows, one part of the script at a time.\<close>

lemma rows_presented:
  fixes P keys
  defines "m1 \<equiv> identities P keys first_devices" and "m2 \<equiv> identities P keys second_devices"
    and "temp \<equiv> new_identity P (keys ''temp01'')" and "camera \<equiv> new_identity P (keys ''camera01'')"
  assumes P: "ecdsa_ok P" and R: "runtime_ok P" and dd: "distinct_dids P keys evil_key forged_key"
    and ready: "setup_done P fog_key m1 m2 e1 L t1 t2"
    and p: "package_of P t1 1 fog_key (fst temp) (snd temp) p" and cam: "package_of P t1 1 fog_key (fst camera) (snd camera) cam"
    and no: "\<not> collision_among H"
    and H: "set (member_preimages m1) \<subseteq> set H" "set (tree_inputs (mt_leaves t1)) \<subseteq> set H"
      "set (member_preimages (m1 @ m2)) \<subseteq> set H" "set (tree_inputs (mt_leaves t2)) \<subseteq> set H"
      "set (concat (map attack_inputs (presentations p (Inr cam) (new_identity P evil_key)))) \<subseteq> set H"
  shows "present_all P L (public_key_bytes P fog_key) (presentations p (Inr cam) (new_identity P evil_key)) = Inr tamper_rows"
proof -
  note id = distinct_didsD [OF P dd, folded m1_def m2_def temp_def camera_def]
  from ready have t: "merkle_init (member_leaves m1) True = Inr t1" "merkle_init (member_leaves (m1 @ m2)) True = Inr t2"
    "get_root L 1 = Some (mt_root_hex t1)" "get_root L 2 = Some (mt_root_hex t2)" "get_root L 99 = None"
    by (simp_all add: setup_done_def)
  have mem: "(fst temp, snd temp) \<in> set m1" using id(5) by simp
  obtain s0 s1 d' k' where g: "genuine_package m1 t1 (fst temp) (snd temp) p s0 s1 d' k'"
    by (rule genuine_package [OF t(1) _ mem _ _ p])
      (use P in \<open>simp_all add: m1_def temp_def identities_def first_devices_def length_public_key\<close>)
  let ?motor = "new_identity P (keys ''motor01'')"
  have motor: "(fst ?motor, snd ?motor) \<in> set (m1 @ m2)" "(fst ?motor, snd ?motor) \<notin> set m1"
    using id(8,9) unfolding prod.collapse by blast+
  show ?thesis
  proof (rule present_all_shown,
      rule presentations_shown [OF R t(1,2) id(2,3,4) t(3-5) g mem _ _ motor refl P id(10) no H])
    show "accepts P p (Some (mt_root_hex t1)) (public_key_bytes P fog_key)" using p by (simp add: package_of_def)
    show "pp_leaf cam \<noteq> pp_leaf p"
      using p cam distinct_leaves_differ [OF t(1) id(5,6,7)] by (simp add: package_of_def)
  qed
qed

lemma row_committed:
  fixes P keys
  defines "m1 \<equiv> identities P keys first_devices" and "m2 \<equiv> identities P keys second_devices"
    and "camera \<equiv> new_identity P (keys ''camera01'')"
  assumes P: "ecdsa_ok P" and dd: "distinct_dids P keys evil_key forged_key"
    and ready: "setup_done P fog_key m1 m2 e1 L t1 t2"
  shows "commit_tamper (fst camera) (snd (new_identity P forged_key)) e1 L =
      Inr (rejected ''9. camera01 key changed after anchoring'' ''root comparison'') \<or>
    collision_among (member_preimages m1 @ tree_inputs (mt_leaves t1) @
      member_preimages (forge (fst camera) (snd (new_identity P forged_key)) m1) @
      tree_inputs (sort (member_leaves (forge (fst camera) (snd (new_identity P forged_key)) m1))))"
proof -
  note id = distinct_didsD [OF P dd, folded m1_def m2_def camera_def]
  from ready obtain ms' where view: "mset ms' = mset m1" "view_of ms' (er_sorted_leaves e1)"
    by (auto simp: setup_done_def)
  from ready have t: "merkle_init (member_leaves m1) True = Inr t1" "get_root L 1 = Some (mt_root_hex t1)"
    by (simp_all add: setup_done_def)
  have "distinct (map fst m1)" using id(1) by simp
  moreover have "(fst camera, snd camera) \<in> set m1" using id(6) by simp
  moreover have "starts_with ''did:iiot:'' (fst camera)" by (simp add: camera_def)
  ultimately show ?thesis using commit_tamper_detected [OF t(1) id(2) _ t(2) view _ _ id(12,11)] by blast
qed

lemma row_ledger:
  assumes "float_repr_ok (float_repr P)" and ready: "setup_done P fog_key m1 m2 e1 L t1 t2" and "er_root e1 \<noteq> all_ff"
  shows "ledger_tamper P L = Inr (rejected ''10. anchored root edited in ledger file'' ''ledger verify_chain'') \<or>
    collision_among (block_inputs P (lg_file L))"
proof -
  from ready obtain ts n c bs where "lg_file L = Blocks (new_block P (first_ledger fog_key) n
      (new_body (first_ledger fog_key) ts 1 (er_root e1) c (JStr genesis_prev_hash)) # bs)" by (auto simp: setup_done_def)
  moreover have "lg_blocks (first_ledger fog_key) = []" by (simp add: first_ledger_def)
  ultimately show ?thesis using ledger_tamper_detected [OF assms(1) _ _ refl assms(3)] by blast
qed

text \<open>What the run hashes includes all of it.\<close>

lemma hashed_inputs:
  fixes P keys forged_key evil_key clock v1 v2 fog_key
  defines "m1 \<equiv> identities P keys first_devices" and "m2 \<equiv> identities P keys second_devices"
    and "f \<equiv> forge (fst (new_identity P (keys ''camera01''))) (snd (new_identity P forged_key)) (identities P keys first_devices)"
    and "H \<equiv> hashed_by_script P clock v1 v2 fog_key keys evil_key forged_key"
  assumes run: "tamper_setup P clock v1 v2 fog_key keys = Inr (e1, e2, L)"
    and t: "merkle_init (member_leaves m1) True = Inr t1" "merkle_init (member_leaves (m1 @ m2)) True = Inr t2"
    and p: "dict_get (er_packages e1) (fst (new_identity P (keys ''temp01''))) = Some p"
    and cam: "dict_get (er_packages e1) (fst (new_identity P (keys ''camera01''))) = Some cam"
  shows "set (member_preimages m1) \<subseteq> set H" "set (tree_inputs (mt_leaves t1)) \<subseteq> set H"
    "set (member_preimages (m1 @ m2)) \<subseteq> set H" "set (tree_inputs (mt_leaves t2)) \<subseteq> set H"
    "set (concat (map attack_inputs (presentations p (Inr cam) (new_identity P evil_key)))) \<subseteq> set H"
    "set (member_preimages f) \<subseteq> set H" "set (tree_inputs (sort (member_leaves f))) \<subseteq> set H"
    "set (block_inputs P (lg_file L)) \<subseteq> set H"
proof -
  have leaves: "mt_leaves t1 = sort (member_leaves m1)" "mt_leaves t2 = sort (member_leaves (m1 @ m2))"
    using t unfolding merkle_init_ok_iff by (simp_all add: Let_def)
  show "set (member_preimages m1) \<subseteq> set H" "set (tree_inputs (mt_leaves t1)) \<subseteq> set H"
    "set (member_preimages (m1 @ m2)) \<subseteq> set H" "set (tree_inputs (mt_leaves t2)) \<subseteq> set H"
    "set (concat (map attack_inputs (presentations p (Inr cam) (new_identity P evil_key)))) \<subseteq> set H"
    "set (member_preimages f) \<subseteq> set H" "set (tree_inputs (sort (member_leaves f))) \<subseteq> set H"
    "set (block_inputs P (lg_file L)) \<subseteq> set H"
    unfolding leaves by (auto simp: H_def hashed_by_script_def m1_def m2_def f_def Let_def run p cam simp del: new_identity_simps)
qed

lemma run_detected:
  fixes P keys
  defines "m1 \<equiv> identities P keys first_devices" and "m2 \<equiv> identities P keys second_devices"
  assumes P: "platform_ok P" and R: "runtime_ok P" and dd: "distinct_dids P keys evil_key forged_key"
    and run: "tamper_setup P clock v1 v2 fog_key keys = Inr (e1, e2, L)" and ready: "setup_done P fog_key m1 m2 e1 L t1 t2"
    and no: "\<not> collision_among (hashed_by_script P clock v1 v2 fog_key keys evil_key forged_key)" and root: "er_root e1 \<noteq> all_ff"
  shows "tamper_main P clock v1 v2 fog_key keys evil_key forged_key = Inr (tamper_rows @
      [rejected ''9. camera01 key changed after anchoring'' ''root comparison'',
       rejected ''10. anchored root edited in ledger file'' ''ledger verify_chain''], True)"
proof -
  have E: "ecdsa_ok P" "float_repr_ok (float_repr P)" using P by (simp_all add: platform_ok_def)
  note id = distinct_didsD [OF E(1) dd, folded m1_def m2_def]
  have t: "merkle_init (member_leaves m1) True = Inr t1" "merkle_init (member_leaves (m1 @ m2)) True = Inr t2"
    and pkgs: "\<forall>(d, k)\<in>set m1. \<exists>pkg. dict_get (er_packages e1) d = Some pkg \<and> package_of P t1 1 fog_key d k pkg"
    using ready by (simp_all add: setup_done_def)
  let ?temp = "new_identity P (keys ''temp01'')" and ?camera = "new_identity P (keys ''camera01'')"
  obtain p where p: "dict_get (er_packages e1) (fst ?temp) = Some p" "package_of P t1 1 fog_key (fst ?temp) (snd ?temp) p"
    using bspec [OF pkgs id(5)] unfolding case_prod_unfold by blast
  obtain cam where cam: "dict_get (er_packages e1) (fst ?camera) = Some cam" "package_of P t1 1 fog_key (fst ?camera) (snd ?camera) cam"
    using bspec [OF pkgs id(6)] unfolding case_prod_unfold by blast
  note H = hashed_inputs [where forged_key = forged_key and evil_key = evil_key,
      OF run t [unfolded m1_def m2_def] p(1) cam(1), folded m1_def m2_def]
  have rows: "present_all P L (public_key_bytes P fog_key) (presentations p (Inr cam) (new_identity P evil_key)) = Inr tamper_rows"
    using rows_presented [OF E(1) R dd ready [unfolded m1_def m2_def] p(2) cam(2) no H(1-5) [unfolded m1_def m2_def]] .
  have row9: "commit_tamper (fst ?camera) (snd (new_identity P forged_key)) e1 L =
      Inr (rejected ''9. camera01 key changed after anchoring'' ''root comparison'')"
    using row_committed [OF E(1) dd ready [unfolded m1_def m2_def], folded m1_def]
    by (rule disjE) (assumption, rule notE [OF no], erule collision_among_mono, use H in \<open>simp del: new_identity_simps\<close>)
  have row10: "ledger_tamper P L = Inr (rejected ''10. anchored root edited in ledger file'' ''ledger verify_chain'')"
    using row_ledger [OF E(2) ready root] no collision_among_mono [OF _ H(8)] by blast
  have "list_all tp_as_expected tamper_rows" by (simp add: tamper_rows_def rejected_def)
  with rows row9 row10 p(1) cam(1) run show ?thesis
    by (simp add: tamper_main_def Let_def rejected_def del: new_identity_simps)
qed

section \<open>Properties\<close>

text \<open>
  C14: the attack script always ends with every tampering detected, by the check that the script names,
  and with the genuine package accepted: whatever keys are drawn, as long as the seven devices, the
  attacker and the forged key have different DIDs, whatever the clock says and whatever the randomness of
  the signatures is. The excuses are explicit: two of the very texts that this run hashes collide under
  SHA-256, or the honest root already is the value that the attacker writes into the file.
\<close>

theorem tampering_detected:
  assumes "platform_ok P" and "runtime_ok P" and "distinct_dids P keys evil_key forged_key"
  shows "tamper_main P clock v1 v2 fog_key keys evil_key forged_key = Inr (tamper_rows @
      [rejected ''9. camera01 key changed after anchoring'' ''root comparison'',
       rejected ''10. anchored root edited in ledger file'' ''ledger verify_chain''], True) \<or>
    collision_among (hashed_by_script P clock v1 v2 fog_key keys evil_key forged_key) \<or>
    (\<exists>e1 e2 L. tamper_setup P clock v1 v2 fog_key keys = Inr (e1, e2, L) \<and> er_root e1 = all_ff)"
proof -
  have P: "ecdsa_ok P" using assms(1) by (simp add: platform_ok_def)
  show ?thesis
  proof (cases rule: setup_outcome [OF P distinct_didsD(1) [OF P assms(3)], of clock v1 v2 fog_key])
    case 2
    have "collision_among (hashed_by_script P clock v1 v2 fog_key keys evil_key forged_key)"
      using 2(2) by (rule collision_among_mono) (auto simp: hashed_by_script_def Let_def)
    then show ?thesis by blast
  next
    case (1 e1 e2 L t1 t2)
    from run_detected [OF assms 1] 1(1) show ?thesis by blast
  qed
qed

definition script_keys :: "string \<Rightarrow> byte" where
  "script_keys name = the (dict_get (zip (first_devices @ second_devices) nine_keys) name)"

definition script_close :: close_env where
  "script_close = \<lparr>ce_timestamp = ''2026-01-01T00:00:00+00:00'', ce_seed = 0, ce_leaf_seed = (\<lambda>_. 0)\<rparr>"

lemma script_keys_nine: "map script_keys (first_devices @ second_devices) @ [8, 9] = nine_keys"
  by (simp add: script_keys_def first_devices_def second_devices_def nine_keys_def)

theorem tampering_detected_witness:
  "tamper_main toy_platform (\<lambda>_. 0) script_close script_close 7 script_keys 8 9 = Inr (tamper_rows @
      [rejected ''9. camera01 key changed after anchoring'' ''root comparison'',
       rejected ''10. anchored root edited in ledger file'' ''ledger verify_chain''], True) \<or>
    collision_among (hashed_by_script toy_platform (\<lambda>_. 0) script_close script_close 7 script_keys 8 9) \<or>
    (\<exists>e1 e2 L. tamper_setup toy_platform (\<lambda>_. 0) script_close script_close 7 script_keys = Inr (e1, e2, L) \<and> er_root e1 = all_ff)"
proof (rule tampering_detected [OF toy_platform_ok toy_runtime_ok])
  show "distinct_dids toy_platform script_keys 8 9"
    unfolding distinct_dids_def script_keys_nine by (rule nine_dids)
qed

end
