(* ===== verification/Build_Loop.thy ===== *)
theory Build_Loop
  imports Merkle "HOL-Library.While_Combinator"
begin

text \<open>
  \<open>MerkleTree._build\<close> as it is written: a \<open>while\<close> loop that appends levels, around a \<open>for\<close> loop over every
  second index. \<open>while_option\<close> answers \<open>None\<close> exactly when the loop does not end.
  Lemmas: the loop over indices computes the next level, also when a hash raises; the \<open>while\<close> loop always
  ends, and with what the recursive \<open>build\<close> of Merkle answers; the number of hashes it computes.
\<close>

section \<open>The loops\<close>

definition range_step2 :: "nat \<Rightarrow> nat list" where
  "range_step2 n = map (\<lambda>k. 2 * k) [0..<(n + 1) div 2]"

fun pass_loop :: "bytes list \<Rightarrow> nat list \<Rightarrow> bytes list \<Rightarrow> bytes list res" where
  "pass_loop current [] nxt = Inr nxt"
| "pass_loop current (i # is) nxt =
     (if i + 1 < length current then
        (case node_hash (current ! i) (current ! (i + 1)) of
           Inl e \<Rightarrow> Inl e
         | Inr h \<Rightarrow> pass_loop current is (nxt @ [h]))
      else pass_loop current is (nxt @ [current ! i]))"

type_synonym build_state = "(bytes list list \<times> bytes list) res"

definition build_guard :: "build_state \<Rightarrow> bool" where
  "build_guard s = (case s of Inl _ \<Rightarrow> False | Inr (levels, current) \<Rightarrow> length current > 1)"

definition build_body :: "build_state \<Rightarrow> build_state" where
  "build_body s =
     (case s of
        Inl e \<Rightarrow> Inl e
      | Inr (levels, current) \<Rightarrow>
          (case pass_loop current (range_step2 (length current)) [] of
             Inl e \<Rightarrow> Inl e
           | Inr nxt \<Rightarrow> Inr (levels @ [nxt], nxt)))"

definition build_while :: "bytes list \<Rightarrow> bytes list list res option" where
  "build_while leaves =
     map_option (\<lambda>s. case s of Inl e \<Rightarrow> Inl e | Inr (levels, current) \<Rightarrow> Inr levels)
       (while_option build_guard build_body (Inr ([leaves], leaves)))"

section \<open>One pass\<close>

lemma range_step2_shift: "map ((+) n) (range_step2 (Suc (Suc m))) = n # map ((+) (n + 2)) (range_step2 m)"
proof -
  have "[0..<(Suc (Suc m) + 1) div 2] = 0 # map Suc [0..<(m + 1) div 2]"
    by (simp add: upt_conv_Cons map_Suc_upt del: upt_Suc)
  then show ?thesis by (simp add: range_step2_def comp_def)
qed

lemma pass_loop_next_level:
  "pass_loop (before @ current) (map ((+) (length before)) (range_step2 (length current))) nxt =
     (case next_level current of Inl e \<Rightarrow> Inl e | Inr hs \<Rightarrow> Inr (nxt @ hs))"
proof (induction current arbitrary: before nxt rule: next_level.induct)
  case 1
  then show ?case by (simp add: range_step2_def)
next
  case (2 x)
  then show ?case by (simp add: range_step2_def)
next
  case (3 x y xs)
  have split: "map ((+) (length before)) (range_step2 (length (x # y # xs))) =
      length before # map ((+) (length (before @ [x, y]))) (range_step2 (length xs))"
    using range_step2_shift [of "length before" "length xs"] by simp
  have at: "(before @ x # y # xs) ! length before = x" "(before @ x # y # xs) ! (length before + 1) = y"
    by (simp_all add: nth_append)
  show ?case
  proof (cases "node_hash x y")
    case (Inl e)
    then show ?thesis unfolding split by (simp add: at [simplified])
  next
    case (Inr h)
    from 3 [OF Inr, of "before @ [x, y]" "nxt @ [h]"]
    have "pass_loop (before @ x # y # xs) (map ((+) (length (before @ [x, y]))) (range_step2 (length xs))) (nxt @ [h]) =
        (case next_level xs of Inl e \<Rightarrow> Inl e | Inr hs \<Rightarrow> Inr ((nxt @ [h]) @ hs))" by (simp only: append_assoc append_Cons append_Nil)
    then show ?thesis unfolding split by (simp only: pass_loop.simps at Inr next_level.simps) (auto split: sum.split)
  qed
qed

lemma pass_is_next_level: "pass_loop current (range_step2 (length current)) [] = next_level current"
proof -
  have "map ((+) 0) (range_step2 (length current)) = range_step2 (length current)" by (simp add: map_idI)
  with pass_loop_next_level [of "[]" current "[]"] show ?thesis by (simp split: sum.split_asm sum.split)
qed

section \<open>The \<open>while\<close> loop\<close>

lemma build_nonempty: "build current = Inr ls \<Longrightarrow> ls \<noteq> []"
  by (auto simp: build.simps [of current] split: if_splits sum.splits)

lemma build_while_from:
  "while_option build_guard build_body (Inr (levels @ [current], current)) =
     Some (case build current of Inl e \<Rightarrow> Inl e | Inr ls \<Rightarrow> Inr (levels @ ls, last ls))"
proof (induction "length current" arbitrary: levels current rule: less_induct)
  case less
  show ?case
  proof (cases "length current > 1")
    case False
    then show ?thesis by (subst while_option_unfold) (simp add: build_guard_def build.simps)
  next
    case True
    note step = while_option_unfold [of build_guard build_body "Inr (levels @ [current], current)"]
    show ?thesis
    proof (cases "next_level current")
      case (Inl e)
      have "while_option build_guard build_body (Inl e) = Some (Inl e :: build_state)"
        by (subst while_option_unfold) (simp add: build_guard_def)
      with Inl True show ?thesis
        by (subst step) (simp add: build_guard_def build_body_def pass_is_next_level build.simps [of current])
    next
      case (Inr nxt)
      have "length nxt < length current" using next_level_length [OF Inr] True by simp
      from less [OF this, of "levels @ [current]"] Inr True show ?thesis
        by (subst step) (auto simp: build_guard_def build_body_def pass_is_next_level build.simps [of current]
            split: sum.split dest: build_nonempty)
    qed
  qed
qed

text \<open>What the loop hashes: one call per pair of every level but the last.\<close>

definition hash_calls :: "bytes list list \<Rightarrow> nat" where
  "hash_calls levels = (\<Sum>level\<leftarrow>butlast levels. length level div 2)"

lemma hash_calls_levels:
  assumes "xs \<noteq> []"
  shows "hash_calls (levels_of xs) = length xs - 1"
  using assms
proof (induction xs rule: levels_of.induct)
  case (1 xs)
  show ?case
  proof (cases "length xs > 1")
    case False
    then show ?thesis using 1(2) by (simp add: levels_of_small hash_calls_def)
  next
    case True
    with 1 have "hash_calls (levels_of (pairs xs)) = (length xs + 1) div 2 - 1" by (simp add: length_pairs)
    with True show ?thesis by (simp add: levels_of_large hash_calls_def)
  qed
qed

section \<open>Properties\<close>

text \<open>
  C33: the loop that builds the tree always ends. For every list of byte strings, also of the wrong length,
  so that a hash raises in the middle, the \<open>while\<close> loop over the \<open>for\<close> loop stops and gives what the
  recursive \<open>build\<close> gives; and for \<open>n\<close> leaves of 32 bytes it does not raise and computes exactly \<open>n - 1\<close> hashes.
\<close>

theorem build_loop_terminates:
  assumes "hashes leaves" and "leaves \<noteq> []"
  shows "build_while xs = Some (build xs) \<and>
    (\<exists>levels. build_while leaves = Some (Inr levels) \<and> hash_calls levels = length leaves - 1)"
proof -
  have "build_while ls = Some (build ls)" for ls
    using build_while_from [of "[]" ls] by (simp add: build_while_def split: sum.split)
  with assms show ?thesis by (auto simp: build_levels hash_calls_levels)
qed

theorem build_loop_terminates_witness:
  "\<exists>levels. build_while [sha256 [1], sha256 [2], sha256 [3]] = Some (Inr levels) \<and> hash_calls levels = 2"
proof -
  have "hashes [sha256 [1], sha256 [2], sha256 [3]]" by (simp add: hash_len_def)
  from build_loop_terminates [OF this, of "[]"] show ?thesis by (simp add: numeral_2_eq_2)
qed

end
