(* ===== verification/Typed_Records.thy ===== *)
theory Typed_Records
  imports System
begin

text \<open>
  The types of the device records. The code declares most fields of \<open>DeviceRecord\<close> as optional strings; in the
  states the node can be in they hold more: the metadata are absent together or were all accepted by
  \<open>validate_metadata\<close>, and each status comes with the fields it needs. \<open>typed_store\<close> adds what the open batch
  needs, and is kept by every step.
\<close>

section \<open>Well-typed records\<close>

definition described :: "string \<Rightarrow> string set \<Rightarrow> device_record \<Rightarrow> bool" where
  "described zone types rec \<longleftrightarrow>
     (\<exists>name t v r. dr_device_name rec = Some name \<and> name_matches name \<and> dr_device_type rec = Some t \<and> t \<in> types \<and>
        dr_zone rec = Some zone \<and> dr_vendor rec = Some v \<and> v \<in> allowed_vendors \<and> dr_role rec = Some r \<and> r \<in> allowed_roles)"

definition undescribed :: "device_record \<Rightarrow> bool" where
  "undescribed rec \<longleftrightarrow> dr_device_name rec = None \<and> dr_device_type rec = None \<and> dr_zone rec = None \<and>
     dr_vendor rec = None \<and> dr_role rec = None \<and> dr_leaf rec = None"

text \<open>\<open>open_epoch\<close> is the epoch that is open.\<close>

definition well_typed :: "string \<Rightarrow> string set \<Rightarrow> int \<Rightarrow> device_record \<Rightarrow> bool" where
  "well_typed zone types open_epoch rec \<longleftrightarrow>
     (described zone types rec \<or> undescribed rec) \<and>
     (dr_status rec = TOKENIZED \<longrightarrow> described zone types rec \<and> role_valid_for_type (dr_device_type rec) (dr_role rec)) \<and>
     (dr_status rec = REGISTERED \<longrightarrow> described zone types rec \<and> dr_leaf rec \<noteq> None \<and> dr_epoch_id rec \<noteq> None) \<and>
     (\<forall>e. dr_epoch_id rec = Some e \<longrightarrow> e < open_epoch)"

definition typed_store :: "string \<Rightarrow> string set \<Rightarrow> int \<Rightarrow> device_store \<Rightarrow> string set \<Rightarrow> bool" where
  "typed_store zone types open_epoch D queue \<longleftrightarrow>
     (\<forall>did rec. dict_get D did = Some rec \<longrightarrow> well_typed zone types open_epoch rec) \<and>
     (\<forall>did\<in>queue. \<exists>rec. dict_get D did = Some rec \<and> described zone types rec)"

definition typed_node :: "'sk fog \<Rightarrow> bool" where
  "typed_node c \<longleftrightarrow>
     typed_store (fg_zone c) (fg_allowed_types c) (em_current_epoch_id (fg_epochs c)) (fg_devices c) (queued c)"

lemma typed_storeD:
  assumes "typed_store z ty ep D Q"
  shows "dict_get D did = Some rec \<Longrightarrow> well_typed z ty ep rec"
    "did \<in> Q \<Longrightarrow> \<exists>rec. dict_get D did = Some rec \<and> described z ty rec"
  using assms unfolding typed_store_def by blast+

lemma typed_upsert:
  assumes "typed_store z ty ep D Q" "well_typed z ty ep d" "dr_did d \<in> Q \<Longrightarrow> described z ty d"
  shows "typed_store z ty ep (device_upsert d D) Q"
  using assms unfolding typed_store_def device_upsert_def by (auto simp: dict_simps)

lemma described_status [simp]: "described z ty (rec\<lparr>dr_status := s\<rparr>) = described z ty rec"
  by (simp add: described_def)

lemma typed_status:
  assumes "typed_store z ty ep D Q" "\<And>rec. dict_get D did = Some rec \<Longrightarrow> well_typed z ty ep (rec\<lparr>dr_status := s\<rparr>)"
  shows "typed_store z ty ep (set_status did s D) Q"
proof (cases "dict_get D did")
  case None
  with assms(1) show ?thesis by (simp add: set_status_def)
next
  case (Some rec)
  with assms typed_storeD(2) [OF assms(1), of did] show ?thesis
    unfolding typed_store_def set_status_def by (auto simp: dict_simps)
qed

lemma typed_enqueue:
  assumes "typed_store z ty ep D Q" "dict_get D did = Some rec" "described z ty rec"
  shows "typed_store z ty ep D (insert did Q)"
  using assms unfolding typed_store_def by blast

lemma well_typed_new: "well_typed z ty ep (new_device did hex PENDING)"
  by (simp add: well_typed_def undescribed_def new_device_def)

lemma well_typed_revoked: "well_typed z ty ep rec \<Longrightarrow> well_typed z ty ep (rec\<lparr>dr_status := REVOKED\<rparr>)"
  by (auto simp: well_typed_def undescribed_def)

lemma well_typed_tokenized:
  assumes "well_typed z ty ep rec" "role_valid_for_type (dr_device_type rec) (dr_role rec)"
  shows "well_typed z ty ep (rec\<lparr>dr_status := TOKENIZED\<rparr>)"
proof -
  have "\<not> undescribed rec" using assms(2) by (auto simp: role_valid_for_type_def undescribed_def)
  with assms show ?thesis by (auto simp: well_typed_def undescribed_def)
qed

lemma described_with_metadata:
  "validate_metadata body z ty = [] \<Longrightarrow> described z ty (with_metadata body rec)"
  by (simp add: validate_metadata_ok_iff described_def with_metadata_def)

lemma described_leaf [simp]: "described z ty (rec\<lparr>dr_leaf := l\<rparr>) = described z ty rec"
  by (simp add: described_def)

lemma well_typed_described:
  assumes "well_typed z ty ep rec" "described z ty rec'" "dr_status rec' = dr_status rec" "dr_epoch_id rec' = dr_epoch_id rec"
    "dr_status rec \<in> {PENDING, REVOKED}"
  shows "well_typed z ty ep rec'"
  using assms by (auto simp: well_typed_def)

lemma well_typed_with_metadata:
  assumes "validate_metadata body z ty = []" "well_typed z ty ep rec" "dr_status rec \<in> {PENDING, REVOKED}"
  shows "well_typed z ty ep (with_metadata body rec)" "well_typed z ty ep ((with_metadata body rec)\<lparr>dr_leaf := l\<rparr>)"
  using well_typed_described [OF assms(2) _ _ _ assms(3)] described_with_metadata [OF assms(1), of rec]
  by (simp_all add: with_metadata_def)

section \<open>Closing an epoch\<close>

lemma typed_closed:
  assumes typed: "typed_store z ty (em_current_epoch_id E) D (dict_dom (em_pending E))"
    and fin: "epoch_closed P ms E D L r E' D' L'" "dict_dom ms = next_members ex E D"
  shows "typed_store z ty (em_current_epoch_id E') D' (dict_dom (em_pending E'))"
proof -
  have D': "dict_get D' k = (case dict_get (er_packages r) k of None \<Rightarrow> dict_get D k
      | Some pkg \<Rightarrow> map_option (\<lambda>rec. rec\<lparr>dr_status := REGISTERED, dr_leaf := Some (pp_leaf pkg),
                      dr_epoch_id := Some (em_current_epoch_id E)\<rparr>) (dict_get D k))" for k
    using fin(1) unfolding epoch_closed_def by (elim conjE) simp
  have E': "em_pending E' = []" "em_current_epoch_id E' = em_current_epoch_id E + 1"
    using fin(1) by (simp_all add: epoch_closed_def)
  have dom: "dict_dom (er_packages r) = next_members ex E D" using fin by (simp add: epoch_closed_def)
  have "well_typed z ty (em_current_epoch_id E + 1) rec'" if rec': "dict_get D' did = Some rec'" for did rec'
  proof (cases "dict_get (er_packages r) did")
    case None
    with D' rec' have "dict_get D did = Some rec'" by simp
    with typed_storeD(1) [OF typed this] show ?thesis by (force simp: well_typed_def)
  next
    case (Some pkg)
    with D' rec' obtain rec where rec: "dict_get D did = Some rec"
      "rec' = rec\<lparr>dr_status := REGISTERED, dr_leaf := Some (pp_leaf pkg), dr_epoch_id := Some (em_current_epoch_id E)\<rparr>" by auto
    have "did \<in> next_members ex E D" using Some dom dict_dom_iff by (metis option.distinct(1))
    then have "did \<in> dict_dom (em_pending E) \<or> dr_status rec = REGISTERED"
      using rec(1) by (auto simp: next_members_def dict_dom_iff)
    then have "described z ty rec"
      using typed_storeD(2) [OF typed, of did] typed_storeD(1) [OF typed rec(1)] rec(1) by (auto simp: well_typed_def)
    then show ?thesis by (auto simp: rec(2) well_typed_def described_def)
  qed
  then show ?thesis by (simp add: typed_store_def E')
qed

lemma typed_finalize:
  assumes P: "ecdsa_ok P" and inv: "fog_inv P c" and typed: "typed_node c"
    and fin: "finalize_epoch P ts n rnd ex (fg_epochs c) (fg_devices c) (fg_ledger c) = (res, E, D, L)"
  shows "typed_store (fg_zone c) (fg_allowed_types c) (em_current_epoch_id E) D (dict_dom (em_pending E))"
proof -
  note e = epochs_invD [OF fog_invD(2) [OF inv]]
  have typed': "typed_store (fg_zone c) (fg_allowed_types c) (em_current_epoch_id (fg_epochs c)) (fg_devices c) (dict_dom (em_pending (fg_epochs c)))"
    using typed by (simp add: typed_node_def queued_def)
  show ?thesis
  proof (cases rule: finalize_epoch_cases [OF P e(1) e(5) [OF order.refl] e(2), of ex ts n rnd])
    case (2 pl r E' D' L')
    with typed_closed [OF typed' 2(5,3)] fin show ?thesis by simp
  qed (use fin typed' in auto)
qed

section \<open>Every step\<close>

lemma typed_nodeI:
  assumes "fg_zone c' = fg_zone c" "fg_allowed_types c' = fg_allowed_types c"
    "em_current_epoch_id (fg_epochs c') = em_current_epoch_id (fg_epochs c)"
    "typed_store (fg_zone c) (fg_allowed_types c) (em_current_epoch_id (fg_epochs c)) (fg_devices c') (queued c')"
  shows "typed_node c'"
  using assms by (simp add: typed_node_def)

lemma typed_same:
  assumes "typed_node c" "fg_devices c' = fg_devices c" "fg_epochs c' = fg_epochs c" "config_of c' = config_of c"
  shows "typed_node c'"
  using assms by (simp add: typed_node_def queued_def config_of_def)

lemma typed_config:
  assumes "config_of c' = config_of c" "fg_epochs c' = fg_epochs c"
    "typed_store (fg_zone c) (fg_allowed_types c) (em_current_epoch_id (fg_epochs c)) (fg_devices c') (queued c)"
  shows "typed_node c'"
  using assms by (simp add: typed_node_def queued_def config_of_def)

lemma register_pop_typed:
  assumes inv: "fog_inv P c" and typed: "typed_node c" and h: "register_pop P now k sg c = (r, c')"
  shows "typed_node c'"
proof (cases "session_or_404 (now 0) k c")
  case (Pair x c1)
  have conf: "config_of c' = config_of c"
    using h handle_config [of P "\<lparr>ev_now = now, ev_rnd = [], ev_seed = 0, ev_leaf_seed = \<lambda>_. 0, ev_timestamp = [], ev_timings = JNull\<rparr>" "Register_pop k sg" c r c'] by simp
  from inv Pair show ?thesis
  proof (cases rule: session_or_404_cases)
    case 1
    have same: "fg_devices c1 = fg_devices c" "fg_epochs c1 = fg_epochs c"
      using Pair by (auto simp: session_or_404_def split: prod.splits option.splits)
    from 1 Pair h have "c' = c1" by (auto simp: register_pop_def)
    with typed_same [OF typed same] conf show ?thesis by simp
  next
    case (2 s)
    show ?thesis
    proof (cases "ss_state s = KEY_SUBMITTED")
      case True
      with sessions_invD(1) [OF fog_invD(1) [OF inv] 2(3)] have no: "the (ss_did s) \<notin> dict_dom (fg_devices c)"
        by (simp add: session_ok_def onboarding_iff)
      obtain res s' where pop: "verify_pop P (now 1) sg s = (res, s')" by fastforce
      have did: "ss_did s' = ss_did s" using verify_pop_session [OF pop] by auto
      note T = typed [unfolded typed_node_def]
      have new: "typed_store (fg_zone c) (fg_allowed_types c) (em_current_epoch_id (fg_epochs c))
          (device_upsert (new_device did hex PENDING) (fg_devices c)) (queued c)" if "ss_did s = Some did" for did hex
      proof (rule typed_upsert [OF T well_typed_new])
        assume "dr_did (new_device did hex PENDING) \<in> queued c"
        with typed_storeD(2) [OF T] no that show "described (fg_zone c) (fg_allowed_types c) (new_device did hex PENDING)"
          by (force simp: new_device_def dict_dom_iff)
      qed
      have "fg_epochs c' = fg_epochs c" "fg_devices c' = fg_devices c \<or>
          (\<exists>did hex. ss_did s = Some did \<and> fg_devices c' = device_upsert (new_device did hex PENDING) (fg_devices c))"
        using h 2 Pair True pop did
        by (auto simp: register_pop_def require_state_def Let_def split: sum.splits prod.splits bool.splits option.splits)
      then show ?thesis using typed_config [OF conf] new T by metis
    qed (use h 2 Pair typed in \<open>auto simp: register_pop_def require_state_def\<close>)
  qed
qed

lemma add_leaf_queue:
  assumes "add_leaf now did pk E = (r, E')"
  shows "em_current_epoch_id E' = em_current_epoch_id E \<and>
    (dict_dom (em_pending E') = dict_dom (em_pending E) \<or> dict_dom (em_pending E') = insert did (dict_dom (em_pending E)))"
  using assms by (auto simp: add_leaf_def Let_def split: if_splits sum.splits)

lemma metadata_typed:
  assumes inv: "fog_inv P c" and typed: "typed_node c" and s: "dict_get (st_sessions (fg_sessions c)) k = Some s"
    and st: "ss_state s = POP_VERIFIED" and ok: "validate_metadata body (fg_zone c) (fg_allowed_types c) = []"
    and rec: "dict_get (fg_devices c) (the (ss_did s)) = Some rec"
    and E: "dict_dom (em_pending E) = queued c \<or> dict_dom (em_pending E) = insert (the (ss_did s)) (queued c)"
  shows "typed_store (fg_zone c) (fg_allowed_types c) (em_current_epoch_id (fg_epochs c))
      (device_upsert (with_metadata body rec) (fg_devices c)) (dict_dom (em_pending E))"
    and "typed_store (fg_zone c) (fg_allowed_types c) (em_current_epoch_id (fg_epochs c))
      (device_upsert ((with_metadata body rec)\<lparr>dr_leaf := l\<rparr>) (device_upsert (with_metadata body rec) (fg_devices c)))
      (dict_dom (em_pending E))"
proof -
  let ?T = "typed_store (fg_zone c) (fg_allowed_types c) (em_current_epoch_id (fg_epochs c))"
  let ?r1 = "with_metadata body rec" and ?r2 = "(with_metadata body rec)\<lparr>dr_leaf := l\<rparr>"
  note T = typed [unfolded typed_node_def]
  from sessions_invD(1) [OF fog_invD(1) [OF inv] s] st rec have status: "dr_status rec \<in> {PENDING, REVOKED}"
    by (auto simp: session_ok_def own_record_def)
  note wt = well_typed_with_metadata [OF ok typed_storeD(1) [OF T rec] status]
  have d: "described (fg_zone c) (fg_allowed_types c) ?r1" using described_with_metadata [OF ok] .
  have did: "dr_did ?r1 = the (ss_did s)" "dr_did ?r2 = the (ss_did s)"
    using devices_ok_get [OF fog_invD(6) [OF inv] rec] by (simp_all add: with_metadata_def)
  have one: "?T (device_upsert ?r1 (fg_devices c)) (queued c)" by (rule typed_upsert [OF T wt(1)]) (rule d)
  have get1: "dict_get (device_upsert ?r1 (fg_devices c)) (the (ss_did s)) = Some ?r1"
    by (simp add: device_upsert_def dict_simps did)
  show two: "?T (device_upsert ?r1 (fg_devices c)) (dict_dom (em_pending E))"
    using E one typed_enqueue [OF one get1 d] by auto
  show "?T (device_upsert ?r2 (device_upsert ?r1 (fg_devices c))) (dict_dom (em_pending E))"
    by (rule typed_upsert [OF two wt(2)]) (simp add: d)
qed

lemma register_metadata_typed:
  assumes inv: "fog_inv P c" and typed: "typed_node c" and h: "register_metadata now body c = (r, c')"
  shows "typed_node c'"
proof (cases "session_or_404 (now 0) (md_session_id body) c")
  case (Pair x c1)
  have conf: "config_of c' = config_of c"
    using h handle_config [of undefined "\<lparr>ev_now = now, ev_rnd = [], ev_seed = 0, ev_leaf_seed = \<lambda>_. 0, ev_timestamp = [], ev_timings = JNull\<rparr>" "Register_metadata body" c r c'] by simp
  from inv Pair show ?thesis
  proof (cases rule: session_or_404_cases)
    case 1
    have same: "fg_devices c1 = fg_devices c" "fg_epochs c1 = fg_epochs c"
      using Pair by (auto simp: session_or_404_def split: prod.splits option.splits)
    from 1 Pair h have "c' = c1" by (auto simp: register_metadata_def)
    with typed_same [OF typed same] conf show ?thesis by simp
  next
    case (2 s)
    show ?thesis
    proof (cases "ss_state s = POP_VERIFIED \<and> validate_metadata body (fg_zone c) (fg_allowed_types c) = [] \<and>
        (\<exists>rec. session_record s (fg_devices c) = Some rec)")
      case True
      then obtain rec did where st: "ss_state s = POP_VERIFIED" and ok: "validate_metadata body (fg_zone c) (fg_allowed_types c) = []"
        and did: "ss_did s = Some did" and rec: "dict_get (fg_devices c) (the (ss_did s)) = Some rec"
        by (auto simp: session_record_def device_get_def split: option.splits)
      have effect: "(fg_epochs c' = fg_epochs c \<or> (\<exists>pk x. add_leaf (now 1) did pk (fg_epochs c) = (x, fg_epochs c'))) \<and>
          (fg_devices c' = device_upsert (with_metadata body rec) (fg_devices c) \<or>
           (\<exists>l. fg_devices c' = device_upsert ((with_metadata body rec)\<lparr>dr_leaf := l\<rparr>) (device_upsert (with_metadata body rec) (fg_devices c))))"
        using h 2 Pair st ok did rec
        by (auto simp: register_metadata_def require_state_def session_record_def device_get_def Let_def
            split: sum.splits option.splits prod.splits exn.splits)
      then have parts: "em_current_epoch_id (fg_epochs c') = em_current_epoch_id (fg_epochs c)"
          "dict_dom (em_pending (fg_epochs c')) = queued c \<or> dict_dom (em_pending (fg_epochs c')) = insert (the (ss_did s)) (queued c)"
        using add_leaf_queue [of "now 1" did _ "fg_epochs c" _ "fg_epochs c'"] did by (auto simp: queued_def)
      have "typed_store (fg_zone c) (fg_allowed_types c) (em_current_epoch_id (fg_epochs c)) (fg_devices c') (dict_dom (em_pending (fg_epochs c')))"
        using metadata_typed [OF inv typed 2(3) st ok rec parts(2)] effect by auto
      with conf parts(1) show ?thesis by (simp add: typed_node_def queued_def config_of_def)
    qed (use h 2 Pair typed in \<open>auto simp: register_metadata_def require_state_def Let_def split: if_splits option.splits\<close>)
  qed
qed

lemma tokens_issue_typed:
  assumes inv: "fog_inv P c" and typed: "typed_node c" and h: "tokens_issue P now rnd n k c = (r, c')"
  shows "typed_node c'"
proof -
  note T = typed [unfolded typed_node_def]
  have conf: "config_of c' = config_of c"
    using h handle_config [of P "\<lparr>ev_now = now, ev_rnd = rnd, ev_seed = n, ev_leaf_seed = \<lambda>_. 0, ev_timestamp = [], ev_timings = JNull\<rparr>" "Tokens_issue k" c r c'] by simp
  have "fg_epochs c' = fg_epochs c \<and> (fg_devices c' = fg_devices c \<or>
      (\<exists>did rec. dict_get (fg_devices c) did = Some rec \<and> role_valid_for_type (dr_device_type rec) (dr_role rec) \<and>
         fg_devices c' = set_status did TOKENIZED (fg_devices c)))"
    using h devices_ok_get [OF fog_invD(6) [OF inv]]
    by (auto simp: tokens_issue_def device_get_def Let_def split: prod.splits option.splits if_splits) blast
  then show ?thesis
  proof (elim conjE disjE exE)
    fix did rec assume e: "fg_epochs c' = fg_epochs c" and rec: "dict_get (fg_devices c) did = Some rec"
      "role_valid_for_type (dr_device_type rec) (dr_role rec)" "fg_devices c' = set_status did TOKENIZED (fg_devices c)"
    have "typed_store (fg_zone c) (fg_allowed_types c) (em_current_epoch_id (fg_epochs c)) (set_status did TOKENIZED (fg_devices c)) (queued c)"
      using rec typed_storeD(1) [OF T, of did] by (intro typed_status [OF T]) (auto intro: well_typed_tokenized)
    with typed_config [OF conf e] rec(3) show ?thesis by simp
  qed (use typed_same [OF typed _ _ conf] in blast)
qed

lemma revoke_typed:
  assumes typed: "typed_node c" and h: "revoke did tid only k c = (r, c')"
  shows "typed_node c'"
proof -
  note T = typed [unfolded typed_node_def]
  have conf: "config_of c' = config_of c"
    using h handle_config [of undefined undefined "Revoke did tid only k" c r c'] by simp
  have "fg_epochs c' = fg_epochs c \<and> (fg_devices c' = fg_devices c \<or> fg_devices c' = set_status did REVOKED (fg_devices c))"
    using h by (auto simp: revoke_def revoke_device_def revoke_token_def Let_def split: if_splits option.splits prod.splits bool.splits)
  moreover have "typed_store (fg_zone c) (fg_allowed_types c) (em_current_epoch_id (fg_epochs c)) (set_status did REVOKED (fg_devices c)) (queued c)"
    using typed_storeD(1) [OF T, of did] by (intro typed_status [OF T]) (auto intro: well_typed_revoked)
  ultimately show ?thesis using typed_config [OF conf] T by metis
qed

lemma handle_typed:
  assumes P: "ecdsa_ok P" and inv: "fog_inv P c" and typed: "typed_node c" and h: "handle P v q c = (r, c')"
  shows "typed_node c'"
proof -
  note conf = handle_config [OF h]
  note same = typed_same [OF typed _ _ conf]
  show ?thesis
  proof (cases q)
    case (Epoch_close ex k)
    show ?thesis
    proof (cases "k = Some (fg_admin_key c)")
      case False
      with h Epoch_close have "c' = c" by (auto simp: epoch_close_def admin_ok_def split: if_splits prod.splits)
      with typed show ?thesis by simp
    next
      case True
      obtain res E D L where fin: "finalize_epoch P (ev_timestamp v) (ev_seed v) (ev_leaf_seed v) (case ex of None \<Rightarrow> [] | Some ds \<Rightarrow> ds)
          (fg_epochs c) (fg_devices c) (fg_ledger c) = (res, E, D, L)" using prod_cases4 by blast
      from typed_finalize [OF P inv typed fin] have
        "typed_store (fg_zone c) (fg_allowed_types c) (em_current_epoch_id E) D (dict_dom (em_pending E))" .
      moreover have "fg_epochs c' = E" "fg_devices c' = D"
        using h Epoch_close True fin by (auto simp: epoch_close_def admin_ok_def split: if_splits sum.splits exn.splits)
      ultimately show ?thesis using conf by (simp add: typed_node_def queued_def config_of_def)
    qed
  next
    case (Tokens_access token nonce rs op sg)
    with h tokens_access_state [of P "ev_now v" token nonce rs op sg c r c'] show ?thesis by (intro same) auto
  next
    case (Verify_access pkg rs op nonce sg)
    with h verify_state [of P "ev_now v" pkg rs op nonce sg c] show ?thesis by (intro same) auto
  next
    case (Register_pop k sg)
    with register_pop_typed [OF inv typed] h show ?thesis by simp
  next
    case (Register_metadata body)
    with register_metadata_typed [OF inv typed] h show ?thesis by simp
  next
    case (Tokens_issue k)
    with tokens_issue_typed [OF inv typed] h show ?thesis by simp
  next
    case (Revoke did tid only k)
    with revoke_typed [OF typed] h show ?thesis by simp
  next
    case (Register_pubkey k did hex)
    with h show ?thesis
      by (intro same) (auto simp: register_pubkey_def session_or_404_def issue_challenge_def Let_def
          split: prod.splits option.splits sum.splits if_splits)
  next
    case (Register_start a)
    with h show ?thesis
      by (intro same) (auto simp: register_start_def split: prod.splits option.splits sum.splits bool.splits)
  qed ((rule same; use h in \<open>auto simp: health_def epoch_current_def route_get_proof_def registry_root_def registry_verify_def
        revocation_status_def tokens_nonce_def verify_nonce_def Let_def split: if_splits option.splits sum.splits prod.splits\<close>)+)
qed

lemma timer_typed:
  assumes P: "ecdsa_ok P" and inv: "fog_inv P c" and typed: "typed_node c"
  shows "typed_node (timer_turn P v c)"
proof -
  obtain res E D L where fin: "finalize_epoch P (ev_timestamp v) (ev_seed v) (ev_leaf_seed v) [] (fg_epochs c) (fg_devices c) (fg_ledger c)
      = (res, E, D, L)" using prod_cases4 by blast
  from typed_finalize [OF P inv typed fin] typed fin show ?thesis
    by (auto simp: timer_turn_def auto_close_turn_def typed_node_def queued_def split: sum.split exn.split)
qed

lemma step_typed: "ecdsa_ok P \<Longrightarrow> fog_inv P c \<Longrightarrow> typed_node c \<Longrightarrow> fog_step P c e c' \<Longrightarrow> typed_node c'"
  by (erule fog_step_cases) (auto intro: handle_typed timer_typed)

lemma create_app_typed:
  "create_app psk_file entries sk contents challenge_ttl session_ttl carry admin = Inr c \<Longrightarrow> typed_node c"
  by (auto simp: create_app_def epoch_manager_init_def typed_node_def typed_store_def queued_def Let_def split: sum.splits)

lemma reachable_typed:
  assumes P: "ecdsa_ok P"
  shows "reachable P c \<Longrightarrow> typed_node c"
proof (induction rule: reachable.induct)
  case (step c e c')
  with step_typed [OF P reachable_inv [OF step(1) P]] show ?case by blast
qed (auto intro: create_app_typed)

section \<open>Properties\<close>

text \<open>
  C16: the records of a running node are well typed. After any requests, closes and restarts, every record
  either has no metadata at all or has all five fields, with a permitted name, type, role and vendor and
  the node's own zone; a TOKENIZED record has metadata whose role fits its type; a REGISTERED record has
  metadata, a leaf and an epoch; no record names an epoch that is still open; and every device that is
  waiting in the open batch has a record with accepted metadata.
\<close>

theorem records_well_typed:
  assumes "ecdsa_ok P" and "reachable P c"
  shows "(\<forall>did rec. device_get (fg_devices c) did = Some rec \<longrightarrow>
      (described (fg_zone c) (fg_allowed_types c) rec \<or> undescribed rec) \<and>
      (dr_status rec = TOKENIZED \<longrightarrow> described (fg_zone c) (fg_allowed_types c) rec \<and> role_valid_for_type (dr_device_type rec) (dr_role rec)) \<and>
      (dr_status rec = REGISTERED \<longrightarrow> described (fg_zone c) (fg_allowed_types c) rec \<and> dr_leaf rec \<noteq> None \<and> dr_epoch_id rec \<noteq> None) \<and>
      (\<forall>e. dr_epoch_id rec = Some e \<longrightarrow> e < em_current_epoch_id (fg_epochs c))) \<and>
    (\<forall>did\<in>set (pending_dids (fg_epochs c)). \<exists>rec. device_get (fg_devices c) did = Some rec \<and>
      described (fg_zone c) (fg_allowed_types c) rec)"
proof -
  note T = reachable_typed [OF assms, unfolded typed_node_def]
  have "set (pending_dids (fg_epochs c)) = queued c" by (simp add: pending_dids_def queued_def dict_dom_def dom_map_of_conv_image_fst)
  with typed_storeD [OF T] show ?thesis unfolding well_typed_def device_get_def by blast
qed

end
