(* ===== verification/Key_Files.thy ===== *)
theory Key_Files
  imports Provisioning
begin

text \<open>
  What the program keeps on disk, and the code that reads and writes it: the key files of
  common/crypto_utils.py, the paths of config.py, \<open>create_app\<close> of fog/main.py over its three files, and
  the constructor, \<open>load_psk\<close> and \<open>save_proof\<close> of devices/device.py. A disk has PEM files by path, and the
  JSON files as the values they hold; the paths are those under the project root. The PEM and X.509
  encodings of the package \<open>cryptography\<close> are a parameter. The directories that \<open>mkdir\<close> makes are left out.
  Lemmas: writing one file leaves the others, a stored key is read back, and a key once created is kept.
\<close>

section \<open>Paths and files\<close>

definition tls_dir :: string where "tls_dir = ''fog/tls/''"
definition ca_cert_path :: string where "ca_cert_path = tls_dir @ ''ca_cert.pem''"
definition ca_key_path :: string where "ca_key_path = tls_dir @ ''ca_key.pem''"
definition fog_tls_cert_path :: string where "fog_tls_cert_path = tls_dir @ ''fog_cert.pem''"
definition fog_tls_key_path :: string where "fog_tls_key_path = tls_dir @ ''fog_tls_key.pem''"
definition fog_signing_key_path :: string where "fog_signing_key_path = tls_dir @ ''fog_signing_key.pem''"
definition psk_store_path :: string where "psk_store_path = ''fog/auth/psk_store.json''"
definition device_provisioning_path :: string where "device_provisioning_path = ''devices/keystore/provisioning.json''"
definition keystore_dir :: string where "keystore_dir = ''devices/keystore''"

lemmas path_defs = tls_dir_def ca_cert_path_def ca_key_path_def fog_tls_cert_path_def fog_tls_key_path_def
  fog_signing_key_path_def

record disk =
  dk_pem :: "(string, bytes) dict"
  dk_psk_store :: "(string, string) dict option"
  dk_provisioning :: "(string, string) dict option"
  dk_ledger :: registry_file
  dk_proofs :: "(string, (string, json) dict option) dict"

definition new_disk :: disk where
  "new_disk = \<lparr>dk_pem = [], dk_psk_store = None, dk_provisioning = None, dk_ledger = No_file, dk_proofs = []\<rparr>"

datatype file_error = File_not_found string | File_exception exn

section \<open>Certificates\<close>

text \<open>The fields that the two builders set.\<close>

datatype extension =
    Basic_constraints bool "nat option"
  | Key_usage "string set"
  | Subject_key_identifier bytes
  | Authority_key_identifier bytes
  | Subject_alternative_name "string list" "string list"
  | Extended_key_usage "string list"

record certificate_body =
  cb_subject :: "(string \<times> string) list"
  cb_issuer :: "(string \<times> string) list"
  cb_public_key :: bytes
  cb_serial_number :: nat
  cb_not_valid_before :: time
  cb_not_valid_after :: time
  cb_extensions :: "(extension \<times> bool) list"

record certificate =
  ct_body :: certificate_body
  ct_signature :: bytes

text \<open>
  The encodings: PEM of a private key and back, of a certificate, the part of a certificate that is
  signed, and the digest that identifies a public key. \<open>pki_ok\<close>: a written key is read back.
\<close>

record 'sk pki =
  pk_pem :: "'sk \<Rightarrow> bytes"
  pk_load :: "bytes \<Rightarrow> 'sk res"
  pk_cert_pem :: "certificate \<Rightarrow> bytes"
  pk_tbs :: "certificate_body \<Rightarrow> bytes"
  pk_key_id :: "bytes \<Rightarrow> bytes"

definition pki_ok :: "'sk pki \<Rightarrow> bool" where
  "pki_ok X \<longleftrightarrow> (\<forall>key. pk_load X (pk_pem X key) = Inr key)"

section \<open>Private keys\<close>

definition save_private_key :: "'sk pki \<Rightarrow> 'sk \<Rightarrow> string \<Rightarrow> disk \<Rightarrow> disk" where
  "save_private_key X private_key path d = d\<lparr>dk_pem := dict_set path (pk_pem X private_key) (dk_pem d)\<rparr>"

definition load_private_key :: "'sk pki \<Rightarrow> string \<Rightarrow> disk \<Rightarrow> file_error + 'sk" where
  "load_private_key X path d =
     (case dict_get (dk_pem d) path of
        None \<Rightarrow> Inl (File_not_found path)
      | Some pem \<Rightarrow> (case pk_load X pem of Inl e \<Rightarrow> Inl (File_exception e) | Inr key \<Rightarrow> Inr key))"

text \<open>\<open>drawn\<close> is the key that \<open>generate_keypair\<close> draws, when it is called.\<close>

definition load_or_create_private_key :: "'sk pki \<Rightarrow> 'sk \<Rightarrow> string \<Rightarrow> disk \<Rightarrow> (file_error + 'sk) \<times> disk" where
  "load_or_create_private_key X drawn path d =
     (if dict_get (dk_pem d) path \<noteq> None then (load_private_key X path d, d)
      else (Inr drawn, save_private_key X drawn path d))"

section \<open>The fog over its files\<close>

definition create_app_files ::
    "'sk pki \<Rightarrow> 'sk \<Rightarrow> (string, string) dict option \<Rightarrow> string \<Rightarrow> int \<Rightarrow> int \<Rightarrow> bool \<Rightarrow> string \<Rightarrow> disk \<Rightarrow>
     (file_error + 'sk fog) \<times> disk" where
  "create_app_files X drawn psk_entries signing_key_path challenge_ttl session_ttl carry_forward admin_key d =
     (case load_or_create_private_key X drawn signing_key_path d of
        (Inl e, d') \<Rightarrow> (Inl e, d')
      | (Inr signing_key, d') \<Rightarrow>
          (case create_app (dk_psk_store d') psk_entries signing_key (dk_ledger d') challenge_ttl session_ttl carry_forward admin_key of
             Inl e \<Rightarrow> (Inl (File_exception e), d')
           | Inr c \<Rightarrow> (Inr c, d')))"

section \<open>The device over its files\<close>

definition load_psk_file :: "string \<Rightarrow> disk \<Rightarrow> file_error + string" where
  "load_psk_file name d =
     (case dk_provisioning d of
        None \<Rightarrow> Inl (File_not_found device_provisioning_path)
      | Some data \<Rightarrow> (case load_psk data name of Inl e \<Rightarrow> Inl (File_exception e) | Inr psk \<Rightarrow> Inr psk))"

definition device_key_path :: "string \<Rightarrow> string \<Rightarrow> string" where
  "device_key_path dir name = dir @ ''/'' @ name @ ''_key.pem''"

definition device_open ::
    "'sk platform \<Rightarrow> 'sk pki \<Rightarrow> 'sk \<Rightarrow> string \<Rightarrow> string option \<Rightarrow> string \<Rightarrow> bool \<Rightarrow> disk \<Rightarrow> (file_error + 'sk device) \<times> disk" where
  "device_open P X drawn name psk dir persist_key d =
     (case (case psk of Some p \<Rightarrow> Inr p | None \<Rightarrow> load_psk_file name d) of
        Inl e \<Rightarrow> (Inl e, d)
      | Inr p \<Rightarrow>
          (case (if persist_key then load_or_create_private_key X drawn (device_key_path dir name) d else (Inr drawn, d)) of
             (Inl e, d') \<Rightarrow> (Inl e, d')
           | (Inr key, d') \<Rightarrow> (Inr (device_init P name p key), d')))"

definition save_proof :: "string \<Rightarrow> 'sk device \<Rightarrow> disk \<Rightarrow> string \<times> disk" where
  "save_proof dir v d =
     (let path = dir @ ''/'' @ dv_name v @ ''_proof.json''
      in (path, d\<lparr>dk_proofs := dict_set path (dv_proof_package v) (dk_proofs d)\<rparr>))"

section \<open>Reading back\<close>

lemma save_private_key_simps [simp]:
  "dk_psk_store (save_private_key X key path d) = dk_psk_store d"
  "dk_provisioning (save_private_key X key path d) = dk_provisioning d"
  "dk_ledger (save_private_key X key path d) = dk_ledger d"
  "dk_proofs (save_private_key X key path d) = dk_proofs d"
  "dict_get (dk_pem (save_private_key X key path d)) p = (if p = path then Some (pk_pem X key) else dict_get (dk_pem d) p)"
  by (simp_all add: save_private_key_def dict_simps)

lemma load_saved [simp]: "pki_ok X \<Longrightarrow> load_private_key X path (save_private_key X key path d) = Inr key"
  by (simp add: load_private_key_def pki_ok_def)

definition holds_key :: "'sk pki \<Rightarrow> string \<Rightarrow> 'sk \<Rightarrow> disk \<Rightarrow> bool" where
  "holds_key X path key d \<longleftrightarrow> (\<exists>pem. dict_get (dk_pem d) path = Some pem \<and> pk_load X pem = Inr key)"

lemma holds_saved: "pki_ok X \<Longrightarrow> holds_key X path key (save_private_key X key path d)"
  by (simp add: holds_key_def pki_ok_def)

lemma load_or_create_held:
  "holds_key X path key d \<Longrightarrow> load_or_create_private_key X drawn path d = (Inr key, d)"
  by (auto simp: holds_key_def load_or_create_private_key_def load_private_key_def)

text \<open>Whatever is drawn, a key that was once returned for a path stays the key of the path.\<close>

lemma load_or_create_holds:
  assumes "pki_ok X" "load_or_create_private_key X drawn path d = (Inr key, d')"
  shows "holds_key X path key d'"
  using assms holds_saved [of X path drawn d]
  by (auto simp: load_or_create_private_key_def load_private_key_def holds_key_def split: if_splits option.splits sum.splits)

lemma load_or_create_other:
  assumes "load_or_create_private_key X drawn path d = (r, d')" "holds_key X p key d"
  shows "holds_key X p key d'"
  using assms by (auto simp: load_or_create_private_key_def holds_key_def split: if_splits)

lemma load_or_create_keeps:
  assumes "load_or_create_private_key X drawn path d = (r, d')"
  shows "dk_psk_store d' = dk_psk_store d" "dk_provisioning d' = dk_provisioning d" "dk_ledger d' = dk_ledger d" "dk_proofs d' = dk_proofs d"
  using assms by (auto simp: load_or_create_private_key_def split: if_splits)

lemma create_app_held:
  assumes "holds_key X path key d"
  shows "create_app_files X drawn entries path challenge_ttl session_ttl carry admin d =
    ((case create_app (dk_psk_store d) entries key (dk_ledger d) challenge_ttl session_ttl carry admin of
        Inl e \<Rightarrow> Inl (File_exception e) | Inr c \<Rightarrow> Inr c), d)"
  by (simp add: create_app_files_def load_or_create_held [OF assms] split: sum.split)

end
