(* ===== verification/Setup_Files.thy ===== *)
theory Setup_Files
  imports Key_Files System
begin

text \<open>
  scripts/gen_certs.py, the one-time setup, and scripts/run_fog.py, the start of the node, over the disk of
  Key_Files. What the setup draws (keys, serial numbers, pre-shared keys), the clock and the randomness of
  signatures are arguments. Serving the application (uvicorn, TLS) is left out: a start ends with the
  application that would be served.
  Lemmas: what each part of the setup writes, and what a start finds.
\<close>

section \<open>Configuration\<close>

definition fog_host :: string where "fog_host = ''localhost''"
definition fog_port :: nat where "fog_port = 8443"
definition fog_base_url :: string where "fog_base_url = ''https://'' @ fog_host @ '':'' @ str_int (int fog_port)"
definition auto_epoch_seconds :: int where "auto_epoch_seconds = 0"

section \<open>The setup\<close>

text \<open>\<open>timedelta(days=n)\<close> in seconds.\<close>

definition days :: "nat \<Rightarrow> time" where "days n = of_nat (86400 * n)"

definition sign_certificate :: "'sk platform \<Rightarrow> 'sk pki \<Rightarrow> 'sk \<Rightarrow> nat \<Rightarrow> certificate_body \<Rightarrow> certificate" where
  "sign_certificate P X key seed body = \<lparr>ct_body = body, ct_signature = sign P key seed (pk_tbs X body)\<rparr>"

definition make_ca :: "'sk platform \<Rightarrow> 'sk pki \<Rightarrow> 'sk \<Rightarrow> time \<Rightarrow> nat \<Rightarrow> nat \<Rightarrow> certificate" where
  "make_ca P X key now serial seed =
     (let name = [(''organizationName'', ''IIoT Assignment''), (''commonName'', ''IIoT Zone CA'')]
      in sign_certificate P X key seed
           \<lparr>cb_subject = name, cb_issuer = name, cb_public_key = public_key_bytes P key, cb_serial_number = serial,
            cb_not_valid_before = now - days 1, cb_not_valid_after = now + days 365,
            cb_extensions =
              [(Basic_constraints True (Some 0), True),
               (Key_usage {''digital_signature'', ''key_cert_sign'', ''crl_sign''}, True),
               (Subject_key_identifier (pk_key_id X (public_key_bytes P key)), False)]\<rparr>)"

definition make_server_cert ::
    "'sk platform \<Rightarrow> 'sk pki \<Rightarrow> 'sk \<Rightarrow> certificate \<Rightarrow> 'sk \<Rightarrow> time \<Rightarrow> nat \<Rightarrow> nat \<Rightarrow> certificate" where
  "make_server_cert P X ca_key ca_cert key now serial seed =
     sign_certificate P X ca_key seed
       \<lparr>cb_subject = [(''organizationName'', ''IIoT Assignment''), (''commonName'', fog_host)],
        cb_issuer = cb_subject (ct_body ca_cert), cb_public_key = public_key_bytes P key, cb_serial_number = serial,
        cb_not_valid_before = now - days 1, cb_not_valid_after = now + days 365,
        cb_extensions =
          [(Subject_alternative_name [''localhost''] [''127.0.0.1''], False),
           (Basic_constraints False None, True),
           (Extended_key_usage [''serverAuth''], False),
           (Authority_key_identifier (pk_key_id X (public_key_bytes P ca_key)), False)]\<rparr>"

definition write_cert :: "'sk pki \<Rightarrow> certificate \<Rightarrow> string \<Rightarrow> disk \<Rightarrow> disk" where
  "write_cert X cert path d = d\<lparr>dk_pem := dict_set path (pk_cert_pem X cert) (dk_pem d)\<rparr>"

text \<open>What one run draws; \<open>su_psks k\<close> is the k-th pre-shared key.\<close>

record 'sk setup_draws =
  su_ca_key :: 'sk
  su_ca_now :: time
  su_ca_serial :: nat
  su_ca_seed :: nat
  su_server_key :: 'sk
  su_server_now :: time
  su_server_serial :: nat
  su_server_seed :: nat
  su_signing_key :: 'sk
  su_psks :: "nat \<Rightarrow> bytes"

definition ca_cert_of :: "'sk platform \<Rightarrow> 'sk pki \<Rightarrow> 'sk setup_draws \<Rightarrow> certificate" where
  "ca_cert_of P X g = make_ca P X (su_ca_key g) (su_ca_now g) (su_ca_serial g) (su_ca_seed g)"

definition server_cert_of :: "'sk platform \<Rightarrow> 'sk pki \<Rightarrow> 'sk setup_draws \<Rightarrow> certificate" where
  "server_cert_of P X g = make_server_cert P X (su_ca_key g) (ca_cert_of P X g) (su_server_key g) (su_server_now g)
     (su_server_serial g) (su_server_seed g)"

text \<open>The two halves of the first step, in the order of the writes.\<close>

definition write_ca :: "'sk platform \<Rightarrow> 'sk pki \<Rightarrow> 'sk setup_draws \<Rightarrow> disk \<Rightarrow> disk" where
  "write_ca P X g d = write_cert X (ca_cert_of P X g) ca_cert_path (save_private_key X (su_ca_key g) ca_key_path d)"

definition write_server :: "'sk platform \<Rightarrow> 'sk pki \<Rightarrow> 'sk setup_draws \<Rightarrow> disk \<Rightarrow> disk" where
  "write_server P X g d =
     write_cert X (server_cert_of P X g) fog_tls_cert_path (save_private_key X (su_server_key g) fog_tls_key_path d)"

definition write_psks :: "(nat \<Rightarrow> bytes) \<Rightarrow> disk \<Rightarrow> nat res \<times> disk" where
  "write_psks rnd d =
     (case provision_psks rnd of
        Inl e \<Rightarrow> (Inl e, d)
      | Inr (device_side, fog_side) \<Rightarrow>
          (Inr (length provisioned_names), d\<lparr>dk_psk_store := Some fog_side, dk_provisioning := Some device_side\<rparr>))"

text \<open>The three steps of \<open>main\<close>, each skipped when its file exists.\<close>

definition setup_tls :: "'sk platform \<Rightarrow> 'sk pki \<Rightarrow> bool \<Rightarrow> 'sk setup_draws \<Rightarrow> disk \<Rightarrow> disk" where
  "setup_tls P X force g d =
     (if dict_get (dk_pem d) ca_cert_path \<noteq> None \<and> \<not> force then d else write_server P X g (write_ca P X g d))"

definition setup_signing_key :: "'sk pki \<Rightarrow> bool \<Rightarrow> 'sk setup_draws \<Rightarrow> disk \<Rightarrow> disk" where
  "setup_signing_key X force g d =
     (if dict_get (dk_pem d) fog_signing_key_path \<noteq> None \<and> \<not> force then d
      else save_private_key X (su_signing_key g) fog_signing_key_path d)"

definition setup_psks :: "bool \<Rightarrow> 'sk setup_draws \<Rightarrow> disk \<Rightarrow> unit res \<times> disk" where
  "setup_psks force g d =
     (if dk_psk_store d \<noteq> None \<and> \<not> force then (Inr (), d)
      else (case write_psks (su_psks g) d of (Inl e, d') \<Rightarrow> (Inl e, d') | (Inr n, d') \<Rightarrow> (Inr (), d')))"

definition gen_certs :: "'sk platform \<Rightarrow> 'sk pki \<Rightarrow> bool \<Rightarrow> 'sk setup_draws \<Rightarrow> disk \<Rightarrow> unit res \<times> disk" where
  "gen_certs P X force g d = setup_psks force g (setup_signing_key X force g (setup_tls P X force g d))"

section \<open>The start\<close>

datatype 'sk start =
    Missing_file string
  | Start_failed file_error
  | Serving "'sk fog" chain_verdict "int option"

definition file_exists :: "string \<Rightarrow> disk \<Rightarrow> bool" where
  "file_exists path d =
     (if path = psk_store_path then dk_psk_store d \<noteq> None else dict_get (dk_pem d) path \<noteq> None)"

fun first_missing :: "string list \<Rightarrow> disk \<Rightarrow> string option" where
  "first_missing [] d = None"
| "first_missing (p # ps) d = (if \<not> file_exists p d then Some p else first_missing ps d)"

definition run_fog :: "'sk platform \<Rightarrow> 'sk pki \<Rightarrow> 'sk \<Rightarrow> disk \<Rightarrow> 'sk start \<times> disk" where
  "run_fog P X drawn d =
     (case first_missing [fog_tls_cert_path, fog_tls_key_path, psk_store_path] d of
        Some p \<Rightarrow> (Missing_file p, d)
      | None \<Rightarrow>
          (case create_app_files X drawn None fog_signing_key_path challenge_ttl_seconds session_ttl_seconds
                  carry_forward_active admin_key_default d of
             (Inl e, d') \<Rightarrow> (Start_failed e, d')
           | (Inr c, d') \<Rightarrow>
               (case verify_chain P None (fg_ledger c) of
                  Inl e \<Rightarrow> (Start_failed (File_exception e), d')
                | Inr v \<Rightarrow> (Serving c v (if 0 < auto_epoch_seconds then Some auto_epoch_seconds else None), d'))))"

section \<open>What the setup leaves on disk\<close>

lemma path_distinct [simp]:
  "ca_cert_path \<noteq> ca_key_path" "ca_cert_path \<noteq> fog_tls_cert_path" "ca_cert_path \<noteq> fog_tls_key_path"
  "ca_cert_path \<noteq> fog_signing_key_path" "ca_key_path \<noteq> fog_tls_cert_path" "ca_key_path \<noteq> fog_tls_key_path"
  "ca_key_path \<noteq> fog_signing_key_path" "fog_tls_cert_path \<noteq> fog_tls_key_path"
  "fog_tls_cert_path \<noteq> fog_signing_key_path" "fog_tls_key_path \<noteq> fog_signing_key_path"
  "fog_tls_cert_path \<noteq> psk_store_path" "fog_tls_key_path \<noteq> psk_store_path"
  by (simp_all add: path_defs psk_store_path_def)

lemmas path_distinct' [simp] = path_distinct [symmetric]

lemma write_cert_simps [simp]:
  "dk_psk_store (write_cert X cert path d) = dk_psk_store d"
  "dk_provisioning (write_cert X cert path d) = dk_provisioning d"
  "dk_ledger (write_cert X cert path d) = dk_ledger d"
  "dk_proofs (write_cert X cert path d) = dk_proofs d"
  "dict_get (dk_pem (write_cert X cert path d)) p = (if p = path then Some (pk_cert_pem X cert) else dict_get (dk_pem d) p)"
  by (simp_all add: write_cert_def dict_simps)

lemma setup_tls_get:
  "dict_get (dk_pem (setup_tls P X force g d)) p =
     (if dict_get (dk_pem d) ca_cert_path \<noteq> None \<and> \<not> force then dict_get (dk_pem d) p
      else if p = ca_cert_path then Some (pk_cert_pem X (ca_cert_of P X g))
      else if p = ca_key_path then Some (pk_pem X (su_ca_key g))
      else if p = fog_tls_cert_path then Some (pk_cert_pem X (server_cert_of P X g))
      else if p = fog_tls_key_path then Some (pk_pem X (su_server_key g)) else dict_get (dk_pem d) p)"
  by (simp add: setup_tls_def write_ca_def write_server_def)

lemma setup_signing_get:
  "dict_get (dk_pem (setup_signing_key X force g d)) p =
     (if p = fog_signing_key_path \<and> (force \<or> dict_get (dk_pem d) p = None) then Some (pk_pem X (su_signing_key g))
      else dict_get (dk_pem d) p)"
  by (auto simp: setup_signing_key_def)

lemma setup_other_files [simp]:
  "dk_psk_store (setup_tls P X force g d) = dk_psk_store d" "dk_provisioning (setup_tls P X force g d) = dk_provisioning d"
  "dk_ledger (setup_tls P X force g d) = dk_ledger d" "dk_proofs (setup_tls P X force g d) = dk_proofs d"
  "dk_psk_store (setup_signing_key X force g d) = dk_psk_store d" "dk_provisioning (setup_signing_key X force g d) = dk_provisioning d"
  "dk_ledger (setup_signing_key X force g d) = dk_ledger d" "dk_proofs (setup_signing_key X force g d) = dk_proofs d"
  by (simp_all add: setup_tls_def setup_signing_key_def write_ca_def write_server_def)

lemma setup_psks_outcome:
  obtains device_side fog_side where "provision_psks (su_psks g) = Inr (device_side, fog_side)"
    "setup_psks force g d = (Inr (), if dk_psk_store d \<noteq> None \<and> \<not> force then d
       else d\<lparr>dk_psk_store := Some fog_side, dk_provisioning := Some device_side\<rparr>)"
proof -
  obtain device_side fog_side where "provision_psks (su_psks g) = Inr (device_side, fog_side)" by (rule provision_psks_ok)
  with that show thesis by (simp add: setup_psks_def write_psks_def)
qed

text \<open>The setup never raises. What is on disk afterwards, file by file.\<close>

definition setup_pem :: "'sk platform \<Rightarrow> 'sk pki \<Rightarrow> bool \<Rightarrow> 'sk setup_draws \<Rightarrow> disk \<Rightarrow> string \<Rightarrow> bytes option" where
  "setup_pem P X force g d p =
     (if p = fog_signing_key_path then
        (if force \<or> dict_get (dk_pem d) p = None then Some (pk_pem X (su_signing_key g)) else dict_get (dk_pem d) p)
      else dict_get (dk_pem (setup_tls P X force g d)) p)"

lemma gen_certs_outcome:
  obtains device_side fog_side d' where "gen_certs P X force g d = (Inr (), d')"
    "provision_psks (su_psks g) = Inr (device_side, fog_side)"
    "dk_psk_store d' = (if dk_psk_store d \<noteq> None \<and> \<not> force then dk_psk_store d else Some fog_side)"
    "dk_provisioning d' = (if dk_psk_store d \<noteq> None \<and> \<not> force then dk_provisioning d else Some device_side)"
    "dk_ledger d' = dk_ledger d" "dk_proofs d' = dk_proofs d" "\<And>p. dict_get (dk_pem d') p = setup_pem P X force g d p"
proof -
  let ?d2 = "setup_signing_key X force g (setup_tls P X force g d)"
  have pem: "dict_get (dk_pem ?d2) p = setup_pem P X force g d p" for p
    by (cases "p = fog_signing_key_path") (simp_all add: setup_signing_get setup_pem_def setup_tls_get)
  obtain device_side fog_side where psks: "provision_psks (su_psks g) = Inr (device_side, fog_side)"
    "setup_psks force g ?d2 = (Inr (), if dk_psk_store ?d2 \<noteq> None \<and> \<not> force then ?d2
       else ?d2\<lparr>dk_psk_store := Some fog_side, dk_provisioning := Some device_side\<rparr>)"
    by (rule setup_psks_outcome)
  show thesis
  proof (cases "dk_psk_store d \<noteq> None \<and> \<not> force")
    case True
    with psks(2) have run: "gen_certs P X force g d = (Inr (), ?d2)" by (simp add: gen_certs_def)
    show thesis by (rule that [OF run psks(1)]) (use True pem in simp_all)
  next
    case False
    with psks(2) have run: "gen_certs P X force g d =
        (Inr (), ?d2\<lparr>dk_psk_store := Some fog_side, dk_provisioning := Some device_side\<rparr>)" by (auto simp: gen_certs_def)
    show thesis by (rule that [OF run psks(1)]) (use False pem in auto)
  qed
qed

text \<open>Files outside fog/tls stay, and what \<open>--force\<close> or its absence means for the others.\<close>

lemma setup_pem_other:
  assumes "\<not> starts_with tls_dir p"
  shows "setup_pem P X force g d p = dict_get (dk_pem d) p"
proof -
  have tls: "starts_with tls_dir q" if "q \<in> {ca_cert_path, ca_key_path, fog_tls_cert_path, fog_tls_key_path, fog_signing_key_path}" for q
    using that by (auto simp: path_defs starts_with_def)
  with assms show ?thesis unfolding setup_pem_def setup_tls_get by auto
qed

lemma setup_pem_kept:
  "dict_get (dk_pem d) ca_cert_path \<noteq> None \<Longrightarrow> p \<noteq> fog_signing_key_path \<Longrightarrow> setup_pem P X False g d p = dict_get (dk_pem d) p"
  "dict_get (dk_pem d) fog_signing_key_path = Some k \<Longrightarrow> setup_pem P X False g d fog_signing_key_path = Some k"
  by (simp_all add: setup_pem_def setup_tls_get)

lemma setup_pem_fresh:
  assumes "force \<or> dict_get (dk_pem d) ca_cert_path = None"
  shows "setup_pem P X force g d ca_cert_path = Some (pk_cert_pem X (ca_cert_of P X g))"
    "setup_pem P X force g d ca_key_path = Some (pk_pem X (su_ca_key g))"
    "setup_pem P X force g d fog_tls_cert_path = Some (pk_cert_pem X (server_cert_of P X g))"
    "setup_pem P X force g d fog_tls_key_path = Some (pk_pem X (su_server_key g))"
  using assms by (auto simp: setup_pem_def setup_tls_get)

lemma setup_pem_signing:
  "force \<or> dict_get (dk_pem d) fog_signing_key_path = None \<Longrightarrow>
     setup_pem P X force g d fog_signing_key_path = Some (pk_pem X (su_signing_key g))"
  by (simp add: setup_pem_def)

section \<open>What a start finds\<close>

lemma first_missing_None: "first_missing ps d = None \<longleftrightarrow> list_all (\<lambda>p. file_exists p d) ps"
  by (induction ps) auto

text \<open>The three files that the script asks for are there.\<close>

definition ready_to_start :: "disk \<Rightarrow> bool" where
  "ready_to_start d \<longleftrightarrow> dict_get (dk_pem d) fog_tls_cert_path \<noteq> None \<and> dict_get (dk_pem d) fog_tls_key_path \<noteq> None \<and>
     dk_psk_store d \<noteq> None"

lemma ready_iff: "first_missing [fog_tls_cert_path, fog_tls_key_path, psk_store_path] d = None \<longleftrightarrow> ready_to_start d"
  unfolding first_missing_None by (simp add: file_exists_def ready_to_start_def)

lemma run_fog_ready:
  assumes "ready_to_start d" "holds_key X fog_signing_key_path key d"
    and "create_app (dk_psk_store d) None key (dk_ledger d) challenge_ttl_seconds session_ttl_seconds carry_forward_active admin_key_default = Inr c"
    and "verify_chain P None (fg_ledger c) = Inr v"
  shows "run_fog P X drawn d = (Serving c v None, d)"
  using assms(1) [folded ready_iff] by (simp add: run_fog_def create_app_held [OF assms(2)] assms(3,4) auto_epoch_seconds_def)

end
