(* ===== verification/Startup.thy ===== *)
theory Startup
  imports Setup_Files
begin

text \<open>
  The life of the node over its files: the first setup and start, a restart, an interrupted setup, a forced
  one, and the keys of devices. \<open>running_from X d c\<close> says that the disk \<open>d\<close> holds the signing key and the
  registry file of the running node \<open>c\<close>, as it does while the node runs: the node writes no other file.
\<close>

definition running_from :: "'sk pki \<Rightarrow> disk \<Rightarrow> 'sk fog \<Rightarrow> bool" where
  "running_from X d c \<longleftrightarrow> holds_key X fog_signing_key_path (fg_signing_key c) d \<and> dk_ledger d = lg_file (fg_ledger c)"

text \<open>What a TLS client that trusts the first certificate needs of the second, for the host of the node.\<close>

definition certified_by :: "'sk platform \<Rightarrow> 'sk pki \<Rightarrow> certificate \<Rightarrow> certificate \<Rightarrow> bool" where
  "certified_by P X ca srv \<longleftrightarrow>
     verify P (cb_public_key (ct_body ca)) (pk_tbs X (ct_body srv)) (ct_signature srv) \<and>
     cb_issuer (ct_body srv) = cb_subject (ct_body ca) \<and>
     (\<exists>kid. (Subject_key_identifier kid, False) \<in> set (cb_extensions (ct_body ca)) \<and>
            (Authority_key_identifier kid, False) \<in> set (cb_extensions (ct_body srv)))"

definition host_names :: "certificate \<Rightarrow> string set" where
  "host_names cert = {n. \<exists>names ips crit. (Subject_alternative_name names ips, crit) \<in> set (cb_extensions (ct_body cert)) \<and> n \<in> set names}"

lemma setup_certificates:
  assumes "ecdsa_ok P"
  shows "certified_by P X (ca_cert_of P X g) (server_cert_of P X g)"
    "fog_host \<in> host_names (server_cert_of P X g)"
  using verify_sign [OF assms]
  by (auto simp: certified_by_def ca_cert_of_def server_cert_of_def make_ca_def make_server_cert_def sign_certificate_def
      host_names_def fog_host_def Let_def)

section \<open>Starting\<close>

lemma first_start:
  assumes "ready_to_start d" "holds_key X fog_signing_key_path key d" "dk_ledger d = No_file"
  obtains c where "run_fog P X drawn d = (Serving c (Chain_valid 0) None, d)" "fg_signing_key c = key"
    "fg_psk_store c = the (dk_psk_store d)" "em_current_epoch_id (fg_epochs c) = 1" "lg_blocks (fg_ledger c) = []"
    "lg_file (fg_ledger c) = No_file" "reachable P c"
proof -
  let ?app = "create_app (dk_psk_store d) None key No_file challenge_ttl_seconds session_ttl_seconds carry_forward_active admin_key_default"
  obtain c where c: "?app = Inr c" "fg_ledger c = \<lparr>lg_key = key, lg_fog_id = config_fog_id, lg_blocks = [], lg_cache = [], lg_file = No_file\<rparr>"
    "fg_signing_key c = key" "fg_psk_store c = the (dk_psk_store d)" "em_current_epoch_id (fg_epochs c) = 1"
    using assms(1)
    by (auto simp: ready_to_start_def create_app_def Let_def ledger_init_def epoch_manager_init_def latest_epoch_def psk_store_init_def)
  have "verify_chain P None (fg_ledger c) = Inr (Chain_valid 0)" by (simp add: verify_chain_def c(2))
  from run_fog_ready [OF assms(1,2) _ this] c(1) assms(3) have "run_fog P X drawn d = (Serving c (Chain_valid 0) None, d)" by simp
  then show thesis by (rule that) (use c reachable.start [OF c(1)] in simp_all)
qed

text \<open>A start over the files of an earlier run, or over its registry with another key.\<close>

lemma later_start:
  assumes P: "ecdsa_ok P" and r: "reachable P c" and run: "running_from X d c" and ready: "ready_to_start d"
  obtains c' where "run_fog P X drawn d = (Serving c' (Chain_valid (ledger_len (fg_ledger c))) None, d)"
    "fg_signing_key c' = fg_signing_key c" "get_root (fg_ledger c') = get_root (fg_ledger c)"
    "em_current_epoch_id (fg_epochs c') = em_current_epoch_id (fg_epochs c)" "reachable P c'"
    "lg_file (fg_ledger c') = lg_file (fg_ledger c)"
proof -
  note inv = reachable_inv [OF r P]
  obtain c' where app: "create_app (dk_psk_store d) None (fg_signing_key c) (lg_file (fg_ledger c)) challenge_ttl_seconds
      session_ttl_seconds carry_forward_active admin_key_default = Inr c'"
    using restart_succeeds [OF inv] by blast
  note inv' = restart_inv [OF inv app]
  from app obtain L where L: "ledger_init (fg_signing_key c) config_fog_id (lg_file (fg_ledger c)) = Inr L"
    and c': "fg_ledger c' = L" "fg_signing_key c' = fg_signing_key c" "fg_devices c' = []"
    by (rule create_app_parts)
  have "lg_key (fg_ledger c) = fg_signing_key c" using fog_invD(7) [OF inv] .
  with ledger_init_written [OF epochs_invD(1) [OF fog_invD(2) [OF inv]]] L have "L = fg_ledger c\<lparr>lg_fog_id := config_fog_id\<rparr>" by metis
  then have L': "ledger_len L = ledger_len (fg_ledger c)" "lg_file L = lg_file (fg_ledger c)" by (simp_all add: ledger_len_def)
  have "verify_chain P None L = Inr (Chain_valid (ledger_len L))"
    using verify_chain_honest [OF epochs_invD(1) [OF fog_invD(2) [OF conjunct1 [OF inv']]]] c' by simp
  with L'(1) have "run_fog P X drawn d = (Serving c' (Chain_valid (ledger_len (fg_ledger c))) None, d)"
    using run app c'(1) by (intro run_fog_ready [OF ready]) (simp_all add: running_from_def)
  then show thesis
    by (rule that) (use c' L'(2) inv' restart_epoch [OF inv app] reachable.restart [OF r app] in simp_all)
qed

text \<open>The first block of a chain that is valid under one key, checked under another.\<close>

definition signed_by :: "'sk platform \<Rightarrow> bytes \<Rightarrow> block \<Rightarrow> bool" where
  "signed_by P pk b \<longleftrightarrow>
     (case body_of b of
        Inl _ \<Rightarrow> False
      | Inr body \<Rightarrow> (case block_signature b of Inl _ \<Rightarrow> False | Inr (_, s) \<Rightarrow> verify P pk (cjson P (JObj body)) s))"

lemma check_block_other_key:
  assumes "check_block P pk i prev b = Inr (Inr h)" "\<not> signed_by P pk' b"
  shows "check_block P pk' i prev b = Inr (Inl (Bad_signature i))"
  using assms by (auto simp: check_block_def signed_by_def split: sum.splits option.splits if_splits prod.splits)

lemma start_with_other_key:
  assumes P: "ecdsa_ok P" and r: "reachable P c" and ready: "ready_to_start d"
    and key: "holds_key X fog_signing_key_path sk d" and registry: "dk_ledger d = lg_file (fg_ledger c)"
    and b: "lg_blocks (fg_ledger c) = b # bs" and foreign: "\<not> signed_by P (public_key_bytes P sk) b"
  obtains c' where "run_fog P X drawn d = (Serving c' (Bad_signature 0) None, d)" "fg_signing_key c' = sk"
    "get_root (fg_ledger c') = get_root (fg_ledger c)" "em_current_epoch_id (fg_epochs c') = em_current_epoch_id (fg_epochs c)"
proof -
  note inv = fog_invD [OF reachable_inv [OF r P]]
  let ?L = "fg_ledger c\<lparr>lg_key := sk, lg_fog_id := config_fog_id\<rparr>"
  have L: "ledger_inv P (fg_ledger c)" using epochs_invD(1) [OF inv(2)] .
  with b have written: "lg_file (fg_ledger c) = Blocks (b # bs)" by (auto simp: ledger_inv_def)
  have init: "ledger_init sk config_fog_id (lg_file (fg_ledger c)) = Inr ?L"
    using L b by (cases "fg_ledger c") (auto simp: ledger_inv_def ledger_init_def Let_def simp del: cache_blocks.simps check_blocks.simps)
  have latest: "latest_epoch ?L = latest_epoch (fg_ledger c)" by (simp add: latest_epoch_def)
  with inv(3) obtain c' where app: "create_app (dk_psk_store d) None sk (lg_file (fg_ledger c)) challenge_ttl_seconds
      session_ttl_seconds carry_forward_active admin_key_default = Inr c'"
    by (auto simp: create_app_def registry_inv_def epoch_manager_init_def init)
  from app obtain E where c': "fg_ledger c' = ?L" "fg_signing_key c' = sk" "fg_epochs c' = E"
    and E: "epoch_manager_init ?L sk config_fog_id carry_forward_active = Inr E"
    by (rule create_app_parts) (simp add: init)
  have "em_current_epoch_id E = em_current_epoch_id (fg_epochs c)"
    using E inv(3) latest by (auto simp: epoch_manager_init_def registry_inv_def)
  moreover have "verify_chain P None (fg_ledger c') = Inr (Bad_signature 0)"
  proof -
    have "check_blocks P (public_key_bytes P (lg_key (fg_ledger c))) 0 (JStr genesis_prev_hash) (b # bs) = Inr (Chain_valid (length (b # bs)))"
      using L unfolding ledger_inv_def b by blast
    then obtain h where "check_block P (public_key_bytes P (lg_key (fg_ledger c))) 0 (JStr genesis_prev_hash) b = Inr (Inr h)"
      unfolding check_blocks_Cons_valid by blast
    from check_block_other_key [OF this foreign] show ?thesis by (simp add: verify_chain_def c' written)
  qed
  ultimately show thesis
    by (intro that [OF run_fog_ready [where c = c', OF ready key]]) (use app c' registry in \<open>simp_all add: get_root_def fun_eq_iff\<close>)
qed

section \<open>Keys of devices\<close>

text \<open>What happens to the disk: devices open their key store and save proofs, the setup and the node are run.\<close>

inductive disk_step :: "'sk platform \<Rightarrow> 'sk pki \<Rightarrow> disk \<Rightarrow> disk \<Rightarrow> bool" for P X where
  device: "disk_step P X d (snd (device_open P X drawn name psk keystore_dir persist d))"
| proof_saved: "disk_step P X d (snd (save_proof keystore_dir (v :: 'sk device) d))"
| certificates: "disk_step P X d (snd (gen_certs P X force g d))"
| node: "disk_step P X d (snd (run_fog P X drawn d))"
| registry: "disk_step P X d (d\<lparr>dk_ledger := f\<rparr>)"

lemma device_open_pem:
  assumes "dict_get (dk_pem d) p = Some pem"
  shows "dict_get (dk_pem (snd (device_open P X drawn name psk dir persist d))) p = Some pem"
  using assms by (auto simp: device_open_def load_or_create_private_key_def split: sum.split prod.split)

lemma run_fog_pem:
  assumes "dict_get (dk_pem d) p = Some pem"
  shows "dict_get (dk_pem (snd (run_fog P X drawn d))) p = Some pem"
  using assms by (auto simp: run_fog_def create_app_files_def load_or_create_private_key_def split: sum.split prod.split option.split)

lemma device_key_not_tls: "\<not> starts_with tls_dir (device_key_path keystore_dir name)"
  by (simp add: device_key_path_def keystore_dir_def tls_dir_def starts_with_def)

lemma disk_step_keeps_device_key:
  assumes "disk_step P X d d'" "dict_get (dk_pem d) (device_key_path keystore_dir name) = Some pem"
  shows "dict_get (dk_pem d') (device_key_path keystore_dir name) = Some pem"
  using assms
proof (cases rule: disk_step.cases)
  case (certificates force g)
  obtain d2 where "gen_certs P X force g d = (Inr (), d2)" "\<And>p. dict_get (dk_pem d2) p = setup_pem P X force g d p"
    by (rule gen_certs_outcome [of P X force g d]) blast
  with certificates assms(2) show ?thesis by (simp add: setup_pem_other [OF device_key_not_tls])
qed (use assms(2) in \<open>simp_all add: device_open_pem run_fog_pem save_proof_def Let_def\<close>)

lemma disk_steps_keep_device_key:
  "(disk_step P X)\<^sup>*\<^sup>* d d' \<Longrightarrow> dict_get (dk_pem d) (device_key_path keystore_dir name) = Some pem \<Longrightarrow>
    dict_get (dk_pem d') (device_key_path keystore_dir name) = Some pem"
  by (induction rule: rtranclp_induct) (auto dest: disk_step_keeps_device_key)

lemma device_open_holds:
  assumes "pki_ok X" "device_open P X drawn name psk dir True d = (Inr v, d')"
  shows "holds_key X (device_key_path dir name) (dv_private_key v) d'"
  using assms load_or_create_holds [OF assms(1)]
  by (auto simp: device_open_def device_init_def split: sum.splits prod.splits)

section \<open>Properties\<close>

text \<open>
  C18: a fresh installation works. On a disk without certificates, keys and registry the setup succeeds,
  and a start after it serves, with the signing key and the pre-shared keys of the setup, an empty and
  valid registry and epoch 1. The certificate it serves with is signed by the zone CA that devices trust,
  linked to it by name and key identifier, and names the host of the configuration; its key is another
  one than the signing key's file. A second setup without \<open>--force\<close> changes no file.
\<close>

theorem fresh_setup_serves:
  assumes "ecdsa_ok P" and "pki_ok X" and "dk_pem d = []" and "dk_psk_store d = None" and "dk_ledger d = No_file"
  shows "\<exists>d' c device_side. gen_certs P X force g d = (Inr (), d') \<and>
    run_fog P X drawn d' = (Serving c (Chain_valid 0) None, d') \<and>
    fg_signing_key c = su_signing_key g \<and> em_current_epoch_id (fg_epochs c) = 1 \<and>
    provision_psks (su_psks g) = Inr (device_side, fg_psk_store c) \<and> dk_provisioning d' = Some device_side \<and>
    dict_get (dk_pem d') ca_cert_path = Some (pk_cert_pem X (ca_cert_of P X g)) \<and>
    dict_get (dk_pem d') fog_tls_cert_path = Some (pk_cert_pem X (server_cert_of P X g)) \<and>
    load_private_key X fog_tls_key_path d' = Inr (su_server_key g) \<and>
    certified_by P X (ca_cert_of P X g) (server_cert_of P X g) \<and> fog_host \<in> host_names (server_cert_of P X g) \<and>
    (\<forall>g2. \<exists>d2. gen_certs P X False g2 d' = (Inr (), d2) \<and> dk_psk_store d2 = dk_psk_store d' \<and>
       dk_provisioning d2 = dk_provisioning d' \<and> dict_get (dk_pem d2) = dict_get (dk_pem d'))"
proof -
  obtain device_side fog_side d' where gen: "gen_certs P X force g d = (Inr (), d')"
    and psks: "provision_psks (su_psks g) = Inr (device_side, fog_side)" and psk: "dk_psk_store d' = Some fog_side"
      "dk_provisioning d' = Some device_side" and reg: "dk_ledger d' = No_file"
    and pem: "\<And>p. dict_get (dk_pem d') p = setup_pem P X force g d p"
    by (rule gen_certs_outcome [of P X force g d]) (use assms(4,5) in simp)
  note files = setup_pem_fresh [of force d P X g, folded pem] setup_pem_signing [of force d P X g, folded pem]
  have files': "dict_get (dk_pem d') ca_cert_path = Some (pk_cert_pem X (ca_cert_of P X g))"
    "dict_get (dk_pem d') fog_tls_cert_path = Some (pk_cert_pem X (server_cert_of P X g))"
    "dict_get (dk_pem d') fog_tls_key_path = Some (pk_pem X (su_server_key g))"
    "dict_get (dk_pem d') fog_signing_key_path = Some (pk_pem X (su_signing_key g))"
    using files assms(3) by simp_all
  have "ready_to_start d'" using files' psk by (simp add: ready_to_start_def)
  moreover have "holds_key X fog_signing_key_path (su_signing_key g) d'"
    using files'(4) assms(2) by (simp add: holds_key_def pki_ok_def)
  ultimately obtain c where c: "run_fog P X drawn d' = (Serving c (Chain_valid 0) None, d')" "fg_signing_key c = su_signing_key g"
    "fg_psk_store c = fog_side" "em_current_epoch_id (fg_epochs c) = 1"
    by (rule first_start [OF _ _ reg]) (use psk in simp)
  have again: "\<exists>d2. gen_certs P X False g2 d' = (Inr (), d2) \<and> dk_psk_store d2 = dk_psk_store d' \<and>
      dk_provisioning d2 = dk_provisioning d' \<and> dict_get (dk_pem d2) = dict_get (dk_pem d')" for g2
  proof -
    obtain d2 where d2: "gen_certs P X False g2 d' = (Inr (), d2)" "dk_psk_store d2 = dk_psk_store d'"
      "dk_provisioning d2 = dk_provisioning d'" "\<And>p. dict_get (dk_pem d2) p = setup_pem P X False g2 d' p"
      by (rule gen_certs_outcome [of P X False g2 d']) (use psk in simp)
    have "setup_pem P X False g2 d' p = dict_get (dk_pem d') p" for p
      using setup_pem_kept(1) [of d' p P X g2] setup_pem_kept(2) [of d' _ P X g2] files'
      by (cases "p = fog_signing_key_path") simp_all
    with d2 show ?thesis by (simp add: fun_eq_iff)
  qed
  from gen psks psk files' c again setup_certificates [OF assms(1), of X g] assms(2) show ?thesis
    by (simp add: load_private_key_def pki_ok_def)
qed

text \<open>
  C15: the node comes back from its files. Whatever requests were served and whatever restarts happened
  before, a start over the disk of a running node serves with the same signing key, whatever key would be
  drawn, finds the chain of all its blocks valid, answers the same root for every epoch and continues
  with the same epoch; and again the disk holds the key and the registry of the new node.
\<close>

theorem node_returns_from_disk:
  assumes "ecdsa_ok P" and "reachable P c" and "running_from X d c" and "ready_to_start d"
  shows "\<exists>c'. run_fog P X drawn d = (Serving c' (Chain_valid (ledger_len (fg_ledger c))) None, d) \<and>
    fg_signing_key c' = fg_signing_key c \<and> get_root (fg_ledger c') = get_root (fg_ledger c) \<and>
    em_current_epoch_id (fg_epochs c') = em_current_epoch_id (fg_epochs c) \<and> reachable P c' \<and> running_from X d c'"
proof -
  obtain c' where c': "run_fog P X drawn d = (Serving c' (Chain_valid (ledger_len (fg_ledger c))) None, d)"
    "fg_signing_key c' = fg_signing_key c" "get_root (fg_ledger c') = get_root (fg_ledger c)"
    "em_current_epoch_id (fg_epochs c') = em_current_epoch_id (fg_epochs c)" "reachable P c'"
    "lg_file (fg_ledger c') = lg_file (fg_ledger c)"
    by (rule later_start [OF assms])
  with assms(3) show ?thesis by (auto simp: running_from_def)
qed

definition setup_again :: "'sk platform \<Rightarrow> 'sk pki \<Rightarrow> 'sk setup_draws list \<Rightarrow> disk \<Rightarrow> disk" where
  "setup_again P X gs d = fold (\<lambda>g d. snd (gen_certs P X False g d)) gs d"

lemma setup_again_keeps:
  "dict_get (dk_pem d) ca_cert_path \<noteq> None \<Longrightarrow> p \<noteq> fog_signing_key_path \<Longrightarrow>
    dict_get (dk_pem (setup_again P X gs d)) p = dict_get (dk_pem d) p"
proof (induction gs arbitrary: d)
  case Nil
  then show ?case by (simp add: setup_again_def)
next
  case (Cons g gs)
  obtain d2 where d2: "gen_certs P X False g d = (Inr (), d2)" "\<And>q. dict_get (dk_pem d2) q = setup_pem P X False g d q"
    by (rule gen_certs_outcome [of P X False g d]) blast
  have "dict_get (dk_pem d2) q = dict_get (dk_pem d) q" if "q \<noteq> fog_signing_key_path" for q
    using d2(2) setup_pem_kept(1) [OF Cons.prems(1) that] by simp
  with Cons d2(1) show ?case by (simp add: setup_again_def)
qed

text \<open>
  C29: an interrupted setup is never completed. When the first run stopped after it wrote the certificate of
  the zone CA and before it wrote that of the fog, then however often the setup is run again, the start
  still asks for the missing certificate and tells the operator to run the setup: the setup looks at the
  first file only. (With \<open>--force\<close> it would draw a new signing key as well.)
\<close>

theorem interrupted_setup_stays:
  assumes "dict_get (dk_pem d) ca_cert_path \<noteq> None" and "dict_get (dk_pem d) fog_tls_cert_path = None"
  shows "run_fog P X drawn (setup_again P X gs d) = (Missing_file fog_tls_cert_path, setup_again P X gs d)"
  using setup_again_keeps [OF assms(1), of fog_tls_cert_path P X gs] assms(2)
  by (simp add: run_fog_def file_exists_def)

text \<open>
  C28: a forced setup orphans the registry. It draws a new signing key and leaves the registry file, so when
  the old first block is not signed by the new key, every later start reports a bad signature at
  block 0; it serves nevertheless, with the old roots, and continues at the same epoch.
\<close>

theorem forced_setup_orphans_registry:
  assumes "ecdsa_ok P" and "pki_ok X" and "reachable P c" and "running_from X d c"
    and "lg_blocks (fg_ledger c) = b # bs" and "\<not> signed_by P (public_key_bytes P (su_signing_key g)) b"
  shows "\<exists>d' c'. gen_certs P X True g d = (Inr (), d') \<and>
    run_fog P X drawn d' = (Serving c' (Bad_signature 0) None, d') \<and>
    fg_signing_key c' = su_signing_key g \<and> get_root (fg_ledger c') = get_root (fg_ledger c) \<and>
    em_current_epoch_id (fg_epochs c') = em_current_epoch_id (fg_epochs c)"
proof -
  obtain d' where gen: "gen_certs P X True g d = (Inr (), d')" and psk: "dk_psk_store d' \<noteq> None"
    and reg: "dk_ledger d' = dk_ledger d" and pem: "\<And>p. dict_get (dk_pem d') p = setup_pem P X True g d p"
    by (rule gen_certs_outcome [of P X True g d]) simp
  have "ready_to_start d'" using setup_pem_fresh [of True d P X g, folded pem] psk by (simp add: ready_to_start_def)
  moreover have "holds_key X fog_signing_key_path (su_signing_key g) d'"
    using setup_pem_signing [of True d P X g, folded pem] assms(2) by (simp add: holds_key_def pki_ok_def)
  moreover have "dk_ledger d' = lg_file (fg_ledger c)" using reg assms(4) by (simp add: running_from_def)
  ultimately show ?thesis using start_with_other_key [OF assms(1,3) _ _ _ assms(5,6)] gen by metis
qed

text \<open>
  C19: a device keeps its identity. Once it has opened its key store, every later opening under the same
  name gives the same private key, the same public key and the same DID, whatever key would be drawn, and
  changes nothing on disk; whatever other devices did in the same key store, whatever the setup, forced or
  not, and the node wrote in between.
\<close>

theorem device_identity_persists:
  assumes "pki_ok X" and "device_open P X drawn name (Some psk) keystore_dir True d = (Inr v, d1)"
    and "(disk_step P X)\<^sup>*\<^sup>* d1 d2"
  shows "device_open P X drawn' name (Some psk') keystore_dir True d2 =
    (Inr (device_init P name psk' (dv_private_key v)), d2) \<and>
    dv_did v = derive_did (public_key_bytes P (dv_private_key v)) \<and> dv_pk_bytes v = public_key_bytes P (dv_private_key v)"
proof -
  from device_open_holds [OF assms(1,2)] obtain pem where
    pem: "dict_get (dk_pem d1) (device_key_path keystore_dir name) = Some pem" "pk_load X pem = Inr (dv_private_key v)"
    by (auto simp: holds_key_def)
  with disk_steps_keep_device_key [OF assms(3) pem(1)]
  have "holds_key X (device_key_path keystore_dir name) (dv_private_key v) d2" by (simp add: holds_key_def)
  from load_or_create_held [OF this] assms(2) show ?thesis
    by (auto simp: device_open_def device_init_def split: sum.splits prod.splits)
qed

end
