(* ===== verification/Sample_Startup.thy ===== *)
theory Sample_Startup
  imports Startup Sample_Run Typed_Records
begin

text \<open>The properties of Startup and Typed_Records at concrete inputs: the toy platform, and an encoding of keys that is read back.\<close>

definition toy_pki :: "byte pki" where
  "toy_pki = \<lparr>pk_pem = (\<lambda>key. [key]), pk_load = (\<lambda>pem. case pem of [key] \<Rightarrow> Inr key | _ \<Rightarrow> Inl ValueError),
     pk_cert_pem = ct_signature, pk_tbs = (\<lambda>body. cb_public_key body), pk_key_id = take 20\<rparr>"

lemma toy_pki_ok: "pki_ok toy_pki"
  by (simp add: pki_ok_def toy_pki_def)

definition toy_draws :: "byte setup_draws" where
  "toy_draws = \<lparr>su_ca_key = 1, su_ca_now = 0, su_ca_serial = 5, su_ca_seed = 0, su_server_key = 2, su_server_now = 0,
     su_server_serial = 6, su_server_seed = 0, su_signing_key = 8, su_psks = (\<lambda>_. [10])\<rparr>"

text \<open>The disk of a node with the signing key 7.\<close>

definition node_disk :: "byte fog \<Rightarrow> disk" where
  "node_disk c = new_disk\<lparr>dk_pem := [(fog_signing_key_path, [7]), (fog_tls_cert_path, []), (fog_tls_key_path, [2])],
     dk_psk_store := Some [], dk_ledger := lg_file (fg_ledger c)\<rparr>"

lemma node_disk_ok:
  assumes "fg_signing_key c = 7"
  shows "running_from toy_pki (node_disk c) c" "ready_to_start (node_disk c)"
  using assms by (simp_all add: running_from_def node_disk_def new_disk_def holds_key_def ready_to_start_def toy_pki_def)

text \<open>A reachable node with an anchored epoch.\<close>

lemma sample_anchored:
  obtains c b bs where "reachable toy_platform c" "fg_signing_key c = 7" "lg_blocks (fg_ledger c) = b # bs"
    "\<not> signed_by toy_platform (public_key_bytes toy_platform 8) b"
proof -
  obtain c p es where run: "fog_run toy_platform sample_node es c" and act: "active toy_platform c 1 p ''sensor''"
    by (rule sample_active)
  have r: "reachable toy_platform c" using run_reachable [OF run sample_reachable] .
  have key: "fg_signing_key c = 7" using run_config [OF run] by (simp add: config_of_def sample_node_def)
  note inv = fog_invD [OF reachable_inv [OF r toy_ecdsa]]
  have L: "ledger_inv toy_platform (fg_ledger c)" using epochs_invD(1) [OF inv(2)] .
  have "get_root (fg_ledger c) (pp_epoch_id p) \<noteq> None" using act by (simp add: active_def)
  then have "lg_blocks (fg_ledger c) \<noteq> []" using L by (auto simp: ledger_inv_def get_root_def)
  then obtain b bs where b: "lg_blocks (fg_ledger c) = b # bs" by (cases "lg_blocks (fg_ledger c)") auto
  have "lg_key (fg_ledger c) = 7" using inv(7) key by simp
  then have "check_blocks toy_platform (public_key_bytes toy_platform 7) 0 (JStr genesis_prev_hash) (b # bs) = Inr (Chain_valid (length (b # bs)))"
    using L unfolding ledger_inv_def b by metis
  then obtain h where "check_block toy_platform (public_key_bytes toy_platform 7) 0 (JStr genesis_prev_hash) b = Inr (Inr h)"
    unfolding check_blocks_Cons_valid by blast
  then have "\<not> signed_by toy_platform (public_key_bytes toy_platform 8) b"
    by (auto simp: check_block_def signed_by_def verify_iff toy_platform_def public_key_bytes_def
        split: sum.splits option.splits if_splits prod.splits)
  with r key b that show thesis by blast
qed

theorem fresh_setup_serves_witness:
  "\<exists>d' (c :: byte fog). gen_certs toy_platform toy_pki False toy_draws new_disk = (Inr (), d') \<and>
     run_fog toy_platform toy_pki 9 d' = (Serving c (Chain_valid 0) None, d') \<and> fg_signing_key c = 8"
  using fresh_setup_serves [OF toy_ecdsa toy_pki_ok, of new_disk False toy_draws 9]
  by (auto simp: new_disk_def toy_draws_def)

theorem node_returns_from_disk_witness:
  "\<exists>c c' :: byte fog. lg_blocks (fg_ledger c) \<noteq> [] \<and>
     run_fog toy_platform toy_pki 9 (node_disk c) = (Serving c' (Chain_valid (ledger_len (fg_ledger c))) None, node_disk c) \<and>
     fg_signing_key c' = 7"
proof -
  obtain c b bs where c: "reachable toy_platform c" "fg_signing_key c = 7" "lg_blocks (fg_ledger c) = b # bs"
    by (rule sample_anchored)
  from node_returns_from_disk [OF toy_ecdsa c(1) node_disk_ok [OF c(2)], of 9] c show ?thesis by (metis list.distinct(1))
qed

theorem interrupted_setup_stays_witness:
  "run_fog toy_platform toy_pki 9 (setup_again toy_platform toy_pki [toy_draws] (write_ca toy_platform toy_pki toy_draws new_disk)) =
     (Missing_file fog_tls_cert_path, setup_again toy_platform toy_pki [toy_draws] (write_ca toy_platform toy_pki toy_draws new_disk))"
  by (rule interrupted_setup_stays) (simp_all add: write_ca_def new_disk_def)

theorem forced_setup_orphans_registry_witness:
  "\<exists>(c :: byte fog) d' c'. gen_certs toy_platform toy_pki True toy_draws (node_disk c) = (Inr (), d') \<and>
     run_fog toy_platform toy_pki 9 d' = (Serving c' (Bad_signature 0) None, d')"
proof -
  obtain c b bs where c: "reachable toy_platform c" "fg_signing_key c = 7" "lg_blocks (fg_ledger c) = b # bs"
    "\<not> signed_by toy_platform (public_key_bytes toy_platform 8) b"
    by (rule sample_anchored)
  have "su_signing_key toy_draws = 8" by (simp add: toy_draws_def)
  with forced_setup_orphans_registry [OF toy_ecdsa toy_pki_ok c(1) node_disk_ok(1) [OF c(2)] c(3), of toy_draws 9] c(4)
  show ?thesis by auto
qed

theorem device_identity_persists_witness:
  "\<exists>(v :: byte device) d1 d2. device_open toy_platform toy_pki 5 ''temp01'' (Some ''0a'') keystore_dir True new_disk = (Inr v, d1) \<and>
     gen_certs toy_platform toy_pki True toy_draws d1 = (Inr (), d2) \<and>
     device_open toy_platform toy_pki 6 ''temp01'' (Some ''0b'') keystore_dir True d2 =
       (Inr (device_init toy_platform ''temp01'' ''0b'' (dv_private_key v)), d2)"
proof -
  obtain v d1 where first: "device_open toy_platform toy_pki 5 ''temp01'' (Some ''0a'') keystore_dir True new_disk = (Inr v, d1)"
    by (simp add: device_open_def load_or_create_private_key_def new_disk_def)
  obtain d2 where gen: "gen_certs toy_platform toy_pki True toy_draws d1 = (Inr (), d2)" by (rule gen_certs_outcome)
  then have "(disk_step toy_platform toy_pki)\<^sup>*\<^sup>* d1 d2" by (metis disk_step.certificates r_into_rtranclp snd_conv)
  from device_identity_persists [OF toy_pki_ok first this] first gen show ?thesis by blast
qed

theorem records_well_typed_witness:
  "\<exists>(c :: byte fog) rec. device_get (fg_devices c) did1 = Some rec \<and> dr_status rec = REGISTERED \<and>
     described (fg_zone c) (fg_allowed_types c) rec \<and> dr_leaf rec \<noteq> None \<and> dr_epoch_id rec \<noteq> None"
proof -
  obtain c p es where run: "fog_run toy_platform sample_node es c" and act: "active toy_platform c 1 p ''sensor''" "pp_did p = did1"
    by (rule sample_active)
  then obtain rec where "device_get (fg_devices c) did1 = Some rec" "dr_status rec = REGISTERED"
    by (auto simp: active_def device_get_def)
  with records_well_typed [OF toy_ecdsa run_reachable [OF run sample_reachable]] show ?thesis by blast
qed

end
