(* ===== verification/Demo_Scenario.thy ===== *)
theory Demo_Scenario
  imports Token_Attacks Logger
begin

text \<open>
  scripts/demo_phase2.py with \<open>--inprocess\<close>: a fog with a temporary registry, a sensor that works with a
  provisional token, then with its package, is revoked and tries again, and a controller beside it.
  The provisioning file is a dictionary; \<open>vs i\<close> is the environment of the i-th request, \<open>n i\<close> the
  randomness of the i-th signature of a device. What is printed besides the decisions, the pauses,
  the attack scripts that step 9 calls (Token_Attacks) and the CSV of step 10 are left out.
\<close>

section \<open>Requests of the script\<close>

text \<open>The in-process client raises the exception of a handler instead of answering 500.\<close>

definition ask :: "'sk platform \<Rightarrow> env \<Rightarrow> call \<Rightarrow> ('sk, reply) action" where
  "ask P v q s =
     (case s of (d, c) \<Rightarrow>
        (case handle P v q c of
           (Server_error e, c') \<Rightarrow> (Inl (Client_exception e), d, c')
         | (r, c') \<Rightarrow> (Inr r, d, c')))"

text \<open>\<open>r.json()\<close>, whatever the status; an internal error has no JSON to decode.\<close>

fun answer_json :: "reply \<Rightarrow> client_error + json" where
  "answer_json (Reply v) = Inr v"
| "answer_json (Http_error n detail) = Inr (JObj [(''detail'', detail)])"
| "answer_json (Server_error e) = Inl (Client_exception ValueError)"

definition admin_json :: "'sk platform \<Rightarrow> env \<Rightarrow> call \<Rightarrow> ('sk, json) action" where
  "admin_json P v q = and_then (ask P v q) (\<lambda>r. give (answer_json r))"

text \<open>The other device acts; the first one waits.\<close>

definition as_device :: "'sk device \<Rightarrow> ('sk, 'a) action \<Rightarrow> ('sk, 'a \<times> 'sk device) action" where
  "as_device other m s =
     (case s of (d, c) \<Rightarrow>
        (case m (other, c) of
           (Inl e, _, c') \<Rightarrow> (Inl e, d, c')
         | (Inr a, other', c') \<Rightarrow> (Inr (a, other'), d, c')))"

definition int_at :: "json \<Rightarrow> string \<Rightarrow> client_error + int" where
  "int_at v k =
     (case json_item v k of
        Inl e \<Rightarrow> Inl (Client_exception e)
      | Inr (JInt i) \<Rightarrow> Inr i
      | Inr _ \<Rightarrow> Inl (Client_exception TypeError))"

text \<open>Whether Python takes a value for true.\<close>

fun truthy :: "json \<Rightarrow> bool" where
  "truthy JNull = False"
| "truthy (JBool b) = b"
| "truthy (JInt i) = (i \<noteq> 0)"
| "truthy (JFloat r) = (r \<noteq> 0)"
| "truthy (JStr s) = (s \<noteq> [])"
| "truthy (JArr vs) = (vs \<noteq> [])"
| "truthy (JObj d) = (d \<noteq> [])"

fun has_field :: "json \<Rightarrow> string \<Rightarrow> bool" where
  "has_field (JObj d) k = (dict_get d k \<noteq> None)"
| "has_field _ k = False"

definition decision_line :: "'sk platform \<Rightarrow> string \<Rightarrow> string \<Rightarrow> json \<Rightarrow> string" where
  "decision_line P who what resp =
     (let field = (\<lambda>k. py_str P (response_get resp k));
          line = who @ '' '' @ what @ '' -> '' @ field ''decision'' @ '' ('' @ field ''reason'' @ '')'';
          line = (if truthy (response_get resp ''detected_by'') then line @ ''  detected by: '' @ field ''detected_by'' else line)
      in if has_field resp ''identity_verified'' then line @ ''  identity_verified='' @ field ''identity_verified'' else line)"

text \<open>The level and the line of a decision, and its line on the console.\<close>

definition show_decision :: "'sk platform \<Rightarrow> string \<Rightarrow> string \<Rightarrow> json \<Rightarrow> bool \<times> string" where
  "show_decision P who what resp = (response_get resp ''decision'' = JStr ''ALLOW'', decision_line P who what resp)"

definition print_decision :: "string \<Rightarrow> bool \<times> string \<Rightarrow> console \<Rightarrow> unit res \<times> console" where
  "print_decision now shown = (case shown of (ok, line) \<Rightarrow> (if ok then log_ok else log_fail) now ''decision'' line)"

section \<open>The fog of the script\<close>

fun hash_all :: "(string, string) dict \<Rightarrow> (string, string) dict res" where
  "hash_all [] = Inr []"
| "hash_all ((n, p) # ps) =
     (case hash_psk p of
        Inl e \<Rightarrow> Inl e
      | Inr h \<Rightarrow> (case hash_all ps of Inl e \<Rightarrow> Inl e | Inr hs \<Rightarrow> Inr ((n, h) # hs)))"

definition make_transport :: "(string, string) dict \<Rightarrow> 'sk \<Rightarrow> 'sk fog res" where
  "make_transport psks signing_key =
     (case hash_all psks of
        Inl e \<Rightarrow> Inl e
      | Inr entries \<Rightarrow>
          create_app None (Some entries) signing_key No_file challenge_ttl_seconds session_ttl_seconds
            carry_forward_active admin_key_default)"

section \<open>Step 6: the provisional token\<close>

definition demo_bridge ::
    "'sk platform \<Rightarrow> (nat \<Rightarrow> env) \<Rightarrow> (nat \<Rightarrow> nat) \<Rightarrow> string \<Rightarrow> string \<Rightarrow> string \<Rightarrow> ('sk, token \<times> json list) action" where
  "demo_bridge P vs n dev_type dev_role ctl_type =
     and_then (dev_register_start P (vs 1)) (\<lambda>_.
     and_then (submit_public_key P (vs 2)) (\<lambda>challenge.
     and_then (prove_possession P (vs 3) (n 0) challenge) (\<lambda>_.
     and_then (submit_metadata P (vs 4) (Some dev_type) (Some dev_role) default_vendor fog_zone) (\<lambda>_.
     and_then (admin_json P (vs 5) Epoch_current) (\<lambda>_.
     and_then (\<lambda>(d, c). ask P (vs 6) (Get_proof (dv_did d) None) (d, c)) (\<lambda>_.
     and_then (request_token P (vs 7)) (\<lambda>token.
     and_then (token_access P (\<lambda>i. vs (8 + i)) (n 1) token dev_type ''write'') (\<lambda>(r1, _).
     and_then (token_access P (\<lambda>i. vs (10 + i)) (n 2) token dev_type ''stop'') (\<lambda>(r2, _).
     and_then (token_access P (\<lambda>i. vs (12 + i)) (n 3) token ctl_type ''read'') (\<lambda>(r3, _).
     give (Inr (token, [r1, r2, r3]))))))))))))"

section \<open>Step 7: the close and the package\<close>

definition demo_active ::
    "'sk platform \<Rightarrow> (nat \<Rightarrow> env) \<Rightarrow> (nat \<Rightarrow> nat) \<Rightarrow> string \<Rightarrow> 'sk device \<Rightarrow>
     ('sk, int \<times> (string, json) dict \<times> json list) action" where
  "demo_active P vs n dev_type ctl =
     and_then (admin_json P (vs 18) (Epoch_close None (Some admin_key_default))) (\<lambda>answer.
     and_then (give (int_at answer ''epoch_id'')) (\<lambda>epoch1.
     and_then (fetch_proof P (vs 19) None) (\<lambda>pkg.
     and_then (as_device ctl (fetch_proof P (vs 20) None)) (\<lambda>(_, ctl').
     and_then (verify_access P (\<lambda>i. vs (21 + i)) (n 5) dev_type ''write'' None) (\<lambda>(r4, _).
     and_then (verify_access P (\<lambda>i. vs (23 + i)) (n 6) dev_type ''stop'' None) (\<lambda>(r5, _).
     and_then (as_device ctl' (verify_access P (\<lambda>i. vs (25 + i)) (n 7) dev_type ''stop'' None)) (\<lambda>((r6, _), _).
     give (Inr (epoch1, pkg, [r4, r5, r6])))))))))"

section \<open>Step 8: revocation, history and the next epoch\<close>

definition check_history ::
    "'sk platform \<Rightarrow> (string, json) dict \<Rightarrow> string \<Rightarrow> bytes \<Rightarrow> client_error + bool" where
  "check_history P pkg root1 fog_pk =
     (case parse_package P pkg of
        Inl e \<Rightarrow> Inl (Client_exception e)
      | Inr p \<Rightarrow>
          (case verify_proof_package P p (Some root1) fog_pk of
             Inl e \<Rightarrow> Inl (Client_exception e)
           | Inr hist \<Rightarrow> Inr (vr_ok hist)))"

definition demo_revoked ::
    "'sk platform \<Rightarrow> (nat \<Rightarrow> env) \<Rightarrow> (nat \<Rightarrow> nat) \<Rightarrow> string \<Rightarrow> token \<Rightarrow> (string, json) dict \<Rightarrow> int \<Rightarrow> bytes \<Rightarrow>
     ('sk, json list \<times> int \<times> bool \<times> reply) action" where
  "demo_revoked P vs n dev_type token pkg epoch1 fog_pk =
     and_then (\<lambda>(d, c). admin_json P (vs 27) (Revocation_status (dv_did d)) (d, c)) (\<lambda>_.
     and_then (\<lambda>(d, c). admin_json P (vs 28) (Revoke (dv_did d) None False (Some admin_key_default)) (d, c)) (\<lambda>_.
     and_then (token_access P (\<lambda>i. vs (29 + i)) (n 8) token dev_type ''read'') (\<lambda>(r7, _).
     and_then (verify_access P (\<lambda>i. vs (31 + i)) (n 9) dev_type ''write'' (Some pkg)) (\<lambda>(r8, _).
     and_then (admin_json P (vs 33) (Registry_root epoch1)) (\<lambda>answer.
     and_then (give (text_at answer ''root'')) (\<lambda>root1.
     and_then (give (check_history P pkg root1 fog_pk)) (\<lambda>history.
     and_then (admin_json P (vs 34) (Epoch_close None (Some admin_key_default))) (\<lambda>answer2.
     and_then (give (int_at answer2 ''epoch_id'')) (\<lambda>epoch2.
     and_then (\<lambda>(d, c). admin_json P (vs 35) (Revocation_status (dv_did d)) (d, c)) (\<lambda>_.
     and_then (verify_access P (\<lambda>i. vs (36 + i)) (n 10) dev_type ''write'' (Some (dict_set ''epoch_id'' (JInt epoch2) pkg))) (\<lambda>(r9, _).
     and_then (\<lambda>(d, c). ask P (vs 38) (Get_proof (dv_did d) None) (d, c)) (\<lambda>answer3.
     give (Inr ([r7, r8, r9], epoch2, history, answer3))))))))))))))"

section \<open>The script\<close>

text \<open>The types and roles of the two devices.\<close>

definition demo_kind :: "string \<Rightarrow> string \<times> string \<Rightarrow> string \<times> string" where
  "demo_kind name other = (case dict_get demo_devices name of None \<Rightarrow> other | Some tr \<Rightarrow> tr)"

text \<open>The decisions in order, whether the history still holds, and the answer to the last request for a proof.\<close>

definition demo_labels :: "string \<Rightarrow> string \<Rightarrow> string \<Rightarrow> string \<Rightarrow> int \<Rightarrow> int \<Rightarrow> (string \<times> string) list" where
  "demo_labels device controller dev_type ctl_type epoch1 epoch2 =
     [(device, ''[token] WRITE '' @ dev_type), (device, ''[token] STOP '' @ dev_type), (device, ''[token] READ '' @ ctl_type),
      (device, ''[proof] WRITE '' @ dev_type), (device, ''[proof] STOP '' @ dev_type), (controller, ''[proof] STOP '' @ dev_type),
      (device, ''[old token, still unexpired] READ''), (device, ''[old proof, epoch '' @ str_int epoch1 @ ''] WRITE''),
      (device, ''[old proof relabelled as epoch '' @ str_int epoch2 @ '']'')]"

definition demo_steps ::
    "'sk platform \<Rightarrow> (nat \<Rightarrow> env) \<Rightarrow> (nat \<Rightarrow> nat) \<Rightarrow> (string, string) dict \<Rightarrow> string \<Rightarrow> string \<Rightarrow> 'sk \<Rightarrow> bytes \<Rightarrow>
     ('sk, (bool \<times> string) list \<times> bool \<times> reply) action" where
  "demo_steps P vs n psks device controller ctl_key fog_pk =
     (case demo_kind device sim_device_type of (dev_type, dev_role) \<Rightarrow>
      case demo_kind controller (''plc'', ''controller'') of (ctl_type, ctl_role) \<Rightarrow>
        and_then (demo_bridge P vs n dev_type dev_role ctl_type) (\<lambda>(token, rs1).
        case dict_get psks controller of
          None \<Rightarrow> give (Inl (Client_exception KeyError))
        | Some psk \<Rightarrow>
            and_then (as_device (device_init P controller psk ctl_key) (dev_register P (\<lambda>i. vs (14 + i)) (n 4))) (\<lambda>(_, ctl).
            and_then (demo_active P vs n dev_type ctl) (\<lambda>(epoch1, pkg, rs2).
            and_then (demo_revoked P vs n dev_type token pkg epoch1 fog_pk) (\<lambda>(rs3, epoch2, history, last_answer).
            give (Inr (map (\<lambda>((who, what), r). show_decision P who what r)
                (zip (demo_labels device controller dev_type ctl_type epoch1 epoch2) (rs1 @ rs2 @ rs3)), history, last_answer)))))))"

definition demo2_main ::
    "'sk platform \<Rightarrow> (nat \<Rightarrow> env) \<Rightarrow> (nat \<Rightarrow> nat) \<Rightarrow> (string, string) dict \<Rightarrow> string \<Rightarrow> string \<Rightarrow> 'sk \<Rightarrow> 'sk \<Rightarrow> 'sk \<Rightarrow>
     client_error + (bool \<times> string) list \<times> bool \<times> reply" where
  "demo2_main P vs n psks device controller fog_key dev_key ctl_key =
     (case make_transport psks fog_key of
        Inl e \<Rightarrow> Inl (Client_exception e)
      | Inr c \<Rightarrow>
          (case dict_get psks device of
             None \<Rightarrow> Inl (Client_exception KeyError)
           | Some psk \<Rightarrow>
               (case and_then (admin_json P (vs 0) Health)
                       (\<lambda>_. demo_steps P vs n psks device controller ctl_key (public_key_bytes P fog_key))
                       (device_init P device psk dev_key, c) of
                  (Inl e, _) \<Rightarrow> Inl e
                | (Inr shown, _) \<Rightarrow> Inr shown)))"

end
