(* ===== verification/Demo_Decisions.thy ===== *)
theory Demo_Decisions
  imports Demo_Scenario
begin

text \<open>
  What the script of Demo_Scenario shows. The lemmas give, for any state of the node, what a request with
  a provisional token and one with a package are answered; what a close does to each member; and
  that a sensor that registers through the script's own calls does what \<open>register\<close> does.
\<close>

section \<open>Requests with a token\<close>

text \<open>The request is decided by what comes after the nonce.\<close>

lemma token_access_decided:
  assumes t: "holds_token P c sk t tid did ty role expires" and sk: "dv_private_key d = sk"
    and fresh: "ev_now (vs 1) 0 \<le> expires" "ev_now (vs 1) 1 \<le> ev_now (vs 0) 0 + of_int (nb_ttl (book c))"
    and dec: "\<And>b. provisional_decision P t (JStr tid) (JStr did) (to_hex (ev_rnd (vs 0))) rs op
      (to_hex (sign P sk n (access_message tid did (to_hex (ev_rnd (vs 0))) rs op))) (put_nonces b c) = Reply body"
  obtains q b where "token_access P vs n t rs op (d, c) = (Inr (body, q), d, put_nonces b c)" "nb_ttl b = nb_ttl (book c)"
proof -
  have f: "token_signature_valid P t (fg_signing_key c)" "dict_get t ''token_id'' = Some (JStr tid)"
    "dict_get t ''did'' = Some (JStr did)" "was_issued (fg_token_state c) tid"
    using t by (simp_all add: holds_token_def)
  have live: "\<not> token_expired P (ev_now (vs 1) 0) t" using fresh(1) by (simp add: holds_token_live [OF t])
  obtain b where b: "tokens_access P (ev_now (vs 1)) t (to_hex (ev_rnd (vs 0))) rs op
        (to_hex (sign P (dv_private_key d) n (access_message tid did (to_hex (ev_rnd (vs 0))) rs op))) (with_token_nonce (vs 0) tid c) =
      (provisional_decision P t (JStr tid) (JStr did) (to_hex (ev_rnd (vs 0))) rs op
        (to_hex (sign P (dv_private_key d) n (access_message tid did (to_hex (ev_rnd (vs 0))) rs op))) (put_nonces b c), put_nonces b c)"
    and ttl: "nb_ttl b = nb_ttl (book c)"
    by (rule decision_reached [where v = "vs 0" and v' = "vs 1", OF f(1) live f(2,3) fresh(2)])
  have "handle P (vs 1) (Tokens_access t (to_hex (ev_rnd (vs 0))) rs op
      (to_hex (sign P (dv_private_key d) n (access_message tid did (to_hex (ev_rnd (vs 0))) rs op)))) (with_token_nonce (vs 0) tid c) =
    (Reply body, put_nonces b c)"
    using b dec [of b] sk by simp
  from token_access_eq [OF f(2-4) this] ttl that show thesis by blast
qed

lemma decision_out_of_scope:
  assumes "ecdsa_ok P" "holds_token P c sk t tid did ty role expires" "unrevoked c tid did"
    and "\<not> provisional_allowed ty rs op" "dict_get t ''allowed_operations'' \<noteq> None"
  shows "provisional_decision P t (JStr tid) (JStr did) nonce rs op (to_hex (sign P sk m (access_message tid did nonce rs op))) c =
    Reply (token_deny ''provisional_scope'' ''provisional scope check'')"
  using assms(2-5) signed_by_holder [OF assms(1,2)]
  by (auto simp: provisional_decision_def token_or_device_revoked_def holds_token_def unrevoked_def)

section \<open>Requests with a package\<close>

text \<open>What \<open>/verify\<close> does once the nonce is used up.\<close>

definition judged ::
    "'sk platform \<Rightarrow> (string, json) dict \<Rightarrow> string \<Rightarrow> string \<Rightarrow> string \<Rightarrow> string \<Rightarrow> 'sk fog \<Rightarrow> reply" where
  "judged P pkg rs op nonce sg c =
     (let did = json_field pkg ''did''; epoch_id = json_field pkg ''epoch_id''
      in case (case parse_package P pkg of
                 Inl e \<Rightarrow> Inl e
               | Inr p \<Rightarrow> verify_proof_package P p (trusted_root_of (fg_ledger c) epoch_id) (public_key_bytes P (fg_signing_key c))) of
           Inl _ \<Rightarrow> Reply (verify_deny ''malformed_proof_package'' ''proof package parser'' False epoch_id)
         | Inr result \<Rightarrow>
             if \<not> vr_ok result then Reply (verify_deny (reason_text (vr_reason result)) (vr_detected_by result) False epoch_id)
             else possession_decision P pkg did epoch_id nonce rs op sg c)"

lemma judged_put_nonces [simp]: "judged P pkg rs op nonce sg (put_nonces b c) = judged P pkg rs op nonce sg c"
  by (simp only: judged_def possession_decision_def Let_def put_simps)

lemma verify_judged:
  assumes "nonce_consume (now 0) verify_nonce_purpose (JStr (py_str P (json_field pkg ''did''))) nonce (tk_nonces (fg_token_state c)) = (Nonce_ok, b)"
  shows "verify_and_authorize P now pkg rs op nonce sg c = (judged P pkg rs op nonce sg (put_nonces b c), put_nonces b c)"
  using assms by (simp add: verify_and_authorize_def judged_def Let_def split: sum.split)

lemma verify_access_decided:
  assumes R: "runtime_ok P"
    and pkg: "(case given of None \<Rightarrow> dv_proof_package d | Some g \<Rightarrow> if g = [] then dv_proof_package d else Some g) = Some pkg"
      "dict_get pkg ''did'' = Some (JStr did)" "dict_get pkg ''epoch_id'' = Some (JInt e)"
    and known: "dict_get (fg_devices c) did \<noteq> None"
    and fresh: "ev_now (vs 1) 0 \<le> ev_now (vs 0) 0 + of_int (nb_ttl (book c))"
    and dec: "judged P pkg rs op (to_hex (ev_rnd (vs 0)))
      (to_hex (sign P (dv_private_key d) n (verify_message did (str_int e) (to_hex (ev_rnd (vs 0))) rs op))) c = Reply body"
  obtains q b where "verify_access P vs n rs op given (d, c) = (Inr (body, q), d, put_nonces b c)" "nb_ttl b = nb_ttl (book c)"
proof -
  let ?n = "to_hex (ev_rnd (vs 0))"
  let ?sg = "to_hex (sign P (dv_private_key d) n (verify_message did (str_int e) ?n rs op))"
  let ?b1 = "snd (nonce_issue (ev_rnd (vs 0)) (ev_now (vs 0) 0) verify_nonce_purpose did (book c))"
  define c1 where "c1 = put_nonces ?b1 c"
  from known obtain rec where "dict_get (fg_devices c) did = Some rec" by blast
  then have h0: "handle P (vs 0) (Verify_nonce did) c =
      (Reply (JObj [(''did'', JStr did), (''nonce'', JStr ?n), (''expires_in'', JInt (nb_ttl (book c)))]), c1)"
    using nonce_served by (simp add: c1_def)
  let ?e = "\<lparr>ne_purpose = verify_nonce_purpose, ne_subject = did, ne_expires_at = ev_now (vs 0) 0 + of_int (nb_ttl (book c)), ne_used = False\<rparr>"
  define b2 where "b2 = ?b1\<lparr>nb_entries := dict_set ?n (?e\<lparr>ne_used := True\<rparr>) (nb_entries ?b1)\<rparr>"
  have used: "nonce_consume (ev_now (vs 1) 0) verify_nonce_purpose (JStr did) ?n (tk_nonces (fg_token_state c1)) = (Nonce_ok, b2)"
  proof -
    have b: "tk_nonces (fg_token_state c1) = ?b1" by (simp add: c1_def)
    show ?thesis unfolding b b2_def using fresh by (simp add: nonce_consume_def issued_entry)
  qed
  have same: "put_nonces b2 c1 = put_nonces b2 c" by (simp add: c1_def put_nonces_def)
  have jc: "judged P pkg rs op ?n ?sg c1 = judged P pkg rs op ?n ?sg c" by (simp add: c1_def)
  have str: "py_str P (json_field pkg ''did'') = did" using R pkg(2) by (simp add: json_field_def runtime_ok_def)
  have h1: "handle P (vs 1) (Verify_access pkg rs op ?n ?sg) c1 = (Reply body, put_nonces b2 c)"
    using verify_judged [of "ev_now (vs 1)" P pkg ?n c1 b2 rs op ?sg] used dec by (simp add: str same jc)
  have fields: "text_at (JObj pkg) ''did'' = Inr did" "token_text pkg ''did'' = Inr did"
    using pkg(2) by (simp_all add: text_at_def token_text_def)
  have "verify_access P vs n rs op given (d, c) = (Inr (body, Verify_access pkg rs op ?n ?sg), d, put_nonces b2 c)"
    using R h1 pkg(3) by (simp add: verify_access_def pkg(1) fields and_then_def get_verify_nonce_def invoke_def h0 [simplified]
        json_or_raise_def text_at_def [of "JObj _" "''nonce''"] build_verify_request_def sign_verify_request_def runtime_ok_def decide_def
        del: One_nat_def)
  then show thesis by (rule that) (simp add: b2_def nonce_issue_def purge_def Let_def)
qed

text \<open>An accepted package presented by the holder of its key: the current status decides.\<close>

lemma judged_accepted:
  assumes P: "runtime_ok P" "ecdsa_ok P" and root: "get_root (fg_ledger c) (pp_epoch_id p) = Some rt"
    and acc: "accepts P p (Some rt) (public_key_bytes P (fg_signing_key c))"
    and key: "from_hex (pp_public_key p) = Inr (public_key_bytes P sk)"
  shows "judged P (dump_package p) rs op nonce
      (to_hex (sign P sk m (verify_message (pp_did p) (str_int (pp_epoch_id p)) nonce rs op))) c =
    Reply (current_decision (pp_did p) (JInt (pp_epoch_id p)) rs op (fg_devices c))"
proof -
  have fields: "json_field (dump_package p) ''did'' = JStr (pp_did p)" "json_field (dump_package p) ''epoch_id'' = JInt (pp_epoch_id p)"
    "dict_get (dump_package p) ''public_key'' = Some (JStr (pp_public_key p))"
    by (simp_all add: json_field_def dump_package_def)
  obtain result where res: "verify_proof_package P p (Some rt) (public_key_bytes P (fg_signing_key c)) = Inr result" "vr_ok result"
    using accepts_result [OF acc] by blast
  with P(1) root key verify_sign [OF P(2)] show ?thesis
    by (simp add: judged_def possession_decision_def fields parse_dump_package [OF P(1)] runtime_ok_def Let_def)
qed

text \<open>A revoked device is denied whatever its package says.\<close>

lemma judged_revoked:
  assumes "is_device_revoked (fg_devices c) did" "dict_get pkg ''did'' = Some (JStr did)"
  shows "\<exists>reason detected_by verified. judged P pkg rs op nonce sg c =
    Reply (verify_deny reason detected_by verified (json_field pkg ''epoch_id''))"
proof -
  from assms(1) have dec: "current_decision did ep rs op (fg_devices c) = verify_deny ''device_revoked'' ''revocation checker'' True ep" for ep
    by (auto simp: is_device_revoked_iff current_decision_def device_get_def)
  have "\<exists>reason detected_by verified. possession_decision P pkg (JStr did) ep nonce rs op sg c = Reply (verify_deny reason detected_by verified ep)"
    for ep by (fastforce simp: possession_decision_def dec Let_def)
  moreover have "json_field pkg ''did'' = JStr did" using assms(2) by (simp add: json_field_def)
  ultimately show ?thesis by (auto simp: judged_def Let_def split: sum.split)
qed

section \<open>The close of the batch\<close>

lemma close_collision_members:
  assumes P: "ecdsa_ok P" and inv: "fog_inv P c" and coll: "close_collision None c"
  obtains k k' rec rec' pk pk' where "k \<in> next_members [] (fg_epochs c) (fg_devices c)" "k' \<in> next_members [] (fg_epochs c) (fg_devices c)"
    "k \<noteq> k'" "dict_get (fg_devices c) k = Some rec" "from_hex (dr_public_key rec) = Inr pk"
    "dict_get (fg_devices c) k' = Some rec'" "from_hex (dr_public_key rec') = Inr pk'"
    "collides (leaf_preimage k pk) (leaf_preimage k' pk')"
proof -
  note e = epochs_invD [OF fog_invD(2) [OF inv]]
  from coll obtain pl where pl: "finalize_plan [] (fg_epochs c) (fg_devices c) = Inr pl" "did_collision (pl_members pl)"
    by (auto simp: close_collision_def)
  from finalize_plan_cases [OF e(2), of "[]"] pl(1) have m: "members_ok (pl_members pl)"
    "dict_dom (pl_members pl) = next_members [] (fg_epochs c) (fg_devices c)" by auto
  from pl(2) obtain k en k' en' pk pk' where k: "(k, en) \<in> set (pl_members pl)" "(k', en') \<in> set (pl_members pl)" "k \<noteq> k'"
    "from_hex (pe_public_key en) = Inr pk" "from_hex (pe_public_key en') = Inr pk'" "collides (leaf_preimage k pk) (leaf_preimage k' pk')"
    unfolding did_collision_def by blast
  from m(1) k(1,2) have get: "dict_get (pl_members pl) k = Some en" "dict_get (pl_members pl) k' = Some en'"
    by (simp_all add: members_ok_def)
  with finalize_plan_backed [OF e(2,3) pl(1)] k(4,5) obtain rec rec' where "dict_get (fg_devices c) k = Some rec"
    "from_hex (dr_public_key rec) = Inr pk" "dict_get (fg_devices c) k' = Some rec'" "from_hex (dr_public_key rec') = Inr pk'"
    unfolding backed_def by metis
  moreover have "k \<in> next_members [] (fg_epochs c) (fg_devices c)" "k' \<in> next_members [] (fg_epochs c) (fg_devices c)"
    using get unfolding m(2) [symmetric] by (simp_all add: dict_dom_iff)
  ultimately show thesis using that k(3,6) by blast
qed

text \<open>What an admin's close does to a batch that is not empty: \<open>ms\<close> are the members of the new root.\<close>

lemma close_effect:
  assumes P: "ecdsa_ok P" and inv: "fog_inv P c" and ms: "next_members [] (fg_epochs c) (fg_devices c) = ms" "ms \<noteq> {}"
    and nocoll: "\<not> close_collision None c"
  obtains fields c' rt where "handle P v (Epoch_close None (Some (fg_admin_key c))) c =
      (Reply (JObj ((''epoch_id'', JInt (em_current_epoch_id (fg_epochs c))) # fields)), c')"
    "fog_inv P c'" "config_of c' = config_of c" "fg_token_state c' = fg_token_state c" "queued c' = {}"
    "em_carry_forward (fg_epochs c') = em_carry_forward (fg_epochs c)"
    "em_current_epoch_id (fg_epochs c') = em_current_epoch_id (fg_epochs c) + 1"
    "\<exists>b\<in>set (lg_blocks (fg_ledger c')). dict_get b ''epoch_id'' = Some (JInt (em_current_epoch_id (fg_epochs c)))"
    "get_root (fg_ledger c') (em_current_epoch_id (fg_epochs c)) = Some rt"
    "\<forall>k\<in>ms. \<exists>pkg. dict_get (em_latest_package (fg_epochs c')) k = Some pkg \<and> pp_did pkg = k \<and>
       pp_epoch_id pkg = em_current_epoch_id (fg_epochs c) \<and> pp_root pkg = rt \<and>
       accepts P pkg (Some rt) (public_key_bytes P (fg_signing_key c')) \<and>
       (\<forall>rec. dict_get (fg_devices c) k = Some rec \<longrightarrow> from_hex (pp_public_key pkg) = from_hex (dr_public_key rec))"
    "\<forall>k rec. dict_get (fg_devices c) k = Some rec \<longrightarrow> (\<exists>rec'. dict_get (fg_devices c') k = Some rec' \<and>
       dr_status rec' = (if k \<in> ms then REGISTERED else dr_status rec) \<and> dr_role rec' = dr_role rec \<and>
       dr_device_type rec' = dr_device_type rec \<and> dr_public_key rec' = dr_public_key rec)"
    "\<forall>k. dict_get (fg_devices c) k = None \<longrightarrow> dict_get (fg_devices c') k = None"
proof -
  note i = fog_invD [OF inv]
  note e = epochs_invD [OF i(2)]
  let ?E = "fg_epochs c" and ?D = "fg_devices c" and ?L = "fg_ledger c"
  show thesis
  proof (cases rule: finalize_epoch_cases [OF P e(1) e(5) [OF order.refl] e(2), of "[]" "ev_timestamp v" "ev_seed v" "ev_leaf_seed v"])
    case 1
    with ms show ?thesis by simp
  next
    case (3 pl)
    with nocoll show ?thesis by (simp add: close_collision_def)
  next
    case (2 pl r E' D' L')
    let ?c' = "c\<lparr>fg_epochs := E', fg_devices := D', fg_ledger := L'\<rparr>"
    note c' = 2(5)
    have er: "er_epoch_id r = em_current_epoch_id ?E" using c' by (simp add: epoch_closed_def)
    have step: "handle P v (Epoch_close None (Some (fg_admin_key c))) c = (Reply (close_reply (ev_timings v) r), ?c')"
      using 2(4) by (simp add: epoch_close_def admin_ok_def)
    have inv': "fog_inv P ?c'"
      using handle_inv [OF P inv, of v "Epoch_close None (Some (fg_admin_key c))"] unfolding step by simp
    have rest: "queued ?c' = {}" "em_carry_forward E' = em_carry_forward ?E" "em_current_epoch_id E' = em_current_epoch_id ?E + 1"
      "get_root L' (em_current_epoch_id ?E) = Some (er_root r)"
      using c' by (simp_all add: epoch_closed_def queued_def)
    have dom: "dict_dom (er_packages r) = ms" using c' 2(3) ms(1) by (simp add: epoch_closed_def)
    from c' obtain ts n cnt b where anchor: "anchor_root P ts n (em_current_epoch_id ?E) (er_root r) cnt ?L = Inr (b, L')"
      unfolding epoch_closed_def by blast
    then have block: "\<exists>b\<in>set (lg_blocks L'). dict_get b ''epoch_id'' = Some (JInt (em_current_epoch_id ?E))"
      by (auto simp: anchor_root_def Let_def save_def split: if_splits sum.splits)
    have pkgs: "\<exists>pkg. dict_get (em_latest_package E') k = Some pkg \<and> pp_did pkg = k \<and>
       pp_epoch_id pkg = em_current_epoch_id ?E \<and> pp_root pkg = er_root r \<and>
       accepts P pkg (Some (er_root r)) (public_key_bytes P (fg_signing_key c)) \<and>
       (\<forall>rec. dict_get ?D k = Some rec \<longrightarrow> from_hex (pp_public_key pkg) = from_hex (dr_public_key rec))" if "k \<in> ms" for k
    proof -
      from that obtain pkg where pkg: "dict_get (er_packages r) k = Some pkg" unfolding dom [symmetric] by (auto simp: dict_dom_iff)
      from that obtain en where en: "dict_get (pl_members pl) k = Some en" using 2(3) ms(1) by (auto simp: dict_dom_iff)
      have facts: "pp_did pkg = k" "pp_public_key pkg = pe_public_key (the (dict_get (pl_members pl) k))"
        "pp_epoch_id pkg = em_current_epoch_id ?E" "accepts P pkg (Some (er_root r)) (public_key_bytes P (em_signing_key ?E))"
        using c' pkg unfolding epoch_closed_def by blast+
      have "pp_root pkg = er_root r" using facts(4) unfolding accepts_iff by auto
      moreover have "dict_get (em_latest_package E') k = Some pkg" using c' pkg unfolding epoch_closed_def by simp
      moreover have "from_hex (pp_public_key pkg) = from_hex (dr_public_key rec)" if "dict_get ?D k = Some rec" for rec
        using finalize_plan_backed [OF e(2,3) 2(1)] en facts(2) that unfolding backed_def by fastforce
      ultimately show ?thesis using facts i(4) by simp
    qed
    have D': "dict_get D' k = (case dict_get (er_packages r) k of None \<Rightarrow> dict_get ?D k
        | Some pkg \<Rightarrow> map_option (\<lambda>rec. rec\<lparr>dr_status := REGISTERED, dr_leaf := Some (pp_leaf pkg),
            dr_epoch_id := Some (em_current_epoch_id ?E)\<rparr>) (dict_get ?D k))" for k
      using c' unfolding epoch_closed_def by blast
    have gone: "dict_get D' k = None" if "dict_get ?D k = None" for k
      using that by (simp add: D' split: option.split)
    have devs: "\<exists>rec'. dict_get D' k = Some rec' \<and> dr_status rec' = (if k \<in> ms then REGISTERED else dr_status rec) \<and>
       dr_role rec' = dr_role rec \<and> dr_device_type rec' = dr_device_type rec \<and> dr_public_key rec' = dr_public_key rec"
      if "dict_get ?D k = Some rec" for k rec
      using that unfolding dom [symmetric] by (cases "dict_get (er_packages r) k") (simp_all add: D' dict_dom_iff)
    show ?thesis
      by (rule that [where rt = "er_root r", OF step [unfolded close_reply_def er list.simps] inv' _ _ rest(1) _ _ _ _ _ _ _])
        (use rest block in \<open>simp_all add: pkgs devs gone\<close>)
  qed
qed

text \<open>The registry serves the root of every anchored epoch.\<close>

lemma root_served:
  assumes inv: "fog_inv P c" and b: "\<exists>b\<in>set (lg_blocks (fg_ledger c)). dict_get b ''epoch_id'' = Some (JInt e)"
    and rt: "get_root (fg_ledger c) e = Some rt"
  obtains fields where "handle P v (Registry_root e) c = (Reply (JObj ((''epoch_id'', JInt e) # (''root'', JStr rt) # fields)), c)"
proof -
  have "\<exists>b. find_block bs e = Inr (Some b) \<and> dict_get b ''root'' = Some (JStr rt)"
    if "\<exists>b\<in>set bs. dict_get b ''epoch_id'' = Some (JInt e)"
      "\<forall>b\<in>set bs. \<exists>e rt. dict_get b ''epoch_id'' = Some (JInt e) \<and> dict_get b ''root'' = Some (JStr rt) \<and> get_root (fg_ledger c) e = Some rt" for bs
    using that
  proof (induction bs)
    case (Cons b bs)
    then obtain e' rt' where "dict_get b ''epoch_id'' = Some (JInt e')" "dict_get b ''root'' = Some (JStr rt')"
      "get_root (fg_ledger c) e' = Some rt'" by auto
    with Cons rt show ?case by (cases "e' = e") auto
  qed simp
  with b fog_invD(3) [OF inv] obtain b where "find_block (lg_blocks (fg_ledger c)) e = Inr (Some b)" "dict_get b ''root'' = Some (JStr rt)"
    unfolding registry_inv_def by blast
  then show thesis using that by (simp add: registry_root_def get_block_def)
qed

section \<open>The script is a caller of the fog\<close>

lemma drives_give: "drives P (give x)"
  by (rule drives_idle) (simp add: give_def)

lemma drives_ask: "drives P (ask P v q)"
  unfolding drives_def
proof
  fix s :: "'a device \<times> 'a fog"
  obtain d c r c' where s: "s = (d, c)" "handle P v q c = (r, c')" by (metis surj_pair)
  then have "fog_run P c [Answered v q r] c'" by (simp add: fog_run_Cons fog_step_answered)
  then show "\<exists>es. fog_run P (snd s) es (snd (snd (ask P v q s)))" by (cases r) (auto simp: s ask_def)
qed

lemma drives_decide: "drives P (decide P v q)"
  unfolding drives_def
proof
  fix s :: "'a device \<times> 'a fog"
  obtain d c r c' where s: "s = (d, c)" "handle P v q c = (r, c')" by (metis surj_pair)
  then have "fog_run P c [Answered v q r] c'" by (simp add: fog_run_Cons fog_step_answered)
  then show "\<exists>es. fog_run P (snd s) es (snd (snd (decide P v q s)))" by (cases r) (auto simp: s decide_def)
qed

lemma drives_as_device:
  assumes m: "drives P m"
  shows "drives P (as_device x m)"
  unfolding drives_def
proof
  fix s :: "'a device \<times> 'a fog"
  obtain d c r x' c' where s: "s = (d, c)" "m (x, c) = (r, x', c')" by (metis surj_pair)
  from drivesD [OF m s(2)] show "\<exists>es. fog_run P (snd s) es (snd (snd (as_device x m s)))"
    by (cases r) (auto simp: s as_device_def)
qed

lemma drives_admin_json: "drives P (admin_json P v q)"
  unfolding admin_json_def by (intro drives_bind drives_ask drives_give)

text \<open>It is enough to look at one state at a time.\<close>

lemma drives_at:
  assumes "\<And>d c. \<exists>m. drives P m \<and> f (d, c) = m (d, c)"
  shows "drives P f"
  unfolding drives_def
proof
  fix s :: "'a device \<times> 'a fog"
  obtain d c where s: "s = (d, c)" by (metis surj_pair)
  from assms obtain m where "drives P m" "f (d, c) = m (d, c)" by blast
  then show "\<exists>es. fog_run P (snd s) es (snd (snd (f s)))" unfolding s drives_def by metis
qed

lemma drives_request: "drives P (\<lambda>(d, c). case g d of Inl e \<Rightarrow> (Inl e, d, c) | Inr q \<Rightarrow> decide P v q (d, c))"
proof (rule drives_at)
  fix d c
  show "\<exists>m. drives P m \<and> (case (d, c) of (d, c) \<Rightarrow> case g d of Inl e \<Rightarrow> (Inl e, d, c) | Inr q \<Rightarrow> decide P v q (d, c)) = m (d, c)"
    by (cases "g d") (use drives_give [of P "Inl _"] drives_decide in \<open>force simp: give_def\<close>)+
qed

lemma drives_token_access: "drives P (token_access P vs n t rs op)"
proof -
  have nonce: "drives P (get_token_nonce P v tid)" for v tid
    unfolding get_token_nonce_def by (rule drives_bind [OF drives_invoke drives_idle]) simp
  show ?thesis unfolding token_access_def [abs_def] by (intro drives_attempt drives_bind nonce drives_request)
qed

lemma drives_verify_access: "drives P (verify_access P vs n rs op given)"
proof -
  have nonce: "drives P (get_verify_nonce P v did)" for v did
    unfolding get_verify_nonce_def by (rule drives_bind [OF drives_invoke drives_idle]) simp
  show ?thesis unfolding verify_access_def [abs_def]
    by (intro drives_read drives_session drives_attempt drives_bind nonce drives_request)
qed

lemma drives_request_token: "drives P (request_token P v)"
  unfolding request_token_def [abs_def]
  by (intro drives_read drives_session drives_bind drives_invoke drives_idle) (simp split: json.split)

lemma drives_fetch_proof: "drives P (fetch_proof P v e)"
  unfolding fetch_proof_def [abs_def] post_def
  by (rule drives_read, rule drives_bind [OF drives_invoke drives_idle]) (auto split: prod.split json.split)

text \<open>Whatever a caller gets out of the fog, it leaves it consistent.\<close>

lemma drives_inv: "drives P m \<Longrightarrow> ecdsa_ok P \<Longrightarrow> fog_inv P c \<Longrightarrow> m (d, c) = (x, d', c') \<Longrightarrow> fog_inv P c'"
  using drivesD run_inv by metis

lemma drives_pair: "(\<And>a b. drives P (f a b)) \<Longrightarrow> drives P (case p of (a, b) \<Rightarrow> f a b)"
  by (cases p) simp

lemma drives_pair_arg: "(\<And>a b. drives P (f a b x)) \<Longrightarrow> drives P ((case p of (a, b) \<Rightarrow> f a b) x)"
  by (cases p) simp

lemma drives_asked: "drives P (\<lambda>(d, c). ask P v (q d) (d, c))" "drives P (\<lambda>(d, c). admin_json P v (q d) (d, c))"
  by (rule drives_at, use drives_ask drives_admin_json in fastforce)+

lemmas drives_calls = drives_bind drives_pair drives_pair_arg drives_onboarding drives_asked drives_ask drives_admin_json drives_give
  drives_as_device drives_token_access drives_verify_access drives_request_token drives_fetch_proof

lemma drives_bridge: "drives P (demo_bridge P vs n ty role ctl_type)"
  unfolding demo_bridge_def by (intro drives_calls)

lemma drives_active: "drives P (demo_active P vs n ty ctl)"
  unfolding demo_active_def by (intro drives_calls)

end
