(* ===== verification/Demo_Run.thy ===== *)
theory Demo_Run
  imports Demo_Decisions
begin

text \<open>
  The run of scripts/demo_phase2.py: a fresh fog, the sensor temp02 and the controller plc01 with keys that
  give different DIDs. Each section follows one step of the script with the exact state it leaves; the
  property at the end says what the nine decisions, the look at the history and the last answer are.
\<close>

section \<open>Steps that only read\<close>

lemma and_then_next: "m s = (Inr a, s') \<Longrightarrow> and_then m f s = f a s'"
  by (simp add: and_then_def)

lemma admin_json_reply: "handle P v q c = (Reply x, c') \<Longrightarrow> admin_json P v q (d, c) = (Inr x, d, c')"
  by (simp add: admin_json_def and_then_def ask_def give_def)

lemma ask_answer: "handle P v q c = (r, c') \<Longrightarrow> \<not> raises r \<Longrightarrow> ask P v q (d, c) = (Inr r, d, c')"
  by (cases r) (simp_all add: ask_def)

lemma give_next: "and_then (give (Inr a)) f s = f a s"
  by (simp add: and_then_def give_def)

lemma epoch_current_read:
  assumes "fog_inv P c"
  obtains x where "handle P v Epoch_current c = (Reply x, c)"
  using fog_invD(3) [OF assms] that by (auto simp: registry_inv_def epoch_current_def)

lemma proof_read: obtains r where "handle P v (Get_proof did e) c = (r, c)" "\<not> raises r"
proof -
  obtain r c' where h: "route_get_proof did e c = (r, c')" by fastforce
  then have "c' = c" "\<not> raises r" by (auto simp: route_get_proof_def split: option.splits if_splits)
  with h that show thesis by simp
qed

lemma status_read:
  assumes "dict_get (fg_devices c) did = Some rec"
  obtains x where "handle P v (Revocation_status did) c = (Reply x, c)"
  using that assms by (simp add: revocation_status_def device_get_def Let_def)

lemma in_window_shift: "in_window t w vs \<Longrightarrow> in_window t w (\<lambda>i. vs (k + i))"
  by (simp add: in_window_def)

section \<open>Registration through the calls of the script\<close>

lemma onboard_name: "dev_onboard P vs n (d, c) = (x, d', c') \<Longrightarrow> dv_name d' = dv_name d"
  by (auto simp: dev_onboard_def and_then_def dev_register_start_def submit_public_key_def prove_possession_def post_def invoke_def
      split: prod.splits sum.splits option.splits)

lemma submit_metadata_default:
  assumes "default_kind (dv_name d) = (ty, role)" "ty \<noteq> []" "role \<noteq> []"
  shows "submit_metadata P v (Some ty) (Some role) ve z (d, c) = submit_metadata P v None None ve z (d, c)"
proof -
  have "metadata_body d k (Some ty) (Some role) ve z = metadata_body d k None None ve z" for k
    using assms by (auto simp: metadata_body_def default_kind_def or_default_def Let_def split: option.split prod.split)
  then show ?thesis by (simp add: submit_metadata_def split: option.split)
qed

lemma script_registers:
  assumes reg: "dev_register P vs n (d, c) = (Inr data, s')" and kind: "default_kind (dv_name d) = (ty, role)" "ty \<noteq> []" "role \<noteq> []"
  shows "and_then (dev_register_start P (vs 0)) (\<lambda>_. and_then (submit_public_key P (vs 1)) (\<lambda>challenge.
     and_then (prove_possession P (vs 2) n challenge) (\<lambda>_.
     and_then (submit_metadata P (vs 3) (Some ty) (Some role) default_vendor fog_zone) k))) (d, c) = k data s'"
proof -
  obtain x d1 c1 where on: "dev_onboard P vs n (d, c) = (x, d1, c1)" by (metis surj_pair)
  with reg obtain y where x: "x = Inr y" by (cases x) (simp_all add: dev_register_def and_then_def)
  have "dv_name d1 = dv_name d" by (rule onboard_name [OF on])
  with kind have "submit_metadata P (vs 3) (Some ty) (Some role) default_vendor fog_zone (d1, c1) =
      submit_metadata P (vs 3) None None default_vendor fog_zone (d1, c1)" by (intro submit_metadata_default) simp_all
  also have "\<dots> = (Inr data, s')" using reg on x by (simp add: dev_register_def and_then_def)
  finally have "and_then (dev_onboard P vs n) (\<lambda>_. and_then (submit_metadata P (vs 3) (Some ty) (Some role) default_vendor fog_zone) k) (d, c) =
      k data s'" using on x by (simp add: and_then_def)
  then show ?thesis by (simp add: dev_onboard_def and_then_assoc)
qed

text \<open>Another newcomer stays one.\<close>

lemma newcomer_kept:
  assumes "newcomer P c x" "config_of c' = config_of c" "dict_get (fg_devices c') (dv_did x) = None"
    and "\<exists>k. \<forall>j. view c' j = (if j = k then Some (st, Some did) else view c j)" "did \<noteq> dv_did x"
  shows "newcomer P c' x"
proof -
  from assms(4) obtain k where k: "\<And>j. view c' j = (if j = k then Some (st, Some did) else view c j)" by blast
  have "st' = AUTHENTICATED" if "view c' j = Some (st', Some (dv_did x))" for j st'
    using that k [of j] assms(1,5) by (auto simp: newcomer_def split: if_splits)
  moreover have "authorised c' a = authorised c a" for a using assms(2) by (simp add: authorised_def config_of_def)
  ultimately show ?thesis using assms(1-3) by (auto simp: newcomer_def config_of_def device_get_def)
qed

section \<open>Step 6: the provisional token\<close>

lemma scope_denied:
  assumes P: "ecdsa_ok P" and t: "holds_token P c sk t tid did ty role expires" "unrevoked c tid did" "dict_get t ''allowed_operations'' \<noteq> None"
    and sk: "dv_private_key d = sk" and scope: "\<not> provisional_allowed ty rs op"
    and fresh: "ev_now (vs 1) 0 \<le> expires" "ev_now (vs 1) 1 \<le> ev_now (vs 0) 0 + of_int (nb_ttl (book c))"
  obtains q b where "token_access P vs n t rs op (d, c) = (Inr (token_deny ''provisional_scope'' ''provisional scope check'', q), d, put_nonces b c)"
    "nb_ttl b = nb_ttl (book c)"
  by (rule token_access_decided [OF t(1) sk fresh decision_out_of_scope [OF P _ _ scope t(3)]]) (use t in simp_all)

lemma book_put_nonces: "book (put_nonces b c) = b"
  by (simp add: book_def)

text \<open>\<open>granted c did\<close>: the state after a token was issued to the device.\<close>

definition granted :: "env \<Rightarrow> string \<Rightarrow> 'sk fog \<Rightarrow> 'sk fog" where
  "granted v did c = c\<lparr>fg_token_state := record_issued (to_hex (ev_rnd v)) did (fg_token_state c),
     fg_devices := set_status did TOKENIZED (fg_devices c)\<rparr>"

lemma bridge_shown:
  fixes P :: "'sk platform" and vs :: "nat \<Rightarrow> env"
  assumes P: "ecdsa_ok P" and time: "in_window t w vs" "w \<le> 30" "nb_ttl (book c) = 30"
    and reg: "dev_register P (\<lambda>i. vs (1 + i)) (n 0) (d0, c0) = (Inr data, d, c)" and kind: "default_kind (dv_name d0) = (ty, role)"
    and inv: "fog_inv P c" and d: "dv_did d = did" "dv_private_key d = sk" "dv_session_id d = Some k"
    and s: "dict_get (st_sessions (fg_sessions c)) k = Some s" "ss_state s = METADATA_ACCEPTED" "ss_did s = Some did"
      "ev_now (vs 7) 0 \<le> ss_created_at s + of_int (st_ttl (fg_sessions c))"
    and rec: "dict_get (fg_devices c) did = Some rec" "dr_status rec = PENDING" "dr_public_key rec = to_hex (public_key_bytes P sk)"
      "dr_device_type rec = Some ty" "dr_role rec = Some role" "role_valid_for_type (Some ty) (Some role)"
    and new: "\<not> is_revoked (fg_token_state c) (to_hex (ev_rnd (vs 7)))"
    and scope: "provisional_allowed ty ty ''write''" "check_policy ty ''write'' role" "\<not> provisional_allowed ty ty ''stop''"
      "\<not> provisional_allowed ty ctl_type ''read''" "ty \<noteq> []" "role \<noteq> []"
  obtains tok b where "demo_bridge P vs n ty role ctl_type (d0, c0) =
      (Inr (tok, [token_allow, token_deny ''provisional_scope'' ''provisional scope check'', token_deny ''provisional_scope'' ''provisional scope check'']),
       d, put_nonces b (granted (vs 7) did c))"
    "holds_token P (granted (vs 7) did c) sk tok (to_hex (ev_rnd (vs 7))) did ty role (ev_now (vs 7) 1 + token_ttl_seconds)"
    "nb_ttl b = 30"
proof -
  let ?tid = "to_hex (ev_rnd (vs 7))" and ?exp = "ev_now (vs 7) 1 + token_ttl_seconds" and ?c = "granted (vs 7) did c"
  let ?no = "token_deny ''provisional_scope'' ''provisional scope check''"
  obtain x where cur: "admin_json P (vs 5) Epoch_current (d, c) = (Inr x, d, c)"
    using epoch_current_read [OF inv] admin_json_reply by metis
  obtain r where asked: "ask P (vs 6) (Get_proof (dv_did d) None) (d, c) = (Inr r, d, c)"
    using proof_read ask_answer by metis
  obtain tok c' where req: "request_token P (vs 7) (d, c) = (Inr tok, d, c')" and c': "c' = ?c" "book c' = book c"
    and tok: "holds_token P c' sk tok ?tid did ty role ?exp" "unrevoked c' ?tid did" "dict_get tok ''allowed_operations'' \<noteq> None"
    using token_served [where v = "vs 7", OF P inv d(3) s rec new] unfolding granted_def by metis
  have "w \<le> token_ttl_seconds" using time(2) by (simp add: token_ttl_seconds_def)
  then have live: "ev_now (vs i) j \<le> ?exp" for i j using in_windowD [OF time(1)] by blast
  have fresh: "ev_now (vs i) j \<le> ev_now (vs i') j' + of_int (nb_ttl b)" if "nb_ttl b = 30" for i j i' j' and b :: nonce_book
    using in_windowD [OF time(1), of 30] time(2) that by simp
  have ttl: "nb_ttl (book ?c) = 30" using c' time(3) by simp
  note tok' = tok [unfolded c'(1)]
  obtain q1 b1 where a1: "token_access P (\<lambda>i. vs (8 + i)) (n 1) tok ty ''write'' (d, ?c) = (Inr (token_allow, q1), d, put_nonces b1 ?c)"
    and b1: "nb_ttl b1 = 30"
    by (rule token_access_succeeds [where vs = "\<lambda>i. vs (8 + i)" and n = "n 1" and d = d,
          OF P tok'(1) [folded d(2)] tok'(2) scope(1,2) live fresh [OF ttl]]) (simp add: ttl)
  obtain q2 b2 where a2: "token_access P (\<lambda>i. vs (10 + i)) (n 2) tok ty ''stop'' (d, put_nonces b1 ?c) = (Inr (?no, q2), d, put_nonces b2 (put_nonces b1 ?c))"
    and b2: "nb_ttl b2 = 30"
    by (rule scope_denied [where vs = "\<lambda>i. vs (10 + i)" and n = "n 2" and c = "put_nonces b1 ?c",
          OF P _ _ tok(3) d(2) scope(3) live fresh]) (use tok' b1 in \<open>simp_all add: book_put_nonces\<close>)
  obtain q3 b3 where a3: "token_access P (\<lambda>i. vs (12 + i)) (n 3) tok ctl_type ''read'' (d, put_nonces b2 (put_nonces b1 ?c)) =
      (Inr (?no, q3), d, put_nonces b3 (put_nonces b2 (put_nonces b1 ?c)))" and b3: "nb_ttl b3 = 30"
    by (rule scope_denied [where vs = "\<lambda>i. vs (12 + i)" and n = "n 3" and c = "put_nonces b2 (put_nonces b1 ?c)",
          OF P _ _ tok(3) d(2) scope(4) live fresh]) (use tok' b2 in \<open>simp_all add: book_put_nonces\<close>)
  have "put_nonces b3 (put_nonces b2 (put_nonces b1 ?c)) = put_nonces b3 ?c" by (simp add: put_nonces_def)
  moreover have ix: "vs (1 + 0) = vs 1" "vs (1 + 1) = vs 2" "vs (1 + 2) = vs 3" "vs (1 + 3) = vs 4" by (simp_all add: eval_nat_numeral)
  note start = script_registers [where vs = "\<lambda>i. vs (1 + i)", OF reg kind scope(5,6), unfolded ix]
  ultimately have "demo_bridge P vs n ty role ctl_type (d0, c0) = (Inr (tok, [token_allow, ?no, ?no]), d, put_nonces b3 ?c)"
    using cur asked req c'(1) a1 a2 a3 by (simp add: demo_bridge_def start and_then_next give_def del: One_nat_def)
  with that tok'(1) b3 show thesis by blast
qed

section \<open>Step 7: membership\<close>

text \<open>What the close of its epoch proves of the holder of a key, for ever.\<close>

definition proven :: "'sk platform \<Rightarrow> 'sk fog \<Rightarrow> 'sk \<Rightarrow> proof_package \<Rightarrow> bool" where
  "proven P c sk p \<longleftrightarrow> get_root (fg_ledger c) (pp_epoch_id p) = Some (pp_root p) \<and>
     accepts P p (Some (pp_root p)) (public_key_bytes P (fg_signing_key c)) \<and>
     from_hex (pp_public_key p) = Inr (public_key_bytes P sk)"

lemma proven_put_nonces [simp]: "proven P (put_nonces b c) sk p = proven P c sk p"
  by (simp add: proven_def)

lemma proven_decided:
  assumes P: "runtime_ok P" "ecdsa_ok P" and p: "proven P c sk p" and key: "dv_private_key d = sk"
    and given: "given = None \<and> dv_proof_package d = Some (dump_package p) \<or> given = Some (dump_package p)"
    and known: "dict_get (fg_devices c) (pp_did p) \<noteq> None"
    and fresh: "ev_now (vs 1) 0 \<le> ev_now (vs 0) 0 + of_int (nb_ttl (book c))"
  obtains q b where "verify_access P vs n rs op given (d, c) =
      (Inr (current_decision (pp_did p) (JInt (pp_epoch_id p)) rs op (fg_devices c), q), d, put_nonces b c)" "nb_ttl b = nb_ttl (book c)"
proof (rule verify_access_decided [where given = given and d = d and n = n, OF P(1) _ _ _ known fresh])
  have "dump_package p \<noteq> []" by (simp add: dump_package_def)
  with given show "(case given of None \<Rightarrow> dv_proof_package d | Some g \<Rightarrow> if g = [] then dv_proof_package d else Some g) = Some (dump_package p)"
    by auto
  show "dict_get (dump_package p) ''did'' = Some (JStr (pp_did p))" "dict_get (dump_package p) ''epoch_id'' = Some (JInt (pp_epoch_id p))"
    by (simp_all add: dump_package_def)
  show "judged P (dump_package p) rs op (to_hex (ev_rnd (vs 0))) (to_hex (sign P (dv_private_key d) n
      (verify_message (pp_did p) (str_int (pp_epoch_id p)) (to_hex (ev_rnd (vs 0))) rs op))) c =
    Reply (current_decision (pp_did p) (JInt (pp_epoch_id p)) rs op (fg_devices c))"
    unfolding key using p by (intro judged_accepted [OF P]) (auto simp: proven_def)
qed (rule that)

lemma proof_fetched:
  assumes "dict_get (fg_devices c) (dv_did d) = Some rec" "dr_status rec \<noteq> REVOKED"
    and "dict_get (em_latest_package (fg_epochs c)) (dv_did d) = Some p"
  shows "fetch_proof P v None (d, c) = (Inr (dump_package p), d\<lparr>dv_proof_package := Some (dump_package p)\<rparr>, c)"
  using assms by (simp add: fetch_proof_def and_then_def register_step route_get_proof_def device_get_def get_package_def)

lemma as_device_ok: "m (x, c) = (Inr a, x', c') \<Longrightarrow> as_device x m (d, c) = (Inr (a, x'), d, c')"
  by (simp add: as_device_def)

text \<open>\<open>standing c did s ty role pk\<close>: the record that the fog keeps of the device.\<close>

definition standing :: "'sk fog \<Rightarrow> string \<Rightarrow> device_status \<Rightarrow> string \<Rightarrow> string \<Rightarrow> bytes \<Rightarrow> bool" where
  "standing c did s ty role pk \<longleftrightarrow> (\<exists>rec. dict_get (fg_devices c) did = Some rec \<and> dr_status rec = s \<and>
     dr_device_type rec = Some ty \<and> dr_role rec = Some role \<and> from_hex (dr_public_key rec) = Inr pk)"

lemma standing_put_nonces [simp]: "standing (put_nonces b c) did s ty role pk = standing c did s ty role pk"
  by (simp add: standing_def)

lemma registered_decision:
  assumes "standing c did REGISTERED ty role pk" "role_valid_for_type (Some ty) (Some role)"
  shows "current_decision did ep rs op (fg_devices c) =
    (if check_policy rs op role then verify_allow ep role else verify_deny ''policy_denied'' ''access policy'' True ep)"
  using assms by (auto simp: standing_def current_decision_def device_get_def)

lemma revoked_decision:
  assumes "standing c did REVOKED ty role pk"
  shows "current_decision did ep rs op (fg_devices c) = verify_deny ''device_revoked'' ''revocation checker'' True ep"
  using assms by (auto simp: standing_def current_decision_def device_get_def)

text \<open>The fog with the sensor and the controller, and nobody else.\<close>

definition only_two :: "'sk fog \<Rightarrow> string \<Rightarrow> string \<Rightarrow> bool" where
  "only_two c did cid \<longleftrightarrow> did \<noteq> cid \<and> (\<forall>k. dict_get (fg_devices c) k \<noteq> None \<longrightarrow> k = did \<or> k = cid)"

lemma first_close:
  assumes P: "ecdsa_ok P" and inv: "fog_inv P c" and two: "only_two c did cid" and q: "queued c = {did, cid}"
    and st: "standing c did TOKENIZED ty role pk" "standing c cid PENDING ty' role' pk'"
    and nocoll: "\<not> collides (leaf_preimage did pk) (leaf_preimage cid pk')"
  shows "next_members [] (fg_epochs c) (fg_devices c) = {did, cid}" "\<not> close_collision None c"
proof -
  have q': "dict_get (em_pending (fg_epochs c)) k \<noteq> None \<longleftrightarrow> k = did \<or> k = cid" for k
  proof -
    have "k \<in> dict_dom (em_pending (fg_epochs c)) \<longleftrightarrow> k \<in> {did, cid}" using q unfolding queued_def by simp
    then show ?thesis unfolding dict_dom_iff by simp
  qed
  show ms: "next_members [] (fg_epochs c) (fg_devices c) = {did, cid}"
  proof (rule set_eqI)
    fix k
    have "dr_status rec \<noteq> REGISTERED \<and> dr_status rec \<noteq> REVOKED" if "dict_get (fg_devices c) k = Some rec" for rec
    proof -
      from two that have "k = did \<or> k = cid" by (auto simp: only_two_def)
      with st that show ?thesis by (auto simp: standing_def)
    qed
    with q' [of k] show "k \<in> next_members [] (fg_epochs c) (fg_devices c) \<longleftrightarrow> k \<in> {did, cid}"
      unfolding next_members_def by auto
  qed
  show "\<not> close_collision None c"
  proof
    assume "close_collision None c"
    then obtain k k' rec rec' x x' where "k \<in> {did, cid}" "k' \<in> {did, cid}" "k \<noteq> k'" "dict_get (fg_devices c) k = Some rec"
      "from_hex (dr_public_key rec) = Inr x" "dict_get (fg_devices c) k' = Some rec'" "from_hex (dr_public_key rec') = Inr x'"
      "collides (leaf_preimage k x) (leaf_preimage k' x')"
      by (rule close_collision_members [OF P inv, unfolded ms])
    with st nocoll show False by (auto simp: standing_def dest: collides_sym)
  qed
qed

lemma standing_after_close:
  assumes "standing c k s ty role pk"
    and "\<forall>k rec. dict_get (fg_devices c) k = Some rec \<longrightarrow> (\<exists>rec'. dict_get (fg_devices c') k = Some rec' \<and>
       dr_status rec' = (if k \<in> ms then REGISTERED else dr_status rec) \<and> dr_role rec' = dr_role rec \<and>
       dr_device_type rec' = dr_device_type rec \<and> dr_public_key rec' = dr_public_key rec)"
  shows "standing c' k (if k \<in> ms then REGISTERED else s) ty role pk"
  using assms unfolding standing_def by metis

lemma only_two_after_close:
  assumes "only_two c did cid" "\<forall>k. dict_get (fg_devices c) k = None \<longrightarrow> dict_get (fg_devices c') k = None"
  shows "only_two c' did cid"
proof -
  have "k = did \<or> k = cid" if "dict_get (fg_devices c') k \<noteq> None" for k
  proof -
    from assms(2) that have "dict_get (fg_devices c) k \<noteq> None" by metis
    with assms(1) show ?thesis by (simp add: only_two_def)
  qed
  with assms(1) show ?thesis by (simp add: only_two_def)
qed

lemma int_at_first [simp]: "int_at (JObj ((''epoch_id'', JInt e) # kvs)) ''epoch_id'' = Inr e"
  by (simp add: int_at_def)

lemma put_nonces_twice [simp]: "put_nonces b (put_nonces b' c) = put_nonces b c"
  by (simp add: put_nonces_def)

lemma active_shown:
  fixes P :: "'sk platform" and vs :: "nat \<Rightarrow> env"
  assumes P: "runtime_ok P" "ecdsa_ok P" and inv: "fog_inv P c" and admin: "fg_admin_key c = admin_key_default"
    and two: "only_two c did cid" and q: "queued c = {did, cid}"
    and st: "standing c did TOKENIZED ty role (public_key_bytes P sk)" "standing c cid PENDING ty' role' (public_key_bytes P sk')"
    and valid: "role_valid_for_type (Some ty) (Some role)" "role_valid_for_type (Some ty') (Some role')"
    and nocoll: "\<not> collides (leaf_preimage did (public_key_bytes P sk)) (leaf_preimage cid (public_key_bytes P sk'))"
    and time: "in_window t w vs" "w \<le> 30" "nb_ttl (book c) = 30"
    and d: "dv_did d = did" "dv_private_key d = sk" and ctl: "dv_did ctl = cid" "dv_private_key ctl = sk'"
    and pol: "check_policy ty ''write'' role" "\<not> check_policy ty ''stop'' role" "check_policy ty ''stop'' role'"
  defines "e \<equiv> em_current_epoch_id (fg_epochs c)"
  obtains p b c' where "demo_active P vs n ty ctl (d, c) =
      (Inr (e, dump_package p, [verify_allow (JInt e) role, verify_deny ''policy_denied'' ''access policy'' True (JInt e), verify_allow (JInt e) role']),
       d\<lparr>dv_proof_package := Some (dump_package p)\<rparr>, put_nonces b c')"
    "nb_ttl b = 30" "fog_inv P c'" "proven P c' sk p" "pp_did p = did" "pp_epoch_id p = e"
    "\<exists>b\<in>set (lg_blocks (fg_ledger c')). dict_get b ''epoch_id'' = Some (JInt e)" "config_of c' = config_of c"
    "fg_token_state c' = fg_token_state c" "queued c' = {}" "only_two c' did cid"
    "standing c' did REGISTERED ty role (public_key_bytes P sk)" "standing c' cid REGISTERED ty' role' (public_key_bytes P sk')"
    "em_carry_forward (fg_epochs c') = em_carry_forward (fg_epochs c)" "em_current_epoch_id (fg_epochs c') = e + 1"
proof -
  let ?allow = "verify_allow (JInt e) role" and ?no = "verify_deny ''policy_denied'' ''access policy'' True (JInt e)"
  note members = first_close [OF P(2) inv two q st nocoll]
  obtain fields c' rt where close: "handle P (vs 18) (Epoch_close None (Some (fg_admin_key c))) c = (Reply (JObj ((''epoch_id'', JInt e) # fields)), c')"
    and inv': "fog_inv P c'" and same: "config_of c' = config_of c" "fg_token_state c' = fg_token_state c" "queued c' = {}"
      "em_carry_forward (fg_epochs c') = em_carry_forward (fg_epochs c)" "em_current_epoch_id (fg_epochs c') = em_current_epoch_id (fg_epochs c) + 1"
    and block: "\<exists>b\<in>set (lg_blocks (fg_ledger c')). dict_get b ''epoch_id'' = Some (JInt e)" and rt: "get_root (fg_ledger c') e = Some rt"
    and pkgs: "\<forall>k\<in>{did, cid}. \<exists>pkg. dict_get (em_latest_package (fg_epochs c')) k = Some pkg \<and> pp_did pkg = k \<and>
       pp_epoch_id pkg = e \<and> pp_root pkg = rt \<and> accepts P pkg (Some rt) (public_key_bytes P (fg_signing_key c')) \<and>
       (\<forall>rec. dict_get (fg_devices c) k = Some rec \<longrightarrow> from_hex (pp_public_key pkg) = from_hex (dr_public_key rec))"
    and devs: "\<forall>k rec. dict_get (fg_devices c) k = Some rec \<longrightarrow> (\<exists>rec'. dict_get (fg_devices c') k = Some rec' \<and>
       dr_status rec' = (if k \<in> {did, cid} then REGISTERED else dr_status rec) \<and> dr_role rec' = dr_role rec \<and>
       dr_device_type rec' = dr_device_type rec \<and> dr_public_key rec' = dr_public_key rec)"
    and gone: "\<forall>k. dict_get (fg_devices c) k = None \<longrightarrow> dict_get (fg_devices c') k = None"
    unfolding e_def by (rule close_effect [OF P(2) inv members(1) _ members(2)]) simp
  have reg: "standing c' did REGISTERED ty role (public_key_bytes P sk)" "standing c' cid REGISTERED ty' role' (public_key_bytes P sk')"
    using standing_after_close [OF st(1) devs] standing_after_close [OF st(2) devs] by simp_all
  have member: "\<exists>p. dict_get (em_latest_package (fg_epochs c')) k = Some p \<and> pp_did p = k \<and> pp_epoch_id p = e \<and> proven P c' x p"
    if "k \<in> {did, cid}" "standing c k s y r (public_key_bytes P x)" for k s y r x
    using bspec [OF pkgs that(1)] that(2) rt unfolding proven_def standing_def by fastforce
  from member [OF _ st(1)] obtain p where p: "dict_get (em_latest_package (fg_epochs c')) did = Some p" "pp_did p = did" "pp_epoch_id p = e"
    "proven P c' sk p" by auto
  from member [OF _ st(2)] obtain p' where p': "dict_get (em_latest_package (fg_epochs c')) cid = Some p'" "pp_did p' = cid" "pp_epoch_id p' = e"
    "proven P c' sk' p'" by auto
  let ?d = "d\<lparr>dv_proof_package := Some (dump_package p)\<rparr>" and ?ctl = "ctl\<lparr>dv_proof_package := Some (dump_package p')\<rparr>"
  from reg obtain rec rec' where rec: "dict_get (fg_devices c') did = Some rec" "dr_status rec \<noteq> REVOKED"
    "dict_get (fg_devices c') cid = Some rec'" "dr_status rec' \<noteq> REVOKED" unfolding standing_def by auto
  have f1: "fetch_proof P (vs 19) None (d, c') = (Inr (dump_package p), ?d, c')"
    by (rule proof_fetched) (use rec p(1) in \<open>simp_all add: d\<close>)
  have "fetch_proof P (vs 20) None (ctl, c') = (Inr (dump_package p'), ?ctl, c')"
    by (rule proof_fetched [where rec = rec']) (use rec p'(1) in \<open>simp_all add: ctl\<close>)
  then have f2: "as_device ctl (fetch_proof P (vs 20) None) (?d, c') = (Inr (dump_package p', ?ctl), ?d, c')" by (rule as_device_ok)
  have fresh: "ev_now (vs i) j \<le> ev_now (vs i') j' + of_int (nb_ttl b)" if "nb_ttl b = 30" for i j i' j' and b :: nonce_book
    using in_windowD [OF time(1), of 30] time(2) that by simp
  have ttl: "nb_ttl (book c') = 30" using same(2) time(3) by (simp add: book_def)
  note dec = registered_decision [OF reg(1) valid(1)] registered_decision [OF reg(2) valid(2)]
  obtain q1 b1 where a1: "verify_access P (\<lambda>i. vs (21 + i)) (n 5) ty ''write'' None (?d, c') = (Inr (?allow, q1), ?d, put_nonces b1 c')"
    and b1: "nb_ttl b1 = 30"
    by (rule proven_decided [where vs = "\<lambda>i. vs (21 + i)" and rs = ty and op = "''write''" and n = "n 5" and given = None and d = ?d,
          OF P p(4) _ _ _ fresh [OF ttl]]) (use rec d ttl in \<open>simp_all add: p(2,3) dec pol\<close>)
  obtain q2 b2 where a2: "verify_access P (\<lambda>i. vs (23 + i)) (n 6) ty ''stop'' None (?d, put_nonces b1 c') = (Inr (?no, q2), ?d, put_nonces b2 c')"
    and b2: "nb_ttl b2 = 30"
    by (rule proven_decided [where p = p and vs = "\<lambda>i. vs (23 + i)" and rs = ty and op = "''stop''" and n = "n 6" and given = None and d = ?d and c = "put_nonces b1 c'",
          OF P _ _ _ _ fresh]) (use rec d b1 p(4) in \<open>simp_all add: p(2,3) dec pol book_put_nonces\<close>)
  obtain q3 b3 where "verify_access P (\<lambda>i. vs (25 + i)) (n 7) ty ''stop'' None (?ctl, put_nonces b2 c') =
      (Inr (verify_allow (JInt e) role', q3), ?ctl, put_nonces b3 c')" and b3: "nb_ttl b3 = 30"
    by (rule proven_decided [where p = p' and vs = "\<lambda>i. vs (25 + i)" and rs = ty and op = "''stop''" and n = "n 7" and given = None and d = ?ctl and c = "put_nonces b2 c'",
          OF P _ _ _ _ fresh]) (use rec ctl b2 p'(4) in \<open>simp_all add: p'(2,3) dec pol book_put_nonces\<close>)
  then have a3: "as_device ?ctl (verify_access P (\<lambda>i. vs (25 + i)) (n 7) ty ''stop'' None) (?d, put_nonces b2 c') =
      (Inr ((verify_allow (JInt e) role', q3), ?ctl), ?d, put_nonces b3 c')" by (intro as_device_ok)
  have "demo_active P vs n ty ctl (d, c) = (Inr (e, dump_package p, [?allow, ?no, verify_allow (JInt e) role']), ?d, put_nonces b3 c')"
    using admin_json_reply [OF close [unfolded admin], of d] f1 f2 a1 a2 a3
    by (simp add: demo_active_def and_then_next give_next) (simp add: give_def)
  then show thesis
    by (rule that [OF _ b3 inv' p(4,2,3) block same(1-3) only_two_after_close [OF two gone] reg same(4) same(5) [folded e_def]])
qed

section \<open>Step 8: revocation\<close>

lemma history_holds:
  assumes "runtime_ok P" "proven P c sk p"
  shows "check_history P (dump_package p) (pp_root p) (public_key_bytes P (fg_signing_key c)) = Inr True"
  using assms accepts_result by (fastforce simp: check_history_def proven_def parse_dump_package)

text \<open>The close after the revocation: the sensor is left out, the controller is carried forward.\<close>

lemma second_close:
  assumes P: "ecdsa_ok P" and inv: "fog_inv P c" and two: "only_two c did cid" and q: "queued c = {}"
    and st: "standing c did REVOKED ty role pk" "standing c cid REGISTERED ty' role' pk'" and carry: "em_carry_forward (fg_epochs c)"
  shows "next_members [] (fg_epochs c) (fg_devices c) = {cid}" "\<not> close_collision None c"
proof -
  have none: "dict_get (em_pending (fg_epochs c)) k = None" for k
  proof -
    have "k \<notin> dict_dom (em_pending (fg_epochs c))" using q unfolding queued_def by simp
    then show ?thesis unfolding dict_dom_iff by simp
  qed
  show ms: "next_members [] (fg_epochs c) (fg_devices c) = {cid}"
  proof (rule set_eqI)
    fix k
    have "k = did \<and> dr_status rec = REVOKED \<or> k = cid \<and> dr_status rec = REGISTERED" if "dict_get (fg_devices c) k = Some rec" for rec
    proof -
      from two that have "k = did \<or> k = cid" by (auto simp: only_two_def)
      with st that show ?thesis by (auto simp: standing_def)
    qed
    moreover have "did \<noteq> cid" using two by (simp add: only_two_def)
    moreover obtain rec where "dict_get (fg_devices c) cid = Some rec" "dr_status rec = REGISTERED"
      using st(2) by (auto simp: standing_def)
    ultimately show "k \<in> next_members [] (fg_epochs c) (fg_devices c) \<longleftrightarrow> k \<in> {cid}"
      unfolding next_members_def by (auto simp: none carry)
  qed
  show "\<not> close_collision None c"
  proof
    assume "close_collision None c"
    then obtain k k' where "k \<in> {cid}" "k' \<in> {cid}" "k \<noteq> k'"
      by (rule close_collision_members [OF P inv, unfolded ms])
    then show False by simp
  qed
qed

lemma standing_revoke:
  assumes "standing c k s ty role pk"
  shows "standing (c\<lparr>fg_devices := set_status did REVOKED (fg_devices c), fg_token_state := ts\<rparr>) k (if k = did then REVOKED else s) ty role pk"
  using assms by (auto simp: standing_def set_status_def device_get_def dict_simps split: option.split)

lemma only_two_revoke:
  assumes "only_two c did cid"
  shows "only_two (c\<lparr>fg_devices := set_status did REVOKED (fg_devices c), fg_token_state := ts\<rparr>) did cid"
proof -
  have "dict_get (fg_devices c) k \<noteq> None" if "dict_get (set_status did REVOKED (fg_devices c)) k \<noteq> None" for k
    using that by (auto simp: set_status_def device_get_def dict_simps split: option.splits if_splits)
  with assms show ?thesis unfolding only_two_def by simp
qed

lemma root_at [simp]: "text_at (JObj ((''epoch_id'', JInt e) # (''root'', JStr rt) # kvs)) ''root'' = Inr rt"
  by (simp add: text_at_def)

text \<open>The package with the number of another epoch on it, from a revoked device.\<close>

lemma relabelled_denied:
  assumes P: "runtime_ok P" and st: "standing c (pp_did p) REVOKED ty role pk"
    and fresh: "ev_now (vs 1) 0 \<le> ev_now (vs 0) 0 + of_int (nb_ttl (book c))"
  obtains reason detected_by verified q b where
    "verify_access P vs n rs op (Some (dict_set ''epoch_id'' (JInt e) (dump_package p))) (d, c) =
      (Inr (verify_deny reason detected_by verified (JInt e), q), d, put_nonces b c)"
proof -
  let ?pkg = "dict_set ''epoch_id'' (JInt e) (dump_package p)"
  have f: "dict_get ?pkg ''did'' = Some (JStr (pp_did p))" "dict_get ?pkg ''epoch_id'' = Some (JInt e)"
    by (simp_all add: dict_simps) (simp add: dump_package_def)
  then have some: "(case Some ?pkg of None \<Rightarrow> dv_proof_package d | Some g \<Rightarrow> if g = [] then dv_proof_package d else Some g) = Some ?pkg"
    by (auto split: if_splits)
  from st have "is_device_revoked (fg_devices c) (pp_did p)" and known: "dict_get (fg_devices c) (pp_did p) \<noteq> None"
    by (auto simp: standing_def is_device_revoked_iff)
  from judged_revoked [OF this(1) f(1)] obtain reason detected_by verified where
    "judged P ?pkg rs op (to_hex (ev_rnd (vs 0))) (to_hex (sign P (dv_private_key d) n
      (verify_message (pp_did p) (str_int e) (to_hex (ev_rnd (vs 0))) rs op))) c = Reply (verify_deny reason detected_by verified (JInt e))"
    using f(2) by (fastforce simp: json_field_def)
  from verify_access_decided [where vs = vs and given = "Some ?pkg" and d = d, OF P some f known fresh this] that
  show thesis by metis
qed

lemma revoked_shown:
  fixes P :: "'sk platform" and vs :: "nat \<Rightarrow> env"
  assumes P: "runtime_ok P" "ecdsa_ok P" and inv: "fog_inv P c" and admin: "fg_admin_key c = admin_key_default"
    and two: "only_two c did cid" and q: "queued c = {}" and carry: "em_carry_forward (fg_epochs c)"
    and st: "standing c did REGISTERED ty role (public_key_bytes P sk)" "standing c cid REGISTERED ty' role' pk'"
    and p: "proven P c sk p" "pp_did p = did" "pp_epoch_id p = e"
    and block: "\<exists>b\<in>set (lg_blocks (fg_ledger c)). dict_get b ''epoch_id'' = Some (JInt e)"
    and tok: "holds_token P c sk tok tid did ty role expires"
    and time: "in_window t w vs" "w \<le> 30" "nb_ttl (book c) = 30" "\<And>i k. ev_now (vs i) k \<le> expires"
    and d: "dv_did d = did" "dv_private_key d = sk"
  obtains reason detected_by verified s where
    "demo_revoked P vs n ty tok (dump_package p) e (public_key_bytes P (fg_signing_key c)) (d, c) =
      (Inr ([token_deny ''revoked'' ''revocation checker'', verify_deny ''device_revoked'' ''revocation checker'' True (JInt e),
             verify_deny reason detected_by verified (JInt (em_current_epoch_id (fg_epochs c)))], em_current_epoch_id (fg_epochs c), True,
            Http_error 403 (JStr ''device is revoked; no proof issued'')), s)"
proof -
  let ?e2 = "em_current_epoch_id (fg_epochs c)"
  from st obtain rec where rec: "dict_get (fg_devices c) did = Some rec" by (auto simp: standing_def)
  then have known: "device_get (fg_devices c) did \<noteq> None" by (simp add: device_get_def)
  obtain x1 where s1: "handle P (vs 27) (Revocation_status did) c = (Reply x1, c)" by (rule status_read [OF rec])
  obtain x2 c1 where s2: "handle P (vs 28) (Revoke did None False (Some (fg_admin_key c))) c = (Reply x2, c1)"
    and rev: "is_device_revoked (fg_devices c1) did" and b1: "book c1 = book c" and key: "fg_signing_key c1 = fg_signing_key c"
    and iss: "tk_issued (fg_token_state c1) = tk_issued (fg_token_state c)"
    and c1: "\<exists>ts. c1 = c\<lparr>fg_devices := set_status did REVOKED (fg_devices c), fg_token_state := ts\<rparr>"
    by (rule revoke_succeeds [OF known])
  have inv1: "fog_inv P c1" using handle_inv [OF P(2) inv, of "vs 28" "Revoke did None False (Some (fg_admin_key c))"] unfolding s2 by simp
  from c1 obtain ts where c1': "c1 = c\<lparr>fg_devices := set_status did REVOKED (fg_devices c), fg_token_state := ts\<rparr>" by blast
  have apart: "did \<noteq> cid" using two by (simp add: only_two_def)
  have st1: "standing c1 did REVOKED ty role (public_key_bytes P sk)" "standing c1 cid REGISTERED ty' role' pk'" "only_two c1 did cid"
    using standing_revoke [OF st(1), of ts did] standing_revoke [OF st(2), of ts did] only_two_revoke [OF two, of ts] apart
    by (simp_all add: c1')
  have same1: "fg_ledger c1 = fg_ledger c" "fg_epochs c1 = fg_epochs c" "fg_admin_key c1 = fg_admin_key c" by (simp_all add: c1')
  have p1: "proven P c1 sk p" and tok1: "holds_token P c1 sk tok tid did ty role expires"
    using p(1) tok same1(1) key iss by (simp_all add: proven_def holds_token_def was_issued_def)
  have fresh: "ev_now (vs i) j \<le> ev_now (vs i') j' + of_int (nb_ttl b)" if "nb_ttl b = 30" for i j i' j' and b :: nonce_book
    using in_windowD [OF time(1), of 30] time(2) that by simp
  have ttl1: "nb_ttl (book c1) = 30" using b1 time(3) by simp
  obtain q2 b2 where a7: "token_access P (\<lambda>i. vs (29 + i)) (n 8) tok ty ''read'' (d, c1) =
      (Inr (token_deny ''revoked'' ''revocation checker'', q2), d, put_nonces b2 c1)" and b2: "nb_ttl b2 = 30"
    by (rule token_access_decided [where vs = "\<lambda>i. vs (29 + i)" and n = "n 8" and d = d, OF tok1 d(2) time(4) fresh [OF ttl1] decision_revoked])
      (use rev ttl1 in simp_all)
  have inv2: "fog_inv P (put_nonces b2 c1)" by (rule drives_inv [OF drives_token_access P(2) inv1 a7])
  obtain q3 b3 where a8: "verify_access P (\<lambda>i. vs (31 + i)) (n 9) ty ''write'' (Some (dump_package p)) (d, put_nonces b2 c1) =
      (Inr (verify_deny ''device_revoked'' ''revocation checker'' True (JInt e), q3), d, put_nonces b3 c1)" and b3: "nb_ttl b3 = 30"
    by (rule proven_decided [where p = p and vs = "\<lambda>i. vs (31 + i)" and rs = ty and op = "''write''" and n = "n 9" and d = d
          and given = "Some (dump_package p)" and c = "put_nonces b2 c1", OF P _ _ _ _ fresh])
      (use p1 rev b2 in \<open>auto simp: p(2,3) d book_put_nonces revoked_decision [OF st1(1)] is_device_revoked_iff\<close>)
  define c2 where "c2 = put_nonces b3 c1"
  have inv3: "fog_inv P c2" unfolding c2_def by (rule drives_inv [OF drives_verify_access P(2) inv2 a8])
  have st2: "standing c2 did REVOKED ty role (public_key_bytes P sk)" "standing c2 cid REGISTERED ty' role' pk'" "only_two c2 did cid"
    "queued c2 = {}" "fg_ledger c2 = fg_ledger c" "fg_epochs c2 = fg_epochs c" "fg_admin_key c2 = admin_key_default"
    using st1 same1 q admin by (simp_all add: c2_def only_two_def queued_def)
  have rt: "get_root (fg_ledger c2) e = Some (pp_root p)" using p(1,3) st2(5) by (simp add: proven_def)
  have block2: "\<exists>b\<in>set (lg_blocks (fg_ledger c2)). dict_get b ''epoch_id'' = Some (JInt e)" using block st2(5) by simp
  obtain kvs where s3: "handle P (vs 33) (Registry_root e) c2 = (Reply (JObj ((''epoch_id'', JInt e) # (''root'', JStr (pp_root p)) # kvs)), c2)"
    by (rule root_served [OF inv3 block2 rt])
  have hist: "check_history P (dump_package p) (pp_root p) (public_key_bytes P (fg_signing_key c)) = Inr True"
    by (rule history_holds [OF P(1) p(1)])
  have carry2: "em_carry_forward (fg_epochs c2)" using carry st2(6) by simp
  note close = second_close [OF P(2) inv3 st2(3,4,1,2) carry2]
  obtain kvs' c3 where s4: "handle P (vs 34) (Epoch_close None (Some (fg_admin_key c2))) c2 = (Reply (JObj ((''epoch_id'', JInt ?e2) # kvs')), c3)"
    and ts3: "fg_token_state c3 = fg_token_state c2"
    and devs: "\<forall>k rec. dict_get (fg_devices c2) k = Some rec \<longrightarrow> (\<exists>rec'. dict_get (fg_devices c3) k = Some rec' \<and>
       dr_status rec' = (if k \<in> {cid} then REGISTERED else dr_status rec) \<and> dr_role rec' = dr_role rec \<and>
       dr_device_type rec' = dr_device_type rec \<and> dr_public_key rec' = dr_public_key rec)"
    by (rule close_effect [where v = "vs 34", OF P(2) inv3 close(1) _ close(2), unfolded st2(6)]) simp
  from standing_after_close [OF st2(1) devs] apart have st3: "standing c3 did REVOKED ty role (public_key_bytes P sk)" by simp
  then obtain rec3 where rec3: "dict_get (fg_devices c3) did = Some rec3" "dr_status rec3 = REVOKED" by (auto simp: standing_def)
  obtain x5 where s5: "handle P (vs 35) (Revocation_status did) c3 = (Reply x5, c3)" by (rule status_read [OF rec3(1)])
  have "nb_ttl (book c3) = 30" using ts3 b3 by (simp add: book_def c2_def)
  then obtain reason detected_by verified q9 b9 where
    a9: "verify_access P (\<lambda>i. vs (36 + i)) (n 10) ty ''write'' (Some (dict_set ''epoch_id'' (JInt ?e2) (dump_package p))) (d, c3) =
      (Inr (verify_deny reason detected_by verified (JInt ?e2), q9), d, put_nonces b9 c3)"
    using relabelled_denied [where vs = "\<lambda>i. vs (36 + i)" and n = "n 10" and d = d, OF P(1) st3 [folded p(2)] fresh] by metis
  have s6: "handle P (vs 38) (Get_proof did None) (put_nonces b9 c3) = (Http_error 403 (JStr ''device is revoked; no proof issued''), put_nonces b9 c3)"
    using rec3 by (simp add: route_get_proof_def device_get_def)
  have "demo_revoked P vs n ty tok (dump_package p) e (public_key_bytes P (fg_signing_key c)) (d, c) =
      (Inr ([token_deny ''revoked'' ''revocation checker'', verify_deny ''device_revoked'' ''revocation checker'' True (JInt e),
             verify_deny reason detected_by verified (JInt ?e2)], ?e2, True, Http_error 403 (JStr ''device is revoked; no proof issued'')), d, put_nonces b9 c3)"
    using admin_json_reply [OF s1, of d] admin_json_reply [OF s2 [unfolded admin], of d] a7 a8 [folded c2_def] admin_json_reply [OF s3, of d] hist
      admin_json_reply [OF s4 [unfolded st2(7)], of d] admin_json_reply [OF s5, of d] a9 ask_answer [OF s6]
    by (simp add: demo_revoked_def d(1) and_then_next give_next) (simp add: give_def)
  then show thesis by (rule that)
qed

section \<open>The fog of the script\<close>

lemma in_dict_set: "x \<in> set (dict_set k v d) \<Longrightarrow> x = (k, v) \<or> x \<in> set d"
  by (induction d) (auto split: if_splits)

lemma provision_loop_keys:
  assumes "provision_loop rnd k names sides = Inr result" "\<forall>x\<in>set (fst sides). \<exists>i. snd x = to_hex (rnd i)"
  shows "\<forall>x\<in>set (fst result). \<exists>i. snd x = to_hex (rnd i)"
  using assms
proof (induction rnd k names sides rule: provision_loop.induct)
  case (2 rnd k name names device_side fog_side)
  then obtain h where h: "hash_psk (to_hex (rnd k)) = Inr h"
    "provision_loop rnd (Suc k) names (dict_set name (to_hex (rnd k)) device_side, dict_set name h fog_side) = Inr result"
    by (auto simp: Let_def split: sum.splits)
  have "\<forall>x\<in>set (dict_set name (to_hex (rnd k)) device_side). \<exists>i. snd x = to_hex (rnd i)"
    using 2(3) by (auto dest!: in_dict_set)
  with 2(1) [OF refl h] show ?case by simp
qed simp

lemma hash_all_keys:
  assumes "\<forall>x\<in>set ps. \<exists>i. snd x = to_hex (rnd i)"
  shows "\<exists>hs. hash_all ps = Inr hs \<and>
    (\<forall>name i. dict_get ps name = Some (to_hex (rnd i)) \<longrightarrow> dict_get hs name = Some (to_hex (sha256 (rnd i))))"
  using assms
proof (induction ps)
  case (Cons x ps)
  obtain name p where x: "x = (name, p)" by (metis surj_pair)
  with Cons.prems obtain i where p: "p = to_hex (rnd i)" by auto
  have h: "hash_psk (to_hex b) = Inr (to_hex (sha256 b))" for b by (simp add: hash_psk_def)
  from Cons obtain hs where "hash_all ps = Inr hs"
    "\<forall>name i. dict_get ps name = Some (to_hex (rnd i)) \<longrightarrow> dict_get hs name = Some (to_hex (sha256 (rnd i)))" by auto
  then show ?case by (auto simp: x p h)
qed simp

lemma transport_made:
  assumes sides: "provision_psks rnd = Inr sides" and rnd: "\<forall>k. rnd k \<noteq> []"
  obtains c where "make_transport (fst sides) fog_key = Inr c" "fog_inv P c" "fg_signing_key c = fog_key"
    "fg_admin_key c = admin_key_default" "fg_token_state c = token_state_init nonce_ttl_seconds" "fg_devices c = []"
    "st_ttl (fg_sessions c) = session_ttl_seconds" "fg_challenge_ttl c = challenge_ttl_seconds" "queued c = {}"
    "em_carry_forward (fg_epochs c)" "em_current_epoch_id (fg_epochs c) = 1"
    "\<And>name. name \<in> set provisioned_names \<Longrightarrow>
       \<exists>psk. dict_get (fst sides) name = Some psk \<and> (\<forall>key. newcomer P c (device_init P name psk key))"
proof -
  from sides have keys: "\<forall>x\<in>set (fst sides). \<exists>i. snd x = to_hex (rnd i)"
    unfolding provision_psks_def by (rule provision_loop_keys) simp
  obtain hs where hs: "hash_all (fst sides) = Inr hs"
    "\<And>name i. dict_get (fst sides) name = Some (to_hex (rnd i)) \<Longrightarrow> dict_get hs name = Some (to_hex (sha256 (rnd i)))"
    using hash_all_keys [OF keys] by blast
  obtain c where app: "create_app None (Some hs) fog_key No_file challenge_ttl_seconds session_ttl_seconds carry_forward_active
      admin_key_default = Inr c"
    by (simp add: create_app_def ledger_init_def epoch_manager_init_def latest_epoch_def)
  then have c: "fg_signing_key c = fog_key" "fg_admin_key c = admin_key_default" "fg_token_state c = token_state_init nonce_ttl_seconds"
    "fg_devices c = []" "st_ttl (fg_sessions c) = session_ttl_seconds" "fg_challenge_ttl c = challenge_ttl_seconds" "queued c = {}"
    "em_carry_forward (fg_epochs c)" "em_current_epoch_id (fg_epochs c) = 1"
    by (auto simp: create_app_def Let_def session_store_init_def queued_def ledger_init_def epoch_manager_init_def latest_epoch_def
        carry_forward_active_def)
  have "\<exists>psk. dict_get (fst sides) name = Some psk \<and> (\<forall>key. newcomer P c (device_init P name psk key))"
    if name: "name \<in> set provisioned_names" for name
  proof -
    obtain dev fg where s: "sides = (dev, fg)" "dict_get dev name \<noteq> None"
      using provision_psks_ok [of rnd] sides name by (metis Inr_inject)
    then obtain psk where psk: "dict_get (fst sides) name = Some psk" by auto
    with keys obtain i where i: "psk = to_hex (rnd i)" by (fastforce dest: map_of_SomeD)
    from hs(2) [OF psk [unfolded i]] have "dict_get (psk_store_init None (Some hs)) name = Some (to_hex (sha256 (rnd i)))"
      by (simp add: psk_store_init_def)
    from newcomer_on_start [OF app this _ provisioned_name(1,2) [OF name]] rnd psk i show ?thesis by blast
  qed
  with hs(1) app that [of c] c first_start_inv [OF app] show thesis by (simp add: make_transport_def)
qed

section \<open>The whole script\<close>

text \<open>The two devices of the script are provisioned, and the policy grants them what the script says.\<close>

lemma demo_devices_known:
  "''temp02'' \<in> set provisioned_names" "''plc01'' \<in> set provisioned_names"
  "default_kind ''temp02'' = (''temperature_sensor'', ''sensor'')" "default_kind ''plc01'' = (''plc'', ''controller'')"
  "demo_kind ''temp02'' sim_device_type = (''temperature_sensor'', ''sensor'')" "demo_kind ''plc01'' x = (''plc'', ''controller'')"
  by (simp_all add: provisioned_names_def default_kind_def demo_kind_def demo_devices_def)

lemma demo_rights:
  "provisional_allowed ''temperature_sensor'' ''temperature_sensor'' ''write''" "check_policy ''temperature_sensor'' ''write'' ''sensor''"
  "\<not> provisional_allowed ''temperature_sensor'' ''temperature_sensor'' ''stop''" "\<not> provisional_allowed ''temperature_sensor'' ''plc'' ''read''"
  "\<not> check_policy ''temperature_sensor'' ''stop'' ''sensor''" "check_policy ''temperature_sensor'' ''stop'' ''controller''"
  by (simp_all add: provisional_allowed_def provisional_operations_def check_policy_def policy_table_def)

lemma standing_known:
  assumes "dict_get (fg_devices c) did = Some rec" "dr_public_key rec = to_hex pk" "dr_device_type rec = Some ty" "dr_role rec = Some role"
  shows "standing c did (dr_status rec) ty role pk"
  using assms by (simp add: standing_def)

lemma standing_granted:
  assumes "standing c did s ty role pk"
  shows "standing (granted v did c) did TOKENIZED ty role pk"
  using assms by (auto simp: standing_def granted_def device_get_status)

lemma granted_same:
  "fg_ledger (granted v did c) = fg_ledger c" "fg_epochs (granted v did c) = fg_epochs c" "queued (granted v did c) = queued c"
  "config_of (granted v did c) = config_of c" "fg_sessions (granted v did c) = fg_sessions c" "view (granted v did c) = view c"
  "k \<noteq> did \<Longrightarrow> dict_get (fg_devices (granted v did c)) k = dict_get (fg_devices c) k"
  by (auto simp: granted_def queued_def config_of_def view_def device_get_status)

text \<open>Steps 0 and 6, until both devices wait for the close.\<close>

lemma both_queued:
  fixes P :: "'sk platform" and vs :: "nat \<Rightarrow> env"
  assumes P: "ecdsa_ok P" and rnd: "\<forall>k. rnd k \<noteq> []" and sides: "provision_psks rnd = Inr sides" and time: "in_window t w vs" "w \<le> 30"
    and apart: "derive_did (public_key_bytes P dev_key) \<noteq> derive_did (public_key_bytes P ctl_key)"
  defines "did \<equiv> derive_did (public_key_bytes P dev_key)" and "cid \<equiv> derive_did (public_key_bytes P ctl_key)"
  obtains c0 psk psk' tok d c2 data ctl c where
    "make_transport (fst sides) fog_key = Inr c0" "dict_get (fst sides) ''temp02'' = Some psk" "dict_get (fst sides) ''plc01'' = Some psk'"
    "demo_bridge P vs n ''temperature_sensor'' ''sensor'' ''plc'' (device_init P ''temp02'' psk dev_key, c0) =
      (Inr (tok, [token_allow, token_deny ''provisional_scope'' ''provisional scope check'',
         token_deny ''provisional_scope'' ''provisional scope check'']), d, c2)"
    "dev_register P (\<lambda>i. vs (14 + i)) (n 4) (device_init P ''plc01'' psk' ctl_key, c2) = (Inr data, ctl, c)"
    "fog_inv P c" "config_of c = config_of c0" "fg_signing_key c0 = fog_key" "fg_admin_key c0 = admin_key_default"
    "only_two c did cid" "queued c = {did, cid}"
    "standing c did TOKENIZED ''temperature_sensor'' ''sensor'' (public_key_bytes P dev_key)"
    "standing c cid PENDING ''plc'' ''controller'' (public_key_bytes P ctl_key)"
    "holds_token P c dev_key tok (to_hex (ev_rnd (vs 7))) did ''temperature_sensor'' ''sensor'' (ev_now (vs 7) 1 + token_ttl_seconds)"
    "nb_ttl (book c) = 30" "dv_did d = did" "dv_private_key d = dev_key" "dv_did ctl = cid" "dv_private_key ctl = ctl_key"
    "em_carry_forward (fg_epochs c)" "em_current_epoch_id (fg_epochs c) = 1"
proof -
  obtain c0 where tr: "make_transport (fst sides) fog_key = Inr c0" and inv0: "fog_inv P c0"
    and c0: "fg_signing_key c0 = fog_key" "fg_admin_key c0 = admin_key_default" "fg_token_state c0 = token_state_init nonce_ttl_seconds"
      "fg_devices c0 = []" "st_ttl (fg_sessions c0) = session_ttl_seconds" "fg_challenge_ttl c0 = challenge_ttl_seconds" "queued c0 = {}"
      "em_carry_forward (fg_epochs c0)" "em_current_epoch_id (fg_epochs c0) = 1"
    and known: "\<And>name. name \<in> set provisioned_names \<Longrightarrow>
       \<exists>psk. dict_get (fst sides) name = Some psk \<and> (\<forall>key. newcomer P c0 (device_init P name psk key))"
    by (rule transport_made [where P = P and fog_key = fog_key, OF sides rnd]) blast
  obtain psk psk' where psk: "dict_get (fst sides) ''temp02'' = Some psk" "dict_get (fst sides) ''plc01'' = Some psk'"
    and new: "newcomer P c0 (device_init P ''temp02'' psk dev_key)" "newcomer P c0 (device_init P ''plc01'' psk' ctl_key)"
    using known [OF demo_devices_known(1)] known [OF demo_devices_known(2)] by blast
  have w: "w \<le> of_int (st_ttl (fg_sessions c0))" "w \<le> of_int (fg_challenge_ttl c0)"
    using time(2) by (simp_all add: c0 session_ttl_seconds_def challenge_ttl_seconds_def)
  have dids: "dv_did (device_init P a b dev_key) = did" "dv_did (device_init P a b ctl_key) = cid" for a b
    by (simp_all add: device_init_def did_def cid_def)
  obtain data d c1 rec where reg: "dev_register P (\<lambda>i. vs (1 + i)) (n 0) (device_init P ''temp02'' psk dev_key, c0) = (Inr data, d, c1)"
    and inv1: "fog_inv P c1" and d: "dv_did d = did" "dv_private_key d = dev_key" "dv_pk_bytes d = public_key_bytes P dev_key"
      "config_of c1 = config_of c0" "fg_token_state c1 = fg_token_state c0" and q1: "queued c1 = insert did (queued c0)"
    and get1: "\<forall>j. dict_get (fg_devices c1) j = (if j = did then Some rec else dict_get (fg_devices c0) j)"
    and rec: "dr_status rec = PENDING" "dr_public_key rec = to_hex (public_key_bytes P dev_key)"
      "dr_device_type rec = Some (fst (default_kind ''temp02''))" "dr_role rec = Some (snd (default_kind ''temp02''))"
    and sess: "\<exists>k s. dv_session_id d = Some k \<and> dict_get (st_sessions (fg_sessions c1)) k = Some s \<and> ss_state s = METADATA_ACCEPTED \<and>
       ss_did s = Some did \<and> (\<forall>j l. ev_now (vs (1 + j)) l \<le> ss_created_at s + of_int (st_ttl (fg_sessions c1)))"
    and view1: "\<exists>k. \<forall>j. view c1 j = (if j = k then Some (METADATA_ACCEPTED, Some did) else view c0 j)"
    and world1: "fg_ledger c1 = fg_ledger c0 \<and> (\<exists>pend. fg_epochs c1 = (fg_epochs c0)\<lparr>em_pending := pend\<rparr>) \<and>
      st_ttl (fg_sessions c1) = st_ttl (fg_sessions c0)"
    by (rule dev_register_succeeds [where n = "n 0", OF P inv0 refl new(1) in_window_shift [OF time(1), of 1] w, unfolded dids])
  from sess obtain k s where k: "dv_session_id d = Some k" and s: "dict_get (st_sessions (fg_sessions c1)) k = Some s"
    "ss_state s = METADATA_ACCEPTED" "ss_did s = Some did" "\<And>j l. ev_now (vs (1 + j)) l \<le> ss_created_at s + of_int (st_ttl (fg_sessions c1))"
    by blast
  have live: "ev_now (vs 7) 0 \<le> ss_created_at s + of_int (st_ttl (fg_sessions c1))" using s(4) [of 6 0] by simp
  note rec' = rec [unfolded demo_devices_known(3) fst_conv snd_conv]
  have getd: "dict_get (fg_devices c1) did = Some rec" using get1 by simp
  have name: "default_kind (dv_name (device_init P ''temp02'' psk dev_key)) = (''temperature_sensor'', ''sensor'')"
    by (simp add: device_init_def demo_devices_known)
  have valid: "role_valid_for_type (Some ''temperature_sensor'') (Some ''sensor'')" using default_kind_ok(3) [of "''temp02''"]
    by (simp add: demo_devices_known)
  have ttl1: "nb_ttl (book c1) = 30"
    by (simp add: book_def d(5) c0(3) token_state_init_def nonce_book_init_def nonce_ttl_seconds_def)
  have unused: "\<not> is_revoked (fg_token_state c1) (to_hex (ev_rnd (vs 7)))" by (simp add: d(5) c0(3) is_revoked_def token_state_init_def)
  let ?c1 = "granted (vs 7) did c1"
  obtain tok b where bridge: "demo_bridge P vs n ''temperature_sensor'' ''sensor'' ''plc'' (device_init P ''temp02'' psk dev_key, c0) =
      (Inr (tok, [token_allow, token_deny ''provisional_scope'' ''provisional scope check'',
         token_deny ''provisional_scope'' ''provisional scope check'']), d, put_nonces b ?c1)"
    and tok: "holds_token P ?c1 dev_key tok (to_hex (ev_rnd (vs 7))) did ''temperature_sensor'' ''sensor'' (ev_now (vs 7) 1 + token_ttl_seconds)"
    and b: "nb_ttl b = 30"
    by (rule bridge_shown [where n = n and ctl_type = "''plc''", OF P time ttl1 reg name inv1 d(1,2) k s(1-3) live getd rec' valid unused demo_rights(1-4)]) simp_all
  define c2 where "c2 = put_nonces b ?c1"
  have inv2: "fog_inv P c2" unfolding c2_def by (rule drives_inv [OF drives_bridge P inv0 bridge])
  have view2: "view c2 = view c1" by (simp add: c2_def view_put granted_same)
  have conf2: "config_of c2 = config_of c0" by (simp add: c2_def granted_same d(4))
  have get2: "dict_get (fg_devices c2) j = None" if "j \<noteq> did" for j
    using that get1 c0(4) by (simp add: c2_def granted_same)
  have cid: "cid \<noteq> did" using apart by (simp add: did_def cid_def)
  have new2: "newcomer P c2 (device_init P ''plc01'' psk' ctl_key)"
    by (rule newcomer_kept [OF new(2) conf2 _ view1 [folded view2]]) (use get2 [OF cid] cid in \<open>simp_all add: dids\<close>)
  have w2: "w \<le> of_int (st_ttl (fg_sessions c2))" "w \<le> of_int (fg_challenge_ttl c2)"
    using w conf2 world1 by (simp_all add: config_of_def c2_def granted_same)
  obtain data' ctl c3 rec3 where reg3: "dev_register P (\<lambda>i. vs (14 + i)) (n 4) (device_init P ''plc01'' psk' ctl_key, c2) = (Inr data', ctl, c3)"
    and inv3: "fog_inv P c3" and ctl: "dv_did ctl = cid" "dv_private_key ctl = ctl_key" "dv_pk_bytes ctl = public_key_bytes P ctl_key"
      "config_of c3 = config_of c2" "fg_token_state c3 = fg_token_state c2" and q3: "queued c3 = insert cid (queued c2)"
    and get3: "\<forall>j. dict_get (fg_devices c3) j = (if j = cid then Some rec3 else dict_get (fg_devices c2) j)"
    and rec3: "dr_status rec3 = PENDING" "dr_public_key rec3 = to_hex (public_key_bytes P ctl_key)"
      "dr_device_type rec3 = Some (fst (default_kind ''plc01''))" "dr_role rec3 = Some (snd (default_kind ''plc01''))"
    and "\<exists>k s. dv_session_id ctl = Some k \<and> dict_get (st_sessions (fg_sessions c3)) k = Some s \<and> ss_state s = METADATA_ACCEPTED \<and>
       ss_did s = Some cid \<and> (\<forall>j l. ev_now (vs (14 + j)) l \<le> ss_created_at s + of_int (st_ttl (fg_sessions c3)))"
    and "\<exists>k. \<forall>j. view c3 j = (if j = k then Some (METADATA_ACCEPTED, Some cid) else view c2 j)"
    and world3: "fg_ledger c3 = fg_ledger c2 \<and> (\<exists>pend. fg_epochs c3 = (fg_epochs c2)\<lparr>em_pending := pend\<rparr>) \<and>
      st_ttl (fg_sessions c3) = st_ttl (fg_sessions c2)"
    by (rule dev_register_succeeds [where n = "n 4", OF P inv2 refl new2 in_window_shift [OF time(1), of 14] w2, unfolded dids])
  have st: "standing c3 did TOKENIZED ''temperature_sensor'' ''sensor'' (public_key_bytes P dev_key)"
  proof -
    from standing_granted [OF standing_known [OF getd rec'(2-4)]] have "standing c2 did TOKENIZED ''temperature_sensor'' ''sensor'' (public_key_bytes P dev_key)"
      by (simp add: c2_def)
    with get3 cid show ?thesis by (simp add: standing_def)
  qed
  have st': "standing c3 cid PENDING ''plc'' ''controller'' (public_key_bytes P ctl_key)"
    using standing_known [of c3 cid rec3] get3 rec3 by (simp add: demo_devices_known)
  have "dict_get (fg_devices c3) j = None" if "j \<noteq> did" "j \<noteq> cid" for j using get3 get2 [OF that(1)] that(2) by simp
  with cid have two: "only_two c3 did cid" unfolding only_two_def by metis
  have q: "queued c3 = {did, cid}" using q3 q1 c0(7) by (auto simp: c2_def granted_same queued_def)
  have tok3: "holds_token P c3 dev_key tok (to_hex (ev_rnd (vs 7))) did ''temperature_sensor'' ''sensor'' (ev_now (vs 7) 1 + token_ttl_seconds)"
  proof -
    have "holds_token P c2 dev_key tok (to_hex (ev_rnd (vs 7))) did ''temperature_sensor'' ''sensor'' (ev_now (vs 7) 1 + token_ttl_seconds)"
      using tok by (simp add: c2_def)
    then show ?thesis using ctl(4,5) by (simp add: holds_token_def config_of_def)
  qed
  have rest: "nb_ttl (book c3) = 30" "em_carry_forward (fg_epochs c3)" "em_current_epoch_id (fg_epochs c3) = 1" "config_of c3 = config_of c0"
    using ctl(4,5) b world3 world1 c0(8,9) conf2 by (auto simp: book_def c2_def granted_same)
  show thesis
    by (rule that [OF tr psk bridge [folded c2_def] reg3 inv3 rest(4) c0(1,2) two q st st' tok3 rest(1) d(1,2) ctl(1,2) rest(2,3)])
qed

section \<open>Properties\<close>

text \<open>
  C7: what the demo of phases 2 and 3 shows. With freshly provisioned keys, on a fresh fog, for the default
  devices, whatever is drawn at random, and if its requests fall into thirty seconds: unless the leaves of
  the two devices are a SHA-256 collision, the script comes to its end; of the nine decisions exactly the
  write with the token, the write with the proof and the controller's stop are allowed, each of the others
  is denied for the reason the script announces; the package still verifies as history of epoch 1 after
  the revocation; and the last request for a proof is refused.
\<close>

theorem demo_decisions:
  assumes "ecdsa_ok P" and "runtime_ok P" and "\<forall>k. rnd k \<noteq> []" and "provision_psks rnd = Inr sides" and "in_window t 30 vs"
    and "derive_did (public_key_bytes P dev_key) \<noteq> derive_did (public_key_bytes P ctl_key)"
  shows "collides (leaf_preimage (derive_did (public_key_bytes P dev_key)) (public_key_bytes P dev_key))
      (leaf_preimage (derive_did (public_key_bytes P ctl_key)) (public_key_bytes P ctl_key)) \<or>
    (\<exists>shown reason detected_by verified.
       demo2_main P vs n (fst sides) ''temp02'' ''plc01'' fog_key dev_key ctl_key =
         Inr (shown, True, Http_error 403 (JStr ''device is revoked; no proof issued'')) \<and>
       map fst shown = [True, False, False, True, False, True, False, False, False] \<and>
       shown = map (\<lambda>((who, what), r). show_decision P who what r)
         (zip (demo_labels ''temp02'' ''plc01'' ''temperature_sensor'' ''plc'' 1 2)
           [token_allow, token_deny ''provisional_scope'' ''provisional scope check'', token_deny ''provisional_scope'' ''provisional scope check'',
            verify_allow (JInt 1) ''sensor'', verify_deny ''policy_denied'' ''access policy'' True (JInt 1), verify_allow (JInt 1) ''controller'',
            token_deny ''revoked'' ''revocation checker'', verify_deny ''device_revoked'' ''revocation checker'' True (JInt 1),
            verify_deny reason detected_by verified (JInt 2)]))"
proof (cases "collides (leaf_preimage (derive_did (public_key_bytes P dev_key)) (public_key_bytes P dev_key))
      (leaf_preimage (derive_did (public_key_bytes P ctl_key)) (public_key_bytes P ctl_key))")
  case False
  let ?did = "derive_did (public_key_bytes P dev_key)" and ?cid = "derive_did (public_key_bytes P ctl_key)"
  let ?exp = "ev_now (vs 7) 1 + token_ttl_seconds" and ?tid = "to_hex (ev_rnd (vs 7))"
  obtain c0 psk psk' tok d c2 data ctl c where start: "make_transport (fst sides) fog_key = Inr c0"
      "dict_get (fst sides) ''temp02'' = Some psk" "dict_get (fst sides) ''plc01'' = Some psk'"
      "demo_bridge P vs n ''temperature_sensor'' ''sensor'' ''plc'' (device_init P ''temp02'' psk dev_key, c0) =
        (Inr (tok, [token_allow, token_deny ''provisional_scope'' ''provisional scope check'',
           token_deny ''provisional_scope'' ''provisional scope check'']), d, c2)"
      "dev_register P (\<lambda>i. vs (14 + i)) (n 4) (device_init P ''plc01'' psk' ctl_key, c2) = (Inr data, ctl, c)"
    and inv: "fog_inv P c" and conf: "config_of c = config_of c0" "fg_signing_key c0 = fog_key" "fg_admin_key c0 = admin_key_default"
    and two: "only_two c ?did ?cid" and q: "queued c = {?did, ?cid}"
    and st: "standing c ?did TOKENIZED ''temperature_sensor'' ''sensor'' (public_key_bytes P dev_key)"
      "standing c ?cid PENDING ''plc'' ''controller'' (public_key_bytes P ctl_key)"
    and tok: "holds_token P c dev_key tok ?tid ?did ''temperature_sensor'' ''sensor'' ?exp"
    and ttl: "nb_ttl (book c) = 30" and d: "dv_did d = ?did" "dv_private_key d = dev_key" and ctl: "dv_did ctl = ?cid" "dv_private_key ctl = ctl_key"
    and ep: "em_carry_forward (fg_epochs c)" "em_current_epoch_id (fg_epochs c) = 1"
    by (rule both_queued [where n = n and fog_key = fog_key, OF assms(1,3,4,5) order.refl assms(6)])
  have valid: "role_valid_for_type (Some ''temperature_sensor'') (Some ''sensor'')" "role_valid_for_type (Some ''plc'') (Some ''controller'')"
    using default_kind_ok(3) [of "''temp02''"] default_kind_ok(3) [of "''plc01''"] by (simp_all add: demo_devices_known)
  have admin: "fg_admin_key c = admin_key_default" and key: "fg_signing_key c = fog_key" using conf by (simp_all add: config_of_def)
  let ?d = "\<lambda>p. d\<lparr>dv_proof_package := Some (dump_package p)\<rparr>"
  obtain p b c' where s7: "demo_active P vs n ''temperature_sensor'' ctl (d, c) =
      (Inr (1, dump_package p, [verify_allow (JInt 1) ''sensor'', verify_deny ''policy_denied'' ''access policy'' True (JInt 1),
         verify_allow (JInt 1) ''controller'']), ?d p, put_nonces b c')"
    and b: "nb_ttl b = 30" and "fog_inv P c'" and p: "proven P c' dev_key p" "pp_did p = ?did" "pp_epoch_id p = 1"
    and block: "\<exists>b\<in>set (lg_blocks (fg_ledger c')). dict_get b ''epoch_id'' = Some (JInt 1)" and conf': "config_of c' = config_of c"
      "fg_token_state c' = fg_token_state c" "queued c' = {}" and two': "only_two c' ?did ?cid"
    and st': "standing c' ?did REGISTERED ''temperature_sensor'' ''sensor'' (public_key_bytes P dev_key)"
      "standing c' ?cid REGISTERED ''plc'' ''controller'' (public_key_bytes P ctl_key)"
    and ep': "em_carry_forward (fg_epochs c') = em_carry_forward (fg_epochs c)" "em_current_epoch_id (fg_epochs c') = 1 + 1"
    by (rule active_shown [where n = n, OF assms(2,1) inv admin two q st valid False assms(5) order.refl ttl d ctl demo_rights(2,5,6), unfolded ep(2)])
  define c3 where "c3 = put_nonces b c'"
  have inv3: "fog_inv P c3" unfolding c3_def by (rule drives_inv [OF drives_active assms(1) inv s7])
  have same: "fg_admin_key c3 = admin_key_default" "fg_signing_key c3 = fog_key" "only_two c3 ?did ?cid" "queued c3 = {}"
      "em_carry_forward (fg_epochs c3)" "standing c3 ?did REGISTERED ''temperature_sensor'' ''sensor'' (public_key_bytes P dev_key)"
      "standing c3 ?cid REGISTERED ''plc'' ''controller'' (public_key_bytes P ctl_key)" "proven P c3 dev_key p"
      "\<exists>b\<in>set (lg_blocks (fg_ledger c3)). dict_get b ''epoch_id'' = Some (JInt 1)" "nb_ttl (book c3) = 30"
      "em_current_epoch_id (fg_epochs c3) = 2"
    using conf' admin key two' ep' ep(1) st' p(1) block b by (simp_all add: c3_def config_of_def only_two_def queued_def book_put_nonces)
  have tok3: "holds_token P c3 dev_key tok ?tid ?did ''temperature_sensor'' ''sensor'' ?exp"
    unfolding c3_def holds_token_put_nonces using tok conf' by (simp add: holds_token_def config_of_def)
  have live: "ev_now (vs i) k \<le> ?exp" for i k
    using in_windowD [OF assms(5), of token_ttl_seconds] by (simp add: token_ttl_seconds_def)
  obtain reason detected_by verified s where s8: "demo_revoked P vs n ''temperature_sensor'' tok (dump_package p) 1 (public_key_bytes P fog_key) (?d p, c3) =
      (Inr ([token_deny ''revoked'' ''revocation checker'', verify_deny ''device_revoked'' ''revocation checker'' True (JInt 1),
             verify_deny reason detected_by verified (JInt 2)], 2, True, Http_error 403 (JStr ''device is revoked; no proof issued'')), s)"
    by (rule revoked_shown [where n = n and d = "?d p", OF assms(2,1) inv3 same(1,3-8) p(2,3) same(9) tok3 assms(5) order.refl same(10) live, unfolded same(2,11)])
      (use d in simp_all)
  have health: "admin_json P (vs 0) Health (x, c0) = (Inr y, x, c0)"
    if "y = (case health P c0 of (Reply v, _) \<Rightarrow> v)" for x y using that by (simp add: admin_json_reply health_def)
  from start(5) have s6: "as_device (device_init P ''plc01'' psk' ctl_key) (dev_register P (\<lambda>i. vs (14 + i)) (n 4)) (d, c2) =
      (Inr (data, ctl), d, c)" by (rule as_device_ok)
  let ?show = "map (\<lambda>((who, what), r). show_decision P who what r)" and ?no = "token_deny ''provisional_scope'' ''provisional scope check''"
  let ?rows = "?show (zip (demo_labels ''temp02'' ''plc01'' ''temperature_sensor'' ''plc'' 1 2)
    ([token_allow, ?no, ?no] @
     [verify_allow (JInt 1) ''sensor'', verify_deny ''policy_denied'' ''access policy'' True (JInt 1), verify_allow (JInt 1) ''controller''] @
     [token_deny ''revoked'' ''revocation checker'', verify_deny ''device_revoked'' ''revocation checker'' True (JInt 1),
      verify_deny reason detected_by verified (JInt 2)]))"
  have run: "demo2_main P vs n (fst sides) ''temp02'' ''plc01'' fog_key dev_key ctl_key =
      Inr (?rows, True, Http_error 403 (JStr ''device is revoked; no proof issued''))"
    using s7 s8 start s6 unfolding demo2_main_def demo_steps_def demo_devices_known
    by (simp add: and_then_next health [OF refl] c3_def del: zip_Cons_Cons list.map append.simps) (simp add: give_def del: zip_Cons_Cons list.map append.simps)
  have "map fst ?rows = [True, False, False, True, False, True, False, False, False]"
    by (simp add: demo_labels_def show_decision_def response_get_def token_allow_def token_deny_def verify_allow_def verify_deny_def json_field_def)
  with run show ?thesis by (intro disjI2 exI conjI) (assumption, assumption, simp only: append.simps)
qed simp

end
