(* ===== verification/Demo_Phase1.thy ===== *)
theory Demo_Phase1
  imports Demo_Run
begin

text \<open>
  scripts/demo_phase1.py: the devices that it is given register at a running fog, the admin closes the
  epoch, and the proof of one of them is checked step by step. Requests 0 to 5 of the script use the
  environments \<open>vs 0\<close> to \<open>vs 5\<close>, the registration of the i-th device those from \<open>vs (6 + 4 * i)\<close>
  on; \<open>keys i\<close> is its fresh key, the file of its PSK a dictionary. What is shown is the queue, the sorted
  leaves, whether the chain is valid, the hashes of the climb and the verdict; other lines, the pauses, the
  copy of the package on disk (\<open>save_proof\<close>) and a fog that cannot be reached are left out.
\<close>

section \<open>Requests of the script\<close>

type_synonym ('sk, 'a) node_action = "'sk fog \<Rightarrow> (client_error + 'a) \<times> 'sk fog"

definition node_then :: "('sk, 'a) node_action \<Rightarrow> ('a \<Rightarrow> ('sk, 'b) node_action) \<Rightarrow> ('sk, 'b) node_action" where
  "node_then m f c = (case m c of (Inl e, c') \<Rightarrow> (Inl e, c') | (Inr a, c') \<Rightarrow> f a c')"

definition node_give :: "client_error + 'a \<Rightarrow> ('sk, 'a) node_action" where
  "node_give x c = (x, c)"

definition node_ask :: "'sk platform \<Rightarrow> env \<Rightarrow> call \<Rightarrow> ('sk, reply) node_action" where
  "node_ask P v q c = (case handle P v q c of (r, c') \<Rightarrow> (Inr r, c'))"

definition node_json :: "'sk platform \<Rightarrow> env \<Rightarrow> call \<Rightarrow> ('sk, json) node_action" where
  "node_json P v q = node_then (node_ask P v q) (\<lambda>r. node_give (answer_json r))"

text \<open>A device acts alone; its object changes in place, but the script uses it no further.\<close>

definition node_device :: "'sk device \<Rightarrow> ('sk, 'a) action \<Rightarrow> ('sk, 'a) node_action" where
  "node_device d m c = (case m (d, c) of (x, _, c') \<Rightarrow> (x, c'))"

section \<open>Values of the answers\<close>

definition item_at :: "json \<Rightarrow> string \<Rightarrow> client_error + json" where
  "item_at v k = (case json_item v k of Inl e \<Rightarrow> Inl (Client_exception e) | Inr x \<Rightarrow> Inr x)"

text \<open>\<open>for x in v\<close>\<close>

fun iterate :: "json \<Rightarrow> client_error + json list" where
  "iterate (JArr vs) = Inr vs"
| "iterate (JStr s) = Inr (map (\<lambda>ch. JStr [ch]) s)"
| "iterate (JObj d) = Inr (map (\<lambda>(k, _). JStr k) d)"
| "iterate _ = Inl (Client_exception TypeError)"

definition items_at :: "json \<Rightarrow> string \<Rightarrow> client_error + json list" where
  "items_at v k = (case item_at v k of Inl e \<Rightarrow> Inl e | Inr x \<Rightarrow> iterate x)"

section \<open>The devices\<close>

definition default_devices :: "string list" where
  "default_devices = [''temp01'', ''pressure01'', ''camera01'', ''plc01'', ''meter01'', ''valve01'']"

text \<open>\<open>given\<close> are the names after \<open>--devices\<close>, never an empty list.\<close>

definition device_names :: "string list option \<Rightarrow> string list" where
  "device_names given = (case given of None \<Rightarrow> default_devices | Some names \<Rightarrow> names)"

text \<open>A device that is refused is reported and left out; a name without PSK ends the script.\<close>

fun register_all ::
    "'sk platform \<Rightarrow> (nat \<Rightarrow> nat \<Rightarrow> env) \<Rightarrow> (nat \<Rightarrow> nat) \<Rightarrow> (string, string) dict \<Rightarrow> (nat \<Rightarrow> 'sk) \<Rightarrow> nat \<Rightarrow> string list \<Rightarrow>
     (string, 'sk device) dict \<Rightarrow> ('sk, (string, 'sk device) dict) node_action" where
  "register_all P vs n psks keys i [] devices c = (Inr devices, c)"
| "register_all P vs n psks keys i (name # names) devices c =
     (case dict_get psks name of
        None \<Rightarrow> (Inl (Client_exception KeyError), c)
      | Some psk \<Rightarrow>
          (case dev_register P (vs i) (n i) (device_init P name psk (keys i), c) of
             (Inr _, d, c') \<Rightarrow> register_all P vs n psks keys (Suc i) names (dict_set (dv_did d) d devices) c'
           | (Inl (Registration_error _ _ _), _, c') \<Rightarrow> register_all P vs n psks keys (Suc i) names devices c'
           | (Inl e, _, c') \<Rightarrow> (Inl e, c')))"

text \<open>The name of a DID in this run. Looking up a list or an object in a dictionary raises.\<close>

fun name_of :: "(string, 'sk device) dict \<Rightarrow> json \<Rightarrow> client_error + string" where
  "name_of devices (JStr did) = Inr (case dict_get devices did of None \<Rightarrow> ''(earlier device)'' | Some d \<Rightarrow> dv_name d)"
| "name_of devices (JArr _) = Inl (Client_exception TypeError)"
| "name_of devices (JObj _) = Inl (Client_exception TypeError)"
| "name_of devices _ = Inr ''(earlier device)''"

fun queue_lines :: "(string, 'sk device) dict \<Rightarrow> json list \<Rightarrow> client_error + (string \<times> json) list" where
  "queue_lines devices [] = Inr []"
| "queue_lines devices (did # dids) =
     (case name_of devices did of
        Inl e \<Rightarrow> Inl e
      | Inr name \<Rightarrow> (case queue_lines devices dids of Inl e \<Rightarrow> Inl e | Inr rest \<Rightarrow> Inr ((name, did) # rest)))"

definition leaf_line :: "(string, 'sk device) dict \<Rightarrow> json \<Rightarrow> client_error + json \<times> json \<times> string" where
  "leaf_line devices item =
     (case item_at item ''did'' of
        Inl e \<Rightarrow> Inl e
      | Inr did \<Rightarrow>
          (case name_of devices did of
             Inl e \<Rightarrow> Inl e
           | Inr name \<Rightarrow>
               (case item_at item ''index'' of
                  Inl e \<Rightarrow> Inl e
                | Inr index \<Rightarrow> (case item_at item ''leaf'' of Inl e \<Rightarrow> Inl e | Inr leaf \<Rightarrow> Inr (index, leaf, name)))))"

fun leaf_lines :: "(string, 'sk device) dict \<Rightarrow> json list \<Rightarrow> client_error + (json \<times> json \<times> string) list" where
  "leaf_lines devices [] = Inr []"
| "leaf_lines devices (item # items) =
     (case leaf_line devices item of
        Inl e \<Rightarrow> Inl e
      | Inr line \<Rightarrow> (case leaf_lines devices items of Inl e \<Rightarrow> Inl e | Inr rest \<Rightarrow> Inr (line # rest)))"

section \<open>The proof, step by step\<close>

text \<open>The hashes after \<open>current\<close>, one for each step of the path.\<close>

fun climb_shown :: "bytes \<Rightarrow> json list \<Rightarrow> client_error + bytes list" where
  "climb_shown current [] = Inr []"
| "climb_shown current (s # steps) =
     (case text_at s ''sibling'' of
        Inl e \<Rightarrow> Inl e
      | Inr t \<Rightarrow>
          (case from_hex t of
             Inl e \<Rightarrow> Inl (Client_exception e)
           | Inr sib \<Rightarrow>
               (case item_at s ''side'' of
                  Inl e \<Rightarrow> Inl e
                | Inr side \<Rightarrow>
                    (case if side = JStr ''L'' then node_hash sib current else node_hash current sib of
                       Inl e \<Rightarrow> Inl (Client_exception e)
                     | Inr h \<Rightarrow> (case climb_shown h steps of Inl e \<Rightarrow> Inl e | Inr hs \<Rightarrow> Inr (h # hs))))))"

definition check_package ::
    "'sk platform \<Rightarrow> (string, json) dict \<Rightarrow> string \<Rightarrow> string \<Rightarrow> client_error + bytes list \<times> verification_result" where
  "check_package P pkg trusted fog_key_hex =
     (case text_at (JObj pkg) ''leaf'' of
        Inl e \<Rightarrow> Inl e
      | Inr leaf \<Rightarrow>
          (case from_hex leaf of
             Inl e \<Rightarrow> Inl (Client_exception e)
           | Inr current \<Rightarrow>
               (case (case items_at (JObj pkg) ''proof_path'' of Inl e \<Rightarrow> Inl e | Inr steps \<Rightarrow> climb_shown current steps) of
                  Inl e \<Rightarrow> Inl e
                | Inr hs \<Rightarrow>
                    (case from_hex fog_key_hex of
                       Inl e \<Rightarrow> Inl (Client_exception e)
                     | Inr fog_pk \<Rightarrow>
                         (case (case parse_package P pkg of Inl e \<Rightarrow> Inl e | Inr p \<Rightarrow> verify_proof_package P p (Some trusted) fog_pk) of
                            Inl e \<Rightarrow> Inl (Client_exception e)
                          | Inr result \<Rightarrow> Inr (current # hs, result))))))"

definition show_proof :: "'sk platform \<Rightarrow> (nat \<Rightarrow> env) \<Rightarrow> string \<Rightarrow> ('sk, bytes list \<times> verification_result) action" where
  "show_proof P vs fog_key_hex =
     and_then (fetch_proof P (vs 4) None) (\<lambda>pkg.
     and_then (give (int_at (JObj pkg) ''epoch_id'')) (\<lambda>epoch_id.
     and_then (admin_json P (vs 5) (Registry_root epoch_id)) (\<lambda>answer.
     and_then (give (text_at answer ''root'')) (\<lambda>trusted.
     give (check_package P pkg trusted fog_key_hex)))))"

section \<open>The script\<close>

text \<open>The queue with the names of this run, the sorted leaves with theirs, and whether the chain is valid.\<close>

type_synonym shown_batch = "(string \<times> json) list \<times> (json \<times> json \<times> string) list \<times> bool"

datatype demo1_end =
    Close_failed reply
  | Not_registered shown_batch
  | Proof_shown shown_batch "bytes list" verification_result

definition show_batch :: "'sk platform \<Rightarrow> (nat \<Rightarrow> env) \<Rightarrow> (string, 'sk device) dict \<Rightarrow> (string \<times> json) list \<Rightarrow> json \<Rightarrow> ('sk, shown_batch) node_action" where
  "show_batch P vs devices queue answer =
     node_then (node_give (items_at answer ''sorted_leaves'')) (\<lambda>items.
     node_then (node_give (leaf_lines devices items)) (\<lambda>leaves.
     node_then (node_json P (vs 3) Registry_verify) (\<lambda>chain.
     node_then (node_give (item_at chain ''valid'')) (\<lambda>valid.
     node_give (Inr (queue, leaves, truthy valid))))))"

definition demo1_steps ::
    "'sk platform \<Rightarrow> (nat \<Rightarrow> env) \<Rightarrow> string \<Rightarrow> string \<Rightarrow> (string, 'sk device) dict \<Rightarrow> ('sk, demo1_end) node_action" where
  "demo1_steps P vs focus fog_key_hex devices =
     node_then (node_json P (vs 1) Epoch_current) (\<lambda>cur.
     node_then (node_give (items_at cur ''queued_dids'')) (\<lambda>dids.
     node_then (node_give (queue_lines devices dids)) (\<lambda>queue.
     node_then (node_ask P (vs 2) (Epoch_close None (Some admin_key_default))) (\<lambda>r.
     case r of
       Reply answer \<Rightarrow>
         node_then (show_batch P vs devices queue answer) (\<lambda>batch.
         (case List.find (\<lambda>x. dv_name x = focus) (map snd devices) of
            None \<Rightarrow> node_give (Inr (Not_registered batch))
          | Some d \<Rightarrow>
              node_then (node_device d (show_proof P vs fog_key_hex)) (\<lambda>(hs, result).
              node_give (Inr (Proof_shown batch hs result)))))
     | _ \<Rightarrow> node_give (Inr (Close_failed r))))))"

text \<open>\<open>chosen\<close> is the option \<open>--show\<close>.\<close>

definition demo1_main ::
    "'sk platform \<Rightarrow> (nat \<Rightarrow> env) \<Rightarrow> (nat \<Rightarrow> nat) \<Rightarrow> (string, string) dict \<Rightarrow> (nat \<Rightarrow> 'sk) \<Rightarrow> string list option \<Rightarrow> string option \<Rightarrow>
     ('sk, demo1_end) node_action" where
  "demo1_main P vs n psks keys given chosen =
     node_then (node_json P (vs 0) Health) (\<lambda>health.
     node_then (node_give (text_at health ''fog_public_key'')) (\<lambda>fog_key_hex.
     node_then (register_all P (\<lambda>i j. vs (6 + 4 * i + j)) n psks keys 0 (device_names given) []) (\<lambda>devices.
     demo1_steps P vs (or_default chosen (hd (device_names given))) fog_key_hex devices)))"

section \<open>What is shown\<close>

lemma node_next: "m c = (Inr a, c') \<Longrightarrow> node_then m f c = f a c'"
  by (simp add: node_then_def)

lemma node_given: "node_then (node_give (Inr a)) f c = f a c"
  by (simp add: node_then_def node_give_def)

lemma node_ask_reply: "handle P v q c = (r, c') \<Longrightarrow> node_ask P v q c = (Inr r, c')"
  by (simp add: node_ask_def)

lemma node_json_reply: "handle P v q c = (Reply x, c') \<Longrightarrow> node_json P v q c = (Inr x, c')"
  by (simp add: node_json_def node_then_def node_ask_def node_give_def)

lemma queue_lines_shown:
  "queue_lines devices (map JStr dids) = Inr (map (\<lambda>did. (case dict_get devices did of None \<Rightarrow> ''(earlier device)'' | Some d \<Rightarrow> dv_name d, JStr did)) dids)"
  by (induction dids) simp_all

lemma leaf_lines_shown:
  "\<exists>lines. leaf_lines devices (map (\<lambda>(i, leaf, did). JObj [(''index'', JInt (int i)), (''leaf'', JStr leaf), (''did'', JStr did)]) ls) = Inr lines"
  by (induction ls) (auto simp: leaf_line_def item_at_def)

lemma close_shows_leaves:
  assumes "handle P v (Epoch_close ex k) c = (Reply answer, c')"
  obtains ls where "items_at answer ''sorted_leaves'' =
    Inr (map (\<lambda>(i, leaf, did). JObj [(''index'', JInt (int i)), (''leaf'', JStr leaf), (''did'', JStr did)]) ls)"
  using assms that by (auto simp: epoch_close_def close_reply_def items_at_def item_at_def split: if_splits prod.splits sum.splits exn.splits)

text \<open>The hashes that the script computes are those of the verifier.\<close>

lemma climb_shown_climb:
  "climb current steps = Inr (Some r) \<Longrightarrow> \<exists>hs. climb_shown current steps = Inr hs \<and> last (current # hs) = r"
proof (induction steps arbitrary: current)
  case (Cons s steps)
  from Cons.prems obtain v sib side h where s: "json_item s ''sibling'' = Inr v" "json_as_bytes v = Inr sib"
    "json_item s ''side'' = Inr side" "(if side = JStr ''L'' then node_hash sib current else node_hash current sib) = Inr h"
    "climb h steps = Inr (Some r)"
    by (auto split: sum.splits if_splits)
  from s(2) obtain t where v: "v = JStr t" "from_hex t = Inr sib" by (cases v) simp_all
  from Cons.IH [OF s(5)] obtain hs where "climb_shown h steps = Inr hs" "last (h # hs) = r" by blast
  with s v show ?case by (simp add: text_at_def item_at_def)
qed simp

lemma accepted_steps:
  assumes "accepts P pkg trusted fog_pk"
  obtains leaf hs result where "from_hex (pp_leaf pkg) = Inr leaf" "climb_shown leaf (map dump_step (pp_proof_path pkg)) = Inr hs"
    "verify_proof_package P pkg trusted fog_pk = Inr result" "vr_ok result" "vr_reconstructed_root result = Some (to_hex (last (leaf # hs)))"
proof -
  obtain result where result: "verify_proof_package P pkg trusted fog_pk = Inr result" "vr_ok result"
    using accepts_result [OF assms] by blast
  from assms obtain leaf r where leaf: "recompute_leaf pkg = Inr leaf" "pp_leaf pkg = to_hex leaf" "climbs leaf (map dump_step (pp_proof_path pkg)) r"
    unfolding accepts_iff by blast
  then have root: "reconstruct_root (Hex (to_hex leaf)) (map dump_step (pp_proof_path pkg)) = Inr (Some r)"
    by (simp add: climbs_def reconstruct_root_hex)
  then have "vr_reconstructed_root result = Some (to_hex r)"
    using result leaf(1,2) unfolding verify_proof_package_def by (auto simp: Let_def split: option.splits if_splits sum.splits)
  moreover have "climb leaf (map dump_step (pp_proof_path pkg)) = Inr (Some r)"
    using leaf(3) by (auto simp: climbs_def reconstruct_root_def split: if_splits sum.splits)
  then obtain hs where "climb_shown leaf (map dump_step (pp_proof_path pkg)) = Inr hs" "last (leaf # hs) = r"
    using climb_shown_climb by blast
  ultimately show thesis using that [OF _ _ result] leaf(2) by simp
qed

lemma accepted_shown:
  assumes "runtime_ok P" and acc: "accepts P pkg (Some trusted) fog_pk"
  obtains hs result where "check_package P (dump_package pkg) trusted (to_hex fog_pk) = Inr (hs, result)" "vr_ok result"
    "vr_reconstructed_root result = Some (to_hex (last hs))"
proof -
  obtain leaf hs result where r: "from_hex (pp_leaf pkg) = Inr leaf" "climb_shown leaf (map dump_step (pp_proof_path pkg)) = Inr hs"
    "verify_proof_package P pkg (Some trusted) fog_pk = Inr result" "vr_ok result" "vr_reconstructed_root result = Some (to_hex (last (leaf # hs)))"
    by (rule accepted_steps [OF acc])
  have fields: "text_at (JObj (dump_package pkg)) ''leaf'' = Inr (pp_leaf pkg)"
    "items_at (JObj (dump_package pkg)) ''proof_path'' = Inr (map dump_step (pp_proof_path pkg))"
    by (simp_all add: text_at_def items_at_def item_at_def dump_package_def)
  have "check_package P (dump_package pkg) trusted (to_hex fog_pk) = Inr (leaf # hs, result)"
    using r(1-3) by (simp add: check_package_def fields parse_dump_package [OF assms(1)])
  with that r(4,5) show thesis by blast
qed

section \<open>The registrations\<close>

lemma dev_register_name: "dev_register P vs n (d, c) = (x, d', c') \<Longrightarrow> dv_name d' = dv_name d"
  by (auto simp: dev_register_def and_then_def submit_metadata_def post_def invoke_def
      split: prod.splits sum.splits option.splits dest!: onboard_name)

abbreviation key_did :: "'sk platform \<Rightarrow> (nat \<Rightarrow> 'sk) \<Rightarrow> nat \<Rightarrow> string" where
  "key_did P keys i \<equiv> derive_did (public_key_bytes P (keys i))"

text \<open>Every name has its PSK and its device, with the key it will draw, is a newcomer.\<close>

definition awaiting :: "'sk platform \<Rightarrow> (string, string) dict \<Rightarrow> (nat \<Rightarrow> 'sk) \<Rightarrow> nat \<Rightarrow> string list \<Rightarrow> 'sk fog \<Rightarrow> bool" where
  "awaiting P psks keys i names c \<longleftrightarrow>
     (\<forall>j<length names. \<exists>psk. dict_get psks (names ! j) = Some psk \<and> newcomer P c (device_init P (names ! j) psk (keys (i + j))))"

lemma awaiting_next:
  assumes new: "awaiting P psks keys i (name # names) c" and apart: "inj_on (key_did P keys) {i..i + length names}"
    and c': "config_of c' = config_of c" "\<exists>k. \<forall>j. view c' j = (if j = k then Some (st, Some (key_did P keys i)) else view c j)"
    and get: "\<And>j. j \<noteq> key_did P keys i \<Longrightarrow> dict_get (fg_devices c') j = dict_get (fg_devices c) j"
  shows "awaiting P psks keys (Suc i) names c'"
  unfolding awaiting_def
proof (intro allI impI)
  fix j assume j: "j < length names"
  with new obtain psk where psk: "dict_get psks (names ! j) = Some psk" and d: "newcomer P c (device_init P (names ! j) psk (keys (Suc i + j)))"
    unfolding awaiting_def by fastforce
  have did: "dv_did (device_init P (names ! j) psk (keys (Suc i + j))) = key_did P keys (Suc i + j)" by (simp add: device_init_def)
  have other: "key_did P keys (Suc i + j) \<noteq> key_did P keys i" using inj_onD [OF apart, of "Suc i + j" i] j by auto
  have "newcomer P c' (device_init P (names ! j) psk (keys (Suc i + j)))"
  proof (rule newcomer_kept [OF d c'(1) _ c'(2)])
    have "dict_get (fg_devices c) (key_did P keys (Suc i + j)) = None" using d unfolding newcomer_def device_get_def did by simp
    then show "dict_get (fg_devices c') (dv_did (device_init P (names ! j) psk (keys (Suc i + j)))) = None"
      unfolding did using get [OF other] by simp
    show "key_did P keys i \<noteq> dv_did (device_init P (names ! j) psk (keys (Suc i + j)))" unfolding did using other by simp
  qed
  with psk show "\<exists>psk. dict_get psks (names ! j) = Some psk \<and> newcomer P c' (device_init P (names ! j) psk (keys (Suc i + j)))" by blast
qed

text \<open>The devices of this run wait for the close, each under its DID.\<close>

definition all_queued :: "(string, 'sk device) dict \<Rightarrow> 'sk fog \<Rightarrow> bool" where
  "all_queued devices c \<longleftrightarrow> dict_ok devices \<and>
     (\<forall>k d. (k, d) \<in> set devices \<longrightarrow> dv_did d = k \<and> k \<in> queued c \<and> (\<exists>rec. dict_get (fg_devices c) k = Some rec \<and> dr_status rec = PENDING))"

lemma dict_set_new: "dict_get d k = None \<Longrightarrow> dict_set k v d = d @ [(k, v)]"
  by (induction d) auto

lemma all_queued_next:
  assumes "all_queued devices c" "dict_get (fg_devices c) (dv_did d) = None"
    and "queued c' = insert (dv_did d) (queued c)" "dr_status rec = PENDING"
    and "\<forall>j. dict_get (fg_devices c') j = (if j = dv_did d then Some rec else dict_get (fg_devices c) j)"
  shows "all_queued (dict_set (dv_did d) d devices) c'" "dict_set (dv_did d) d devices = devices @ [(dv_did d, d)]"
proof -
  have new: "dict_get devices (dv_did d) = None"
  proof (rule ccontr)
    assume "dict_get devices (dv_did d) \<noteq> None"
    then obtain d' where "(dv_did d, d') \<in> set devices" using map_of_SomeD by force
    with assms(1,2) show False unfolding all_queued_def by fastforce
  qed
  then show eq: "dict_set (dv_did d) d devices = devices @ [(dv_did d, d)]" by (rule dict_set_new)
  show "all_queued (dict_set (dv_did d) d devices) c'"
    unfolding eq using assms(1,3-5) new by (auto simp: all_queued_def dict_get_None_iff)
qed

lemma all_registered:
  assumes P: "ecdsa_ok P" and time: "\<And>i. in_window t w (vs i)"
  shows "fog_inv P c \<Longrightarrow> awaiting P psks keys i names c \<Longrightarrow> inj_on (key_did P keys) {i..<i + length names} \<Longrightarrow>
    w \<le> of_int (st_ttl (fg_sessions c)) \<Longrightarrow> w \<le> of_int (fg_challenge_ttl c) \<Longrightarrow> all_queued devices c \<Longrightarrow>
    \<exists>devices' c'. register_all P vs n psks keys i names devices c = (Inr devices', c') \<and> fog_inv P c' \<and> config_of c' = config_of c \<and>
      all_queued devices' c' \<and> map (\<lambda>(_, d). dv_name d) devices' = map (\<lambda>(_, d). dv_name d) devices @ names"
proof (induction names arbitrary: i devices c)
  case Nil
  then show ?case by simp
next
  case (Cons name names)
  from Cons.prems(3) have apart: "inj_on (key_did P keys) {i..i + length names}" by (rule inj_on_subset) auto
  from Cons.prems(2) obtain psk where psk: "dict_get psks name = Some psk" and new: "newcomer P c (device_init P name psk (keys i))"
    unfolding awaiting_def by fastforce
  have did: "dv_did (device_init P name psk (keys i)) = key_did P keys i" by (simp add: device_init_def)
  obtain data d c' rec where reg: "dev_register P (vs i) (n i) (device_init P name psk (keys i), c) = (Inr data, d, c')" and inv': "fog_inv P c'"
    and d: "dv_did d = key_did P keys i" and conf: "config_of c' = config_of c" and q: "queued c' = insert (key_did P keys i) (queued c)"
    and get: "\<forall>j. dict_get (fg_devices c') j = (if j = key_did P keys i then Some rec else dict_get (fg_devices c) j)" "dr_status rec = PENDING"
    and view: "\<exists>k. \<forall>j. view c' j = (if j = k then Some (METADATA_ACCEPTED, Some (key_did P keys i)) else view c j)"
    and ttl: "st_ttl (fg_sessions c') = st_ttl (fg_sessions c)"
    using dev_register_succeeds [where n = "n i", OF P Cons.prems(1) refl new time Cons.prems(4,5), unfolded did] by metis
  have name: "dv_name d = name" using dev_register_name [OF reg] by (simp add: device_init_def)
  have "dict_get (fg_devices c) (dv_did d) = None" using new d by (simp add: newcomer_def device_get_def did)
  note known = all_queued_next [OF Cons.prems(6) this q [folded d] get(2) get(1) [folded d]]
  have new': "awaiting P psks keys (Suc i) names c'"
    by (rule awaiting_next [OF Cons.prems(2) apart conf view]) (simp add: get(1))
  have apart': "inj_on (key_did P keys) {Suc i..<Suc i + length names}" using apart by (rule inj_on_subset) auto
  have ttl': "w \<le> of_int (st_ttl (fg_sessions c'))" "w \<le> of_int (fg_challenge_ttl c')"
    using Cons.prems(4,5) ttl conf by (simp_all add: config_of_def)
  from Cons.IH [OF inv' new' apart' ttl' known(1)] psk reg conf name known(2) show ?case by simp
qed

section \<open>From the close to the verdict\<close>

lemma batch_shown:
  assumes inv: "fog_inv P c" and answer: "handle P v (Epoch_close ex k) c0 = (Reply answer, c)"
  obtains leaves where "show_batch P vs devices queue answer c = (Inr (queue, leaves, True), c)"
proof -
  from answer obtain ls where ls: "items_at answer ''sorted_leaves'' =
      Inr (map (\<lambda>(i, leaf, did). JObj [(''index'', JInt (int i)), (''leaf'', JStr leaf), (''did'', JStr did)]) ls)"
    by (rule close_shows_leaves)
  obtain leaves where leaves: "leaf_lines devices (map (\<lambda>(i, leaf, did). JObj [(''index'', JInt (int i)), (''leaf'', JStr leaf), (''did'', JStr did)]) ls) = Inr leaves"
    using leaf_lines_shown by blast
  obtain x where "handle P (vs 3) Registry_verify c = (Reply x, c)" "item_at x ''valid'' = Inr (JBool True)"
    using verify_chain_honest [OF epochs_invD(1) [OF fog_invD(2) [OF inv]]] by (simp add: registry_verify_def item_at_def verdict_ok_def)
  then have "show_batch P vs devices queue answer c = (Inr (queue, leaves, True), c)"
    by (simp add: show_batch_def ls leaves node_given node_next node_json_reply) (simp add: node_give_def)
  then show thesis by (rule that)
qed

lemma proof_shown:
  assumes P: "runtime_ok P" and inv: "fog_inv P c"
    and rec: "dict_get (fg_devices c) (dv_did d) = Some rec" "dr_status rec \<noteq> REVOKED"
    and p: "dict_get (em_latest_package (fg_epochs c)) (dv_did d) = Some p" "accepts P p (Some rt) (public_key_bytes P (fg_signing_key c))"
    and rt: "get_root (fg_ledger c) (pp_epoch_id p) = Some rt" "\<exists>b\<in>set (lg_blocks (fg_ledger c)). dict_get b ''epoch_id'' = Some (JInt (pp_epoch_id p))"
  obtains hs result where "node_device d (show_proof P vs (to_hex (public_key_bytes P (fg_signing_key c)))) c = (Inr (hs, result), c)"
    "vr_ok result" "vr_reconstructed_root result = Some (to_hex (last hs))"
proof -
  obtain fields where root: "handle P (vs 5) (Registry_root (pp_epoch_id p)) c =
      (Reply (JObj ((''epoch_id'', JInt (pp_epoch_id p)) # (''root'', JStr rt) # fields)), c)"
    by (rule root_served [OF inv rt(2,1)])
  obtain hs result where check: "check_package P (dump_package p) rt (to_hex (public_key_bytes P (fg_signing_key c))) = Inr (hs, result)"
    and res: "vr_ok result" "vr_reconstructed_root result = Some (to_hex (last hs))"
    by (rule accepted_shown [OF P p(2)])
  have epoch: "int_at (JObj (dump_package p)) ''epoch_id'' = Inr (pp_epoch_id p)" by (simp add: int_at_def dump_package_def)
  have "node_device d (show_proof P vs (to_hex (public_key_bytes P (fg_signing_key c)))) c = (Inr (hs, result), c)"
    by (simp add: node_device_def show_proof_def and_then_next proof_fetched [OF rec p(1)] give_next epoch
        admin_json_reply [OF root] text_at_def check) (simp add: give_def)
  then show thesis using res by (rule that)
qed

lemma queue_shown:
  assumes "fog_inv P c"
  obtains cur where "handle P v Epoch_current c = (Reply cur, c)" "items_at cur ''queued_dids'' = Inr (map JStr (pending_dids (fg_epochs c)))"
  using fog_invD(3) [OF assms] that by (auto simp: registry_inv_def epoch_current_def items_at_def item_at_def)

lemma demo1_steps_shown:
  assumes P: "runtime_ok P" "ecdsa_ok P" and inv: "fog_inv P c" and admin: "fg_admin_key c = admin_key_default"
    and all: "all_queued devices c" and focus: "focus \<in> (\<lambda>(_, d). dv_name d) ` set devices" and nocoll: "\<not> close_collision None c"
  obtains queue leaves hs result c' where
    "demo1_steps P vs focus (to_hex (public_key_bytes P (fg_signing_key c))) devices c = (Inr (Proof_shown (queue, leaves, True) hs result), c')"
    "vr_ok result" "vr_reconstructed_root result = Some (to_hex (last hs))" "(\<lambda>(_, d). dv_name d) ` set devices \<subseteq> fst ` set queue"
proof -
  have waits: "dv_did d = k \<and> k \<in> queued c \<and> (\<exists>rec. dict_get (fg_devices c) k = Some rec \<and> dr_status rec = PENDING) \<and> dict_get devices k = Some d"
    if "(k, d) \<in> set devices" for k d
    using all that unfolding all_queued_def by (metis dict_get_in)
  obtain d where d: "List.find (\<lambda>x. dv_name x = focus) (map snd devices) = Some d" "d \<in> snd ` set devices"
    using focus by (cases "List.find (\<lambda>x. dv_name x = focus) (map snd devices)")
      (force simp: find_None_iff, metis find_Some_iff list.set_map nth_mem)
  from d(2) obtain rec where rec: "dv_did d \<in> queued c" "dict_get (fg_devices c) (dv_did d) = Some rec" "dr_status rec = PENDING"
    using waits by fastforce
  let ?ms = "next_members [] (fg_epochs c) (fg_devices c)" and ?e = "em_current_epoch_id (fg_epochs c)"
  have member: "dv_did d \<in> ?ms" using rec by (simp add: next_members_def queued_def dict_dom_iff)
  obtain fields c' rt where close: "handle P (vs 2) (Epoch_close None (Some (fg_admin_key c))) c = (Reply (JObj ((''epoch_id'', JInt ?e) # fields)), c')"
    and inv': "fog_inv P c'" and conf: "config_of c' = config_of c"
    and block: "\<exists>b\<in>set (lg_blocks (fg_ledger c')). dict_get b ''epoch_id'' = Some (JInt ?e)" and rt: "get_root (fg_ledger c') ?e = Some rt"
    and pkgs: "\<forall>k\<in>?ms. \<exists>pkg. dict_get (em_latest_package (fg_epochs c')) k = Some pkg \<and> pp_did pkg = k \<and>
       pp_epoch_id pkg = ?e \<and> pp_root pkg = rt \<and> accepts P pkg (Some rt) (public_key_bytes P (fg_signing_key c')) \<and>
       (\<forall>rec. dict_get (fg_devices c) k = Some rec \<longrightarrow> from_hex (pp_public_key pkg) = from_hex (dr_public_key rec))"
    and devs: "\<forall>k rec. dict_get (fg_devices c) k = Some rec \<longrightarrow> (\<exists>rec'. dict_get (fg_devices c') k = Some rec' \<and>
       dr_status rec' = (if k \<in> ?ms then REGISTERED else dr_status rec) \<and> dr_role rec' = dr_role rec \<and>
       dr_device_type rec' = dr_device_type rec \<and> dr_public_key rec' = dr_public_key rec)"
    by (rule close_effect [where v = "vs 2", OF P(2) inv refl _ nocoll]) (use member in auto)
  from pkgs member obtain p where p: "dict_get (em_latest_package (fg_epochs c')) (dv_did d) = Some p" "pp_epoch_id p = ?e"
    "accepts P p (Some rt) (public_key_bytes P (fg_signing_key c'))" by blast
  from devs rec(2) member obtain rec' where rec': "dict_get (fg_devices c') (dv_did d) = Some rec'" "dr_status rec' = REGISTERED" by metis
  have key: "fg_signing_key c' = fg_signing_key c" using conf by (simp add: config_of_def)
  obtain hs result where shown: "node_device d (show_proof P vs (to_hex (public_key_bytes P (fg_signing_key c')))) c' = (Inr (hs, result), c')"
    "vr_ok result" "vr_reconstructed_root result = Some (to_hex (last hs))"
    by (rule proof_shown [where vs = vs, OF P(1) inv' rec'(1) _ p(1,3)]) (use rec'(2) rt block p(2) in simp_all)
  obtain cur where cur: "handle P (vs 1) Epoch_current c = (Reply cur, c)" "items_at cur ''queued_dids'' = Inr (map JStr (pending_dids (fg_epochs c)))"
    by (rule queue_shown [OF inv])
  define queue where "queue = map (\<lambda>did. (case dict_get devices did of None \<Rightarrow> ''(earlier device)'' | Some d \<Rightarrow> dv_name d, JStr did)) (pending_dids (fg_epochs c))"
  obtain leaves where batch: "show_batch P vs devices queue (JObj ((''epoch_id'', JInt ?e) # fields)) c' = (Inr (queue, leaves, True), c')"
    by (rule batch_shown [OF inv' close])
  have "demo1_steps P vs focus (to_hex (public_key_bytes P (fg_signing_key c))) devices c = (Inr (Proof_shown (queue, leaves, True) hs result), c')"
    using batch shown(1) d(1)
    by (simp add: demo1_steps_def node_next node_json_reply [OF cur(1)] node_ask_reply [OF close [unfolded admin]] cur(2) node_given
        queue_lines_shown queue_def [symmetric] key del: One_nat_def) (simp add: node_give_def)
  moreover have "(\<lambda>(_, d). dv_name d) ` set devices \<subseteq> fst ` set queue"
    using waits by (force simp: queue_def queued_def dict_dom_keys pending_dids_def)
  ultimately show thesis using that shown(2,3) by blast
qed

section \<open>Properties\<close>

text \<open>
  C8: what the demo of phase 1 shows. At a running fog whose admin key is the default one, for newcomers
  with distinct fresh keys whose requests fall into the lifetimes of sessions and challenges, every
  registration succeeds, in the order of the names; and unless two members of the batch have colliding
  leaves, the script comes to its end: it lists every device of the run in the queue under its name, finds
  the chain valid, the verdict on the chosen device's proof is TRUE, and the last of the hashes it
  computes step by step is the root that the verifier reconstructed.
\<close>

theorem demo1_verifies:
  assumes "ecdsa_ok P" and "runtime_ok P" and "reachable P c" and "fg_admin_key c = admin_key_default"
    and names: "names = device_names given" and "awaiting P psks keys 0 names c" and "inj_on (\<lambda>i. derive_did (public_key_bytes P (keys i))) {..<length names}"
    and "or_default chosen (hd names) \<in> set names"
    and "in_window t w vs" and "w \<le> of_int (st_ttl (fg_sessions c))" and "w \<le> of_int (fg_challenge_ttl c)"
  shows "\<exists>devices c'. register_all P (\<lambda>i j. vs (6 + 4 * i + j)) n psks keys 0 names [] c = (Inr devices, c') \<and>
    map (\<lambda>(_, d). dv_name d) devices = names \<and>
    (close_collision None c' \<or>
     (\<exists>queue leaves hs result c''. demo1_main P vs n psks keys given chosen c = (Inr (Proof_shown (queue, leaves, True) hs result), c'') \<and>
        set names \<subseteq> fst ` set queue \<and> vr_ok result \<and> vr_reconstructed_root result = Some (to_hex (last hs))))"
proof -
  have inv: "fog_inv P c" using reachable_inv [OF assms(3,1)] .
  have time: "in_window t w (\<lambda>j. vs (6 + 4 * i + j))" for i using assms(9) by (simp add: in_window_def)
  have apart: "inj_on (key_did P keys) {0..<0 + length names}" using assms(7) by (simp add: lessThan_atLeast0)
  obtain devices c' where reg: "register_all P (\<lambda>i j. vs (6 + 4 * i + j)) n psks keys 0 names [] c = (Inr devices, c')" and inv': "fog_inv P c'"
    and conf: "config_of c' = config_of c" and all: "all_queued devices c'" and listed: "map (\<lambda>(_, d). dv_name d) devices = names"
    using all_registered [where vs = "\<lambda>i j. vs (6 + 4 * i + j)" and n = n and devices = "[]", OF assms(1) time inv assms(6) apart assms(10,11)]
    by (auto simp: all_queued_def)
  have same: "fg_admin_key c' = admin_key_default" "fg_signing_key c' = fg_signing_key c" using conf assms(4) by (simp_all add: config_of_def)
  obtain health where health: "handle P (vs 0) Health c = (Reply health, c)" "text_at health ''fog_public_key'' = Inr (to_hex (public_key_bytes P (fg_signing_key c)))"
    by (simp add: health_def text_at_def fog_public_key_hex_def)
  show ?thesis
  proof (cases "close_collision None c'")
    case True
    with reg listed show ?thesis by blast
  next
    case False
    have set: "(\<lambda>(_, d). dv_name d) ` set devices = set names" unfolding listed [symmetric] by simp
    obtain queue leaves hs result c'' where "demo1_steps P vs (or_default chosen (hd names)) (to_hex (public_key_bytes P (fg_signing_key c'))) devices c' =
        (Inr (Proof_shown (queue, leaves, True) hs result), c'')"
      and res: "vr_ok result" "vr_reconstructed_root result = Some (to_hex (last hs))" "set names \<subseteq> fst ` set queue"
      by (rule demo1_steps_shown [where vs = vs, OF assms(2,1) inv' same(1) all assms(8) [folded set] False, unfolded set])
    then have "demo1_main P vs n psks keys given chosen c = (Inr (Proof_shown (queue, leaves, True) hs result), c'')"
      by (simp add: demo1_main_def node_next node_json_reply [OF health(1)] health(2) node_given names [symmetric] reg same(2))
    with reg listed res show ?thesis by blast
  qed
qed

end
