(* ===== verification/Sample_Demo.thy ===== *)
theory Sample_Demo
  imports Demo_Phase1 Sample_Run
begin

text \<open>
  The demo script at a concrete input: the two keys of Samples, whose leaves the kernel evaluates (two
  blocks each), so that they are known not to collide.
\<close>

section \<open>The two leaves\<close>

definition first_block :: "string \<Rightarrow> byte \<Rightarrow> bytes" where
  "first_block did b = 0 # encode_utf8 did @ 0x7C # replicate 33 b @ [0x80, 0, 0, 0]"

definition last_block :: bytes where
  "last_block = replicate 62 0 @ [0x01, 0xE0]"

lemma leaf_blocks:
  assumes "length (encode_utf8 did) = 25"
  shows "message_blocks (pad_message (leaf_preimage did (replicate 33 b))) = [first_block did b, last_block]"
proof -
  let ?m = "leaf_preimage did (replicate 33 b)"
  have m: "?m @ 0x80 # [0, 0, 0] = first_block did b" by (simp add: leaf_preimage_def leaf_prefix_def separator_def first_block_def)
  have len: "length ?m = 60" using assms by (simp add: leaf_preimage_def leaf_prefix_def separator_def)
  have bits: "map (\<lambda>i. of_nat (480 div 256 ^ i)) [7, 6, 5, 4, 3, 2, 1, 0] = [0, 0, 0, 0, 0, 0, 1, 0xE0 :: byte]" by simp
  have zeros: "replicate 59 (0 :: byte) = [0, 0, 0] @ replicate 56 0" "replicate 62 (0 :: byte) = replicate 56 0 @ [0, 0, 0, 0, 0, 0]"
    by code_simp+
  have "pad_message ?m = ?m @ 0x80 # replicate 59 0 @ [0, 0, 0, 0, 0, 0, 1, 0xE0]"
    using bits by (simp add: pad_message_def len)
  also have "\<dots> = first_block did b @ last_block" unfolding m [symmetric] last_block_def zeros by simp
  finally have "pad_message ?m = first_block did b @ last_block" .
  moreover have "length (first_block did b) = 64" "length last_block = 64" using assms by (simp_all add: first_block_def last_block_def)
  moreover have "(64 + 64) div 64 = Suc (Suc 0)" by simp
  ultimately show ?thesis unfolding message_blocks_def by (simp only: length_append chunks.simps) simp
qed

lemma sample_did1: "did1 = ''did:iiot:ce041765675ad4d9''"
  unfolding did1_def derive_did_def sha256_def pk1_def pad_message_key foldl.simps compress_key1 did_prefix_def by code_simp

lemma sample_did2: "did2 = ''did:iiot:7f2f54ff94459f3a''"
  unfolding did2_def derive_did_def sha256_def pk2_def pad_message_key foldl.simps compress_key2 did_prefix_def by code_simp

lemma leaf_blocks1: "message_blocks (pad_message (leaf_preimage did1 pk1)) = [first_block did1 1, last_block]"
proof -
  have "length (encode_utf8 did1) = 25" unfolding sample_did1 by code_simp
  then show ?thesis unfolding pk1_def by (rule leaf_blocks)
qed

lemma leaf_blocks2: "message_blocks (pad_message (leaf_preimage did2 pk2)) = [first_block did2 2, last_block]"
proof -
  have "length (encode_utf8 did2) = 25" unfolding sample_did2 by code_simp
  then show ?thesis unfolding pk2_def by (rule leaf_blocks)
qed

lemma leaf1_first: "compress initial_state (first_block did1 1) =
    (0xdc2baff2, 0xf3c50ec4, 0xa085815d, 0x368c5e1b, 0xecdcdc43, 0x9baabde5, 0x3b5494c7, 0xfae8639b)"
  unfolding sample_did1 by code_simp

lemma leaf2_first: "compress initial_state (first_block did2 2) =
    (0x2ec3deaa, 0xf8b3bf4d, 0xa5618f31, 0x0ed04945, 0xa730e2b6, 0xf73a5bdc, 0xc2c61377, 0xc4cc21bb)"
  unfolding sample_did2 by code_simp

lemma leaf1_last: "compress (0xdc2baff2, 0xf3c50ec4, 0xa085815d, 0x368c5e1b, 0xecdcdc43, 0x9baabde5, 0x3b5494c7, 0xfae8639b) last_block =
    (0xd49c5fdd, 0x7d4c68d0, 0x39772dbd, 0x0cacdd26, 0x03ee82f6, 0x6a8e02e3, 0x070f7c09, 0x74cc013f)"
  by code_simp

lemma leaf2_last: "compress (0x2ec3deaa, 0xf8b3bf4d, 0xa5618f31, 0x0ed04945, 0xa730e2b6, 0xf73a5bdc, 0xc2c61377, 0xc4cc21bb) last_block =
    (0x97faa816, 0x2bb6c55a, 0x638c5f68, 0xe93d6f6a, 0xc4d0b592, 0xee022a91, 0xe211cda6, 0xa86b4693)"
  by code_simp

lemma leaves_apart: "\<not> collides (leaf_preimage did1 pk1) (leaf_preimage did2 pk2)"
proof -
  have "hd (sha256 (leaf_preimage did1 pk1)) = 0xd4"
    unfolding sha256_def leaf_blocks1 foldl.simps leaf1_first leaf1_last by code_simp
  moreover have "hd (sha256 (leaf_preimage did2 pk2)) = 0x97"
    unfolding sha256_def leaf_blocks2 foldl.simps leaf2_first leaf2_last by code_simp
  ultimately show ?thesis by (auto simp: collides_def)
qed

section \<open>The witness\<close>

definition demo_env :: "nat \<Rightarrow> env" where
  "demo_env i = \<lparr>ev_now = (\<lambda>_. if i < 20 then 0 else 20), ev_rnd = [of_nat i], ev_seed = i, ev_leaf_seed = (\<lambda>_. i),
     ev_timestamp = ''2026-01-01T00:00:00+00:00'', ev_timings = JNull\<rparr>"

theorem demo_decisions_witness:
  "\<exists>sides shown. provision_psks (\<lambda>_. [10]) = Inr sides \<and>
     demo2_main toy_platform demo_env (\<lambda>i. i) (fst sides) ''temp02'' ''plc01'' 7 1 2 =
       Inr (shown, True, Http_error 403 (JStr ''device is revoked; no proof issued'')) \<and>
     map fst shown = [True, False, False, True, False, True, False, False, False]"
proof -
  obtain sides where sides: "provision_psks (\<lambda>_. [10]) = Inr sides" using provision_psks_ok by metis
  have time: "in_window 0 30 demo_env" by (simp add: in_window_def demo_env_def)
  note dids = sample_pk(3,4) did1_def [symmetric] did2_def [symmetric]
  have "derive_did (public_key_bytes toy_platform 1) \<noteq> derive_did (public_key_bytes toy_platform 2)" unfolding dids by simp
  moreover have "\<forall>k :: nat. [10 :: byte] \<noteq> []" by simp
  ultimately obtain shown where "demo2_main toy_platform demo_env (\<lambda>i. i) (fst sides) ''temp02'' ''plc01'' 7 1 2 =
       Inr (shown, True, Http_error 403 (JStr ''device is revoked; no proof issued''))"
    "map fst shown = [True, False, False, True, False, True, False, False, False]"
    using demo_decisions [OF toy_ecdsa toy_runtime_ok _ sides time, of 1 2 "\<lambda>i. i" 7] leaves_apart
    unfolding dids by metis
  with sides show ?thesis by (intro exI conjI)
qed

text \<open>The demo of phase 1 with one device, the sample newcomer of Sample_Run at its node.\<close>

theorem demo1_verifies_witness:
  "\<exists>queue leaves hs result c'. demo1_main toy_platform (\<lambda>i. sample_env (i - 6)) (\<lambda>_. 0) [(''temp01'', ''0a'')] (\<lambda>_. 1)
     (Some [''temp01'']) None sample_node = (Inr (Proof_shown (queue, leaves, True) hs result), c') \<and>
     ''temp01'' \<in> fst ` set queue \<and> vr_ok result"
proof -
  obtain data d1 c1 where reg: "dev_register toy_platform sample_env 0 (sample_dev, sample_node) = (Inr data, d1, c1)"
    and nocoll: "\<not> close_collision None c1" by (rule sample_registered)
  have all: "register_all toy_platform (\<lambda>i j. sample_env (6 + 4 * i + j - 6)) (\<lambda>_. 0) [(''temp01'', ''0a'')] (\<lambda>_. 1) 0 [''temp01''] []
      sample_node = (Inr [(dv_did d1, d1)], c1)"
    using reg by (simp add: sample_dev_def)
  have wait: "awaiting toy_platform [(''temp01'', ''0a'')] (\<lambda>_. 1) 0 [''temp01''] sample_node"
    using sample_newcomer by (simp add: awaiting_def sample_dev_def)
  have time: "in_window 0 0 (\<lambda>i. sample_env (i - 6))" by (simp add: in_window_def)
  have admin: "fg_admin_key sample_node = admin_key_default" by (simp add: sample_node_def)
  have names: "[''temp01''] = device_names (Some [''temp01''])" by (simp add: device_names_def)
  have focus: "or_default None (hd [''temp01'']) \<in> set [''temp01'']" by (simp add: or_default_def)
  have one: "inj_on (\<lambda>i. derive_did (public_key_bytes toy_platform 1)) {..<length [''temp01'']}" by (simp add: inj_on_def)
  obtain queue leaves hs result c' where "demo1_main toy_platform (\<lambda>i. sample_env (i - 6)) (\<lambda>_. 0) [(''temp01'', ''0a'')] (\<lambda>_. 1)
      (Some [''temp01'']) None sample_node = (Inr (Proof_shown (queue, leaves, True) hs result), c')"
    "set [''temp01''] \<subseteq> fst ` set queue" "vr_ok result"
    using demo1_verifies [OF toy_ecdsa toy_runtime_ok sample_reachable admin names wait one focus time sample_ttl(1,2), of "\<lambda>_. 0"] nocoll
    unfolding all by blast
  then show ?thesis by (intro exI conjI) simp_all
qed

end
