(* ===== verification/Spec2Isabelle.thy ===== *)
theory Spec2Isabelle
  imports Logger Psk Validation Pop Tokens Epochs Instances Registration Epoch_Routes Token_Routes Verification
    Fog_Invariant System Onboarding Access Device Honest_Run Honest_Access Sample_Run Provisioning Token_Attacks Tamper_Detected
    Build_Loop Typed_Records Startup Sample_Startup Demo_Run Demo_Phase1 Sample_Demo
begin

text \<open>
  The identity management of a single industrial zone: one fog node, its registry, and the devices that
  register with it and work through it. The sources are the Python files under src/; paths below are
  relative to that directory.

  \<^bold>\<open>The program.\<close> A device holds a pre-shared key and a P-256 key pair; its DID is derived from the public key
  (common/crypto_utils.py). It registers in four requests (fog/registration/routes.py): the pre-shared key
  opens a session, the public key is answered with a challenge, a signature over the challenge proves
  possession, and the metadata put the leaf \<open>H(0x00 | did | '|' | pk)\<close> into the open batch of the epoch manager
  (fog/batch/epoch_manager.py). Until the epoch closes a device may ask for a provisional token that the fog
  signs (fog/tokens). Closing the epoch sorts the leaves, builds one Merkle tree (fog/merkle/merkle_tree.py),
  anchors its root in a signed hash chain (registry/ledger.py) and hands every member a signed proof package
  (fog/proofs/proof_package.py). With the package and a fresh nonce per request a device is granted what the
  policy gives its role (fog/verification/routes.py, fog/policy/access_policy.py); a revocation
  (fog/revocation) ends that at once and keeps the device out of later roots. The scripts set the node up
  (scripts/gen_certs.py), start it (scripts/run_fog.py), show it (scripts/demo_phase1.py, demo_phase2.py) and attack it
  (attacks/tamper_proof.py, attacks/token_attacks.py).

  \<^bold>\<open>How it is modelled.\<close> A class with state is a record with the source's fields, a method is a function
  from the state and the arguments to the result and the state, and a handler is a function on the context of
  fog/main.py (\<open>fog\<close> in Fog). A raise is a value: \<open>exn + 'a\<close> inside the node, \<open>reply\<close> at its border
  (an answer, an \<open>HTTPException\<close> with status and detail, or an unhandled exception), \<open>client_error\<close> on a
  device. Dictionaries keep their insertion order (association lists), 32-bit words and bytes are \<open>word\<close>, Python
  integers are \<open>int\<close>, clock readings are rationals, JSON is a datatype. Randomness and the clock are arguments:
  \<open>env\<close> in System holds what one request reads of them. Loops are recursion on the list they go
  through; the \<open>while\<close> loop of \<open>MerkleTree._build\<close> recurses on its levels, and Build_Loop proves that the loop as it is
  written ends with the same tree. The endless loop of the automatic close is one turn, which a run may take at any
  moment. There is no fuel.

  \<^bold>\<open>Theories and sources.\<close>
  \<^item> Values: Prelude (exceptions, dictionaries), Py_Text (\<open>bytes.hex\<close>, \<open>bytes.fromhex\<close>, UTF-8, decimal numerals),
    Json and Canonical (common/canonical.py), Sha256 (\<open>hashlib.sha256\<close>), Crypto (common/crypto_utils.py),
    Logger (common/logger.py).
  \<^item> Components: Merkle and Build_Loop (fog/merkle/merkle_tree.py), Ledger (registry/ledger.py), Proof_Package
    (fog/proofs/proof_package.py), Policy (config.py, fog/policy/access_policy.py), Psk (fog/auth/psk.py), Validation
    and Pop (fog/registration/validation.py, pop.py), Stores (fog/storage/device_store.py and the stored shapes
    of common/schemas.py), Nonces and Tokens (fog/tokens/store.py, tokens.py, fog/revocation/registry.py), Epochs
    (fog/batch/epoch_manager.py).
  \<^item> Handlers: Fog (fog/main.py), Registration, Epoch_Routes (fog/batch/routes.py, fog/revocation/routes.py),
    Token_Routes and Verification (the routes.py of fog/tokens and fog/verification).
  \<^item> The node: System (\<open>handle\<close> dispatches every call, \<open>fog_step\<close> and \<open>fog_run\<close> are its runs, \<open>reachable\<close> its states, restarts
    included), Fog_Invariant, Onboarding, Access, Typed_Records.
  \<^item> Devices: Device (devices/device.py, devices/runtime_client.py), Honest_Run, Honest_Access.
  \<^item> Files and scripts: Provisioning, Key_Files and Setup_Files (scripts/gen_certs.py, scripts/run_fog.py, and the file
    parts of common/crypto_utils.py, fog/main.py and devices/device.py), Startup; Tampering, Epoch_Trees, Tamper_Proof,
    Tamper_Detected (attacks/tamper_proof.py); Token_Attacks (attacks/token_attacks.py); Demo_Scenario, Demo_Decisions,
    Demo_Run (scripts/demo_phase2.py); Demo_Phase1 (scripts/demo_phase1.py).
  \<^item> Concrete inputs for the witnesses: Instances, Samples, Sample_Keys, Sample_Run, Sample_Startup, Sample_Demo.

  \<^bold>\<open>Interfaces.\<close> Four contracts are locales, each interpreted on the code's model: \<open>prefix_code\<close> and \<open>terminated_code\<close>
  (Py_Text: encodings that can be read back unambiguously, for hex, UTF-8 and escaped JSON strings),
  \<open>membership_commitment\<close> (Merkle: a root determines its leaves, or SHA-256 collides), \<open>root_registry\<close> (Ledger: what was
  anchored stays, for every history of calls), \<open>single_use_service\<close> (Nonces: what was used once is never good again).

  \<^bold>\<open>What the lemmas show.\<close>
  \<^item> Encodings: canonical JSON, leaves, nodes and signed messages are injective, so equal bytes mean equal contents.
  \<^item> Merkle: the build never fails on proper leaves and equals RFC 6962; every leaf has a proof that verifies; the
    verifier is total on untrusted JSON; an accepted proof comes from a node of the tree, or a collision is exhibited.
  \<^item> Ledger: chains built by \<open>anchor_root\<close> verify and reload; roots are immutable; what tampering \<open>verify_chain\<close> sees, and
    that it does not see a truncated file.
  \<^item> Epochs: who is a member of the next root; the close succeeds with accepted packages or changes nothing; revoked devices
    are left out, and what happens when a revocation falls between its two halves.
  \<^item> The node: the invariant \<open>fog_inv\<close> is kept by every request, so it holds in all reachable states; registration
    refines the machine \<open>onboard\<close> of Onboarding; which requests end in an unhandled exception; what an ALLOW means; that
    revocation is final in a run and that no allowed request can be replayed.
  \<^item> Devices: an honest device gets through, step by step with the exact effects; these steps compose to the
    runs of the attack and demo scripts, whose tables are theorems.
  \<^item> Files: a fresh setup and start fit together; a node returns from its files with its roots, without its devices;
    interrupted and forced setups.

  \<^bold>\<open>Assumptions.\<close> \<open>ecdsa_ok\<close>: what the package cryptography documents of ECDSA (a public point decodes, has 33
  bytes, and verifies what its key signs); nothing says that signatures cannot be forged: what an accepted token means
  leaves open that it is an explicit forgery (\<open>forged_in\<close> in Access). \<open>float_repr_ok\<close> (in \<open>platform_ok\<close>):
  canonical texts of floats are injective and look like numbers. \<open>runtime_ok\<close>: \<open>str\<close> on strings and integers, and that
  pydantic keeps an integer. \<open>pki_ok\<close>: a key that was written to a PEM file is read back. Each is satisfied by \<open>toy_platform\<close>
  and the encoding of Sample_Startup. Collisions of SHA-256 are never assumed away: a theorem that depends on it says
  so in its conclusion (\<open>collides\<close>, with the two inputs) or excludes one named pair.

  \<^bold>\<open>Bounds.\<close> Sizes that matter are proved: the height of a tree is exactly the binary logarithm of its leaves rounded up, a path
  is no longer than that, the build takes one hash fewer than there are leaves. The windows of time in the liveness
  theorems are the lifetimes of config.py: the scripts run in thirty seconds because a nonce lives so long.

  \<^bold>\<open>Not modelled.\<close> TLS, HTTP and what FastAPI does around the handlers (the text of a 422,
  middleware); X.509 and PEM beyond \<open>who signed what\<close>; atomicity and failures of file writes; paths are
  compared as texts, without \<open>..\<close> or case aliases; text of exceptions that the framework renders; the
  rounding of floats; code points above 255; the durations that the node reports, which are arguments. Handlers run
  one after the other except inside \<open>finalize_epoch\<close>, where the lock does not cover the device store. A
  request of a device that ends in an unhandled exception is status 500 to it, also in the in-process scripts, whose
  client would raise; no run that is proved reaches one. Of the scripts: console lines other than decisions and the
  tables of demo_phase1.py, pauses, CSV files. Left out as whole files: benchmarks/ (they time the operations above
  and draw graphs), tests/ (pytest over the same operations), and devices/simulate.py, which is empty.
\<close>

end
